(* ===== verification/Prelude.thy ===== *)
theory Prelude
  imports Main "HOL-Library.Word" "HOL-Library.Monad_Syntax"
begin

text \<open>
  What every component of the model shares: the C integer types as words, the outcome of a C
  function, pointers and buffers as byte lists with checked accesses, and the small
  weakest-precondition calculus in which memory safety is stated and proved.

  Conventions of the whole development:
  \<^item> a \<^emph>\<open>pointer\<close> into an object is the list of the object's bytes from the pointed-to byte to
    the object's end: incrementing it is \<^const>\<open>tl\<close>, adding \<open>n\<close> to it is \<^const>\<open>drop\<close> \<open>n\<close>,
    and the difference of two pointers into one object is a difference of lengths;
  \<^item> a \<^emph>\<open>buffer\<close> that is written is the list of its bytes, its capacity the list's length;
  \<^item> a C string (\<open>char *\<close>) is the list of its bytes before the terminating NUL;
  \<^item> a function that returns 0 (or a count) on success and -1 on failure has a result of type
    \<open>'a cres\<close>: \<open>Ret\<close> with the values it hands out, \<open>Fail\<close> for the -1, and \<open>UB\<close> where the C code
    would read or write outside an object (or shift by an out-of-range amount);
  \<^item> the heap is unbounded (\<open>malloc\<close> and its kin succeed), objects are shorter than 4 GiB, and
    \<open>int\<close>, \<open>long\<close> have 32 and 64 bits (the LP64 model).
\<close>

unbundle bit_operations_syntax

type_synonym byte = "8 word"
type_synonym u16 = "16 word"
type_synonym u32 = "32 word"
type_synonym u64 = "64 word"
type_synonym cptr = "byte list"
type_synonym cbuf = "byte list"
type_synonym cstr = "byte list"

named_theorems wp \<open>rules of the weakest-precondition calculus on C outcomes\<close>
named_theorems c_mem \<open>definitions of the checked memory accesses\<close>

subsection \<open>Outcomes\<close>

datatype 'a cres = Ret 'a | Fail | UB

fun cbind :: "'a cres \<Rightarrow> ('a \<Rightarrow> 'b cres) \<Rightarrow> 'b cres" where
  "cbind (Ret a) f = f a"
| "cbind Fail f = Fail"
| "cbind UB f = UB"

text \<open>An \<open>if (f(...) == 0) { ... }\<close> whose failure is not an error of the caller.\<close>

fun ctry :: "'a cres \<Rightarrow> ('a \<Rightarrow> 'b cres) \<Rightarrow> 'b cres \<Rightarrow> 'b cres" where
  "ctry (Ret a) f g = f a"
| "ctry Fail f g = g"
| "ctry UB f g = UB"

text \<open>A loop over a list whose body may leave with an error.\<close>

fun cfold :: "('x \<Rightarrow> 's \<Rightarrow> 's cres) \<Rightarrow> 'x list \<Rightarrow> 's \<Rightarrow> 's cres" where
  "cfold f [] s = Ret s"
| "cfold f (x # xs) s = cbind (f x s) (\<lambda>s'. cfold f xs s')"

text \<open>\<open>post r Q\<close>: the outcome is not undefined, and a success satisfies \<open>Q\<close>.\<close>

fun post :: "'a cres \<Rightarrow> ('a \<Rightarrow> bool) \<Rightarrow> bool" where
  "post (Ret a) Q = Q a"
| "post Fail Q = True"
| "post UB Q = False"

subsection \<open>Checked memory accesses and the C library functions the code uses\<close>

definition deref :: "cptr \<Rightarrow> byte cres" where
  "deref p = (case p of [] \<Rightarrow> UB | b # _ \<Rightarrow> Ret b)"

definition cload :: "'a list \<Rightarrow> nat \<Rightarrow> 'a cres" where
  "cload p i = (if i < length p then Ret (p ! i) else UB)"

definition cstore :: "'a list \<Rightarrow> nat \<Rightarrow> 'a \<Rightarrow> 'a list cres" where
  "cstore p i v = (if i < length p then Ret (p[i := v]) else UB)"

definition memcpy :: "cbuf \<Rightarrow> nat \<Rightarrow> cptr \<Rightarrow> nat \<Rightarrow> cbuf cres" where
  "memcpy dst off src n =
     (if n \<le> length src \<and> off + n \<le> length dst
      then Ret (take off dst @ take n src @ drop (off + n) dst) else UB)"

definition memset :: "cbuf \<Rightarrow> nat \<Rightarrow> byte \<Rightarrow> nat \<Rightarrow> cbuf cres" where
  "memset dst off b n = memcpy dst off (replicate n b) n"

definition cstr :: "string \<Rightarrow> cstr" where
  "cstr s = map of_char s"

definition cstr_of :: "cbuf \<Rightarrow> cstr" where
  "cstr_of b = takeWhile (\<lambda>c. c \<noteq> 0) b"

definition strlen :: "cstr \<Rightarrow> u32" where
  "strlen s = of_nat (length s)"

text \<open>The slice \<open>(p, len)\<close> lies inside its object.\<close>

definition slice_ok :: "cptr \<Rightarrow> u32 \<Rightarrow> bool" where
  "slice_ok p len \<longleftrightarrow> unat len \<le> length p"

definition slice_bytes :: "cptr \<Rightarrow> u32 \<Rightarrow> byte list" where
  "slice_bytes p len = take (unat len) p"

declare cload_def [c_mem] cstore_def [c_mem] memcpy_def [c_mem] memset_def [c_mem]
  deref_def [c_mem]

subsection \<open>Lemmas\<close>

lemma cbind_cong [fundef_cong]:
  "m = m' \<Longrightarrow> (\<And>a. m' = Ret a \<Longrightarrow> f a = f' a) \<Longrightarrow> cbind m f = cbind m' f'"
  by (cases m') auto

lemma cbind_assoc: "cbind (cbind m f) g = cbind m (\<lambda>a. cbind (f a) g)"
  by (cases m) auto

lemma cbind_eq_Ret: "cbind m f = Ret b \<longleftrightarrow> (\<exists>a. m = Ret a \<and> f a = Ret b)"
  by (cases m) auto

lemma cbind_eq_UB: "cbind m f = UB \<longleftrightarrow> m = UB \<or> (\<exists>a. m = Ret a \<and> f a = UB)"
  by (cases m) auto

lemma post_cbind [wp]: "post (cbind m f) Q \<longleftrightarrow> post m (\<lambda>a. post (f a) Q)"
  by (cases m) auto

lemma post_ctry [wp]:
  "post m (\<lambda>a. post (f a) Q) \<Longrightarrow> post g Q \<Longrightarrow> post (ctry m f g) Q"
  by (cases m) auto

lemma post_mono: "post m P \<Longrightarrow> (\<And>a. m = Ret a \<Longrightarrow> P a \<Longrightarrow> Q a) \<Longrightarrow> post m Q"
  by (cases m) auto

lemma post_conj: "post m P \<Longrightarrow> post m Q \<Longrightarrow> post m (\<lambda>a. P a \<and> Q a)"
  by (cases m) auto

lemma post_not_UB: "post m Q \<Longrightarrow> m \<noteq> UB"
  by (cases m) auto

lemma not_UB_post: "m \<noteq> UB \<Longrightarrow> post m (\<lambda>_. True)"
  by (cases m) auto

lemma post_Ret: "post m Q \<Longrightarrow> m = Ret a \<Longrightarrow> Q a"
  by simp

lemma post_cfold:
  "I s \<Longrightarrow> (\<And>x s. x \<in> set xs \<Longrightarrow> I s \<Longrightarrow> post (f x s) I) \<Longrightarrow> post (cfold f xs s) I"
proof (induction xs arbitrary: s)
  case (Cons x xs)
  then have "post (f x s) I" by simp
  then have "post (f x s) (\<lambda>s'. post (cfold f xs s') I)"
    by (rule post_mono) (use Cons in auto)
  then show ?case by (simp add: post_cbind)
qed simp

lemma deref_Cons [simp]: "deref (b # p) = Ret b"
  by (simp add: deref_def)

lemma deref_Nil [simp]: "deref [] = UB"
  by (simp add: deref_def)

lemma deref_nonempty: "p \<noteq> [] \<Longrightarrow> deref p = Ret (hd p)"
  by (cases p) auto

lemma post_deref [wp]: "p \<noteq> [] \<Longrightarrow> Q (hd p) \<Longrightarrow> post (deref p) Q"
  by (simp add: deref_nonempty)

lemma slice_okI [intro]: "unat len \<le> length p \<Longrightarrow> slice_ok p len"
  by (simp add: slice_ok_def)

lemma length_slice_bytes [simp]: "slice_ok p len \<Longrightarrow> length (slice_bytes p len) = unat len"
  by (simp add: slice_ok_def slice_bytes_def)

lemma length_cstr [simp]: "length (cstr s) = length s"
  by (simp add: cstr_def)

lemma take_list_update_append:
  "n < length out \<Longrightarrow> take (Suc n) (out[n := c]) = take n out @ [c]"
  by (simp add: take_Suc_conv_app_nth)

lemma drop_list_update_next: "drop (Suc n) (out[n := c]) = drop (Suc n) out"
  by simp

lemma list_update_split:
  "n < length out \<Longrightarrow> out[n := c] = take n out @ c # drop (Suc n) out"
  by (simp add: upd_conv_take_nth_drop)

text \<open>Facts about one byte are checked on all 256 of them.\<close>

lemma byte_forall:
  assumes "list_all P (map of_nat [0..<256])"
  shows "P (b :: byte)"
proof -
  have "unat b \<in> set [0..<256]"
    using unsigned_less [of b, where ?'a = nat] by simp
  with assms have "P (of_nat (unat b))"
    by (auto simp only: list_all_iff set_map)
  then show ?thesis by simp
qed

lemma unat_of_nat_u32 [simp]: "n < 4294967296 \<Longrightarrow> unat (of_nat n :: u32) = n"
  by (simp add: unat_of_nat)

lemma unat_double_plus1_u32:
  "unat b < 2147483648 \<Longrightarrow> unat (2 * b + 1 :: u32) = 2 * unat b + 1"
  by (simp add: unat_word_ariths)

lemma unat_plus_u32: "unat a + unat b < 4294967296 \<Longrightarrow> unat (a + b :: u32) = unat a + unat b"
  by (simp add: unat_word_ariths)

lemma cstr_of_append_NUL: "0 \<notin> set s \<Longrightarrow> cstr_of (s @ 0 # rest) = s"
  by (induction s) (auto simp: cstr_of_def)

subsection \<open>Writing a run of bytes\<close>

text \<open>\<open>put_bytes buffer w bs\<close>: the buffer with \<open>bs\<close> written at position \<open>w\<close>.\<close>

definition put_bytes :: "cbuf \<Rightarrow> nat \<Rightarrow> byte list \<Rightarrow> cbuf" where
  "put_bytes buffer w bs = take w buffer @ bs @ drop (w + length bs) buffer"

lemma length_put_bytes [simp]:
  "w + length bs \<le> length buffer \<Longrightarrow> length (put_bytes buffer w bs) = length buffer"
  by (simp add: put_bytes_def)

lemma put_bytes_Nil [simp]: "put_bytes buffer w [] = buffer"
  by (simp add: put_bytes_def)

lemma put_bytes_twice [simp]:
  "w + length xs \<le> length buffer \<Longrightarrow>
    put_bytes (put_bytes buffer w xs) (w + length xs) ys = put_bytes buffer w (xs @ ys)"
  by (simp add: put_bytes_def) (simp add: ac_simps)

lemma cstore_put: "w < length buffer \<Longrightarrow> cstore buffer w v = Ret (put_bytes buffer w [v])"
  by (simp add: cstore_def put_bytes_def list_update_split)

lemma memcpy_put:
  "n \<le> length src \<Longrightarrow> w + n \<le> length buffer \<Longrightarrow>
    memcpy buffer w src n = Ret (put_bytes buffer w (take n src))"
  by (simp add: memcpy_def put_bytes_def)

lemma put_bytes_Cons1 [simp]:
  "w < length out \<Longrightarrow> put_bytes (put_bytes out w [x]) (Suc w) ys = put_bytes out w (x # ys)"
  using put_bytes_twice [of w "[x]" out ys] by simp

lemma put_bytes_Cons2 [simp]:
  "Suc w < length out \<Longrightarrow> put_bytes (put_bytes out w [x, y]) (Suc (Suc w)) ys = put_bytes out w (x # y # ys)"
  using put_bytes_twice [of w "[x, y]" out ys] by simp

lemma put_bytes_Cons3 [simp]:
  "Suc (Suc w) < length out \<Longrightarrow>
    put_bytes (put_bytes out w [x, y, z]) (Suc (Suc (Suc w))) ys = put_bytes out w (x # y # z # ys)"
  using put_bytes_twice [of w "[x, y, z]" out ys] by simp

lemma put_bytes_Cons4 [simp]:
  "Suc (Suc (Suc w)) < length out \<Longrightarrow>
    put_bytes (put_bytes out w [x, y, z, u]) (Suc (Suc (Suc (Suc w)))) ys =
      put_bytes out w (x # y # z # u # ys)"
  using put_bytes_twice [of w "[x, y, z, u]" out ys] by simp

lemma byte_eqI:
  assumes "\<And>n. n \<in> {0, 1, 2, 3, 4, 5, 6, 7} \<Longrightarrow> bit x n = bit (y :: byte) n"
  shows "x = y"
proof (rule bit_word_eqI)
  fix n :: nat assume "n < LENGTH(8)"
  then have "n \<in> {0, 1, 2, 3, 4, 5, 6, 7}" by auto
  then show "bit x n = bit y n" by (rule assms)
qed

end
