(* ===== verification/Hexutil.thy ===== *)
theory Hexutil
  imports Prelude
begin

text \<open>
  \<open>euicc/hexutil.c\<close>: hexadecimal strings and the swapped-nibble decimal strings (GSM BCD) in
  which ICCIDs and IMEIs are written. Every function works on an output buffer it is given with
  its length, so the model passes the buffer through and checks each access. The default
  build of \<open>euicc_hexutil_hex2bin_r\<close> is here, the other in \<open>Hexutil_Reduced\<close>. The lemmas give the functional behaviour of each
  function, memory safety under the size checks the code makes, and the round trips.
\<close>

subsection \<open>The code\<close>

definition digits :: cstr where
  "digits = cstr ''0123456789abcdef''"

function gsmbcd_swap_from :: "cbuf \<Rightarrow> nat \<Rightarrow> nat \<Rightarrow> cbuf cres" where
  "gsmbcd_swap_from input i input_len =
     (if i < input_len then
        (if i + 1 < length input
         then gsmbcd_swap_from (input[i := input ! (i + 1), i + 1 := input ! i]) (i + 2) input_len
         else UB)
      else Ret input)"
  by pat_completeness auto
termination
  by (relation "measure (\<lambda>(input, i, input_len). input_len - i)") auto

definition gsmbcd_swap_chars :: "cbuf \<Rightarrow> u32 \<Rightarrow> cbuf cres" where
  "gsmbcd_swap_chars input input_len = gsmbcd_swap_from input 0 (unat input_len)"

fun bin2hex_loop :: "cbuf \<Rightarrow> nat \<Rightarrow> cptr \<Rightarrow> nat \<Rightarrow> (nat \<times> cbuf) cres" where
  "bin2hex_loop output n bin 0 = Ret (n, output)"
| "bin2hex_loop output n bin (Suc k) =
     cbind (deref bin) (\<lambda>b.
     cbind (cstore output n (digits ! unat (drop_bit 4 b))) (\<lambda>output.
     cbind (cstore output (n + 1) (digits ! unat (b AND 0xf))) (\<lambda>output.
     bin2hex_loop output (n + 2) (tl bin) k)))"

definition euicc_hexutil_bin2hex :: "cbuf \<Rightarrow> u32 \<Rightarrow> cptr \<Rightarrow> u32 \<Rightarrow> (nat \<times> cbuf) cres" where
  "euicc_hexutil_bin2hex output output_len bin bin_len =
     (if output_len < 2 * bin_len + 1 then Fail
      else cbind (bin2hex_loop output 0 bin (unat bin_len)) (\<lambda>(n, output).
           cbind (cstore output n 0) (\<lambda>output. Ret (n, output))))"

text \<open>\<open>isxdigit\<close> and the value \<open>strtol\<close> gives a digit, from the C library.\<close>

definition isxdigit :: "byte \<Rightarrow> bool" where
  "isxdigit c \<longleftrightarrow> (0x30 \<le> c \<and> c \<le> 0x39) \<or> (0x41 \<le> c \<and> c \<le> 0x46) \<or> (0x61 \<le> c \<and> c \<le> 0x66)"

definition xdigit_value :: "byte \<Rightarrow> byte" where
  "xdigit_value c =
     (if c \<le> 0x39 then c - 0x30 else if c \<le> 0x46 then c - 0x41 + 10 else c - 0x61 + 10)"

text \<open>The default build: two characters at a time.\<close>

function hex2bin_loop :: "cbuf \<Rightarrow> nat \<Rightarrow> cptr \<Rightarrow> nat \<Rightarrow> nat \<Rightarrow> (nat \<times> cbuf) cres" where
  "hex2bin_loop output bytes input i input_len =
     (if i < input_len then
        cbind (cload input i) (\<lambda>h0.
        cbind (cload input (i + 1)) (\<lambda>h1.
        if isxdigit h0 \<and> isxdigit h1 then
          cbind (cstore output bytes (16 * xdigit_value h0 + xdigit_value h1)) (\<lambda>output.
          hex2bin_loop output (bytes + 1) input (i + 2) input_len)
        else Fail))
      else Ret (bytes, output))"
  by pat_completeness auto
termination
  by (relation "measure (\<lambda>(output, bytes, input, i, input_len). input_len - i)") auto

definition euicc_hexutil_hex2bin_r :: "cbuf \<Rightarrow> u32 \<Rightarrow> cptr \<Rightarrow> u32 \<Rightarrow> (nat \<times> cbuf) cres" where
  "euicc_hexutil_hex2bin_r output output_len input input_len =
     (if input_len mod 2 \<noteq> 0 \<or> output_len < input_len div 2 then Fail
      else hex2bin_loop output 0 input 0 (unat input_len))"

definition euicc_hexutil_hex2bin :: "cbuf \<Rightarrow> u32 \<Rightarrow> cstr \<Rightarrow> (nat \<times> cbuf) cres" where
  "euicc_hexutil_hex2bin output output_len input =
     euicc_hexutil_hex2bin_r output output_len input (strlen input)"

definition euicc_hexutil_gsmbcd2bin :: "cbuf \<Rightarrow> u32 \<Rightarrow> cstr \<Rightarrow> u32 \<Rightarrow> (nat \<times> cbuf) cres" where
  "euicc_hexutil_gsmbcd2bin output output_len input padding_to =
     (if output_len < padding_to then Fail
      else
        let n = strlen input; size = n + n mod 2 in
        cbind (memcpy (replicate (unat size) 0) 0 input (unat n)) (\<lambda>bin.
        cbind (memset bin (unat n) 0x66 (unat (n mod 2))) (\<lambda>bin.
        cbind (gsmbcd_swap_chars bin size) (\<lambda>bin.
        cbind (euicc_hexutil_hex2bin_r output output_len bin size) (\<lambda>(bytes, output).
        if padding_to > of_nat bytes then
          cbind (memset output bytes 0xff (unat (padding_to - of_nat bytes))) (\<lambda>output.
          Ret (unat padding_to, output))
        else Ret (bytes, output))))))"

function gsmbcd_trim :: "cbuf \<Rightarrow> int \<Rightarrow> (int \<times> cbuf) cres" where
  "gsmbcd_trim output n =
     (if n > 0 then
        cbind (cload output (nat n)) (\<lambda>c.
        if c = 0x66 then gsmbcd_trim (output[nat n := 0]) (n - 1) else Ret (n, output))
      else Ret (n, output))"
  by pat_completeness auto
termination
  by (relation "measure (\<lambda>(output, n). nat n)") auto

definition euicc_hexutil_bin2gsmbcd :: "cbuf \<Rightarrow> u32 \<Rightarrow> cptr \<Rightarrow> u32 \<Rightarrow> (int \<times> cbuf) cres" where
  "euicc_hexutil_bin2gsmbcd output output_len bin bin_len =
     cbind (euicc_hexutil_bin2hex output output_len bin bin_len) (\<lambda>(n, output).
     let n = int n - 1 in
     cbind (gsmbcd_swap_chars output (word_of_int n)) (\<lambda>output. gsmbcd_trim output n))"

declare gsmbcd_swap_from.simps [simp del] hex2bin_loop.simps [simp del]
  gsmbcd_trim.simps [simp del]

subsection \<open>What the functions compute\<close>

text \<open>The reference definitions: two lower-case digits per byte, and adjacent characters swapped.\<close>

fun hex_of :: "byte list \<Rightarrow> cstr" where
  "hex_of [] = []"
| "hex_of (b # bs) =
     digits ! unat (drop_bit 4 b) # digits ! unat (b AND 0xf) # hex_of bs"

fun unhex :: "cstr \<Rightarrow> byte list option" where
  "unhex [] = Some []"
| "unhex [c] = None"
| "unhex (c0 # c1 # cs) =
     (if isxdigit c0 \<and> isxdigit c1
      then map_option (Cons (16 * xdigit_value c0 + xdigit_value c1)) (unhex cs) else None)"

fun swap_pairs :: "'a list \<Rightarrow> 'a list" where
  "swap_pairs (x # y # zs) = y # x # swap_pairs zs"
| "swap_pairs zs = zs"

text \<open>Trailing \<open>f\<close>s go, but never the first character.\<close>

definition strip_f :: "cstr \<Rightarrow> cstr" where
  "strip_f s = rev (dropWhile (\<lambda>c. c = 0x66) (rev s))"

lemma length_hex_of [simp]: "length (hex_of bs) = 2 * length bs"
  by (induction bs) auto

lemma length_swap_pairs [simp]: "length (swap_pairs xs) = length xs"
  by (induction xs rule: swap_pairs.induct) auto

lemma swap_pairs_swap_pairs [simp]: "swap_pairs (swap_pairs xs) = xs"
  by (induction xs rule: swap_pairs.induct) auto

lemma set_swap_pairs [simp]: "set (swap_pairs xs) = set xs"
  by (induction xs rule: swap_pairs.induct) auto

lemma swap_pairs_append:
  "even (length xs) \<Longrightarrow> swap_pairs (xs @ ys) = swap_pairs xs @ swap_pairs ys"
  by (induction xs rule: swap_pairs.induct) auto

lemma length_unhex: "unhex s = Some bs \<Longrightarrow> length s = 2 * length bs"
  by (induction s arbitrary: bs rule: unhex.induct) (auto split: if_splits)

lemma digits_eq:
  "digits = [0x30, 0x31, 0x32, 0x33, 0x34, 0x35, 0x36, 0x37, 0x38, 0x39,
     0x61, 0x62, 0x63, 0x64, 0x65, 0x66]"
  by (simp add: digits_def cstr_def)

lemma digits_nth:
  assumes "n < 16"
  shows "isxdigit (digits ! n) \<and> xdigit_value (digits ! n) = of_nat n"
proof -
  have "list_all (\<lambda>n. isxdigit (digits ! n) \<and> xdigit_value (digits ! n) = of_nat n) [0..<16]"
    by (simp add: upt_rec [of _ 16] digits_eq isxdigit_def xdigit_value_def)
  then show ?thesis using assms by (simp add: list_all_iff)
qed

lemma nibble_bounds [simp]: "unat (drop_bit 4 b) < 16" "unat (b AND 0xf) < 16" for b :: byte
proof -
  show "unat (drop_bit 4 b) < 16"
    using unsigned_less [of b, where ?'a = nat]
    by (simp add: drop_bit_eq_div unat_div)
  have "unat (b AND 0xf) \<le> unat (0xf :: byte)"
    by (rule word_and_le1 [THEN word_le_nat_alt [THEN iffD1]])
  then show "unat (b AND 0xf) < 16" by simp
qed

lemma nibbles_join: "16 * drop_bit 4 b + (b AND 0xf) = b" for b :: byte
  using bits_ident [of 4 b] by (simp add: push_bit_eq_mult take_bit_eq_mask mask_eq_exp_minus_1 ac_simps)

lemma digits_code [simp]:
  "isxdigit (digits ! unat (drop_bit 4 b))" "isxdigit (digits ! unat (b AND 0xf))"
  "16 * xdigit_value (digits ! unat (drop_bit 4 b)) + xdigit_value (digits ! unat (b AND 0xf)) = b"
  by (simp_all add: digits_nth nibbles_join)

lemma unhex_hex_of [simp]: "unhex (hex_of bs) = Some bs"
  by (induction bs) auto

lemma bin2hex_loop_eq:
  "k \<le> length bin \<Longrightarrow> n + 2 * k \<le> length out \<Longrightarrow>
   bin2hex_loop out n bin k =
     Ret (n + 2 * k, take n out @ hex_of (take k bin) @ drop (n + 2 * k) out)"
proof (induction k arbitrary: out n bin)
  case 0
  then show ?case by simp
next
  case (Suc k)
  then obtain b bin' where bin: "bin = b # bin'" by (cases bin) auto
  define hi lo where "hi = digits ! unat (drop_bit 4 b)" and "lo = digits ! unat (b AND 0xf)"
  define out' where "out' = out[n := hi, n + 1 := lo]"
  have t: "take (n + 2) out' = take n out @ [hi, lo]"
    using Suc.prems by (auto simp: out'_def take_Suc_conv_app_nth add_2_eq_Suc')
  have d: "drop (n + 2 + 2 * k) out' = drop (n + 2 * Suc k) out"
    by (simp add: out'_def)
  have "bin2hex_loop out n bin (Suc k) = bin2hex_loop out' (n + 2) bin' k"
    using Suc.prems by (simp add: bin c_mem hi_def lo_def out'_def)
  also have "\<dots> = Ret (n + 2 + 2 * k,
      take (n + 2) out' @ hex_of (take k bin') @ drop (n + 2 + 2 * k) out' )"
    using Suc.prems by (intro Suc.IH) (auto simp: bin out'_def)
  finally show ?case
    unfolding t d by (simp add: bin hi_def lo_def)
qed

lemma gsmbcd_swap_from_done: "n \<le> i \<Longrightarrow> gsmbcd_swap_from input i n = Ret input"
  by (subst gsmbcd_swap_from.simps) simp

lemma gsmbcd_swap_from_step:
  "i < n \<Longrightarrow> i + 1 < length input \<Longrightarrow> gsmbcd_swap_from input i n =
     gsmbcd_swap_from (input[i := input ! (i + 1), i + 1 := input ! i]) (i + 2) n"
  by (subst gsmbcd_swap_from.simps) simp

lemma gsmbcd_swap_from_eq:
  assumes "even (length ys)" "m \<le> length ys" "length ys \<le> m + 1"
  shows "gsmbcd_swap_from (xs @ ys @ zs) (length xs) (length xs + m) = Ret (xs @ swap_pairs ys @ zs)"
  using assms
proof (induction ys arbitrary: xs m rule: swap_pairs.induct)
  case (1 x y ys)
  show ?case
  proof (cases "ys = []")
    case True
    with "1.prems" have "m = 1 \<or> m = 2" by auto
    with True show ?thesis
      by (auto simp: gsmbcd_swap_from_step gsmbcd_swap_from_done nth_append list_update_append)
  next
    case False
    with "1.prems" have "2 \<le> m" by (cases ys) auto
    then obtain k where m: "m = Suc (Suc k)" by (metis add_2_eq_Suc le_Suc_ex)
    have "gsmbcd_swap_from (xs @ (x # y # ys) @ zs) (length xs) (length xs + m) =
        gsmbcd_swap_from ((xs @ [y, x]) @ ys @ zs) (length (xs @ [y, x]))
        (length (xs @ [y, x]) + k)"
      using m by (simp add: gsmbcd_swap_from_step nth_append list_update_append)
    also have "\<dots> = Ret ((xs @ [y, x]) @ swap_pairs ys @ zs)"
      using "1.prems" m by (intro "1.IH") auto
    finally show ?thesis by simp
  qed
qed (auto simp: gsmbcd_swap_from_done)

lemma gsmbcd_trim_eq:
  "gsmbcd_trim (c # s @ rest) (int (length s)) =
     Ret (int (length (strip_f s)),
       c # strip_f s @ replicate (length s - length (strip_f s)) 0 @ rest)"
proof (induction s arbitrary: rest rule: rev_induct)
  case Nil
  then show ?case by (simp add: gsmbcd_trim.simps strip_f_def)
next
  case (snoc x s)
  show ?case
  proof (cases "x = 0x66")
    case True
    have le: "length (strip_f s) \<le> length s"
      unfolding strip_f_def by (metis length_dropWhile_le length_rev)
    have "gsmbcd_trim (c # (s @ [x]) @ rest) (int (length (s @ [x]))) =
        gsmbcd_trim (c # s @ 0 # rest) (int (length s))"
      using True by (subst gsmbcd_trim.simps) (simp add: c_mem nth_append list_update_append nat_add_distrib)
    with True le show ?thesis
      by (simp add: snoc.IH strip_f_def Suc_diff_le replicate_app_Cons_same flip: replicate_Suc)
  next
    case False
    then show ?thesis
      by (subst gsmbcd_trim.simps) (simp add: c_mem nth_append strip_f_def nat_add_distrib)
  qed
qed

lemma hex2bin_loop_eq:
  assumes "even (length ys)" "bytes + length ys div 2 \<le> length out"
  shows "hex2bin_loop out bytes (xs @ ys @ zs) (length xs) (length xs + length ys) =
    (case unhex ys of None \<Rightarrow> Fail
     | Some bs \<Rightarrow> Ret (bytes + length bs, take bytes out @ bs @ drop (bytes + length bs) out))"
  using assms
proof (induction ys arbitrary: xs bytes out rule: unhex.induct)
  case 1
  then show ?case by (simp add: hex2bin_loop.simps)
next
  case (2 c)
  then show ?case by simp
next
  case (3 c0 c1 cs)
  have load: "cload (xs @ c0 # c1 # cs @ zs) (length xs) = Ret c0"
     "cload (xs @ c0 # c1 # cs @ zs) (Suc (length xs)) = Ret c1"
    by (simp_all add: cload_def nth_append)
  show ?case
  proof (cases "isxdigit c0 \<and> isxdigit c1")
    case False
    then show ?thesis by (subst hex2bin_loop.simps) (auto simp: load)
  next
    case True
    define v where "v = 16 * xdigit_value c0 + xdigit_value c1"
    have "hex2bin_loop out bytes (xs @ (c0 # c1 # cs) @ zs) (length xs)
            (length xs + length (c0 # c1 # cs)) =
          hex2bin_loop (out[bytes := v]) (bytes + 1) ((xs @ [c0, c1]) @ cs @ zs)
            (length (xs @ [c0, c1])) (length (xs @ [c0, c1]) + length cs)"
      using True "3.prems" by (subst hex2bin_loop.simps) (simp add: load cstore_def v_def)
    also have "\<dots> = (case unhex cs of None \<Rightarrow> Fail
       | Some bs \<Rightarrow> Ret (bytes + 1 + length bs, take (bytes + 1) (out[bytes := v]) @ bs @
            drop (bytes + 1 + length bs) (out[bytes := v])))"
      using True "3.prems" by (intro "3.IH") auto
    finally show ?thesis
      using True "3.prems"
      by (auto simp: v_def take_list_update_append split: option.split)
  qed
qed

lemma gsmbcd_swap_from_UB:
  "i \<le> length input \<Longrightarrow> length input < n \<Longrightarrow> gsmbcd_swap_from input i n = UB"
proof (induction input i n rule: gsmbcd_swap_from.induct)
  case (1 input i n)
  then show ?case by (subst gsmbcd_swap_from.simps) auto
qed

lemma gsmbcd_swap_chars_even:
  assumes "even (length ys)" "length ys < 4294967296"
  shows "gsmbcd_swap_chars ys (of_nat (length ys)) = Ret (swap_pairs ys)"
  using assms gsmbcd_swap_from_eq [of ys "length ys" "[]" "[]"]
  by (simp add: gsmbcd_swap_chars_def)

theorem euicc_hexutil_bin2hex_eq:
  assumes "slice_ok bin bin_len" "unat bin_len < 2147483648" "unat out_len \<le> length out"
  shows "euicc_hexutil_bin2hex out out_len bin bin_len =
    (if unat out_len < 2 * unat bin_len + 1 then Fail
     else Ret (2 * unat bin_len,
       hex_of (slice_bytes bin bin_len) @ 0 # drop (2 * unat bin_len + 1) out))"
proof -
  let ?n = "unat bin_len"
  have lt: "out_len < 2 * bin_len + 1 \<longleftrightarrow> unat out_len < 2 * ?n + 1"
    using assms(2) by (simp only: word_less_nat_alt unat_double_plus1_u32)
  show ?thesis
  proof (cases "unat out_len < 2 * ?n + 1")
    case True
    then show ?thesis by (simp add: euicc_hexutil_bin2hex_def lt)
  next
    case False
    then have cap: "2 * ?n < length out" using assms(3) by simp
    have "bin2hex_loop out 0 bin ?n =
        Ret (2 * ?n, hex_of (slice_bytes bin bin_len) @ drop (2 * ?n) out)"
      using bin2hex_loop_eq [of ?n bin 0 out] assms(1) cap
      by (simp add: slice_ok_def slice_bytes_def)
    moreover from cap have "drop (2 * ?n) out = out ! (2 * ?n) # drop (2 * ?n + 1) out"
      by (simp add: Cons_nth_drop_Suc)
    ultimately show ?thesis
      using False assms(1) cap by (simp add: euicc_hexutil_bin2hex_def lt cstore_def list_update_append)
  qed
qed

text \<open>The nibbles of each byte in swapped order, trailing filler removed.\<close>

definition bcd_of :: "byte list \<Rightarrow> cstr" where
  "bcd_of bs = (case swap_pairs (hex_of bs) of [] \<Rightarrow> [] | c # s \<Rightarrow> c # strip_f s)"

theorem euicc_hexutil_bin2gsmbcd_eq:
  assumes "slice_ok bin bin_len" "unat bin_len < 2147483648" "unat out_len \<le> length out"
    and "bin_len \<noteq> 0"
  shows "euicc_hexutil_bin2gsmbcd out out_len bin bin_len =
    (if unat out_len < 2 * unat bin_len + 1 then Fail
     else let t = bcd_of (slice_bytes bin bin_len) in
       Ret (int (length t) - 1,
         t @ replicate (2 * unat bin_len - length t) 0 @ 0 # drop (2 * unat bin_len + 1) out))"
proof (cases "unat out_len < 2 * unat bin_len + 1")
  case True
  then show ?thesis by (simp add: euicc_hexutil_bin2gsmbcd_def euicc_hexutil_bin2hex_eq assms)
next
  case False
  let ?n = "unat bin_len" and ?bs = "slice_bytes bin bin_len"
  let ?tail = "0 # drop (2 * ?n + 1) out"
  have n: "0 < ?n" using assms(4) by (simp add: unat_gt_0)
  have len: "length (hex_of ?bs) = 2 * ?n" using assms(1) by simp
  then obtain c s where cs: "swap_pairs (hex_of ?bs) = c # s"
    using n by (cases "swap_pairs (hex_of ?bs)") (auto dest: arg_cong [where f = length])
  have s: "length s = 2 * ?n - 1"
    using arg_cong [OF cs, of length] len by simp
  define m where "m = 2 * ?n - 1"
  have "int (2 * ?n) - 1 = int m" using n by (simp add: m_def)
  then have w: "word_of_int (int (2 * ?n) - 1) = (of_nat m :: u32)" "int (2 * ?n) - 1 = int m"
    by simp_all
  have m: "m < 4294967296" "length s = m" using assms(2) s by (simp_all add: m_def)
  have "gsmbcd_swap_chars (hex_of ?bs @ ?tail) (of_nat m) = Ret (swap_pairs (hex_of ?bs) @ ?tail)"
    using gsmbcd_swap_from_eq [of "hex_of ?bs" m "[]" ?tail] len m(1)
    by (simp add: gsmbcd_swap_chars_def m_def)
  then have "euicc_hexutil_bin2gsmbcd out out_len bin bin_len =
      gsmbcd_trim (c # s @ ?tail) (int (length s))"
    using False unfolding euicc_hexutil_bin2gsmbcd_def euicc_hexutil_bin2hex_eq [OF assms(1-3)]
    by (simp only: if_False cbind.simps prod.case Let_def w) (simp add: cs m)
  also have "\<dots> = Ret (int (length (strip_f s)),
      c # strip_f s @ replicate (length s - length (strip_f s)) 0 @ ?tail)"
    by (rule gsmbcd_trim_eq)
  finally show ?thesis
    using False s by (simp add: bcd_of_def cs Let_def)
qed

text \<open>An empty input makes the length wrap to \<open>2\<^sup>3\<^sup>2 - 1\<close>, and the swap runs off the buffer.\<close>

lemma euicc_hexutil_bin2gsmbcd_empty:
  assumes "unat out_len \<le> length out" "0 < unat out_len" "length out < 4294967295"
  shows "euicc_hexutil_bin2gsmbcd out out_len bin 0 = UB"
proof -
  have "euicc_hexutil_bin2hex out out_len bin 0 = Ret (0, 0 # drop 1 out)"
    using assms by (cases out) (auto simp: euicc_hexutil_bin2hex_eq slice_ok_def slice_bytes_def)
  moreover have "gsmbcd_swap_chars (0 # drop 1 out) (- 1) = UB"
    unfolding gsmbcd_swap_chars_def
    by (rule gsmbcd_swap_from_UB) (use assms in \<open>auto simp: unsigned_minus_1_eq_mask mask_eq_exp_minus_1\<close>)
  ultimately show ?thesis
    by (simp add: euicc_hexutil_bin2gsmbcd_def)
qed

lemma digits_nth_nonzero: "n < 16 \<Longrightarrow> digits ! n \<noteq> 0"
  using digits_nth [of n] by (auto simp: isxdigit_def)

lemma hex_of_no_NUL: "0 \<notin> set (hex_of bs)"
proof (induction bs)
  case (Cons b bs)
  then show ?case
    using digits_nth_nonzero [of "unat (drop_bit 4 b)"] digits_nth_nonzero [of "unat (b AND 0xf)"]
    by (auto simp: eq_commute [of 0])
qed simp

lemma bcd_of_nonempty: "bs \<noteq> [] \<Longrightarrow> bcd_of bs \<noteq> []"
  by (cases bs) (auto simp: bcd_of_def)

subsection \<open>Reading digits\<close>

theorem euicc_hexutil_hex2bin_r_eq:
  assumes "slice_ok input input_len" "unat out_len \<le> length out"
  shows "euicc_hexutil_hex2bin_r out out_len input input_len =
    (if odd (unat input_len) \<or> unat out_len < unat input_len div 2 then Fail
     else case unhex (slice_bytes input input_len) of None \<Rightarrow> Fail
       | Some bs \<Rightarrow> Ret (length bs, bs @ drop (length bs) out))"
proof -
  have c: "input_len mod 2 \<noteq> 0 \<longleftrightarrow> odd (unat input_len)"
    by (simp add: word_unat_eq_iff unat_mod odd_iff_mod_2_eq_one)
  have d: "out_len < input_len div 2 \<longleftrightarrow> unat out_len < unat input_len div 2"
    by (simp add: word_less_nat_alt unat_div)
  let ?ys = "slice_bytes input input_len"
  have split: "?ys @ drop (unat input_len) input = input"
    by (simp add: slice_bytes_def)
  have "hex2bin_loop out 0 input 0 (unat input_len) =
      (case unhex ?ys of None \<Rightarrow> Fail | Some bs \<Rightarrow> Ret (length bs, bs @ drop (length bs) out))"
    if "even (unat input_len)" "\<not> unat out_len < unat input_len div 2"
    using hex2bin_loop_eq [of ?ys 0 out "[]" "drop (unat input_len) input"] that assms
    by (auto simp: split split: option.split)
  then show ?thesis
    unfolding euicc_hexutil_hex2bin_r_def c d by simp
qed

text \<open>The padded, swapped digits the conversion reads.\<close>

definition bcd_pad :: "cstr \<Rightarrow> cstr" where
  "bcd_pad s = s @ replicate (length s mod 2) 0x66"

lemma length_bcd_pad: "length (bcd_pad s) = length s + length s mod 2"
  by (simp add: bcd_pad_def)

lemma even_length_bcd_pad [simp]: "even (length (bcd_pad s))"
  by (simp add: length_bcd_pad mod2_eq_if)

lemma gsmbcd_fill_eq:
  fixes pad :: u32
  assumes "length bs \<le> length out" "length bs < 4294967296" "unat pad \<le> length out"
  shows "(if of_nat (length bs) < pad then
        cbind (memset (bs @ drop (length bs) out) (length bs) 0xff (unat (pad - of_nat (length bs))))
          (\<lambda>out. Ret (unat pad, out))
      else Ret (length bs, bs @ drop (length bs) out)) =
      (let k = max (length bs) (unat pad) in
         Ret (k, bs @ replicate (unat pad - length bs) 0xff @ drop k out))"
proof -
  have lt: "(of_nat (length bs) :: u32) < pad \<longleftrightarrow> length bs < unat pad"
    using assms(2) by (simp add: word_less_nat_alt)
  have sub: "unat (pad - of_nat (length bs)) = unat pad - length bs" if "length bs < unat pad"
    using that assms(2) by (simp add: unat_sub word_le_nat_alt)
  show ?thesis
    using assms(1,3) by (auto simp: lt sub c_mem Let_def max_def)
qed

lemma bcd_pad_copy:
  "cbind (memcpy (replicate (length (bcd_pad s)) 0) 0 s (length s))
     (\<lambda>bin. memset bin (length s) 0x66 (length s mod 2)) = Ret (bcd_pad s)"
  by (simp add: c_mem length_bcd_pad bcd_pad_def)

theorem euicc_hexutil_gsmbcd2bin_eq:
  assumes "length s < 4294967295" "unat out_len \<le> length out"
  shows "euicc_hexutil_gsmbcd2bin out out_len s pad =
    (if out_len < pad \<or> unat out_len < length (bcd_pad s) div 2 then Fail
     else case unhex (swap_pairs (bcd_pad s)) of None \<Rightarrow> Fail
       | Some bs \<Rightarrow> let k = max (length bs) (unat pad) in
           Ret (k, bs @ replicate (unat pad - length bs) 0xff @ drop k out))"
proof (cases "out_len < pad")
  case True
  then show ?thesis by (simp add: euicc_hexutil_gsmbcd2bin_def)
next
  case False
  define n where "n = strlen s"
  have un: "unat n = length s" using assms(1) by (simp add: n_def strlen_def)
  have unm: "unat (n mod 2) = length s mod 2" by (simp add: unat_mod un)
  have size: "unat (n + n mod 2) = length (bcd_pad s)"
    using assms(1) by (subst unat_plus_u32) (auto simp: un unm length_bcd_pad)
  have sz: "n + n mod 2 = of_nat (length (bcd_pad s))"
    by (simp flip: size)
  have small: "length (bcd_pad s) < 4294967296"
    using assms(1) by (simp add: length_bcd_pad mod2_eq_if)
  have padfit: "unat pad \<le> length out"
    using False assms(2) by (simp add: word_less_nat_alt)
  have swp: "gsmbcd_swap_chars (bcd_pad s) (of_nat (length (bcd_pad s))) = Ret (swap_pairs (bcd_pad s))"
    using small by (simp add: gsmbcd_swap_chars_even)
  have sl: "slice_bytes (swap_pairs (bcd_pad s)) (of_nat (length (bcd_pad s))) = swap_pairs (bcd_pad s)"
    using small by (simp add: slice_bytes_def)
  have r: "euicc_hexutil_hex2bin_r out out_len (swap_pairs (bcd_pad s)) (of_nat (length (bcd_pad s))) =
    (if unat out_len < length (bcd_pad s) div 2 then Fail
     else case unhex (swap_pairs (bcd_pad s)) of None \<Rightarrow> Fail
       | Some bs \<Rightarrow> Ret (length bs, bs @ drop (length bs) out))"
    using small assms(2) by (subst euicc_hexutil_hex2bin_r_eq) (auto simp: sl slice_ok_def)
  have "euicc_hexutil_gsmbcd2bin out out_len s pad =
     cbind (cbind (memcpy (replicate (length (bcd_pad s)) 0) 0 s (length s))
        (\<lambda>bin. memset bin (length s) 0x66 (length s mod 2))) (\<lambda>bin.
     cbind (gsmbcd_swap_chars bin (of_nat (length (bcd_pad s)))) (\<lambda>bin.
     cbind (euicc_hexutil_hex2bin_r out out_len bin (of_nat (length (bcd_pad s)))) (\<lambda>(bytes, out).
        if of_nat bytes < pad then
          cbind (memset out bytes 0xff (unat (pad - of_nat bytes))) (\<lambda>out. Ret (unat pad, out))
        else Ret (bytes, out))))"
    using False unfolding euicc_hexutil_gsmbcd2bin_def Let_def n_def [symmetric] size un unm sz
    by (simp only: if_False cbind_assoc unat_of_nat_u32 [OF small])
  also have "\<dots> = (if unat out_len < length (bcd_pad s) div 2 then Fail
     else case unhex (swap_pairs (bcd_pad s)) of None \<Rightarrow> Fail
       | Some bs \<Rightarrow> let k = max (length bs) (unat pad) in
           Ret (k, bs @ replicate (unat pad - length bs) 0xff @ drop k out))"
    unfolding bcd_pad_copy cbind.simps swp r
    using assms(2) small padfit length_unhex [of "swap_pairs (bcd_pad s)"]
    by (cases "unat out_len < length (bcd_pad s) div 2"; cases "unhex (swap_pairs (bcd_pad s))")
      (auto simp: gsmbcd_fill_eq split del: if_split)
  finally show ?thesis using False by simp
qed

subsection \<open>Round trips\<close>

lemma hex_of_append: "hex_of (xs @ ys) = hex_of xs @ hex_of ys"
  by (induction xs) auto

lemma hex_of_replicate_ff: "hex_of (replicate j 0xff) = replicate (2 * j) 0x66"
  by (induction j) (auto simp: digits_eq)

lemma set_digitsE:
  assumes "c \<in> set digits"
  obtains n where "n < 16" "c = digits ! n" "isxdigit c" "xdigit_value c = of_nat n"
proof -
  have "length digits = 16" by (simp add: digits_def)
  with assms obtain n where "n < 16" "c = digits ! n" by (auto simp: in_set_conv_nth)
  with digits_nth [of n] that show thesis by simp
qed

lemma hex_of_pair:
  assumes "c0 \<in> set digits" "c1 \<in> set digits"
  shows "hex_of [16 * xdigit_value c0 + xdigit_value c1] = [c0, c1]"
proof -
  obtain m where m: "m < 16" "c0 = digits ! m" "xdigit_value c0 = of_nat m"
    by (rule set_digitsE [OF assms(1)])
  obtain n where n: "n < 16" "c1 = digits ! n" "xdigit_value c1 = of_nat n"
    by (rule set_digitsE [OF assms(2)])
  define b :: byte where "b = 16 * of_nat m + of_nat n"
  have b: "b = of_nat (16 * m + n)" by (simp add: b_def)
  have ub: "unat b = 16 * m + n" using m(1) n(1) unfolding b by (simp add: unat_of_nat del: of_nat_add of_nat_mult)
  have "unat (drop_bit 4 b) = m"
    using n(1) by (simp add: drop_bit_eq_div unat_div ub)
  moreover have "b AND 0xf = b mod 16"
    using take_bit_eq_mask [of 4 b] by (simp add: mask_eq_exp_minus_1 take_bit_eq_mod)
  then have "unat (b AND 0xf) = n"
    using n(1) by (simp add: unat_mod ub)
  ultimately show ?thesis
    unfolding m(3) n(3) b_def [symmetric] by (simp add: m(2) n(2))
qed

lemma unhex_lower:
  "even (length s) \<Longrightarrow> set s \<subseteq> set digits \<Longrightarrow> \<exists>bs. unhex s = Some bs \<and> hex_of bs = s"
proof (induction s rule: unhex.induct)
  case (3 c0 c1 cs)
  have x: "isxdigit c0" "isxdigit c1" using "3.prems" by (auto elim: set_digitsE)
  with "3" obtain bs where "unhex cs = Some bs" "hex_of bs = cs" by auto
  with x show ?case using "3.prems" hex_of_pair [of c0 c1] by auto
qed auto

lemma strip_f_filler: "0x66 \<notin> set s \<Longrightarrow> strip_f (s @ replicate m 0x66) = s"
  by (cases s rule: rev_cases) (auto simp: strip_f_def dropWhile_append)

lemma bcd_of_filler:
  assumes "s \<noteq> []" "set s \<subseteq> set digits - {0x66}" "hex_of bs = swap_pairs (bcd_pad s)"
  shows "bcd_of (bs @ replicate j 0xff) = s"
proof -
  have "even (length (hex_of bs))" by simp
  then have "swap_pairs (hex_of (bs @ replicate j 0xff)) = bcd_pad s @ swap_pairs (replicate (2 * j) 0x66)"
    by (simp add: hex_of_append hex_of_replicate_ff swap_pairs_append assms(3))
  also have "swap_pairs (replicate (2 * j) (0x66 :: byte)) = replicate (2 * j) 0x66"
    by (induction j) auto
  also have "bcd_pad s @ replicate (2 * j) 0x66 = s @ replicate (length s mod 2 + 2 * j) 0x66"
    by (simp add: bcd_pad_def replicate_add)
  finally show ?thesis
    using assms(1,2) strip_f_filler [of "tl s"]
    by (cases s) (auto simp: bcd_of_def)
qed

theorem gsmbcd_roundtrip_strong:
  assumes s: "s \<noteq> []" "set s \<subseteq> set digits - {0x66}"
    and cap: "length (bcd_pad s) \<le> 2 * length out" "unat pad \<le> length out" "length out < 2147483648"
    and str: "2 * length out < length str" "length str < 4294967296"
  shows "\<exists>k out' str'. euicc_hexutil_gsmbcd2bin out (of_nat (length out)) s pad = Ret (k, out') \<and>
     k = max (length (bcd_pad s) div 2) (unat pad) \<and>
     euicc_hexutil_bin2gsmbcd str (of_nat (length str)) out' (of_nat k) =
       Ret (int (length s) - 1, str') \<and> cstr_of str' = s"
proof -
  have dig: "set (swap_pairs (bcd_pad s)) \<subseteq> set digits"
    using s(2) by (auto simp: bcd_pad_def digits_eq)
  obtain bs where bs: "unhex (swap_pairs (bcd_pad s)) = Some bs" "hex_of bs = swap_pairs (bcd_pad s)"
    using unhex_lower [OF _ dig] by auto
  have len: "length (bcd_pad s) = 2 * length bs"
    using length_unhex [OF bs(1)] by simp
  define k j where "k = max (length bs) (unat pad)" and "j = unat pad - length bs"
  define out' where "out' = bs @ replicate j 0xff @ drop k out"
  have k: "k = length bs + j" "k \<le> length out" "k < 2147483648" "0 < k"
    using cap len s(1) by (auto simp: k_def j_def length_bcd_pad less_max_iff_disj)
  have small: "length s < 4294967295"
    using cap len by (auto simp: length_bcd_pad)
  have "\<not> (of_nat (length out) :: u32) < pad"
    using cap by (simp add: word_less_nat_alt)
  then have 1: "euicc_hexutil_gsmbcd2bin out (of_nat (length out)) s pad = Ret (k, out')"
    using small cap(1,3) by (simp add: euicc_hexutil_gsmbcd2bin_eq bs len k_def j_def out'_def Let_def)
  have uk: "unat (of_nat k :: u32) = k" using k(3) by simp
  have sl: "slice_bytes out' (of_nat k) = bs @ replicate j 0xff"
    unfolding slice_bytes_def uk out'_def using k(1) by simp
  have "slice_ok out' (of_nat k)"
    unfolding slice_ok_def uk using k(1) by (simp add: out'_def)
  moreover have "(of_nat k :: u32) \<noteq> 0"
    using uk k(4) by (metis unsigned_0 less_irrefl)
  ultimately have 2: "euicc_hexutil_bin2gsmbcd str (of_nat (length str)) out' (of_nat k) =
      Ret (int (length s) - 1, s @ replicate (2 * k - length s) 0 @ 0 # drop (2 * k + 1) str)"
    using k(2,3) str by (subst euicc_hexutil_bin2gsmbcd_eq)
      (auto simp: sl uk bcd_of_filler [OF s bs(2)] Let_def)
  have "0 \<notin> set s" using s(2) by (auto simp: digits_eq)
  then have "cstr_of (s @ replicate (2 * k - length s) 0 @ 0 # drop (2 * k + 1) str) = s"
    using cstr_of_append_NUL [of s] by (cases "2 * k - length s") auto
  with 1 2 show ?thesis by (auto simp: len k_def)
qed

end
