(* ===== verification/Hexutil_Reduced.thy ===== *)
theory Hexutil_Reduced
  imports Hexutil
begin

text \<open>
  The second build of \<open>euicc_hexutil_hex2bin_r\<close> (\<open>LIBEUICC_REDUCED_STDLIB_CALL\<close>), which reads one
  character at a time without \<open>isxdigit\<close> and \<open>strtol\<close>, and its agreement with the default build
  on inputs without the control characters 0x10 to 0x19.
\<close>

text \<open>The build with \<open>LIBEUICC_REDUCED_STDLIB_CALL\<close>: one character at a time.\<close>

function hex2bin_reduced_loop ::
  "cbuf \<Rightarrow> nat \<Rightarrow> byte \<Rightarrow> cptr \<Rightarrow> nat \<Rightarrow> nat \<Rightarrow> (nat \<times> cbuf) cres" where
  "hex2bin_reduced_loop output bytes msb input i input_len =
     (if i < input_len then
        cbind (cload input i) (\<lambda>b.
        let c = b OR 0x20 in
        if (c < 0x30 \<or> 0x39 < c) \<and> (c < 0x61 \<or> 0x66 < c) then Fail
        else let c = c - (if 0x39 < c then 0x61 - 10 else 0x30) in
          if i mod 2 = 0 then hex2bin_reduced_loop output bytes c input (i + 1) input_len
          else cbind (cstore output bytes (push_bit 4 msb OR c)) (\<lambda>output.
               hex2bin_reduced_loop output (bytes + 1) msb input (i + 1) input_len))
      else Ret (bytes, output))"
  by pat_completeness auto
termination
  by (relation "measure (\<lambda>(output, bytes, msb, input, i, input_len). input_len - i)") auto

definition euicc_hexutil_hex2bin_r_reduced ::
  "cbuf \<Rightarrow> u32 \<Rightarrow> cptr \<Rightarrow> u32 \<Rightarrow> (nat \<times> cbuf) cres" where
  "euicc_hexutil_hex2bin_r_reduced output output_len input input_len =
     (if input_len mod 2 \<noteq> 0 \<or> output_len < input_len div 2 then Fail
      else hex2bin_reduced_loop output 0 0 input 0 (unat input_len))"

declare hex2bin_reduced_loop.simps [simp del]

subsection \<open>The two builds of the hexadecimal reader\<close>

text \<open>The bytes that \<open>| ' '\<close> turns into decimal digits although they are control characters.\<close>

definition reduced_ctrl :: "byte \<Rightarrow> bool" where
  "reduced_ctrl c \<longleftrightarrow> 0x10 \<le> c \<and> c \<le> 0x19"

lemma reduced_digit:
  assumes "\<not> reduced_ctrl b"
  shows "let c = b OR 0x20 in
    if (c < 0x30 \<or> 0x39 < c) \<and> (c < 0x61 \<or> 0x66 < c) then \<not> isxdigit b
    else isxdigit b \<and> c - (if 0x39 < c then 0x61 - 10 else 0x30) = xdigit_value b"
proof -
  define P where "P b \<longleftrightarrow> \<not> (0x10 \<le> b \<and> b \<le> 0x19) \<longrightarrow> (let c = b OR 0x20 in
    if (c < 0x30 \<or> 0x39 < c) \<and> (c < 0x61 \<or> 0x66 < c) then \<not> isxdigit b
    else isxdigit b \<and> c - (if 0x39 < c then 0x61 - 10 else 0x30) = xdigit_value b)" for b :: byte
  have "list_all P (map of_nat [0..<256])"
    by (simp add: upt_conv_Cons P_def isxdigit_def xdigit_value_def word_le_nat_alt word_less_nat_alt)
  then have "P b" by (rule byte_forall)
  with assms show ?thesis by (simp add: P_def reduced_ctrl_def)
qed

lemma xdigit_value_less: "isxdigit c \<Longrightarrow> unat (xdigit_value c) < 16"
  by (auto simp: isxdigit_def xdigit_value_def word_le_nat_alt unat_sub_if' unat_word_ariths)

lemma push_bit_or_nibble:
  assumes "unat c < 16"
  shows "push_bit 4 a OR c = 16 * a + (c :: byte)"
proof -
  have "c mod 16 = c"
    using assms by (simp add: word_unat_eq_iff unat_mod)
  then have "c = take_bit 4 c" by (simp add: take_bit_eq_mod)
  moreover have "push_bit 4 a + take_bit 4 c = push_bit 4 a OR take_bit 4 c"
    by (rule disjunctive_add) (auto simp: bit_simps)
  ultimately show ?thesis by (simp add: push_bit_eq_mult mult.commute)
qed

lemma hex2bin_reduced_loop_eq:
  assumes "even (length ys)" "even (length xs)" "\<forall>c \<in> set ys. \<not> reduced_ctrl c"
  shows "hex2bin_reduced_loop out bytes msb (xs @ ys @ zs) (length xs) (length xs + length ys) =
    hex2bin_loop out bytes (xs @ ys @ zs) (length xs) (length xs + length ys)"
  using assms
proof (induction ys arbitrary: xs bytes out msb rule: unhex.induct)
  case 1
  then show ?case by (simp add: hex2bin_loop.simps hex2bin_reduced_loop.simps)
next
  case (2 c)
  then show ?case by simp
next
  case (3 c0 c1 cs)
  have r0: "\<not> reduced_ctrl c0" and r1: "\<not> reduced_ctrl c1" using "3.prems" by auto
  let ?in = "xs @ c0 # c1 # cs @ zs" and ?n = "length xs + Suc (Suc (length cs))"
  have par: "length xs mod 2 = 0" "Suc (length xs) mod 2 \<noteq> 0"
    using "3.prems" by (auto simp: mod_Suc)
  have load: "cload ?in (length xs) = Ret c0" "cload ?in (Suc (length xs)) = Ret c1"
    by (simp_all add: cload_def nth_append)
  have first: "hex2bin_reduced_loop out bytes msb ?in (length xs) ?n =
      (if isxdigit c0 then hex2bin_reduced_loop out bytes (xdigit_value c0) ?in (Suc (length xs)) ?n
       else Fail)"
    using reduced_digit [OF r0]
    by (subst hex2bin_reduced_loop.simps) (simp add: load Let_def par split: if_splits)
  have second: "hex2bin_reduced_loop out bytes (xdigit_value c0) ?in (Suc (length xs)) ?n =
      (if isxdigit c1 then cbind (cstore out bytes (16 * xdigit_value c0 + xdigit_value c1))
         (\<lambda>out. hex2bin_reduced_loop out (Suc bytes) (xdigit_value c0) ?in (Suc (Suc (length xs))) ?n)
       else Fail)"
    using reduced_digit [OF r1] xdigit_value_less [of c1]
    by (subst hex2bin_reduced_loop.simps) (simp add: load Let_def par push_bit_or_nibble split: if_splits)
  have IH: "hex2bin_reduced_loop out' (Suc bytes) (xdigit_value c0) ?in (Suc (Suc (length xs))) ?n =
      hex2bin_loop out' (Suc bytes) ?in (Suc (Suc (length xs))) ?n"
    if "isxdigit c0" "isxdigit c1" for out'
    using "3.IH" [of "xs @ [c0, c1]" out' "Suc bytes" "xdigit_value c0"] "3.prems" that by simp
  have "hex2bin_loop out bytes ?in (length xs) ?n =
      (if isxdigit c0 \<and> isxdigit c1 then cbind (cstore out bytes (16 * xdigit_value c0 + xdigit_value c1))
         (\<lambda>out. hex2bin_loop out (Suc bytes) ?in (Suc (Suc (length xs))) ?n) else Fail)"
    by (subst hex2bin_loop.simps) (simp add: load)
  with first second IH show ?case by simp
qed

end
