(* ===== verification/Derutil.thy ===== *)
theory Derutil
  imports Prelude
begin

text \<open>
  \<open>euicc/derutil.c\<close>, reading: the BER-TLV reader every ES10 function parses the card's answers
  with. \<open>euicc_derutil_unpack_first\<close> decodes one element, \<open>euicc_derutil_unpack_next\<close> the one after
  it, and the searches and all \<open>while (euicc_derutil_unpack_next(...) == 0)\<close> loops iterate it.
  The lemmas show that the reader never leaves a slice that lies inside its object, that the loops
  end, and that they compute the abstract element list \<open>tlv_items\<close> of the slice.
\<close>

subsection \<open>The code\<close>

text \<open>
  \<open>struct euicc_derutil_node\<close> as the reader fills it: \<open>n_value\<close> and \<open>n_self_ptr\<close> are pointers
  into the buffer that is read. (The \<open>pack\<close> half of the struct is in \<open>Derpack\<close>.)
\<close>

record der_node =
  n_tag :: u16
  n_length :: u32
  n_value :: cptr
  n_self_ptr :: cptr
  n_self_length :: u32

fun unpack_length :: "nat \<Rightarrow> u32 \<Rightarrow> cptr \<Rightarrow> u32 \<Rightarrow> (u32 \<times> cptr \<times> u32) cres" where
  "unpack_length 0 len cptr rlen = Ret (len, cptr, rlen)"
| "unpack_length (Suc i) len cptr rlen =
     cbind (deref cptr) (\<lambda>b. unpack_length i (push_bit 8 len OR ucast b) (tl cptr) (rlen - 1))"

definition unpack_tag :: "cptr \<Rightarrow> u32 \<Rightarrow> (u16 \<times> cptr \<times> u32) cres" where
  "unpack_tag cptr rlen =
     (if rlen < 1 then Fail else
      cbind (deref cptr) (\<lambda>b0.
      let tag = ucast b0 :: u16; cptr = tl cptr; rlen = rlen - 1 in
      if tag AND 0x1F = 0x1F then
        (if rlen < 1 then Fail
         else cbind (deref cptr) (\<lambda>b1. Ret (push_bit 8 tag OR ucast b1, tl cptr, rlen - 1)))
      else Ret (tag, cptr, rlen)))"

definition unpack_len :: "cptr \<Rightarrow> u32 \<Rightarrow> (u32 \<times> cptr \<times> u32) cres" where
  "unpack_len cptr rlen =
     (if rlen < 1 then Fail else
      cbind (deref cptr) (\<lambda>lb.
      let cptr = tl cptr; rlen = rlen - 1 in
      if lb AND 0x80 \<noteq> 0 then
        (let lengthlen = lb AND 0x7F in
         if rlen < ucast lengthlen then Fail
         else unpack_length (unat lengthlen) 0 cptr rlen)
      else Ret (ucast lb, cptr, rlen)))"

definition euicc_derutil_unpack_first :: "cptr \<Rightarrow> u32 \<Rightarrow> der_node cres" where
  "euicc_derutil_unpack_first buffer buffer_len =
     cbind (unpack_tag buffer buffer_len) (\<lambda>(tag, cptr, rlen).
     cbind (unpack_len cptr rlen) (\<lambda>(len, cptr, rlen).
     if rlen < len then Fail
     else Ret \<lparr>n_tag = tag, n_length = len, n_value = cptr, n_self_ptr = buffer,
       n_self_length = of_nat (length buffer - length cptr) + len\<rparr>))"

definition euicc_derutil_unpack_next :: "der_node \<Rightarrow> cptr \<Rightarrow> u32 \<Rightarrow> der_node cres" where
  "euicc_derutil_unpack_next prev buffer buffer_len =
     (if length (n_self_ptr prev) < unat (n_self_length prev) then UB
      else let cptr = drop (unat (n_self_length prev)) (n_self_ptr prev);
               rlen = buffer_len - of_nat (length buffer - length cptr)
           in euicc_derutil_unpack_first cptr rlen)"

text \<open>The node a loop over a buffer starts from: only its \<open>self\<close> fields are read.\<close>

definition node_start :: "cptr \<Rightarrow> der_node" where
  "node_start buffer =
     \<lparr>n_tag = 0, n_length = 0, n_value = buffer, n_self_ptr = buffer, n_self_length = 0\<rparr>"

subsection \<open>One element\<close>

text \<open>
  The reference decoder on the bytes of a slice: tag, content, and the number of header bytes.
\<close>

definition be_value :: "byte list \<Rightarrow> u32" where
  "be_value bs = foldl (\<lambda>len b. push_bit 8 len OR ucast b) 0 bs"

fun tlv_tag :: "byte list \<Rightarrow> (u16 \<times> byte list) option" where
  "tlv_tag [] = None"
| "tlv_tag (b0 # bs) =
     (if (ucast b0 :: u16) AND 0x1F = 0x1F
      then (case bs of [] \<Rightarrow> None | b1 # bs' \<Rightarrow> Some (push_bit 8 (ucast b0) OR ucast b1, bs'))
      else Some (ucast b0, bs))"

fun tlv_len :: "byte list \<Rightarrow> (u32 \<times> byte list) option" where
  "tlv_len [] = None"
| "tlv_len (lb # bs) =
     (if lb AND 0x80 \<noteq> 0
      then let k = unat (lb AND 0x7F) in
        if length bs < k then None else Some (be_value (take k bs), drop k bs)
      else Some (ucast lb, bs))"

definition tlv_decode :: "byte list \<Rightarrow> (u16 \<times> byte list \<times> byte list) option" where
  "tlv_decode bs =
     do { (tag, r1) \<leftarrow> tlv_tag bs; (len, r2) \<leftarrow> tlv_len r1;
          if length r2 < unat len then None
          else Some (tag, take (unat len) r2, drop (unat len) r2) }"

lemma u32_of_nat_less_iff:
  "m < 4294967296 \<Longrightarrow> n < 4294967296 \<Longrightarrow> (of_nat m :: u32) < of_nat n \<longleftrightarrow> m < n"
  by (simp add: word_less_nat_alt)

lemma u32_Suc_nonzero: "Suc m < 4294967296 \<Longrightarrow> 1 + (of_nat m :: u32) \<noteq> 0"
  using unat_of_nat_u32 [of "Suc m"] by (metis of_nat_Suc unsigned_0 nat.distinct(1))

lemma unpack_length_eq:
  "k \<le> length bs \<Longrightarrow> unpack_length k acc (bs @ junk) rlen =
     Ret (foldl (\<lambda>len b. push_bit 8 len OR ucast b) acc (take k bs), drop k bs @ junk, rlen - of_nat k)"
proof (induction k arbitrary: bs acc rlen)
  case (Suc k)
  then show ?case by (cases bs) (auto simp: algebra_simps)
qed simp

lemma unpack_tag_eq:
  assumes "length bs < 4294967296"
  shows "unpack_tag (bs @ junk) (of_nat (length bs)) =
    (case tlv_tag bs of None \<Rightarrow> Fail | Some (tag, r) \<Rightarrow> Ret (tag, r @ junk, of_nat (length r)))"
proof (cases bs)
  case (Cons b0 bs1)
  show ?thesis
  proof (cases bs1)
    case Nil
    then show ?thesis by (simp add: Cons unpack_tag_def Let_def)
  next
    case (Cons b1 bs2)
    then show ?thesis
      using assms u32_Suc_nonzero [of "length bs1"] u32_Suc_nonzero [of "length bs2"]
      by (simp add: \<open>bs = b0 # bs1\<close> unpack_tag_def Let_def)
  qed
qed (simp add: unpack_tag_def)

lemma unat_low7: "unat (lb AND 0x7F :: byte) < 128"
proof -
  have "unat (lb AND 0x7F) \<le> unat (0x7F :: byte)"
    by (rule word_and_le1 [THEN word_le_nat_alt [THEN iffD1]])
  then show ?thesis by simp
qed

lemma unpack_len_eq:
  assumes "length bs < 4294967296"
  shows "unpack_len (bs @ junk) (of_nat (length bs)) =
    (case tlv_len bs of None \<Rightarrow> Fail | Some (len, r) \<Rightarrow> Ret (len, r @ junk, of_nat (length r)))"
proof (cases bs)
  case (Cons lb bs1)
  let ?k = "lb AND 0x7F"
  have k: "(of_nat (length bs1) :: u32) < ucast ?k \<longleftrightarrow> length bs1 < unat ?k"
    using assms Cons unat_low7 [of lb]
    by (simp add: word_less_nat_alt unsigned_ucast_eq take_bit_nat_eq_self)
  show ?thesis
    using assms u32_Suc_nonzero [of "length bs1"] k
    by (simp add: Cons unpack_len_def Let_def unpack_length_eq be_value_def of_nat_diff)
qed (simp add: unpack_len_def)

lemma tlv_tag_length: "tlv_tag bs = Some (tag, r) \<Longrightarrow> \<exists>h. bs = h @ r \<and> 1 \<le> length h \<and> length h \<le> 2"
proof (induction bs rule: tlv_tag.induct)
  case (2 b0 bs)
  then show ?case
    by (auto split: if_splits list.splits intro: exI [of _ "[b0]"] exI [of _ "[b0, hd bs]"])
qed simp

lemma tlv_len_length:
  assumes "tlv_len bs = Some (len, r)"
  shows "\<exists>h. bs = h @ r \<and> 1 \<le> length h \<and> length h \<le> 128"
proof -
  obtain lb bs1 where bs: "bs = lb # bs1" using assms by (cases bs) auto
  let ?k = "unat (lb AND 0x7F)"
  have "r = bs1 \<or> r = drop ?k bs1"
    using assms by (simp add: bs Let_def split: if_splits)
  then show ?thesis
  proof
    assume "r = bs1"
    then show ?thesis by (intro exI [of _ "[lb]"]) (simp add: bs)
  next
    assume "r = drop ?k bs1"
    then show ?thesis
      using unat_low7 [of lb] by (intro exI [of _ "lb # take ?k bs1"]) (simp add: bs)
  qed
qed

lemma tlv_decode_length:
  assumes "tlv_decode bs = Some (tag, val, rest)"
  shows "\<exists>h. bs = h @ val @ rest \<and> 2 \<le> length h \<and> length h \<le> 130"
proof -
  obtain r1 len r2 where "tlv_tag bs = Some (tag, r1)" "tlv_len r1 = Some (len, r2)"
      "val = take (unat len) r2" "rest = drop (unat len) r2"
    using assms by (auto simp: tlv_decode_def bind_eq_Some_conv split: if_splits)
  moreover from this obtain h1 h2 where "bs = h1 @ r1" "1 \<le> length h1" "length h1 \<le> 2"
      "r1 = h2 @ r2" "1 \<le> length h2" "length h2 \<le> 128"
    using tlv_tag_length tlv_len_length by blast
  ultimately show ?thesis by (intro exI [of _ "h1 @ h2"]) auto
qed

text \<open>What a node says of the slice it was read from.\<close>

definition node_of :: "cptr \<Rightarrow> byte list \<Rightarrow> der_node \<Rightarrow> bool" where
  "node_of buffer bs n \<longleftrightarrow> (\<exists>tag val rest. tlv_decode bs = Some (tag, val, rest) \<and>
     n_tag n = tag \<and> slice_ok (n_value n) (n_length n) \<and> slice_bytes (n_value n) (n_length n) = val \<and>
     n_self_ptr n = buffer \<and> unat (n_self_length n) = length bs - length rest)"

lemma unpack_first_append:
  assumes small: "length bs < 4294967296"
  shows "euicc_derutil_unpack_first (bs @ junk) (of_nat (length bs)) =
    (case tlv_tag bs of None \<Rightarrow> Fail | Some (tag, r1) \<Rightarrow>
     case tlv_len r1 of None \<Rightarrow> Fail | Some (len, r2) \<Rightarrow>
     if length r2 < unat len then Fail
     else Ret \<lparr>n_tag = tag, n_length = len, n_value = r2 @ junk, n_self_ptr = bs @ junk,
       n_self_length = of_nat (length bs - length r2) + len\<rparr>)"
proof (cases "tlv_tag bs")
  case None
  then show ?thesis by (simp add: euicc_derutil_unpack_first_def unpack_tag_eq [OF small])
next
  case (Some p)
  then obtain t r1 where t: "tlv_tag bs = Some (t, r1)" by (cases p) auto
  from tlv_tag_length [OF t] have r1: "length r1 < 4294967296" using small by auto
  show ?thesis
  proof (cases "tlv_len r1")
    case None
    then show ?thesis
      by (simp add: euicc_derutil_unpack_first_def unpack_tag_eq [OF small] t unpack_len_eq [OF r1])
  next
    case (Some q)
    then obtain len r2 where l: "tlv_len r1 = Some (len, r2)" by (cases q) auto
    have "(of_nat (length r2) :: u32) < len \<longleftrightarrow> length r2 < unat len"
      using tlv_len_length [OF l] r1 by (auto simp: word_less_nat_alt)
    then show ?thesis
      by (simp add: euicc_derutil_unpack_first_def unpack_tag_eq [OF small] t
          unpack_len_eq [OF r1] l)
  qed
qed

theorem euicc_derutil_unpack_first_eq:
  assumes "slice_ok buffer buffer_len"
  shows "case tlv_decode (slice_bytes buffer buffer_len) of
      None \<Rightarrow> euicc_derutil_unpack_first buffer buffer_len = Fail
    | Some _ \<Rightarrow> \<exists>n. euicc_derutil_unpack_first buffer buffer_len = Ret n \<and>
        node_of buffer (slice_bytes buffer buffer_len) n"
proof -
  define bs junk where "bs = slice_bytes buffer buffer_len" and "junk = drop (unat buffer_len) buffer"
  have buf: "buffer = bs @ junk" by (simp add: bs_def junk_def slice_bytes_def)
  have len: "length bs = unat buffer_len" using assms by (simp add: bs_def)
  have small: "length bs < 4294967296"
    using unsigned_less [of buffer_len, where ?'a = nat] by (simp add: len)
  have eq: "euicc_derutil_unpack_first buffer buffer_len =
      euicc_derutil_unpack_first (bs @ junk) (of_nat (length bs))"
    by (simp add: buf len)
  show ?thesis
  proof (cases "tlv_decode bs")
    case None
    then show ?thesis unfolding bs_def [symmetric] eq unpack_first_append [OF small]
      by (auto simp: tlv_decode_def split: option.splits if_splits)
  next
    case (Some p)
    then obtain tag len r1 r2 where d: "tlv_tag bs = Some (tag, r1)" "tlv_len r1 = Some (len, r2)"
        "\<not> length r2 < unat len" "p = (tag, take (unat len) r2, drop (unat len) r2)"
      by (auto simp: tlv_decode_def bind_eq_Some_conv split: if_splits)
    then obtain h where h: "bs = h @ r2"
      using tlv_tag_length tlv_len_length by (metis append.assoc)
    have "unat (of_nat (length bs - length r2) + len) = length bs - (length r2 - unat len)"
      using small d(3) by (subst unat_plus_u32) (auto simp: h)
    with d Some show ?thesis unfolding bs_def [symmetric] eq unpack_first_append [OF small]
      by (auto simp: node_of_def slice_ok_def slice_bytes_def buf)
  qed
qed

subsection \<open>Progress of the reader\<close>

lemma unpack_length_Ret:
  "unpack_length k acc p r = Ret (l, p', r') \<Longrightarrow> k \<le> length p \<and> p' = drop k p \<and> r' = r - of_nat k"
proof (induction k arbitrary: acc p r)
  case (Suc k)
  then obtain b q where p: "p = b # q" by (cases p) (auto simp: deref_def)
  with Suc.prems have "unpack_length k (push_bit 8 acc OR ucast b) q (r - 1) = Ret (l, p', r')"
    by simp
  from Suc.IH [OF this] show ?case by (simp add: p)
qed auto

lemma unat_minus_of_nat_u32:
  "k \<le> unat (r :: u32) \<Longrightarrow> unat (r - of_nat k) = unat r - k"
proof -
  assume "k \<le> unat r"
  moreover from this have "unat (of_nat k :: u32) = k"
    using unsigned_less [of r, where ?'a = nat] by simp
  ultimately show ?thesis by (simp add: unat_sub word_le_nat_alt)
qed

lemma unpack_tag_Ret:
  assumes "unpack_tag p r = Ret (t, p', r')"
  shows "\<exists>k. 1 \<le> k \<and> k \<le> length p \<and> k \<le> unat r \<and> p' = drop k p \<and> unat r' = unat r - k"
proof -
  have r: "\<not> r < 1" using assms by (auto simp: unpack_tag_def)
  then have ur: "1 \<le> unat r" by (simp add: word_less_nat_alt)
  obtain b q where p: "p = b # q" using assms by (cases p) (auto simp: unpack_tag_def split: if_splits)
  have u1: "unat (r - 1) = unat r - 1" using unat_minus_of_nat_u32 [of 1 r] ur by simp
  show ?thesis
  proof (cases "(ucast b :: u16) AND 0x1F = 0x1F")
    case True
    with assms r p have "\<not> r - 1 < 1" "q \<noteq> []" "p' = tl q" "r' = r - 1 - 1"
      by (cases q; auto simp: unpack_tag_def Let_def deref_def split: if_splits)+
    moreover from this have "1 \<le> unat (r - 1)" by (simp add: word_less_nat_alt)
    ultimately show ?thesis
      using unat_minus_of_nat_u32 [of 2 r] u1 by (intro exI [of _ 2]) (cases q; auto simp: p)
  next
    case False
    with assms r p u1 ur show ?thesis
      by (intro exI [of _ 1]) (auto simp: unpack_tag_def Let_def)
  qed
qed

lemma unpack_len_Ret:
  assumes "unpack_len p r = Ret (l, p', r')"
  shows "\<exists>k. 1 \<le> k \<and> k \<le> length p \<and> k \<le> unat r \<and> p' = drop k p \<and> unat r' = unat r - k"
proof -
  have r: "\<not> r < 1" using assms by (auto simp: unpack_len_def)
  then have ur: "1 \<le> unat r" by (simp add: word_less_nat_alt)
  obtain b q where p: "p = b # q" using assms by (cases p) (auto simp: unpack_len_def split: if_splits)
  have u1: "unat (r - 1) = unat r - 1" using unat_minus_of_nat_u32 [of 1 r] ur by simp
  show ?thesis
  proof (cases "b AND 0x80 \<noteq> 0")
    case True
    let ?k = "b AND 0x7F"
    from True assms r p have lt: "\<not> r - 1 < ucast ?k"
      and "unpack_length (unat ?k) 0 q (r - 1) = Ret (l, p', r')"
      by (auto simp: unpack_len_def Let_def split: if_splits)
    from unpack_length_Ret [OF this(2)]
    have "unat ?k \<le> length q" "p' = drop (unat ?k) q" "r' = r - 1 - of_nat (unat ?k)" by auto
    moreover from lt have "unat ?k \<le> unat (r - 1)"
      using unat_low7 [of b] by (simp add: word_less_nat_alt unsigned_ucast_eq take_bit_nat_eq_self)
    ultimately show ?thesis
      using unat_minus_of_nat_u32 [of "unat ?k" "r - 1"] u1 ur
      by (intro exI [of _ "Suc (unat ?k)"]) (auto simp: p)
  next
    case False
    with assms r p u1 ur show ?thesis
      by (intro exI [of _ 1]) (auto simp: unpack_len_def Let_def)
  qed
qed

lemma unpack_first_progress:
  assumes "euicc_derutil_unpack_first p r = Ret n"
  shows "p \<noteq> [] \<and> n_self_ptr n = p \<and> 0 < unat (n_self_length n)"
proof -
  obtain t p1 r1 l p2 r2 where 1: "unpack_tag p r = Ret (t, p1, r1)" "unpack_len p1 r1 = Ret (l, p2, r2)"
      "\<not> r2 < l" and n: "n_self_ptr n = p" "n_self_length n = of_nat (length p - length p2) + l"
    using assms by (auto simp: euicc_derutil_unpack_first_def cbind_eq_Ret split: prod.splits if_splits)
  obtain k1 where k1: "1 \<le> k1" "k1 \<le> length p" "k1 \<le> unat r" "p1 = drop k1 p" "unat r1 = unat r - k1"
    using unpack_tag_Ret [OF 1(1)] by blast
  obtain k2 where k2: "k2 \<le> length p1" "k2 \<le> unat r1" "p2 = drop k2 p1" "unat r2 = unat r1 - k2"
    using unpack_len_Ret [OF 1(2)] by blast
  have "length p - length p2 = k1 + k2" "unat l \<le> unat r - (k1 + k2)" "k1 + k2 \<le> unat r"
    using k1 k2 1(3) by (auto simp: word_less_nat_alt)
  moreover have "unat r < 4294967296" using unsigned_less [of r, where ?'a = nat] by simp
  ultimately have "unat (n_self_length n) = k1 + k2 + unat l"
    by (simp add: n unat_plus_u32 del: of_nat_add)
  with k1 n show ?thesis by auto
qed

definition node_left :: "der_node \<Rightarrow> nat" where
  "node_left n = length (n_self_ptr n) - unat (n_self_length n)"

lemma unpack_next_progress:
  assumes "euicc_derutil_unpack_next n buffer len = Ret n'"
  shows "node_left n' < node_left n"
proof -
  let ?p = "drop (unat (n_self_length n)) (n_self_ptr n)"
  from assms obtain r where "euicc_derutil_unpack_first ?p r = Ret n'"
    by (auto simp: euicc_derutil_unpack_next_def Let_def split: if_splits)
  from unpack_first_progress [OF this] show ?thesis
    by (auto simp: node_left_def)
qed

subsection \<open>Searching and iterating\<close>

text \<open>\<open>euicc_derutil_unpack_find_alias_tags\<close>: the loop, from the node \<open>result\<close> holds.\<close>

function find_alias_tags_from :: "u16 list \<Rightarrow> cptr \<Rightarrow> u32 \<Rightarrow> der_node \<Rightarrow> der_node cres" where
  "find_alias_tags_from tags buffer buffer_len result =
     (case euicc_derutil_unpack_next result buffer buffer_len of
        UB \<Rightarrow> UB
      | Fail \<Rightarrow> Fail
      | Ret result' \<Rightarrow>
          if n_tag result' \<in> set tags then Ret result'
          else find_alias_tags_from tags buffer buffer_len result')"
  by pat_completeness auto
termination
  by (relation "measure (\<lambda>(tags, buffer, buffer_len, result). node_left result)")
    (auto dest: unpack_next_progress)

definition euicc_derutil_unpack_find_alias_tags :: "u16 list \<Rightarrow> cptr \<Rightarrow> u32 \<Rightarrow> der_node cres" where
  "euicc_derutil_unpack_find_alias_tags tags buffer buffer_len =
     find_alias_tags_from tags buffer buffer_len (node_start buffer)"

definition euicc_derutil_unpack_find_tag :: "u16 \<Rightarrow> cptr \<Rightarrow> u32 \<Rightarrow> der_node cres" where
  "euicc_derutil_unpack_find_tag tag buffer buffer_len =
     euicc_derutil_unpack_find_alias_tags [tag] buffer buffer_len"

text \<open>
  The loop \<open>while (euicc_derutil_unpack_next(&n, &n, buffer, buffer_len) == 0) body\<close> of the ES10
  parsers, with \<open>goto err\<close> in the body as \<open>Fail\<close>; \<open>s\<close> is what the body changes.
\<close>

function tlv_while ::
  "cptr \<Rightarrow> u32 \<Rightarrow> (der_node \<Rightarrow> 's \<Rightarrow> 's cres) \<Rightarrow> der_node \<Rightarrow> 's \<Rightarrow> 's cres" where
  "tlv_while buffer buffer_len body n s =
     (case euicc_derutil_unpack_next n buffer buffer_len of
        UB \<Rightarrow> UB
      | Fail \<Rightarrow> Ret s
      | Ret n' \<Rightarrow> cbind (body n' s) (\<lambda>s'. tlv_while buffer buffer_len body n' s'))"
  by pat_completeness auto
termination
  by (relation "measure (\<lambda>(buffer, buffer_len, body, n, s). node_left n)")
    (auto dest: unpack_next_progress)

definition tlv_foreach :: "cptr \<Rightarrow> u32 \<Rightarrow> (der_node \<Rightarrow> 's \<Rightarrow> 's cres) \<Rightarrow> 's \<Rightarrow> 's cres" where
  "tlv_foreach buffer buffer_len body s = tlv_while buffer buffer_len body (node_start buffer) s"

declare find_alias_tags_from.simps [simp del] tlv_while.simps [simp del]

lemma tlv_decode_shorter: "tlv_decode bs = Some (tag, val, rest) \<Longrightarrow> length rest < length bs"
  using tlv_decode_length [of bs tag val rest] by auto

text \<open>The abstract elements of a byte string: tag, content and whole encoding, in order.\<close>

function tlv_items :: "byte list \<Rightarrow> (u16 \<times> byte list \<times> byte list) list" where
  "tlv_items bs = (case tlv_decode bs of None \<Rightarrow> []
     | Some (tag, val, rest) \<Rightarrow> (tag, val, take (length bs - length rest) bs) # tlv_items rest)"
  by pat_completeness auto
termination
  by (relation "measure length") (auto dest: tlv_decode_shorter)

declare tlv_items.simps [simp del]

definition node_item :: "der_node \<Rightarrow> u16 \<times> byte list \<times> byte list" where
  "node_item n = (n_tag n, slice_bytes (n_value n) (n_length n),
     slice_bytes (n_self_ptr n) (n_self_length n))"

definition node_ok :: "der_node \<Rightarrow> bool" where
  "node_ok n \<longleftrightarrow> slice_ok (n_value n) (n_length n) \<and> slice_ok (n_self_ptr n) (n_self_length n) \<and>
     unat (n_length n) + 2 \<le> unat (n_self_length n)"

text \<open>The node lies in the slice, and what of the slice is still to be read after it.\<close>

definition node_within :: "cptr \<Rightarrow> u32 \<Rightarrow> der_node \<Rightarrow> bool" where
  "node_within buffer len n \<longleftrightarrow> (\<exists>off. off + unat (n_self_length n) \<le> unat len \<and>
     n_self_ptr n = drop off buffer)"

definition node_todo :: "cptr \<Rightarrow> u32 \<Rightarrow> der_node \<Rightarrow> byte list" where
  "node_todo buffer len n = drop (length buffer - node_left n) (slice_bytes buffer len)"

lemma node_start_within [simp]: "node_within buffer len (node_start buffer)"
  by (auto simp: node_within_def node_start_def intro: exI [of _ 0])

lemma node_start_todo [simp]: "node_todo buffer len (node_start buffer) = slice_bytes buffer len"
  by (simp add: node_todo_def node_left_def node_start_def)

lemma unpack_next_within:
  assumes "slice_ok buffer len" "node_within buffer len n"
  shows "\<exists>p r. euicc_derutil_unpack_next n buffer len = euicc_derutil_unpack_first p r \<and>
    slice_ok p r \<and> slice_bytes p r = node_todo buffer len n \<and>
    (\<exists>off. off + unat r = unat len \<and> p = drop off buffer)"
proof -
  obtain off where off: "off + unat (n_self_length n) \<le> unat len" "n_self_ptr n = drop off buffer"
    using assms(2) by (auto simp: node_within_def)
  define k where "k = off + unat (n_self_length n)"
  have k: "k \<le> unat len" "unat len \<le> length buffer"
    using off assms(1) by (simp_all add: k_def slice_ok_def)
  have left: "length buffer - node_left n = k"
    using k off by (simp add: node_left_def k_def)
  have "\<not> length (n_self_ptr n) < unat (n_self_length n)"
    using k off by (simp add: k_def)
  moreover have "drop (unat (n_self_length n)) (n_self_ptr n) = drop k buffer"
    using off(2) by (simp add: k_def add.commute)
  moreover have "length buffer - length (drop k buffer) = k" using k by simp
  ultimately have "euicc_derutil_unpack_next n buffer len =
      euicc_derutil_unpack_first (drop k buffer) (len - of_nat k)"
    unfolding euicc_derutil_unpack_next_def Let_def by (simp only: if_False)
  moreover have "unat (len - of_nat k) = unat len - k"
    using k by (simp add: unat_minus_of_nat_u32)
  ultimately show ?thesis
    using k by (intro exI [of _ "drop k buffer"] exI [of _ "len - of_nat k"] conjI exI [of _ k])
      (auto simp: slice_ok_def slice_bytes_def node_todo_def left drop_take)
qed

theorem unpack_next_eq:
  assumes "slice_ok buffer len" "node_within buffer len n"
  shows "case tlv_decode (node_todo buffer len n) of
      None \<Rightarrow> euicc_derutil_unpack_next n buffer len = Fail
    | Some (tag, val, rest) \<Rightarrow> \<exists>n'. euicc_derutil_unpack_next n buffer len = Ret n' \<and>
        node_ok n' \<and> node_within buffer len n' \<and> node_todo buffer len n' = rest \<and>
        node_item n' = (tag, val, take (length (node_todo buffer len n) - length rest)
          (node_todo buffer len n))"
proof -
  obtain p r off where nxt: "euicc_derutil_unpack_next n buffer len = euicc_derutil_unpack_first p r"
    and ok: "slice_ok p r" "slice_bytes p r = node_todo buffer len n"
    and off: "off + unat r = unat len" "p = drop off buffer"
    using unpack_next_within [OF assms] by blast
  let ?bs = "node_todo buffer len n"
  have len: "length ?bs = unat r" using ok by (metis length_slice_bytes)
  note first = euicc_derutil_unpack_first_eq [OF ok(1), unfolded ok(2)]
  show ?thesis
  proof (cases "tlv_decode ?bs")
    case None
    with first nxt show ?thesis by simp
  next
    case (Some d)
    obtain tag val rest where d: "d = (tag, val, rest)" by (cases d)
    from first Some obtain n' where n': "euicc_derutil_unpack_first p r = Ret n'" "node_of p ?bs n'"
      by auto
    have "\<exists>h. ?bs = h @ val @ rest \<and> 2 \<le> length h \<and> length h \<le> 130"
      using Some d by (intro tlv_decode_length) simp
    then obtain h where h: "?bs = h @ val @ rest" "2 \<le> length h" by blast
    have f: "n_tag n' = tag" "slice_ok (n_value n') (n_length n')"
        "slice_bytes (n_value n') (n_length n') = val" "n_self_ptr n' = p"
        "unat (n_self_length n') = length h + length val"
      using n'(2) Some d h by (auto simp: node_of_def)
    have l: "length h + length val \<le> unat r" using len h by simp
    have "unat (n_length n') = length val" using f(2,3) by (metis length_slice_bytes)
    then have "node_ok n'" using f l h ok(1) by (simp add: node_ok_def slice_ok_def)
    moreover have "node_within buffer len n'"
      using f off l by (auto simp: node_within_def intro!: exI [of _ off])
    moreover have "slice_bytes p (n_self_length n') = take (length h + length val) ?bs"
      using f l by (simp add: slice_bytes_def flip: ok(2))
    moreover have "length buffer - node_left n' = off + (length h + length val)"
      using f off l assms(1) by (simp add: node_left_def slice_ok_def)
    then have "node_todo buffer len n' = drop (length h + length val) (slice_bytes p r)"
      using off by (simp add: node_todo_def slice_bytes_def drop_take add.commute flip: off(1))
    then have "node_todo buffer len n' = rest" by (simp add: ok(2) h)
    ultimately show ?thesis
      using Some d n'(1) nxt f h(1) by (simp add: node_item_def)
  qed
qed

lemma find_alias_tags_from_eq:
  assumes "slice_ok buffer len" "node_within buffer len n"
  shows "case List.find (\<lambda>(t, _, _). t \<in> set tags) (tlv_items (node_todo buffer len n)) of
      None \<Rightarrow> find_alias_tags_from tags buffer len n = Fail
    | Some item \<Rightarrow> \<exists>n'. find_alias_tags_from tags buffer len n = Ret n' \<and> node_ok n' \<and>
        node_within buffer len n' \<and> node_item n' = item"
  using assms
proof (induction tags buffer len n rule: find_alias_tags_from.induct)
  case (1 tags buffer len n)
  note nxt = unpack_next_eq [OF "1.prems"]
  show ?case
  proof (cases "tlv_decode (node_todo buffer len n)")
    case None
    with nxt show ?thesis
      by (simp add: find_alias_tags_from.simps [of tags buffer len n] tlv_items.simps [of "node_todo buffer len n"])
  next
    case (Some d)
    obtain tag val rest where d: "d = (tag, val, rest)" by (cases d)
    with Some nxt obtain n' where n': "euicc_derutil_unpack_next n buffer len = Ret n'" "node_ok n'"
        "node_within buffer len n'" "node_todo buffer len n' = rest"
        "node_item n' = (tag, val, take (length (node_todo buffer len n) - length rest)
          (node_todo buffer len n))"
      by auto
    have tag: "n_tag n' = tag" using n'(5) by (simp add: node_item_def)
    have unf: "find_alias_tags_from tags buffer len n =
        (if tag \<in> set tags then Ret n' else find_alias_tags_from tags buffer len n')"
      by (simp add: find_alias_tags_from.simps [of tags buffer len n] n'(1) tag)
    have items: "tlv_items (node_todo buffer len n) = node_item n' # tlv_items rest"
      by (simp add: tlv_items.simps [of "node_todo buffer len n"] Some d n'(5))
    show ?thesis
    proof (cases "tag \<in> set tags")
      case True
      with n' show ?thesis by (simp add: unf items)
    next
      case False
      with "1.IH" [OF n'(1) _ "1.prems"(1) n'(3)] n'(4,5) tag show ?thesis
        by (auto simp: unf items split: option.splits)
    qed
  qed
qed

theorem find_alias_tags_eq:
  assumes "slice_ok buffer len"
  shows "case List.find (\<lambda>(t, _, _). t \<in> set tags) (tlv_items (slice_bytes buffer len)) of
      None \<Rightarrow> euicc_derutil_unpack_find_alias_tags tags buffer len = Fail
    | Some item \<Rightarrow> \<exists>n. euicc_derutil_unpack_find_alias_tags tags buffer len = Ret n \<and>
        node_ok n \<and> node_item n = item"
  using find_alias_tags_from_eq [OF assms node_start_within, of tags]
  by (auto simp: euicc_derutil_unpack_find_alias_tags_def split: option.splits)

lemma tlv_while_eq:
  assumes "slice_ok buffer len" "node_within buffer len n"
  shows "\<exists>ns. map node_item ns = tlv_items (node_todo buffer len n) \<and> (\<forall>n \<in> set ns. node_ok n) \<and>
    (\<forall>body s. tlv_while buffer len (body :: der_node \<Rightarrow> 's \<Rightarrow> 's cres) n s = cfold body ns s)"
  using assms(2)
proof (induction "node_left n" arbitrary: n rule: less_induct)
  case less
  note nxt = unpack_next_eq [OF assms(1) less.prems]
  show ?case
  proof (cases "tlv_decode (node_todo buffer len n)")
    case None
    with nxt show ?thesis
      by (intro exI [of _ "[]"])
        (simp add: tlv_while.simps tlv_items.simps [of "node_todo buffer len n"])
  next
    case (Some d)
    obtain tag val rest where d: "d = (tag, val, rest)" by (cases d)
    with Some nxt obtain n' where n': "euicc_derutil_unpack_next n buffer len = Ret n'" "node_ok n'"
        "node_within buffer len n'" "node_todo buffer len n' = rest"
        "node_item n' = (tag, val, take (length (node_todo buffer len n) - length rest)
          (node_todo buffer len n))"
      by auto
    from less.hyps [OF unpack_next_progress [OF n'(1)] n'(3)] obtain ns where
      "map node_item ns = tlv_items rest" "\<forall>n \<in> set ns. node_ok n"
      and w: "\<forall>body s. tlv_while buffer len (body :: der_node \<Rightarrow> 's \<Rightarrow> 's cres) n' s = cfold body ns s"
      using n'(4) by auto
    moreover from w have "tlv_while buffer len body n' = cfold body ns"
      for body :: "der_node \<Rightarrow> 's \<Rightarrow> 's cres" by auto
    moreover have "tlv_while buffer len body n s = cbind (body n' s) (tlv_while buffer len body n')"
      for body :: "der_node \<Rightarrow> 's \<Rightarrow> 's cres" and s
      by (simp add: tlv_while.simps [of buffer len body n s] n'(1))
    moreover have "tlv_items (node_todo buffer len n) = node_item n' # tlv_items rest"
      by (simp add: tlv_items.simps [of "node_todo buffer len n"] Some d n'(5))
    ultimately show ?thesis
      using n'(2) by (intro exI [of _ "n' # ns"]) simp
  qed
qed

theorem tlv_foreach_eq:
  assumes "slice_ok buffer len"
  shows "\<exists>ns. map node_item ns = tlv_items (slice_bytes buffer len) \<and> (\<forall>n \<in> set ns. node_ok n) \<and>
    (\<forall>body s. tlv_foreach buffer len (body :: der_node \<Rightarrow> 's \<Rightarrow> 's cres) s = cfold body ns s)"
  using tlv_while_eq [OF assms node_start_within] by (simp add: tlv_foreach_def)

subsection \<open>Rules for the parsers built on the reader\<close>

lemma post_find_alias_tags [wp]:
  assumes "slice_ok buffer len"
    and "\<And>n. node_ok n \<Longrightarrow> n_tag n \<in> set tags \<Longrightarrow> Q n"
  shows "post (euicc_derutil_unpack_find_alias_tags tags buffer len) Q"
proof (cases "List.find (\<lambda>(t, _, _). t \<in> set tags) (tlv_items (slice_bytes buffer len))")
  case None
  with find_alias_tags_eq [OF assms(1), of tags] show ?thesis by simp
next
  case (Some item)
  with find_alias_tags_eq [OF assms(1), of tags] obtain n where
    n: "euicc_derutil_unpack_find_alias_tags tags buffer len = Ret n" "node_ok n" "node_item n = item"
    by auto
  moreover have "n_tag n \<in> set tags"
    using Some n(3) by (auto simp: find_Some_iff node_item_def)
  ultimately show ?thesis using assms(2) by simp
qed

lemma post_find_tag [wp]:
  assumes "slice_ok buffer len" "\<And>n. node_ok n \<Longrightarrow> n_tag n = tag \<Longrightarrow> Q n"
  shows "post (euicc_derutil_unpack_find_tag tag buffer len) Q"
  unfolding euicc_derutil_unpack_find_tag_def by (rule wp) (use assms in auto)

lemma post_unpack_first [wp]:
  assumes "slice_ok buffer len" "\<And>n. slice_ok (n_value n) (n_length n) \<Longrightarrow> Q n"
  shows "post (euicc_derutil_unpack_first buffer len) Q"
  using euicc_derutil_unpack_first_eq [OF assms(1)] assms(2)
  by (auto simp: node_of_def split: option.splits)

lemma post_tlv_foreach [wp]:
  assumes "slice_ok buffer len" "I s"
    and "\<And>n s. node_ok n \<Longrightarrow> I s \<Longrightarrow> post (body n s) I"
  shows "post (tlv_foreach buffer len body s) I"
proof -
  obtain ns where ns: "\<forall>n \<in> set ns. node_ok n"
    "\<forall>body s. tlv_foreach buffer len (body :: der_node \<Rightarrow> 'a \<Rightarrow> 'a cres) s = cfold body ns s"
    using tlv_foreach_eq [OF assms(1)] by blast
  have "post (cfold body ns s) I"
    by (rule post_cfold) (use assms ns in auto)
  with ns show ?thesis by simp
qed

lemma node_ok_slice [simp, intro]: "node_ok n \<Longrightarrow> slice_ok (n_value n) (n_length n)"
  by (simp add: node_ok_def)

lemma node_ok_self [simp, intro]: "node_ok n \<Longrightarrow> slice_ok (n_self_ptr n) (n_self_length n)"
  by (simp add: node_ok_def)

end
