(* ===== verification/Derpack.thy ===== *)
theory Derpack
  imports Derutil
begin

text \<open>
  \<open>euicc/derutil.c\<close>, writing: \<open>euicc_derutil_pack\<close> turns a tree of nodes into its DER encoding in
  three passes over the tree (sizes, positions, bytes). The tree is the C one, a node with the
  list that starts at \<open>pack.child\<close> and continues along \<open>pack.next\<close>. The lemmas show that the three
  passes write exactly the reference encoding \<open>der_enc\<close>, stay inside the buffer, and that the
  reader of \<open>Derutil\<close> reads the encoding back.
\<close>

subsection \<open>The code\<close>

text \<open>A node's \<open>value\<close> pointer: NULL, caller memory, or (after packing) an output position.\<close>

datatype vptr = VNull | VMem cptr | VOut nat

record pack_node =
  p_tag :: u16
  p_length :: u32
  p_value :: vptr
  p_headless :: bool
  p_relative_offset :: u32
  p_self_ptr :: nat
  p_self_length :: u32

datatype der_tree = DNode pack_node "der_tree list"

fun vmem :: "vptr \<Rightarrow> cptr" where
  "vmem (VMem p) = p"
| "vmem _ = []"

text \<open>\<open>while (length) { length >>= 8; lengthlen++; }\<close>\<close>

lemma drop_bit_8_less: "l \<noteq> 0 \<Longrightarrow> unat (drop_bit 8 l :: u32) < unat l"
proof -
  assume "l \<noteq> 0"
  then have "0 < unat l" by (simp add: unat_gt_0)
  then show ?thesis by (simp add: drop_bit_eq_div unat_div)
qed

function byte_count :: "u32 \<Rightarrow> nat" where
  "byte_count len = (if len = 0 then 0 else Suc (byte_count (drop_bit 8 len)))"
  by pat_completeness auto
termination
  by (relation "measure unat") (auto simp: drop_bit_8_less)

declare byte_count.simps [simp del]

definition euicc_derutil_pack_sizeof_single_node :: "pack_node \<Rightarrow> pack_node" where
  "euicc_derutil_pack_sizeof_single_node node =
     (if p_headless node then node\<lparr>p_self_length := p_length node\<rparr>
      else node\<lparr>p_self_length :=
        (if drop_bit 8 (p_tag node) \<noteq> 0 then 2 else 1) +
        (if p_length node < 0x80 then 1 else 1 + of_nat (byte_count (p_length node))) +
        p_length node\<rparr>)"

fun pack_iterate_size ::
  "der_tree list \<Rightarrow> u32 \<Rightarrow> u32 \<Rightarrow> u32 \<Rightarrow> der_tree list \<times> u32 \<times> u32" where
  "pack_iterate_size [] parent_length relative_offset full_size = ([], parent_length, full_size)"
| "pack_iterate_size (DNode node child # rest) parent_length relative_offset full_size =
     (let node = node\<lparr>p_relative_offset := relative_offset\<rparr>;
          (child, node) =
            (if child = [] then (child, node)
             else let (child, len, _) = pack_iterate_size child 0 relative_offset 0
                  in (child, node\<lparr>p_length := len\<rparr>));
          node = euicc_derutil_pack_sizeof_single_node node;
          sl = p_self_length node;
          (rest, parent_length, full_size) =
            pack_iterate_size rest (parent_length + sl) (relative_offset + sl) (full_size + sl)
      in (DNode node child # rest, parent_length, full_size))"

definition euicc_derutil_pack_iterate_size_and_relative_offset ::
  "der_tree list \<Rightarrow> der_tree list \<times> u32" where
  "euicc_derutil_pack_iterate_size_and_relative_offset nodes =
     (let (nodes, _, full_size) = pack_iterate_size nodes 0 0 0 in (nodes, full_size))"

fun euicc_derutil_pack_iterate_ptrs :: "der_tree list \<Rightarrow> nat \<Rightarrow> der_tree list" where
  "euicc_derutil_pack_iterate_ptrs [] wptr = []"
| "euicc_derutil_pack_iterate_ptrs (DNode node child # rest) wptr =
     DNode (node\<lparr>p_self_ptr := wptr\<rparr>)
       (euicc_derutil_pack_iterate_ptrs child
          (wptr + unat (p_self_length node) - unat (p_length node))) #
     euicc_derutil_pack_iterate_ptrs rest (wptr + unat (p_self_length node))"

text \<open>\<open>for (int i = lengthlen - 1; i >= 0; i--) *buffer++ = (node->length >> (i * 8)) & 0xFF;\<close>\<close>

fun put_length_bytes :: "nat \<Rightarrow> u32 \<Rightarrow> cbuf \<Rightarrow> nat \<Rightarrow> (nat \<times> cbuf) cres" where
  "put_length_bytes 0 len buffer w = Ret (w, buffer)"
| "put_length_bytes (Suc i) len buffer w =
     cbind (cstore buffer w (ucast (drop_bit (8 * i) len))) (\<lambda>buffer.
     put_length_bytes i len buffer (w + 1))"

definition put_tag :: "u16 \<Rightarrow> cbuf \<Rightarrow> nat \<Rightarrow> (nat \<times> cbuf) cres" where
  "put_tag tag buffer w =
     cbind (if drop_bit 8 tag \<noteq> 0
            then cbind (cstore buffer w (ucast (drop_bit 8 tag))) (\<lambda>buffer. Ret (w + 1, buffer))
            else Ret (w, buffer)) (\<lambda>(w, buffer).
     cbind (cstore buffer w (ucast (tag AND 0xFF))) (\<lambda>buffer. Ret (w + 1, buffer)))"

definition put_length :: "u32 \<Rightarrow> cbuf \<Rightarrow> nat \<Rightarrow> (nat \<times> cbuf) cres" where
  "put_length len buffer w =
     (if len < 0x80
      then cbind (cstore buffer w (ucast len)) (\<lambda>buffer. Ret (w + 1, buffer))
      else cbind (cstore buffer w (0x80 OR of_nat (byte_count len))) (\<lambda>buffer.
           put_length_bytes (byte_count len) len buffer (w + 1)))"

definition euicc_derutil_pack_copydata_single_node ::
  "pack_node \<Rightarrow> bool \<Rightarrow> cbuf \<Rightarrow> (pack_node \<times> cbuf) cres" where
  "euicc_derutil_pack_copydata_single_node node has_child buffer =
     (let len = p_length node in
      if p_headless node then
        cbind (memcpy buffer (p_self_ptr node) (vmem (p_value node)) (unat len)) (\<lambda>buffer.
        Ret (node, buffer))
      else
        cbind (put_tag (p_tag node) buffer (p_self_ptr node)) (\<lambda>(w, buffer).
        cbind (put_length len buffer w) (\<lambda>(w, buffer).
        if p_value node \<noteq> VNull \<and> \<not> has_child
        then cbind (memcpy buffer w (vmem (p_value node)) (unat len)) (\<lambda>buffer. Ret (node, buffer))
        else Ret (node\<lparr>p_value := VOut w\<rparr>, buffer))))"

fun euicc_derutil_pack_iterate_copydata ::
  "der_tree list \<Rightarrow> cbuf \<Rightarrow> (der_tree list \<times> cbuf) cres" where
  "euicc_derutil_pack_iterate_copydata [] buffer = Ret ([], buffer)"
| "euicc_derutil_pack_iterate_copydata (DNode node child # rest) buffer =
     cbind (euicc_derutil_pack_copydata_single_node node (child \<noteq> []) buffer) (\<lambda>(node, buffer).
     cbind (euicc_derutil_pack_iterate_copydata child buffer) (\<lambda>(child, buffer).
     cbind (euicc_derutil_pack_iterate_copydata rest buffer) (\<lambda>(rest, buffer).
     Ret (DNode node child # rest, buffer))))"

definition euicc_derutil_pack_finish :: "der_tree list \<Rightarrow> cbuf \<Rightarrow> cbuf cres" where
  "euicc_derutil_pack_finish nodes buffer =
     cbind (euicc_derutil_pack_iterate_copydata (euicc_derutil_pack_iterate_ptrs nodes 0) buffer)
       (\<lambda>(_, buffer). Ret buffer)"

definition euicc_derutil_pack :: "cbuf \<Rightarrow> u32 \<Rightarrow> der_tree \<Rightarrow> (cbuf \<times> u32) cres" where
  "euicc_derutil_pack buffer buffer_len node =
     (let (nodes, required_size) = euicc_derutil_pack_iterate_size_and_relative_offset [node] in
      if buffer_len < required_size then Fail
      else cbind (euicc_derutil_pack_finish nodes buffer) (\<lambda>buffer. Ret (buffer, required_size)))"

text \<open>The fresh block's bytes are indeterminate in C; no byte of them survives (see below).\<close>

definition euicc_derutil_pack_alloc :: "der_tree \<Rightarrow> (cbuf \<times> u32) cres" where
  "euicc_derutil_pack_alloc node =
     (let (nodes, required_size) = euicc_derutil_pack_iterate_size_and_relative_offset [node] in
      cbind (euicc_derutil_pack_finish nodes (replicate (unat required_size) 0)) (\<lambda>buffer.
      Ret (buffer, required_size)))"

subsection \<open>The reference encoding\<close>

definition tag_bytes :: "u16 \<Rightarrow> byte list" where
  "tag_bytes tag =
     (if drop_bit 8 tag \<noteq> 0 then [ucast (drop_bit 8 tag), ucast (tag AND 0xFF)]
      else [ucast (tag AND 0xFF)])"

definition len_digits :: "nat \<Rightarrow> u32 \<Rightarrow> byte list" where
  "len_digits k len = map (\<lambda>i. ucast (drop_bit (8 * i) len)) (rev [0..<k])"

definition len_bytes :: "u32 \<Rightarrow> byte list" where
  "len_bytes len =
     (if len < 0x80 then [ucast len]
      else (0x80 OR of_nat (byte_count len)) # len_digits (byte_count len) len)"

definition node_bytes :: "pack_node \<Rightarrow> byte list" where
  "node_bytes node = take (unat (p_length node)) (vmem (p_value node))"

fun der_enc :: "der_tree \<Rightarrow> byte list" where
  "der_enc (DNode node child) =
     (let body = (if child = [] then node_bytes node else concat (map der_enc child)) in
      if p_headless node then body
      else tag_bytes (p_tag node) @ len_bytes (of_nat (length body)) @ body)"

definition der_encs :: "der_tree list \<Rightarrow> byte list" where
  "der_encs ts = concat (map der_enc ts)"

definition tree_body :: "pack_node \<Rightarrow> der_tree list \<Rightarrow> byte list" where
  "tree_body node child = (if child = [] then node_bytes node else der_encs child)"

text \<open>
  The trees the callers build: a leaf's value covers its length, and a node with children is not
  headless.
\<close>

fun pack_ok :: "der_tree \<Rightarrow> bool" where
  "pack_ok (DNode node child) =
     (if child = [] then unat (p_length node) \<le> length (vmem (p_value node))
      else \<not> p_headless node \<and> list_all pack_ok child)"

subsection \<open>Sizes\<close>

lemma der_encs_simps [simp]:
  "der_encs [] = []" "der_encs (t # ts) = der_enc t @ der_encs ts"
  by (simp_all add: der_encs_def)

lemma der_enc_node:
  "der_enc (DNode node child) =
     (if p_headless node then tree_body node child
      else tag_bytes (p_tag node) @ len_bytes (of_nat (length (tree_body node child))) @
        tree_body node child)"
  by (simp add: tree_body_def der_encs_def Let_def)

declare der_enc.simps [simp del]

lemma length_len_digits [simp]: "length (len_digits k len) = k"
  by (simp add: len_digits_def)

lemma length_tag_bytes: "length (tag_bytes tag) = (if drop_bit 8 tag \<noteq> 0 then 2 else 1)"
  by (simp add: tag_bytes_def)

lemma length_len_bytes: "length (len_bytes len) = (if len < 0x80 then 1 else 1 + byte_count len)"
  by (simp add: len_bytes_def)

text \<open>The annotation the size pass leaves: every length field is that of the reference encoding.\<close>

fun sized :: "der_tree \<Rightarrow> bool" where
  "sized (DNode node child) \<longleftrightarrow>
     p_length node = of_nat (length (tree_body node child)) \<and>
     p_self_length node = of_nat (length (der_enc (DNode node child))) \<and> list_all sized child"

lemma sizeof_single_node_fields [simp]:
  "p_tag (euicc_derutil_pack_sizeof_single_node n) = p_tag n"
  "p_length (euicc_derutil_pack_sizeof_single_node n) = p_length n"
  "p_value (euicc_derutil_pack_sizeof_single_node n) = p_value n"
  "p_headless (euicc_derutil_pack_sizeof_single_node n) = p_headless n"
  by (simp_all add: euicc_derutil_pack_sizeof_single_node_def)

lemma sizeof_single_node_self_length:
  assumes "p_length n = of_nat (length (tree_body n child))"
  shows "p_self_length (euicc_derutil_pack_sizeof_single_node n) =
    of_nat (length (der_enc (DNode n child)))"
  using assms
  by (simp add: euicc_derutil_pack_sizeof_single_node_def der_enc_node length_tag_bytes
      length_len_bytes)

lemma pack_iterate_size_eq:
  assumes "list_all pack_ok ts"
  shows "\<exists>ts'. pack_iterate_size ts pl ro fs =
      (ts', pl + of_nat (length (der_encs ts)), fs + of_nat (length (der_encs ts))) \<and>
    der_encs ts' = der_encs ts \<and> list_all sized ts' \<and> list_all pack_ok ts' \<and> (ts' = [] \<longleftrightarrow> ts = [])"
  using assms
proof (induction ts pl ro fs rule: pack_iterate_size.induct)
  case (2 node child rest pl ro fs)
  let ?n1 = "node\<lparr>p_relative_offset := ro\<rparr>"
  obtain child' node' where step:
    "(if child = [] then (child, ?n1)
      else let (child, len, _) = pack_iterate_size child 0 ro 0
           in (child, ?n1\<lparr>p_length := len\<rparr>)) = (child', node')"
    and n': "p_length node' = of_nat (length (tree_body node' child'))"
      "tree_body node' child' = tree_body node child" "list_all sized child'"
      "p_tag node' = p_tag node" "p_headless node' = p_headless node"
      "pack_ok (DNode node' child')"
  proof (cases "child = []")
    case True
    with "2.prems" that [of "[]" ?n1] show ?thesis
      by (simp add: tree_body_def node_bytes_def)
  next
    case False
    moreover from "2.IH"(1) [OF refl False] "2.prems" False obtain child' where
      "pack_iterate_size child 0 ro 0 =
        (child', of_nat (length (der_encs child)), of_nat (length (der_encs child)))"
      "der_encs child' = der_encs child" "list_all sized child'" "list_all pack_ok child'"
      "child' \<noteq> []"
      by auto
    ultimately show ?thesis
      using "2.prems" that [of child' "?n1\<lparr>p_length := of_nat (length (der_encs child))\<rparr>"]
      by (simp add: tree_body_def)
  qed
  define node'' where "node'' = euicc_derutil_pack_sizeof_single_node node'"
  have tb: "tree_body node'' c = tree_body node' c" for c
    by (simp add: node''_def tree_body_def node_bytes_def)
  have enc: "der_enc (DNode node'' child') = der_enc (DNode node child)"
      "der_enc (DNode node' child') = der_enc (DNode node child)"
    using n' by (simp_all add: der_enc_node tb) (simp_all add: node''_def)
  have sl: "p_self_length node'' = of_nat (length (der_enc (DNode node child)))"
    using sizeof_single_node_self_length [OF n'(1)] by (simp add: node''_def enc)
  have sz: "sized (DNode node'' child')"
    using n' sl by (simp add: enc tb) (simp add: node''_def)
  have ok: "pack_ok (DNode node'' child')" using n'(6) by (simp add: node''_def)
  from "2.IH"(2) [OF refl step [symmetric] refl node''_def refl] obtain rest' where
    "pack_iterate_size rest (pl + p_self_length node'') (ro + p_self_length node'')
        (fs + p_self_length node'') =
      (rest', pl + p_self_length node'' + of_nat (length (der_encs rest)),
        fs + p_self_length node'' + of_nat (length (der_encs rest)))"
      "der_encs rest' = der_encs rest" "list_all sized rest'" "list_all pack_ok rest'"
    using step "2.prems" by auto
  with step sl sz ok show ?case
    by (simp add: Let_def node''_def [symmetric] enc add.assoc
        del: sized.simps pack_ok.simps cong del: if_weak_cong)
qed simp

subsection \<open>Bytes\<close>

lemma len_digits_Suc: "len_digits (Suc i) len = ucast (drop_bit (8 * i) len) # len_digits i len"
  by (simp add: len_digits_def)

lemma put_length_bytes_eq:
  "w + k \<le> length buffer \<Longrightarrow>
    put_length_bytes k len buffer w = Ret (w + k, put_bytes buffer w (len_digits k len))"
proof (induction k arbitrary: buffer w)
  case 0
  then show ?case by (simp add: len_digits_def)
next
  case (Suc k)
  let ?d = "ucast (drop_bit (8 * k) len) :: byte"
  have "put_bytes (put_bytes buffer w [?d]) (w + 1) xs = put_bytes buffer w (?d # xs)" for xs
    using put_bytes_twice [of w "[?d]" buffer xs] Suc.prems by simp
  with Suc show ?case by (simp add: cstore_put len_digits_Suc)
qed

lemma put_tag_eq:
  "w + length (tag_bytes tag) \<le> length buffer \<Longrightarrow>
    put_tag tag buffer w = Ret (w + length (tag_bytes tag), put_bytes buffer w (tag_bytes tag))"
  using put_bytes_twice [of w "[ucast (drop_bit 8 tag)]" buffer "[ucast (tag AND 0xFF)]"]
  by (simp add: put_tag_def cstore_put tag_bytes_def split: if_splits)

lemma put_length_eq:
  "w + length (len_bytes len) \<le> length buffer \<Longrightarrow>
    put_length len buffer w = Ret (w + length (len_bytes len), put_bytes buffer w (len_bytes len))"
  using put_bytes_twice [of w "[0x80 OR of_nat (byte_count len)]" buffer
      "len_digits (byte_count len) len"]
  by (simp add: put_length_def cstore_put put_length_bytes_eq len_bytes_def split: if_splits)

lemma copydata_single_node_eq:
  assumes "p_length node = of_nat (length (tree_body node child))" "pack_ok (DNode node child)"
    and "p_self_ptr node + length (der_enc (DNode node child)) \<le> length buffer"
    and "length buffer < 4294967296"
  defines "out \<equiv> (if child = [] then der_enc (DNode node child)
    else tag_bytes (p_tag node) @ len_bytes (p_length node))"
  shows "\<exists>node'. euicc_derutil_pack_copydata_single_node node (child \<noteq> []) buffer =
    Ret (node', put_bytes buffer (p_self_ptr node) out)"
proof (cases "p_headless node")
  case True
  then have "child = []" "unat (p_length node) \<le> length (vmem (p_value node))"
    using assms(2) by (simp_all split: if_splits)
  then show ?thesis
    using True assms(3) by (simp add: euicc_derutil_pack_copydata_single_node_def memcpy_put
        der_enc_node tree_body_def node_bytes_def out_def)
next
  case False
  let ?h = "tag_bytes (p_tag node) @ len_bytes (p_length node)" and ?w = "p_self_ptr node"
  have enc: "der_enc (DNode node child) = ?h @ tree_body node child"
    using False assms(1) by (simp add: der_enc_node)
  then have fits: "?w + length ?h + length (tree_body node child) \<le> length buffer"
    using assms(3) by simp
  have bodylen: "unat (p_length node) = length (tree_body node child)"
    using assms(1,4) fits by simp
  show ?thesis
  proof (cases "p_value node \<noteq> VNull \<and> child = []")
    case True
    with assms(2) have "unat (p_length node) \<le> length (vmem (p_value node))" by simp
    moreover have "take (unat (p_length node)) (vmem (p_value node)) = tree_body node child"
      using True by (simp add: tree_body_def node_bytes_def)
    ultimately
    have "memcpy (put_bytes buffer ?w ?h) (?w + length ?h) (vmem (p_value node)) (unat (p_length node))
        = Ret (put_bytes buffer ?w (?h @ tree_body node child))"
      using fits bodylen by (subst memcpy_put) (simp_all del: length_append)
    with True False fits show ?thesis
      unfolding euicc_derutil_pack_copydata_single_node_def Let_def out_def enc
      by (simp add: put_tag_eq put_length_eq add.assoc)
  next
    case no_copy: False
    have "tree_body node child = []" if "child = []"
      using that no_copy assms(2) by (auto simp: tree_body_def node_bytes_def)
    with no_copy False fits show ?thesis
      unfolding euicc_derutil_pack_copydata_single_node_def Let_def out_def enc
      by (auto simp: put_tag_eq put_length_eq)
  qed
qed

lemma iterate_ptrs_Nil_iff [simp]: "euicc_derutil_pack_iterate_ptrs ts w = [] \<longleftrightarrow> ts = []"
  by (cases ts rule: list.exhaust; simp) (metis der_tree.exhaust euicc_derutil_pack_iterate_ptrs.simps(2) list.distinct(1))

lemma copydata_ptrs_eq:
  assumes "list_all sized ts" "list_all pack_ok ts" "w + length (der_encs ts) \<le> length buffer"
    and "length buffer < 4294967296"
  shows "\<exists>ts'. euicc_derutil_pack_iterate_copydata (euicc_derutil_pack_iterate_ptrs ts w) buffer =
    Ret (ts', put_bytes buffer w (der_encs ts))"
  using assms
proof (induction ts w arbitrary: buffer rule: euicc_derutil_pack_iterate_ptrs.induct)
  case (2 node child rest w)
  let ?n = "node\<lparr>p_self_ptr := w\<rparr>" and ?enc = "der_enc (DNode node child)"
  let ?body = "tree_body node child" and ?h = "tag_bytes (p_tag node) @ len_bytes (p_length node)"
  have pl: "p_length node = of_nat (length ?body)" and psl: "p_self_length node = of_nat (length ?enc)"
    and ok: "pack_ok (DNode node child)" and fits: "w + length ?enc + length (der_encs rest) \<le> length buffer"
    using "2.prems" by (simp_all del: pack_ok.simps)
  have nb: "tree_body ?n c = tree_body node c" for c
    by (simp add: tree_body_def node_bytes_def)
  have okn: "pack_ok (DNode ?n child)" using ok by simp
  have encn: "der_enc (DNode ?n c) = der_enc (DNode node c)" for c by (simp add: der_enc_node nb)
  have lens: "unat (p_self_length node) = length ?enc" using psl fits "2.prems"(4) by simp
  have blen: "length ?body \<le> length ?enc" by (simp add: der_enc_node)
  then have lenb: "unat (p_length node) = length ?body" using pl fits "2.prems"(4) by simp
  define out where "out = (if child = [] then ?enc else ?h)"
  obtain node' where single: "euicc_derutil_pack_copydata_single_node ?n (child \<noteq> []) buffer =
      Ret (node', put_bytes buffer w out)"
    using copydata_single_node_eq [of ?n child buffer] pl okn fits "2.prems"(4)
    by (auto simp: nb encn out_def simp del: pack_ok.simps)
  have enc_child: "?enc = ?h @ der_encs child" "length ?enc - length ?body = length ?h" if "child \<noteq> []"
    using that ok pl by (simp_all add: der_enc_node tree_body_def)
  have outlen: "w + length out \<le> length buffer" using fits enc_child by (auto simp: out_def)
  have "\<exists>child'. euicc_derutil_pack_iterate_copydata
      (euicc_derutil_pack_iterate_ptrs child (w + length ?enc - length ?body))
      (put_bytes buffer w out) = Ret (child', put_bytes buffer w ?enc)"
  proof (cases "child = []")
    case False
    then have "w + length ?enc - length ?body = w + length out"
      using blen enc_child(2) by (simp add: out_def)
    moreover from False have enc: "?enc = out @ der_encs child" using enc_child(1) by (simp add: out_def)
    moreover have "list_all pack_ok child" "list_all sized child" using False ok "2.prems"(1) by simp_all
    moreover have "w + length out + length (der_encs child) \<le> length buffer" using fits enc by simp
    ultimately show ?thesis
      using "2.IH"(1) [of "put_bytes buffer w out"] outlen "2.prems"(4)
      unfolding lens lenb by simp
  qed (simp add: out_def)
  moreover obtain rest' where "euicc_derutil_pack_iterate_copydata
      (euicc_derutil_pack_iterate_ptrs rest (w + length ?enc)) (put_bytes buffer w ?enc) =
      Ret (rest', put_bytes buffer w (?enc @ der_encs rest))"
    using "2.IH"(2) [of "put_bytes buffer w ?enc"] "2.prems" fits lens by auto
  ultimately show ?case
    using single by (auto simp: lens lenb)
qed simp

theorem euicc_derutil_pack_eq:
  assumes "pack_ok t" "length buffer < 4294967296" "unat buffer_len \<le> length buffer"
    and "length (der_enc t) < 4294967296"
  shows "euicc_derutil_pack buffer buffer_len t =
    (if unat buffer_len < length (der_enc t) then Fail
     else Ret (der_enc t @ drop (length (der_enc t)) buffer, of_nat (length (der_enc t))))"
proof -
  obtain ts' where sz: "pack_iterate_size [t] 0 0 0 =
      (ts', of_nat (length (der_enc t)), of_nat (length (der_enc t)))"
    and ts': "der_encs ts' = der_enc t" "list_all sized ts'" "list_all pack_ok ts'"
    using pack_iterate_size_eq [of "[t]" 0 0 0] assms(1) by auto
  show ?thesis
  proof (cases "unat buffer_len < length (der_enc t)")
    case True
    with sz assms(4) show ?thesis
      by (simp add: euicc_derutil_pack_def word_less_nat_alt
          euicc_derutil_pack_iterate_size_and_relative_offset_def)
  next
    case False
    with copydata_ptrs_eq [OF ts'(2,3), of 0 buffer] ts'(1) assms(2,3) obtain ts'' where
      "euicc_derutil_pack_iterate_copydata (euicc_derutil_pack_iterate_ptrs ts' 0) buffer =
        Ret (ts'', put_bytes buffer 0 (der_enc t))"
      by auto
    with False sz assms(4) show ?thesis
      by (simp add: euicc_derutil_pack_def word_less_nat_alt euicc_derutil_pack_finish_def
          euicc_derutil_pack_iterate_size_and_relative_offset_def put_bytes_def)
  qed
qed

theorem euicc_derutil_pack_alloc_eq:
  assumes "pack_ok t" "length (der_enc t) < 4294967296"
  shows "euicc_derutil_pack_alloc t = Ret (der_enc t, of_nat (length (der_enc t)))"
proof -
  let ?n = "length (der_enc t)"
  have "euicc_derutil_pack_alloc t = euicc_derutil_pack (replicate ?n 0) (of_nat ?n) t"
    using pack_iterate_size_eq [of "[t]" 0 0 0] assms
    by (auto simp: euicc_derutil_pack_def euicc_derutil_pack_alloc_def
        euicc_derutil_pack_iterate_size_and_relative_offset_def)
  also have "\<dots> = Ret (der_enc t, of_nat ?n)"
    using assms by (subst euicc_derutil_pack_eq) simp_all
  finally show ?thesis .
qed

subsection \<open>Reading back\<close>

lemma drop_bit_byte_count: "drop_bit (8 * byte_count len) len = 0"
proof (induction len rule: byte_count.induct)
  case (1 len)
  show ?case
  proof (cases "len = 0")
    case False
    then have "byte_count len = Suc (byte_count (drop_bit 8 len))" by (simp add: byte_count.simps)
    with 1 [OF False] show ?thesis by (simp add: add.commute)
  qed simp
qed

lemma byte_count_le: "unat len < 2 ^ (8 * k) \<Longrightarrow> byte_count len \<le> k"
proof (induction k arbitrary: len)
  case 0
  then have "len = 0" by (simp add: unsigned_eq_0_iff)
  then show ?case by (simp add: byte_count.simps)
next
  case (Suc k)
  have "unat (drop_bit 8 len) = unat len div 256" by (simp add: drop_bit_eq_div unat_div)
  also have "\<dots> < 2 ^ (8 * k)" using Suc.prems by (intro less_mult_imp_div_less) (simp add: power_add)
  finally have "byte_count (drop_bit 8 len) \<le> k" by (rule Suc.IH)
  then show ?case by (simp add: byte_count.simps [of len])
qed

lemma byte_count_le_4: "byte_count len \<le> 4"
  using unsigned_less [of len, where ?'a = nat] by (intro byte_count_le) simp

lemma be_value_len_digits:
  "foldl (\<lambda>l b. push_bit 8 l OR ucast (b :: byte)) acc (len_digits k len) =
     push_bit (8 * k) acc OR take_bit (8 * k) (len :: u32)"
proof (induction k arbitrary: acc)
  case 0
  then show ?case by (simp add: len_digits_def)
next
  case (Suc k)
  have "push_bit (8 * k) (push_bit 8 acc OR ucast (ucast (drop_bit (8 * k) len) :: byte)) OR
      take_bit (8 * k) len = push_bit (8 * Suc k) acc OR take_bit (8 * Suc k) len"
    by (rule bit_word_eqI) (auto simp: bit_simps add.commute [of 8])
  with Suc show ?case by (simp add: len_digits_Suc)
qed

lemma byte_and_80: "unat (b :: byte) < 128 \<Longrightarrow> b AND 0x80 = 0"
proof -
  assume "unat b < 128"
  then have "drop_bit 7 b = 0" by (simp add: drop_bit_eq_div word_unat_eq_iff unat_div)
  then have "\<not> bit b 7" by (simp add: bit_iff_odd_drop_bit)
  then have "b AND 2 ^ 7 = 0" by (simp only: and_exp_eq_0_iff_not_bit not_not simp_thms)
  then show ?thesis by simp
qed

lemma and_FF: "(x :: u16) AND 0xFF = take_bit 8 x"
  by (simp add: take_bit_eq_mask mask_eq_exp_minus_1)

lemma tlv_len_len_bytes: "tlv_len (len_bytes len @ r) = Some (len, r)"
proof (cases "len < 0x80")
  case True
  then have len: "unat len < 128" by (simp add: word_less_nat_alt)
  then have "(ucast (ucast len :: byte) :: u32) = len"
    by (simp add: word_unat_eq_iff unsigned_ucast_eq unsigned_take_bit_eq take_bit_nat_eq_self)
  moreover have "(ucast len :: byte) AND 0x80 = 0"
    using len byte_and_80 [of "ucast len"] by (simp add: unsigned_ucast_eq take_bit_nat_eq_self)
  ultimately show ?thesis using True by (simp add: len_bytes_def)
next
  case False
  let ?k = "byte_count len"
  have "?k \<in> {0,1,2,3,4}" using byte_count_le_4 [of len] by auto
  then have "(0x80 OR of_nat ?k :: byte) AND 0x80 \<noteq> 0" "unat ((0x80 OR of_nat ?k :: byte) AND 0x7F) = ?k"
    by auto
  moreover have "take_bit (8 * ?k) len = len"
    using drop_bit_byte_count [of len] bits_ident [of "8 * ?k" len] by simp
  then have "be_value (len_digits ?k len) = len"
    by (simp add: be_value_def be_value_len_digits)
  ultimately show ?thesis using False by (simp add: len_bytes_def)
qed

text \<open>The tags the reader reads back: the second byte is there exactly when the first announces it.\<close>

definition tag_wf :: "u16 \<Rightarrow> bool" where
  "tag_wf tag \<longleftrightarrow> (if drop_bit 8 tag \<noteq> 0 then drop_bit 8 tag AND 0x1F = 0x1F else tag AND 0x1F \<noteq> 0x1F)"

lemma tlv_tag_tag_bytes: "tag_wf tag \<Longrightarrow> tlv_tag (tag_bytes tag @ r) = Some (tag, r)"
proof -
  have hi: "(ucast (ucast (drop_bit 8 tag) :: byte) :: u16) = drop_bit 8 tag"
    by (rule bit_word_eqI) (auto simp: bit_simps dest: bit_imp_le_length)
  have lo: "(ucast (ucast (tag AND 0xFF) :: byte) :: u16) = take_bit 8 tag"
    by (rule bit_word_eqI) (auto simp: bit_simps and_FF)
  have "push_bit 8 (drop_bit 8 tag) OR take_bit 8 tag = tag"
    by (rule bit_word_eqI) (auto simp: bit_simps)
  moreover from bits_ident [of 8 tag] have "take_bit 8 tag = tag" if "drop_bit 8 tag = 0"
    using that by simp
  moreover assume "tag_wf tag"
  ultimately show ?thesis by (auto simp: tag_bytes_def tag_wf_def hi lo)
qed


text \<open>Trees of tagged nodes with readable tags.\<close>

fun tree_wf :: "der_tree \<Rightarrow> bool" where
  "tree_wf (DNode node child) \<longleftrightarrow> \<not> p_headless node \<and> tag_wf (p_tag node)"

fun tree_item :: "der_tree \<Rightarrow> u16 \<times> byte list \<times> byte list" where
  "tree_item (DNode node child) = (p_tag node, tree_body node child, der_enc (DNode node child))"

lemma tlv_decode_der_enc:
  assumes "tree_wf t" "length (der_enc t) < 4294967296" "tree_item t = (tag, val, enc)"
  shows "tlv_decode (der_enc t @ rest) = Some (tag, val, rest)"
proof (cases t)
  case (DNode node child)
  have enc: "der_enc t = tag_bytes (p_tag node) @
      len_bytes (of_nat (length (tree_body node child))) @ tree_body node child"
    using assms(1) by (simp add: DNode der_enc_node)
  with assms(2) have "length (tree_body node child) < 4294967296" by simp
  then show ?thesis
    using assms(1,3) unfolding enc
    by (simp add: tlv_decode_def tlv_tag_tag_bytes tlv_len_len_bytes DNode)
qed

theorem tlv_items_der_encs:
  assumes "list_all tree_wf ts" "length (der_encs ts) < 4294967296"
  shows "tlv_items (der_encs ts) = map tree_item ts"
  using assms
proof (induction ts)
  case Nil
  then show ?case by (simp add: tlv_items.simps tlv_decode_def)
next
  case (Cons t ts)
  obtain tag val where item: "tree_item t = (tag, val, der_enc t)" by (cases t) simp
  with Cons tlv_decode_der_enc [of t tag val "der_enc t" "der_encs ts"] show ?case
    by (simp add: tlv_items.simps [of "der_enc t @ der_encs ts"])
qed

end
