(* ===== verification/Derconv.thy ===== *)
theory Derconv
  imports Derpack
begin

text \<open>
  \<open>euicc/derutil.c\<close>, the conversions between element contents and C values: big-endian integers
  (\<open>long\<close>), and the BIT STRINGs that carry capability sets. The lemmas show that what
  \<open>long2bin\<close> writes \<open>bin2long\<close> reads back, that the two passes of \<open>bin2bits_str\<close> agree (so the
  array it allocates is exactly filled), and which first bytes make it shift out of range.

  \<open>long\<close> has 64 bits and shifts of signed values work on the two's complement representation;
  \<open>char\<close> is signed.
\<close>

subsection \<open>Integers\<close>

fun bin2long_loop :: "nat \<Rightarrow> cptr \<Rightarrow> u64 \<Rightarrow> u64 cres" where
  "bin2long_loop 0 buffer result = Ret result"
| "bin2long_loop (Suc n) buffer result =
     cbind (deref buffer) (\<lambda>b. bin2long_loop n (tl buffer) (push_bit 8 result OR ucast b))"

definition euicc_derutil_convert_bin2long :: "cptr \<Rightarrow> u32 \<Rightarrow> u64 cres" where
  "euicc_derutil_convert_bin2long buffer buffer_len = bin2long_loop (unat buffer_len) buffer 0"

text \<open>The loop over \<open>i = 1, ..., 7\<close> that counts the bytes; \<open>k\<close> is the number of rounds left.\<close>

fun long2bin_required :: "nat \<Rightarrow> u64 \<Rightarrow> nat \<Rightarrow> nat" where
  "long2bin_required 0 value required_len = required_len"
| "long2bin_required (Suc k) value required_len =
     (let i = 7 - k in
      if signed_drop_bit (8 * i) value \<noteq> 0 then long2bin_required k value (required_len + 1)
      else if sint value > 0 \<and> signed_drop_bit (8 * (i - 1)) value AND 0x80 \<noteq> 0
      then required_len + 1 else required_len)"

fun long2bin_store :: "nat \<Rightarrow> u64 \<Rightarrow> cbuf \<Rightarrow> nat \<Rightarrow> cbuf cres" where
  "long2bin_store 0 value buffer i = Ret buffer"
| "long2bin_store (Suc k) value buffer i =
     cbind (cstore buffer i (ucast (signed_drop_bit (8 * k) value AND 0xFF))) (\<lambda>buffer.
     long2bin_store k value buffer (i + 1))"

definition euicc_derutil_convert_long2bin :: "cbuf \<Rightarrow> u32 \<Rightarrow> u64 \<Rightarrow> (cbuf \<times> u32) cres" where
  "euicc_derutil_convert_long2bin buffer buffer_len value =
     (let required_len = long2bin_required 7 value 1 in
      if of_nat required_len > buffer_len then Fail
      else cbind (long2bin_store required_len value buffer 0) (\<lambda>buffer.
           Ret (buffer, of_nat required_len)))"

definition be_value64 :: "byte list \<Rightarrow> u64" where
  "be_value64 bs = foldl (\<lambda>r b. push_bit 8 r OR ucast b) 0 bs"

lemma bin2long_loop_eq:
  "n \<le> length p \<Longrightarrow>
    bin2long_loop n p r = Ret (foldl (\<lambda>r b. push_bit 8 r OR ucast b) r (take n p))"
proof (induction n arbitrary: p r)
  case (Suc n)
  then show ?case by (cases p) simp_all
qed simp

theorem bin2long_eq:
  "slice_ok p len \<Longrightarrow> euicc_derutil_convert_bin2long p len = Ret (be_value64 (slice_bytes p len))"
  by (simp add: euicc_derutil_convert_bin2long_def bin2long_loop_eq be_value64_def slice_ok_def
      slice_bytes_def)

lemma post_bin2long [wp]:
  "slice_ok p len \<Longrightarrow> (\<And>v. Q v) \<Longrightarrow> post (euicc_derutil_convert_bin2long p len) Q"
  by (simp add: bin2long_eq)

definition long_digits :: "nat \<Rightarrow> u64 \<Rightarrow> byte list" where
  "long_digits k value = map (\<lambda>i. ucast (signed_drop_bit (8 * i) value AND 0xFF)) (rev [0..<k])"

lemma long_digits_Suc:
  "long_digits (Suc k) value = ucast (signed_drop_bit (8 * k) value AND 0xFF) # long_digits k value"
  by (simp add: long_digits_def)

lemma length_long_digits [simp]: "length (long_digits k value) = k"
  by (simp add: long_digits_def)

lemma long2bin_store_eq:
  "w + k \<le> length buffer \<Longrightarrow>
    long2bin_store k value buffer w = Ret (put_bytes buffer w (long_digits k value))"
proof (induction k arbitrary: buffer w)
  case 0
  then show ?case by (simp add: long_digits_def)
next
  case (Suc k)
  let ?d = "ucast (signed_drop_bit (8 * k) value AND 0xFF) :: byte"
  have "put_bytes (put_bytes buffer w [?d]) (w + 1) xs = put_bytes buffer w (?d # xs)" for xs
    using put_bytes_twice [of w "[?d]" buffer xs] Suc.prems by simp
  with Suc show ?case by (simp add: cstore_put long_digits_Suc)
qed

lemma long2bin_required_bounds:
  "required \<le> long2bin_required k value required \<and> long2bin_required k value required \<le> required + k"
proof (induction k arbitrary: required)
  case (Suc k)
  from Suc [of "Suc required"] show ?case by (simp add: Let_def)
qed simp

theorem long2bin_eq:
  fixes val :: u64
  defines "k \<equiv> long2bin_required 7 val 1"
  assumes "unat buffer_len \<le> length buffer"
  shows "euicc_derutil_convert_long2bin buffer buffer_len val =
    (if unat buffer_len < k then Fail
     else Ret (long_digits k val @ drop k buffer, of_nat k))"
proof -
  have "k \<le> 8" using long2bin_required_bounds [of 1 7 val] by (simp add: k_def)
  then show ?thesis
    using assms long2bin_store_eq [of 0 k buffer val]
    by (auto simp: euicc_derutil_convert_long2bin_def Let_def k_def [symmetric] word_less_nat_alt put_bytes_def)
qed

lemma and_FF64: "(x :: u64) AND 0xFF = take_bit 8 x"
  by (simp add: take_bit_eq_mask mask_eq_exp_minus_1)

lemma foldl_long_digits:
  assumes "k \<le> 8"
  shows "foldl (\<lambda>r b. push_bit 8 r OR ucast b) acc (long_digits k value) =
    push_bit (8 * k) acc OR take_bit (8 * k) value"
  using assms
proof (induction k arbitrary: acc)
  case 0
  then show ?case by (simp add: long_digits_def)
next
  case (Suc k)
  have "push_bit (8 * k) (push_bit 8 acc OR
        ucast (ucast (signed_drop_bit (8 * k) value AND 0xFF) :: byte)) OR
      take_bit (8 * k) value = push_bit (8 * Suc k) acc OR take_bit (8 * Suc k) value"
    using Suc.prems
    by (intro bit_word_eqI) (auto simp: bit_simps and_FF64 add.commute [of 8] min_def)
  with Suc show ?case by (simp add: long_digits_Suc)
qed

lemma take_bit_selfI: "(\<And>m. n \<le> m \<Longrightarrow> \<not> bit v m) \<Longrightarrow> take_bit n (v :: u64) = v"
  by (rule bit_word_eqI) (auto simp: bit_take_bit_iff, meson not_less)

lemma signed_drop_bit_zero:
  assumes "signed_drop_bit n (v :: u64) = 0" "n < 64"
  shows "take_bit n v = v" "n \<le> m \<Longrightarrow> \<not> bit v m"
proof -
  have bit0: "\<not> bit v m" if "n \<le> m" for m
  proof
    assume b: "bit v m"
    then have "m < 64" by (auto dest: bit_imp_le_length)
    with b that have "bit (signed_drop_bit n v) (m - n)"
      by (auto simp: bit_signed_drop_bit_iff split: if_splits)
    with assms show False by simp
  qed
  then show "n \<le> m \<Longrightarrow> \<not> bit v m" by blast
  show "take_bit n v = v" by (rule take_bit_selfI) (rule bit0)
qed

lemma and_80_bit: "(x :: u64) AND 0x80 \<noteq> 0 \<longleftrightarrow> bit x 7"
  using and_exp_eq_0_iff_not_bit [of x 7] by simp

lemma sint_pos_iff: "\<not> bit (v :: u64) 63 \<Longrightarrow> v \<noteq> 0 \<Longrightarrow> sint v > 0"
proof -
  assume "\<not> bit v 63" "v \<noteq> 0"
  then have "sint v \<ge> 0" using bit_last_iff [of v] by simp
  moreover have "sint v \<noteq> 0" using \<open>v \<noteq> 0\<close> by (metis signed_0 signed_word_eqI)
  ultimately show ?thesis by simp
qed

lemma long2bin_required_enough:
  fixes v :: u64
  assumes "k \<le> 7" "r = long2bin_required k v (8 - k)"
  shows "take_bit (8 * r) v = v \<and> (\<not> bit v 63 \<longrightarrow> \<not> bit v (8 * r - 1))"
  using assms
proof (induction k)
  case 0
  then show ?case by (simp add: take_bit_word_eq_self)
next
  case (Suc k)
  let ?i = "7 - k"
  show ?case
  proof (cases "signed_drop_bit (8 * ?i) v \<noteq> 0")
    case True
    moreover have "8 - Suc k + 1 = 8 - k" using Suc.prems by simp
    ultimately show ?thesis using Suc by (simp add: Suc_diff_le)
  next
    case False
    then have z: "take_bit (8 * ?i) v = v" "8 * ?i \<le> m \<Longrightarrow> \<not> bit v m" for m
      using signed_drop_bit_zero [of "8 * ?i" v] Suc.prems by auto
    have up: "take_bit (8 * Suc ?i) v = v"
      by (rule take_bit_selfI) (rule z(2), simp)
    show ?thesis
    proof (cases "sint v > 0 \<and> signed_drop_bit (8 * (?i - 1)) v AND 0x80 \<noteq> 0")
      case True
      then have "r = Suc ?i" using False Suc.prems by (simp add: Let_def)
      with up z(2) [of "8 * Suc ?i - 1"] show ?thesis by simp
    next
      case noextra: False
      then have r: "r = ?i" using False Suc.prems by (auto simp: Let_def)
      have "\<not> bit v (8 * ?i - 1)" if "\<not> bit v 63"
      proof (cases "v = 0")
        case False
        with noextra that have "\<not> bit (signed_drop_bit (8 * (?i - 1)) v) 7"
          by (simp add: and_80_bit sint_pos_iff)
        moreover have "8 * (?i - 1) + 7 = 8 * ?i - 1" "8 * ?i - 1 < 63" using Suc.prems by auto
        ultimately show ?thesis by (auto simp: bit_signed_drop_bit_iff split: if_splits)
      qed simp
      with r z(1) show ?thesis by simp
    qed
  qed
qed

lemmas long2bin_enough = long2bin_required_enough [of 7, simplified, OF refl]

theorem be_value64_long_digits:
  "be_value64 (long_digits (long2bin_required 7 v 1) v) = v"
  using long2bin_required_bounds [of 1 7 v] long2bin_enough [of v]
  by (simp add: be_value64_def foldl_long_digits)

subsection \<open>Bit strings\<close>

definition euicc_derutil_convert_bits2bin_sizeof :: "u32 list \<Rightarrow> u32" where
  "euicc_derutil_convert_bits2bin_sizeof bits =
     (let max_bit = foldl (\<lambda>m b. if b > m then b else m) 0 bits in (max_bit + 8) div 8 + 1)"

definition set_flag :: "u32 \<Rightarrow> cbuf \<Rightarrow> cbuf cres" where
  "set_flag b buffer =
     (let i = unat (b div 8 + 1) in
      cbind (cload buffer i) (\<lambda>x.
      cstore buffer i (x OR ucast (push_bit (unat (7 - b mod 8)) (1 :: u32)))))"

definition euicc_derutil_convert_bits2bin :: "cbuf \<Rightarrow> u32 \<Rightarrow> u32 list \<Rightarrow> cbuf cres" where
  "euicc_derutil_convert_bits2bin buffer buffer_len bits =
     (if buffer_len < euicc_derutil_convert_bits2bin_sizeof bits then Fail
      else cbind (memset buffer 0 0 (unat buffer_len)) (\<lambda>buffer.
           cbind (cstore buffer 0 0) (\<lambda>buffer. cfold set_flag bits buffer)))"

definition euicc_derutil_convert_bits2bin_alloc :: "u32 list \<Rightarrow> (cbuf \<times> u32) cres" where
  "euicc_derutil_convert_bits2bin_alloc bits =
     (let buffer_len = euicc_derutil_convert_bits2bin_sizeof bits in
      cbind (euicc_derutil_convert_bits2bin (replicate (unat buffer_len) 0) buffer_len bits)
        (\<lambda>buffer. Ret (buffer, buffer_len)))"

text \<open>
  \<open>bin2bits_str\<close> runs the same two nested loops twice, once to count the flags and once to collect
  their names; \<open>each_flag\<close> and \<open>each_byte\<close> are these loops with the action on a set flag as an
  argument. The shift amount is checked, as C requires.
\<close>

definition bits_flags_reg :: "byte \<Rightarrow> bool \<Rightarrow> byte \<Rightarrow> u32 cres" where
  "bits_flags_reg unused is_last b =
     (if is_last then
        (let sh = 8 - sint unused in
         if sh < 0 \<or> sh > 31 then UB
         else Ret (ucast b AND NOT (drop_bit (nat sh) 0xFF)))
      else Ret (ucast b))"

fun each_flag :: "nat \<Rightarrow> nat \<Rightarrow> nat \<Rightarrow> u32 \<Rightarrow> (nat \<Rightarrow> 's \<Rightarrow> 's cres) \<Rightarrow> 's \<Rightarrow> 's cres" where
  "each_flag 0 j max_cap_len flags_reg act s = Ret s"
| "each_flag (Suc k) j max_cap_len flags_reg act s =
     (let i = 7 - k in
      if j * 8 + i < max_cap_len then
        cbind (if flags_reg AND 0x80 \<noteq> 0 then act (j * 8 + i) s else Ret s) (\<lambda>s.
        each_flag k j max_cap_len (push_bit 1 flags_reg) act s)
      else Ret s)"

fun each_byte ::
  "nat \<Rightarrow> byte \<Rightarrow> cptr \<Rightarrow> nat \<Rightarrow> nat \<Rightarrow> (nat \<Rightarrow> 's \<Rightarrow> 's cres) \<Rightarrow> 's \<Rightarrow> 's cres" where
  "each_byte 0 unused buffer j max_cap_len act s = Ret s"
| "each_byte (Suc n) unused buffer j max_cap_len act s =
     cbind (deref buffer) (\<lambda>b.
     cbind (bits_flags_reg unused (n = 0) b) (\<lambda>flags_reg.
     cbind (each_flag 8 j max_cap_len flags_reg act s) (\<lambda>s.
     each_byte n unused (tl buffer) (j + 1) max_cap_len act s)))"

text \<open>The names are an array of \<open>char *\<close> with a NULL (\<open>None\<close>) at its end.\<close>

definition euicc_derutil_convert_bin2bits_str ::
  "cptr \<Rightarrow> u32 \<Rightarrow> cstr list \<Rightarrow> cstr option list cres" where
  "euicc_derutil_convert_bin2bits_str buffer buffer_len desc =
     (if sint buffer_len < 1 then Fail
      else cbind (deref buffer) (\<lambda>unused.
        let buffer = tl buffer; n = nat (sint buffer_len) - 1; max_cap_len = length desc in
        cbind (each_byte n unused buffer 0 max_cap_len (\<lambda>_ c. Ret (c + 1)) 0) (\<lambda>flags_count.
        cbind (each_byte n unused buffer 0 max_cap_len
                (\<lambda>k (w, output). cbind (cload desc k) (\<lambda>d.
                   cbind (cstore output w (Some d)) (\<lambda>output. Ret (w + 1, output))))
                (0, replicate (flags_count + 1) None)) (\<lambda>(w, output).
        Ret output))))"

text \<open>The reference: flag \<open>k\<close> is bit \<open>7 - k mod 8\<close> of byte \<open>k div 8\<close>, unused bits cleared.\<close>

definition used_mask :: "byte \<Rightarrow> nat \<Rightarrow> nat \<Rightarrow> bool" where
  "used_mask unused n k \<longleftrightarrow> (Suc (k div 8) = n \<longrightarrow> nat (sint unused) \<le> 7 - k mod 8)"

definition flag_in :: "byte \<Rightarrow> byte list \<Rightarrow> nat \<Rightarrow> bool" where
  "flag_in unused bs k \<longleftrightarrow> bit (bs ! (k div 8)) (7 - k mod 8) \<and> used_mask unused (length bs) k"

definition flags_of :: "byte \<Rightarrow> byte list \<Rightarrow> nat \<Rightarrow> nat list" where
  "flags_of unused bs m = filter (flag_in unused bs) [0..<min (8 * length bs) m]"

lemma u32_and_80_bit: "(x :: u32) AND 0x80 \<noteq> 0 \<longleftrightarrow> bit x 7"
  using and_exp_eq_0_iff_not_bit [of x 7] by simp

lemma each_flag_eq:
  "k \<le> 8 \<Longrightarrow> each_flag k j m (push_bit (8 - k) fr) act s =
    cfold act (filter (\<lambda>x. bit fr (7 - x mod 8)) [8 * j + (8 - k)..<min (8 * j + 8) m]) s"
proof (induction k arbitrary: s)
  case (Suc k)
  let ?i = "7 - k"
  have i: "8 - Suc k = ?i" "8 - k = Suc ?i" "?i < 8" using Suc.prems by auto
  have b: "bit (push_bit ?i fr) 7 \<longleftrightarrow> bit fr (7 - ?i)"
    by (simp add: bit_push_bit_iff)
  have sh: "push_bit 1 (push_bit ?i fr) = push_bit (Suc ?i) fr" by simp
  show ?case
  proof (cases "j * 8 + ?i < m")
    case True
    have up: "[8 * j + ?i..<min (8 * j + 8) m] = (8 * j + ?i) # [8 * j + Suc ?i..<min (8 * j + 8) m]"
      using True i(3) by (simp add: upt_conv_Cons mult.commute)
    have md: "(8 * j + ?i) mod 8 = ?i" using i(3) by simp
    show ?thesis
      unfolding each_flag.simps Let_def i(1) up
      using True Suc.IH Suc.prems
      by (simp only: if_True u32_and_80_bit b sh i(2) filter.simps md)
        (simp add: mult.commute cong: cbind_cong)
  next
    case False
    then have "min (8 * j + 8) m \<le> 8 * j + ?i" by simp
    with False show ?thesis by (simp add: i)
  qed
qed simp

lemma bit_FF: "bit (0xFF :: u32) m \<longleftrightarrow> m < 8"
proof -
  have "(0xFF :: u32) = mask 8" by (simp add: mask_eq_exp_minus_1)
  then show ?thesis by (simp only: bit_mask_iff) auto
qed

lemma bit_used_flags:
  "bit (ucast (b :: byte) AND NOT (drop_bit sh 0xFF) :: u32) p \<longleftrightarrow> bit b p \<and> 8 \<le> sh + p"
  by (auto simp: bit_and_iff bit_not_iff bit_ucast_iff bit_drop_bit_eq bit_FF
      simp del: bit_numeral_word_iff dest: bit_imp_le_length)

lemma bits_flags_reg_eq:
  assumes "is_last \<Longrightarrow> -23 \<le> sint unused \<and> sint unused \<le> 8"
  obtains fr where "bits_flags_reg unused is_last b = Ret fr"
    "\<And>i. i < 8 \<Longrightarrow> bit fr (7 - i) \<longleftrightarrow> bit b (7 - i) \<and> (is_last \<longrightarrow> nat (sint unused) \<le> 7 - i)"
proof (cases is_last)
  case True
  let ?sh = "nat (8 - sint unused)"
  let ?fr = "ucast b AND NOT (drop_bit ?sh 0xFF) :: u32"
  have "bits_flags_reg unused is_last b = Ret ?fr"
    using assms True by (simp add: bits_flags_reg_def Let_def)
  moreover have "bit ?fr (7 - i) \<longleftrightarrow> bit b (7 - i) \<and> nat (sint unused) \<le> 7 - i" if "i < 8" for i
    using that assms True by (auto simp: bit_used_flags)
  ultimately show ?thesis using that True by blast
next
  case False
  then show ?thesis
    by (intro that [of "ucast b"]) (auto simp: bits_flags_reg_def bit_simps dest: bit_imp_le_length)
qed

lemma cfold_append: "cfold f (xs @ ys) s = cbind (cfold f xs s) (cfold f ys)"
  by (induction xs arbitrary: s) (auto simp: cbind_assoc cong: cbind_cong)

lemma each_byte_eq:
  assumes "length bs = j + n" "n > 0 \<Longrightarrow> -23 \<le> sint unused \<and> sint unused \<le> 8"
  shows "each_byte n unused (drop j bs @ junk) j m act s =
    cfold act (filter (flag_in unused bs) [8 * j..<min (8 * (j + n)) m]) s"
  using assms
proof (induction n arbitrary: j s)
  case (Suc n)
  then have dr: "drop j bs = bs ! j # drop (Suc j) bs" by (simp add: Cons_nth_drop_Suc)
  obtain fr where fr: "bits_flags_reg unused (n = 0) (bs ! j) = Ret fr"
    "\<And>i. i < 8 \<Longrightarrow> bit fr (7 - i) \<longleftrightarrow> bit (bs ! j) (7 - i) \<and> (n = 0 \<longrightarrow> nat (sint unused) \<le> 7 - i)"
    using bits_flags_reg_eq [of "n = 0" unused "bs ! j"] Suc.prems by auto
  have "filter (\<lambda>x. bit fr (7 - x mod 8)) [8 * j..<min (8 * j + 8) m] =
      filter (flag_in unused bs) [8 * j..<min (8 * j + 8) m]"
  proof (rule filter_cong [OF refl])
    fix x assume "x \<in> set [8 * j..<min (8 * j + 8) m]"
    then have "x div 8 = j" by auto
    then show "bit fr (7 - x mod 8) = flag_in unused bs x"
      using Suc.prems(1) fr(2) [of "x mod 8"] by (auto simp: flag_in_def used_mask_def)
  qed
  then have "each_flag 8 j m fr act s =
      cfold act (filter (flag_in unused bs) [8 * j..<min (8 * j + 8) m]) s"
    using each_flag_eq [of 8 j m fr act s] by simp
  moreover have "[8 * j..<min (8 * (j + Suc n)) m] =
      [8 * j..<min (8 * j + 8) m] @ [8 * Suc j..<min (8 * (Suc j + n)) m]"
  proof (cases "8 * j + 8 \<le> m")
    case True
    then show ?thesis using upt_add_eq_append [of "8 * j" "8 * j + 8" "min (8 * (j + Suc n)) m - (8 * j + 8)"]
      by (simp add: add.commute [of 8])
  qed simp
  ultimately show ?case
    using Suc.IH [of "Suc j"] Suc.prems fr(1) by (simp add: dr cfold_append cong: cbind_cong)
qed simp

lemma cfold_count: "cfold (\<lambda>_ c. Ret (c + 1)) xs n = Ret (n + length xs)"
  by (induction xs arbitrary: n) auto

lemma cfold_fill:
  assumes "\<forall>k \<in> set xs. k < length desc"
  shows "cfold (\<lambda>k (w, out). cbind (cload desc k) (\<lambda>d.
        cbind (cstore out w (Some d)) (\<lambda>out. Ret (w + 1, out))))
      xs (length done, map Some done @ replicate (length xs + 1) None) =
    Ret (length done + length xs, map Some (done @ map ((!) desc) xs) @ [None])"
  using assms
proof (induction xs arbitrary: "done")
  case (Cons k xs)
  have "(map Some done @ None # None # replicate (length xs) None)[length done := Some (desc ! k)] =
      map Some (done @ [desc ! k]) @ None # replicate (length xs) None"
    by (simp add: list_update_append)
  with Cons.IH [of "done @ [desc ! k]"] Cons.prems show ?case
    by (simp add: cload_def cstore_def)
qed simp


lemma sint_u32: "unat (len :: u32) < 2147483648 \<Longrightarrow> sint len = int (unat len)"
proof -
  assume "unat len < 2147483648"
  then have "int (unat len) < int 2147483648" by (simp only: of_nat_less_iff)
  then have "uint len < 2 ^ 31" by simp
  moreover have "sint len = signed_take_bit 31 (uint len)" by (simp add: sint_uint)
  moreover have "- (2 ^ 31) \<le> uint len" by (rule order_trans [of _ 0]) simp_all
  ultimately have "sint len = uint len" by (simp only: signed_take_bit_int_eq_self)
  then show ?thesis by (simp only: uint_nat)
qed

text \<open>The first byte of a BIT STRING for which the mask's shift amount is in range.\<close>

definition unused_ok :: "byte \<Rightarrow> bool" where
  "unused_ok unused \<longleftrightarrow> -23 \<le> sint unused \<and> sint unused \<le> 8"

theorem bin2bits_str_eq:
  assumes "slice_ok p len" "slice_bytes p len = unused # bs" "unat len < 2147483648"
    and "bs \<noteq> [] \<Longrightarrow> unused_ok unused"
  shows "euicc_derutil_convert_bin2bits_str p len desc =
    Ret (map (\<lambda>k. Some (desc ! k)) (flags_of unused bs (length desc)) @ [None])"
proof -
  define junk where "junk = drop (unat len) p"
  have p: "p = unused # bs @ junk"
    using assms(2) append_take_drop_id [of "unat len" p] by (simp add: junk_def slice_bytes_def)
  have len: "unat len = Suc (length bs)" using assms(1,2) length_slice_bytes [of p len] by simp
  with sint_u32 [OF assms(3)] have n: "\<not> sint len < 1" "nat (sint len) - 1 = length bs" by simp_all
  let ?fs = "flags_of unused bs (length desc)"
  have loop: "each_byte (length bs) unused (bs @ junk) 0 (length desc) act s = cfold act ?fs s"
    for act :: "nat \<Rightarrow> 's \<Rightarrow> 's cres" and s
    using each_byte_eq [of bs 0 "length bs" unused junk "length desc" act s] assms(4)
    by (simp add: flags_of_def unused_ok_def)
  have "\<forall>k \<in> set ?fs. k < length desc" by (auto simp: flags_of_def)
  from cfold_fill [OF this, of "[]"] n show ?thesis
    by (simp add: euicc_derutil_convert_bin2bits_str_def len p loop cfold_count [simplified] o_def Let_def)
qed

lemma each_flag_count: "\<exists>n. each_flag k j m fr (\<lambda>_ c. Ret (c + 1)) (s :: nat) = Ret n"
  by (induction k arbitrary: fr s) (auto simp: Let_def)

lemma each_byte_UB:
  assumes "\<not> unused_ok unused" "n = length bs" "bs \<noteq> []"
  shows "each_byte n unused (bs @ junk) j m (\<lambda>_ c. Ret (c + 1)) (s :: nat) = UB"
  using assms
proof (induction n arbitrary: bs j s)
  case (Suc n)
  then obtain b bs' where bs: "bs = b # bs'" "n = length bs'" by (cases bs) auto
  show ?case
  proof (cases "n = 0")
    case True
    with Suc.prems bs show ?thesis by (auto simp: bits_flags_reg_def unused_ok_def Let_def)
  next
    case False
    obtain s' where "each_flag 8 j m (ucast b) (\<lambda>_ c. Ret (c + 1)) s = Ret s'"
      using each_flag_count by blast
    with False Suc.IH [of bs'] Suc.prems bs show ?thesis by (auto simp: bits_flags_reg_def)
  qed
qed simp

theorem bin2bits_str_UB:
  assumes "slice_ok p len" "slice_bytes p len = unused # bs" "unat len < 2147483648"
    and "bs \<noteq> []" "\<not> unused_ok unused"
  shows "euicc_derutil_convert_bin2bits_str p len desc = UB"
proof -
  define junk where "junk = drop (unat len) p"
  have p: "p = unused # bs @ junk"
    using assms(2) append_take_drop_id [of "unat len" p] by (simp add: junk_def slice_bytes_def)
  have len: "unat len = Suc (length bs)" using assms(1,2) length_slice_bytes [of p len] by simp
  with sint_u32 [OF assms(3)] have n: "\<not> sint len < 1" "nat (sint len) - 1 = length bs" by simp_all
  show ?thesis
    using n each_byte_UB [OF assms(5) refl assms(4)]
    by (simp add: euicc_derutil_convert_bin2bits_str_def len p Let_def)
qed

lemma set_flag_eq:
  assumes "unat b div 8 + 1 < length buf" "unat b < 4294967288"
  shows "\<exists>buf'. set_flag b buf = Ret buf' \<and> length buf' = length buf \<and> buf' ! 0 = buf ! 0 \<and>
    (\<forall>k. k div 8 + 1 < length buf \<longrightarrow> bit (buf' ! (k div 8 + 1)) (7 - k mod 8) \<longleftrightarrow>
       bit (buf ! (k div 8 + 1)) (7 - k mod 8) \<or> k = unat b)"
proof -
  let ?i = "unat b div 8 + 1"
  have i: "unat (b div 8 + 1) = ?i"
    using assms by (simp add: unat_word_ariths unat_div)
  have sh: "unat (7 - b mod 8) = 7 - unat b mod 8"
    by (subst unat_sub) (simp_all add: word_le_nat_alt unat_mod)
  let ?x = "buf ! ?i OR ucast (push_bit (7 - unat b mod 8) (1 :: u32))"
  have bitx: "bit ?x (7 - m) \<longleftrightarrow> bit (buf ! ?i) (7 - m) \<or> m = unat b mod 8" if "m < 8" for m
    using that by (auto simp: bit_simps)
  have eq: "set_flag b buf = Ret (buf[?i := ?x])"
    using assms(1) by (simp add: set_flag_def Let_def i sh cload_def cstore_def)
  show ?thesis
  proof (intro exI conjI allI impI)
    fix k assume k: "k div 8 + 1 < length buf"
    have "k = unat b \<longleftrightarrow> k div 8 = unat b div 8 \<and> k mod 8 = unat b mod 8"
      by (metis div_mult_mod_eq)
    then show "bit (buf[?i := ?x] ! (k div 8 + 1)) (7 - k mod 8) \<longleftrightarrow>
       bit (buf ! (k div 8 + 1)) (7 - k mod 8) \<or> k = unat b"
      using k bitx [of "k mod 8"] by (cases "k div 8 = unat b div 8") (simp_all only:, simp_all)
  qed (use eq in simp_all)
qed

lemma cfold_set_flag:
  assumes "\<forall>b \<in> set bits. unat b div 8 + 1 < length buf \<and> unat b < 4294967288"
  shows "\<exists>buf'. cfold set_flag bits buf = Ret buf' \<and> length buf' = length buf \<and> buf' ! 0 = buf ! 0 \<and>
    (\<forall>k. k div 8 + 1 < length buf \<longrightarrow> bit (buf' ! (k div 8 + 1)) (7 - k mod 8) \<longleftrightarrow>
       bit (buf ! (k div 8 + 1)) (7 - k mod 8) \<or> k \<in> unat ` set bits)"
  using assms
proof (induction bits arbitrary: buf)
  case (Cons b bits)
  from set_flag_eq [of b buf] Cons.prems obtain buf1 where
    1: "set_flag b buf = Ret buf1" "length buf1 = length buf" "buf1 ! 0 = buf ! 0"
      "\<forall>k. k div 8 + 1 < length buf \<longrightarrow> bit (buf1 ! (k div 8 + 1)) (7 - k mod 8) \<longleftrightarrow>
       bit (buf ! (k div 8 + 1)) (7 - k mod 8) \<or> k = unat b"
    by auto
  from Cons.IH [of buf1] Cons.prems 1 show ?case by auto
qed simp

lemma foldl_max:
  "foldl (\<lambda>m b. if b > m then b else m) a bits = Max (insert a (set bits))" for a :: u32
proof (induction bits arbitrary: a)
  case (Cons b bits)
  have "Max (insert a (insert b (set bits))) = Max (insert (if b > a then b else a) (set bits))"
    by (cases "set bits = {}") (auto simp: max_def)
  with Cons show ?case by simp
qed simp


theorem bits2bin_alloc_eq:
  assumes "\<forall>b \<in> set bits. unat b < 4294967280"
  shows "\<exists>bs. euicc_derutil_convert_bits2bin_alloc bits = Ret (0 # bs, of_nat (Suc (length bs))) \<and>
    Suc (length bs) < 2147483648 \<and> (\<forall>b \<in> set bits. unat b < 8 * length bs) \<and>
    (\<forall>k < 8 * length bs. bit (bs ! (k div 8)) (7 - k mod 8) \<longleftrightarrow> k \<in> unat ` set bits)"
proof -
  let ?m = "Max (insert 0 (set bits)) :: u32"
  define n where "n = unat ?m div 8 + 1"
  have m: "unat ?m < 4294967280"
    using assms Max_in [of "insert 0 (set bits)"] by auto
  have "unat ((?m + 8) div 8) = (unat ?m + 8) div 8"
    using m by (simp add: unat_div unat_plus_u32)
  then have sz: "unat (euicc_derutil_convert_bits2bin_sizeof bits) = Suc n"
    using m by (simp add: euicc_derutil_convert_bits2bin_sizeof_def foldl_max Let_def n_def unat_plus_u32)
  have "unat b \<le> unat ?m" if "b \<in> set bits" for b
    using that by (simp flip: word_le_nat_alt)
  then have le: "unat b div 8 + 1 \<le> n" if "b \<in> set bits" for b
    using that by (simp add: n_def div_le_mono)
  obtain buf where buf: "cfold set_flag bits (replicate (Suc n) 0) = Ret buf" "length buf = Suc n"
      "buf ! 0 = 0"
      "\<forall>k. k div 8 + 1 < Suc n \<longrightarrow> (bit (buf ! (k div 8 + 1)) (7 - k mod 8) \<longleftrightarrow> k \<in> unat ` set bits)"
    using cfold_set_flag [of bits "replicate (Suc n) 0"] assms le by force
  obtain bs where bs: "buf = 0 # bs" "length bs = n" using buf(2,3) by (cases buf) auto
  have "euicc_derutil_convert_bits2bin_alloc bits =
      Ret (buf, euicc_derutil_convert_bits2bin_sizeof bits)"
    using buf(1) sz by (simp add: euicc_derutil_convert_bits2bin_alloc_def Let_def
        euicc_derutil_convert_bits2bin_def memset_def memcpy_def cstore_def)
  moreover have "euicc_derutil_convert_bits2bin_sizeof bits = of_nat (Suc n)"
    using sz by (simp flip: sz)
  moreover have "k div 8 + 1 < Suc n" if "k < 8 * n" for k using that by auto
  moreover have "unat b < 8 * n" if "b \<in> set bits" for b using le [OF that] by auto
  ultimately show ?thesis
    using bs buf(4) m by (intro exI [of _ bs]) (auto simp: n_def)
qed

theorem bits_roundtrip_strong:
  assumes "\<forall>b \<in> set bits. unat b < 4294967280"
  shows "\<exists>buf len. euicc_derutil_convert_bits2bin_alloc bits = Ret (buf, len) \<and>
    euicc_derutil_convert_bin2bits_str buf len desc =
      Ret (map (\<lambda>k. Some (desc ! k)) (filter (\<lambda>k. k \<in> unat ` set bits) [0..<length desc]) @ [None])"
proof -
  obtain bs where bs: "euicc_derutil_convert_bits2bin_alloc bits = Ret (0 # bs, of_nat (Suc (length bs)))"
    "Suc (length bs) < 2147483648" "\<forall>b \<in> set bits. unat b < 8 * length bs"
    "\<forall>k < 8 * length bs. bit (bs ! (k div 8)) (7 - k mod 8) \<longleftrightarrow> k \<in> unat ` set bits"
    using bits2bin_alloc_eq [OF assms] by blast
  have len: "unat (of_nat (Suc (length bs)) :: u32) = Suc (length bs)"
    by (rule unat_of_nat_u32) (use bs(2) in simp)
  have "flags_of 0 bs (length desc) = filter (\<lambda>k. k \<in> unat ` set bits) [0..<min (8 * length bs) (length desc)]"
    unfolding flags_of_def
    by (rule filter_cong [OF refl]) (use bs(4) in \<open>auto simp: flag_in_def used_mask_def\<close>)
  also have "\<dots> = filter (\<lambda>k. k \<in> unat ` set bits) [0..<length desc]"
  proof (cases "8 * length bs \<le> length desc")
    case True
    then have "[0..<length desc] = [0..<8 * length bs] @ [8 * length bs..<length desc]"
      using upt_add_eq_append [of 0 "8 * length bs" "length desc - 8 * length bs"] by simp
    moreover have "filter (\<lambda>k. k \<in> unat ` set bits) [8 * length bs..<length desc] = []"
      using bs(3) by (auto simp: filter_empty_conv not_less)
    ultimately show ?thesis using True by simp
  qed simp
  finally show ?thesis
    using bin2bits_str_eq [of "0 # bs" "of_nat (Suc (length bs))" 0 bs desc] bs(1,2) len
    by (auto simp: slice_ok_def slice_bytes_def unused_ok_def simp del: of_nat_Suc)
qed


end
