(* ===== verification/Base64.thy ===== *)
theory Base64
  imports Prelude
begin

text \<open>
  \<open>euicc/base64.c\<close>: the base64 coder of the ES9+ messages. Neither function takes the capacity of
  its output, the callers allocate what \<open>euicc_base64_decode_len\<close> and \<open>euicc_base64_encode_len\<close>
  answer; the lemmas show that these answers are always enough, give the result of both coders on
  every input, and the round trip.

  A coded string is a pointer to its bytes with the terminating NUL among them. Table entries and
  characters are bytes: the C code computes on \<open>int\<close> and converts to \<open>unsigned char\<close>, which keeps
  the same low eight bits.
\<close>

subsection \<open>The code\<close>

definition basis_64 :: cstr where
  "basis_64 = cstr ''ABCDEFGHIJKLMNOPQRSTUVWXYZabcdefghijklmnopqrstuvwxyz0123456789+/''"

definition pr2six :: "byte list" where
  "pr2six = [
     64, 64, 64, 64, 64, 64, 64, 64, 64, 64, 64, 64, 64, 64, 64, 64, 64, 64, 64, 64, 64, 64, 64, 64,
     64, 64, 64, 64, 64, 64, 64, 64, 64, 64, 64, 64, 64, 64, 64, 64, 64, 64, 64, 62, 64, 64, 64, 63,
     52, 53, 54, 55, 56, 57, 58, 59, 60, 61, 64, 64, 64, 64, 64, 64, 64, 0, 1, 2, 3, 4, 5, 6,
     7, 8, 9, 10, 11, 12, 13, 14, 15, 16, 17, 18, 19, 20, 21, 22, 23, 24, 25, 64, 64, 64, 64, 64,
     64, 26, 27, 28, 29, 30, 31, 32, 33, 34, 35, 36, 37, 38, 39, 40, 41, 42, 43, 44, 45, 46, 47, 48,
     49, 50, 51, 64, 64, 64, 64, 64, 64, 64, 64, 64, 64, 64, 64, 64, 64, 64, 64, 64, 64, 64, 64, 64,
     64, 64, 64, 64, 64, 64, 64, 64, 64, 64, 64, 64, 64, 64, 64, 64, 64, 64, 64, 64, 64, 64, 64, 64,
     64, 64, 64, 64, 64, 64, 64, 64, 64, 64, 64, 64, 64, 64, 64, 64, 64, 64, 64, 64, 64, 64, 64, 64,
     64, 64, 64, 64, 64, 64, 64, 64, 64, 64, 64, 64, 64, 64, 64, 64, 64, 64, 64, 64, 64, 64, 64, 64,
     64, 64, 64, 64, 64, 64, 64, 64, 64, 64, 64, 64, 64, 64, 64, 64, 64, 64, 64, 64, 64, 64, 64, 64,
     64, 64, 64, 64, 64, 64, 64, 64, 64, 64, 64, 64, 64, 64, 64, 64]"

text \<open>\<open>while (pr2six[*(bufin++)] <= 63);\<close> and the count of characters passed before the last one.\<close>

fun nprbytes_from :: "cptr \<Rightarrow> nat \<Rightarrow> nat cres" where
  "nprbytes_from [] n = UB"
| "nprbytes_from (c # bufin) n =
     (if pr2six ! unat c \<le> 63 then nprbytes_from bufin (n + 1) else Ret n)"

definition euicc_base64_decode_len :: "cptr \<Rightarrow> nat cres" where
  "euicc_base64_decode_len bufcoded =
     cbind (nprbytes_from bufcoded 0) (\<lambda>nprbytes. Ret ((nprbytes + 3) div 4 * 3 + 1))"

definition six :: "cptr \<Rightarrow> nat \<Rightarrow> byte cres" where
  "six bufin i = cbind (cload bufin i) (\<lambda>c. Ret (pr2six ! unat c))"

definition dec0 :: "byte \<Rightarrow> byte \<Rightarrow> byte" where
  "dec0 x0 x1 = push_bit 2 x0 OR drop_bit 4 x1"

definition dec1 :: "byte \<Rightarrow> byte \<Rightarrow> byte" where
  "dec1 x1 x2 = push_bit 4 x1 OR drop_bit 2 x2"

definition dec2 :: "byte \<Rightarrow> byte \<Rightarrow> byte" where
  "dec2 x2 x3 = push_bit 6 x2 OR x3"

text \<open>\<open>*(bufout++) = f(pr2six[bufin[i]], pr2six[bufin[i + 1]]);\<close>\<close>

definition put_dec ::
  "(byte \<Rightarrow> byte \<Rightarrow> byte) \<Rightarrow> nat \<Rightarrow> cptr \<Rightarrow> cbuf \<Rightarrow> nat \<Rightarrow> (cbuf \<times> nat) cres" where
  "put_dec f i bufin bufplain w =
     cbind (six bufin i) (\<lambda>x. cbind (six bufin (i + 1)) (\<lambda>y.
     cbind (cstore bufplain w (f x y)) (\<lambda>bufplain. Ret (bufplain, w + 1))))"

fun decode_from :: "cbuf \<Rightarrow> nat \<Rightarrow> cptr \<Rightarrow> nat \<Rightarrow> (cbuf \<times> nat \<times> nat) cres" where
  "decode_from bufplain w bufin nprbytes =
     (if nprbytes > 4 then
        cbind (put_dec dec0 0 bufin bufplain w) (\<lambda>(bufplain, w).
        cbind (put_dec dec1 1 bufin bufplain w) (\<lambda>(bufplain, w).
        cbind (put_dec dec2 2 bufin bufplain w) (\<lambda>(bufplain, w).
        decode_from bufplain w (drop 4 bufin) (nprbytes - 4))))
      else
        cbind (if nprbytes > 1 then put_dec dec0 0 bufin bufplain w else Ret (bufplain, w))
          (\<lambda>(bufplain, w).
        cbind (if nprbytes > 2 then put_dec dec1 1 bufin bufplain w else Ret (bufplain, w))
          (\<lambda>(bufplain, w).
        cbind (if nprbytes > 3 then put_dec dec2 2 bufin bufplain w else Ret (bufplain, w))
          (\<lambda>(bufplain, w). Ret (bufplain, w, nprbytes)))))"

definition euicc_base64_decode :: "cbuf \<Rightarrow> cptr \<Rightarrow> (cbuf \<times> int) cres" where
  "euicc_base64_decode bufplain bufcoded =
     cbind (nprbytes_from bufcoded 0) (\<lambda>nprbytes.
     let nbytesdecoded = int ((nprbytes + 3) div 4 * 3) in
     cbind (decode_from bufplain 0 bufcoded nprbytes) (\<lambda>(bufplain, w, nprbytes).
     cbind (cstore bufplain w 0) (\<lambda>bufplain.
     Ret (bufplain, nbytesdecoded - ((4 - int nprbytes) AND 3)))))"

definition euicc_base64_encode_len :: "nat \<Rightarrow> nat" where
  "euicc_base64_encode_len len = (len + 2) div 3 * 4 + 1"

definition enc0 :: "byte \<Rightarrow> byte" where
  "enc0 a = basis_64 ! unat (drop_bit 2 a AND 0x3F)"

definition enc1 :: "byte \<Rightarrow> byte \<Rightarrow> byte" where
  "enc1 a b = basis_64 ! unat (push_bit 4 (a AND 0x3) OR drop_bit 4 (b AND 0xF0))"

definition enc2 :: "byte \<Rightarrow> byte \<Rightarrow> byte" where
  "enc2 b c = basis_64 ! unat (push_bit 2 (b AND 0xF) OR drop_bit 6 (c AND 0xC0))"

definition enc3 :: "byte \<Rightarrow> byte" where
  "enc3 c = basis_64 ! unat (c AND 0x3F)"

text \<open>\<open>string\<close> points at the next input byte, \<open>len\<close> is the number of input bytes left.\<close>

fun encode_from :: "cbuf \<Rightarrow> nat \<Rightarrow> cptr \<Rightarrow> nat \<Rightarrow> (cbuf \<times> nat) cres" where
  "encode_from encoded p string 0 = Ret (encoded, p)"
| "encode_from encoded p string (Suc 0) =
     cbind (cload string 0) (\<lambda>a.
     cbind (cstore encoded p (enc0 a)) (\<lambda>encoded.
     cbind (cstore encoded (p + 1) (basis_64 ! unat (push_bit 4 (a AND 0x3)))) (\<lambda>encoded.
     cbind (cstore encoded (p + 2) 0x3D) (\<lambda>encoded.
     cbind (cstore encoded (p + 3) 0x3D) (\<lambda>encoded. Ret (encoded, p + 4))))))"
| "encode_from encoded p string (Suc (Suc 0)) =
     cbind (cload string 0) (\<lambda>a. cbind (cload string 1) (\<lambda>b.
     cbind (cstore encoded p (enc0 a)) (\<lambda>encoded.
     cbind (cstore encoded (p + 1) (enc1 a b)) (\<lambda>encoded.
     cbind (cstore encoded (p + 2) (basis_64 ! unat (push_bit 2 (b AND 0xF)))) (\<lambda>encoded.
     cbind (cstore encoded (p + 3) 0x3D) (\<lambda>encoded. Ret (encoded, p + 4)))))))"
| "encode_from encoded p string (Suc (Suc (Suc len))) =
     cbind (cload string 0) (\<lambda>a. cbind (cload string 1) (\<lambda>b. cbind (cload string 2) (\<lambda>c.
     cbind (cstore encoded p (enc0 a)) (\<lambda>encoded.
     cbind (cstore encoded (p + 1) (enc1 a b)) (\<lambda>encoded.
     cbind (cstore encoded (p + 2) (enc2 b c)) (\<lambda>encoded.
     cbind (cstore encoded (p + 3) (enc3 c)) (\<lambda>encoded.
     encode_from encoded (p + 4) (drop 3 string) len)))))))"

definition euicc_base64_encode :: "cbuf \<Rightarrow> cptr \<Rightarrow> nat \<Rightarrow> (cbuf \<times> nat) cres" where
  "euicc_base64_encode encoded string len =
     cbind (encode_from encoded 0 string len) (\<lambda>(encoded, p).
     cbind (cstore encoded p 0) (\<lambda>encoded. Ret (encoded, p + 1)))"

declare decode_from.simps [simp del]

subsection \<open>The reference coders\<close>

fun b64_dec :: "byte list \<Rightarrow> byte list" where
  "b64_dec (x0 # x1 # x2 # x3 # xs) = dec0 x0 x1 # dec1 x1 x2 # dec2 x2 x3 # b64_dec xs"
| "b64_dec [x0, x1, x2] = [dec0 x0 x1, dec1 x1 x2]"
| "b64_dec [x0, x1] = [dec0 x0 x1]"
| "b64_dec _ = []"

fun b64_enc :: "byte list \<Rightarrow> cstr" where
  "b64_enc [] = []"
| "b64_enc [a] = [enc0 a, enc1 a 0, 0x3D, 0x3D]"
| "b64_enc [a, b] = [enc0 a, enc1 a b, enc2 b 0, 0x3D]"
| "b64_enc (a # b # c # bs) = enc0 a # enc1 a b # enc2 b c # enc3 c # b64_enc bs"

text \<open>The characters of a coded string before its first character that is not one of the 64.\<close>

definition b64_value :: "byte \<Rightarrow> byte" where
  "b64_value c = pr2six ! unat c"

definition b64_char :: "byte \<Rightarrow> bool" where
  "b64_char c \<longleftrightarrow> b64_value c \<le> 63"

lemma basis_inverse: "i < 64 \<Longrightarrow> b64_value (basis_64 ! i) = of_nat i"
proof -
  assume "i < 64"
  then have "i \<in> set [0..<64]" by simp
  moreover have "list_all (\<lambda>i. b64_value (basis_64 ! i) = of_nat i) [0..<64]"
    by code_simp
  ultimately show ?thesis by (simp only: list_all_iff)
qed

lemma pad_values: "\<not> b64_char 0x3D" "\<not> b64_char 0"
  by code_simp+

lemma nprbytes_from_eq:
  "list_all b64_char cs \<Longrightarrow> \<not> b64_char c \<Longrightarrow> nprbytes_from (cs @ c # junk) n = Ret (n + length cs)"
  by (induction cs arbitrary: n) (simp_all add: b64_char_def b64_value_def)

lemma six_eq: "i < length p \<Longrightarrow> six p i = Ret (b64_value (p ! i))"
  by (simp add: six_def cload_def b64_value_def)

lemma put_dec_eq:
  "i + 1 < length p \<Longrightarrow> w < length out \<Longrightarrow>
    put_dec f i p out w = Ret (put_bytes out w [f (b64_value (p ! i)) (b64_value (p ! (i + 1)))], w + 1)"
  by (simp add: put_dec_def six_eq cstore_put)

definition tail_count :: "nat \<Rightarrow> nat" where
  "tail_count n = (if n = 0 then 0 else (n - 1) mod 4 + 1)"

lemma decode_from_eq:
  assumes "w + length (b64_dec (map b64_value cs)) \<le> length out"
  shows "decode_from out w (cs @ junk) (length cs) =
    Ret (put_bytes out w (b64_dec (map b64_value cs)), w + length (b64_dec (map b64_value cs)),
      tail_count (length cs))"
  using assms
proof (induction "map b64_value cs" arbitrary: cs out w rule: b64_dec.induct)
  case (1 x0 x1 x2 x3 xs)
  then obtain c0 c1 c2 c3 cs' where cs: "cs = c0 # c1 # c2 # c3 # cs'"
      "xs = map b64_value cs'" by (auto simp: Cons_eq_map_conv)
  show ?case
  proof (cases "cs' = []")
    case True
    with cs "1.prems" show ?thesis
      by (simp add: decode_from.simps put_dec_eq tail_count_def)
  next
    case False
    moreover from False have "tail_count (length cs) = tail_count (length cs')"
      by (cases cs') (simp_all add: cs tail_count_def)
    ultimately show ?thesis
      using cs "1.prems" "1.hyps"(1) [of cs' "Suc (Suc (Suc w))"]
      by (subst decode_from.simps) (simp add: put_dec_eq)
  qed
qed (auto simp: Cons_eq_map_conv decode_from.simps put_dec_eq tail_count_def)

lemma length_b64_dec:
  "int (length (b64_dec xs)) =
    int ((length xs + 3) div 4 * 3) - ((4 - int (tail_count (length xs))) AND 3)"
proof (induction xs rule: b64_dec.induct)
  case (1 x0 x1 x2 x3 xs)
  have "(length xs + 4 + 3) div 4 * 3 = (length xs + 3) div 4 * 3 + 3" by presburger
  with 1 show ?case by (cases xs) (simp_all add: tail_count_def)
qed (simp_all add: tail_count_def)

lemma length_b64_dec_le: "length (b64_dec xs) \<le> (length xs + 3) div 4 * 3"
proof -
  have "0 \<le> (4 - int (tail_count (length xs))) AND 3" by simp
  with length_b64_dec [of xs] show ?thesis by linarith
qed

theorem base64_decode_eq:
  assumes "list_all b64_char cs" "\<not> b64_char c" "length (b64_dec (map b64_value cs)) < length out"
  shows "euicc_base64_decode out (cs @ c # junk) =
    (let plain = b64_dec (map b64_value cs) in
     Ret (plain @ 0 # drop (Suc (length plain)) out, int (length plain)))"
proof -
  let ?plain = "b64_dec (map b64_value cs)"
  have "cstore (put_bytes out 0 ?plain) (length ?plain) 0 = Ret (put_bytes out 0 (?plain @ [0]))"
    using assms(3) put_bytes_twice [of 0 ?plain out "[0]"] by (simp add: cstore_put)
  with assms show ?thesis
    using decode_from_eq [of 0 cs out "c # junk"] length_b64_dec [of "map b64_value cs"]
    by (simp add: euicc_base64_decode_def nprbytes_from_eq Let_def put_bytes_def)
qed

theorem base64_decode_len_eq:
  assumes "list_all b64_char cs" "\<not> b64_char c"
  shows "euicc_base64_decode_len (cs @ c # junk) = Ret ((length cs + 3) div 4 * 3 + 1)"
  using assms by (simp add: euicc_base64_decode_len_def nprbytes_from_eq)

text \<open>The bytes a NUL-terminated string stands for: its leading base64 characters, decoded.\<close>

definition b64_plain :: "cstr \<Rightarrow> byte list" where
  "b64_plain s = b64_dec (map b64_value (takeWhile b64_char s))"

lemma base64_split:
  "\<exists>c junk. s @ [0] = takeWhile b64_char s @ c # junk \<and> \<not> b64_char c"
proof -
  have "dropWhile b64_char (s @ [0]) \<noteq> []" using pad_values(2) by simp
  then obtain c junk where dw: "dropWhile b64_char (s @ [0]) = c # junk"
    by (cases "dropWhile b64_char (s @ [0])") auto
  then have "\<not> b64_char c" by (rule dropWhile_eq_Cons_conv [THEN iffD1, THEN conjunct2])
  moreover have "takeWhile b64_char (s @ [0]) = takeWhile b64_char s"
    using pad_values(2) by (induction s) simp_all
  ultimately show ?thesis
    using takeWhile_dropWhile_id [of b64_char "s @ [0]"] dw by metis
qed

theorem base64_decode_string:
  "\<exists>n. euicc_base64_decode_len (s @ [0]) = Ret n \<and> length (b64_plain s) < n \<and>
    euicc_base64_decode (replicate n 0) (s @ [0]) =
      Ret (b64_plain s @ replicate (n - length (b64_plain s)) 0, int (length (b64_plain s)))"
proof -
  obtain c junk where split: "s @ [0] = takeWhile b64_char s @ c # junk" and c: "\<not> b64_char c"
    using base64_split [of s] by blast
  let ?cs = "takeWhile b64_char s" and ?n = "(length (takeWhile b64_char s) + 3) div 4 * 3 + 1"
  have cs: "list_all b64_char ?cs" by (auto simp: list_all_iff dest: set_takeWhileD)
  have lt: "length (b64_plain s) < ?n"
    using length_b64_dec_le [of "map b64_value ?cs"] by (simp add: b64_plain_def)
  then have "0 # drop (Suc (length (b64_plain s))) (replicate ?n 0) =
      replicate (?n - length (b64_plain s)) (0 :: byte)"
    by (metis Suc_diff_Suc drop_replicate replicate_Suc)
  with lt have "euicc_base64_decode (replicate ?n 0) (s @ [0]) =
      Ret (b64_plain s @ replicate (?n - length (b64_plain s)) 0, int (length (b64_plain s)))"
    unfolding split using base64_decode_eq [OF cs c, of "replicate ?n 0"]
    by (simp add: Let_def b64_plain_def)
  with lt base64_decode_len_eq [OF cs c] show ?thesis
    unfolding split by blast
qed

lemma length_b64_enc: "Suc (length (b64_enc bs)) = euicc_base64_encode_len (length bs)"
proof (induction bs rule: b64_enc.induct)
  case (4 a b c bs)
  have "(length bs + 3 + 2) div 3 * 4 = (length bs + 2) div 3 * 4 + 4" by presburger
  with 4 show ?case by (simp add: euicc_base64_encode_len_def)
qed (simp_all add: euicc_base64_encode_len_def)

lemma encode_from_eq:
  assumes "p + length (b64_enc bs) \<le> length out"
  shows "encode_from out p (bs @ junk) (length bs) =
    Ret (put_bytes out p (b64_enc bs), p + length (b64_enc bs))"
  using assms
  by (induction bs arbitrary: p out rule: b64_enc.induct)
    (simp_all add: eval_nat_numeral cload_def cstore_put enc1_def [of _ 0] enc2_def [of _ 0])

theorem base64_encode_eq:
  assumes "slice_ok p len" "euicc_base64_encode_len (unat len) \<le> length out"
  shows "euicc_base64_encode out p (unat len) =
    (let coded = b64_enc (slice_bytes p len) in
     Ret (coded @ 0 # drop (Suc (length coded)) out, Suc (length coded)))"
proof -
  let ?bs = "slice_bytes p len"
  have p: "p = ?bs @ drop (unat len) p" "length ?bs = unat len"
    using assms(1) by (simp_all add: slice_bytes_def slice_ok_def)
  have "length (b64_enc ?bs) < length out" using length_b64_enc [of ?bs] p(2) assms(2) by simp
  then show ?thesis
    using encode_from_eq [of 0 ?bs out "drop (unat len) p"] p
      put_bytes_twice [of 0 "b64_enc ?bs" out "[0]"]
    by (simp add: euicc_base64_encode_def cstore_put put_bytes_def Let_def)
qed


subsection \<open>The round trip\<close>

lemma six_bits_less: "take_bit 6 x = x \<Longrightarrow> unat (x :: byte) < 64"
proof -
  assume "take_bit 6 x = x"
  then have "unat x = take_bit 6 (unat x)" by (simp flip: unsigned_take_bit_eq)
  also have "\<dots> < 2 ^ 6" by (rule take_bit_nat_less_exp)
  finally show ?thesis by simp
qed

lemma enc_idx:
  fixes a b c :: byte
  defines "i0 \<equiv> drop_bit 2 a AND 0x3F"
    and "i1 \<equiv> push_bit 4 (a AND 0x3) OR drop_bit 4 (b AND 0xF0)"
    and "i2 \<equiv> push_bit 2 (b AND 0xF) OR drop_bit 6 (c AND 0xC0)"
    and "i3 \<equiv> c AND 0x3F"
  shows "unat i0 < 64 \<and> unat i1 < 64 \<and> unat i2 < 64 \<and> unat i3 < 64 \<and>
    dec0 i0 i1 = a \<and> dec1 i1 i2 = b \<and> dec2 i2 i3 = c"
proof (intro conjI)
  show "unat i0 < 64" "unat i1 < 64" "unat i2 < 64" "unat i3 < 64"
    unfolding i0_def i1_def i2_def i3_def
    by (rule six_bits_less, rule byte_eqI, elim insertE emptyE; simp add: bit_simps)+
  show "dec0 i0 i1 = a" "dec1 i1 i2 = b" "dec2 i2 i3 = c"
    unfolding dec0_def dec1_def dec2_def i0_def i1_def i2_def i3_def
    by (rule byte_eqI, elim insertE emptyE; simp add: bit_simps)+
qed

lemma b64_value_basis: "unat i < 64 \<Longrightarrow> b64_value (basis_64 ! unat i) = (i :: byte)"
  by (simp add: basis_inverse)

lemma b64_char_basis: "unat i < 64 \<Longrightarrow> b64_char (basis_64 ! unat (i :: byte))"
  by (simp add: b64_char_def b64_value_basis word_le_nat_alt)

definition b64_body :: "byte list \<Rightarrow> cstr" where
  "b64_body bs = takeWhile b64_char (b64_enc bs)"

lemmas enc_defs = enc0_def enc1_def enc2_def enc3_def

lemma b64_body_dec:
  "list_all b64_char (b64_body bs) \<and>
   (\<exists>rest. b64_enc bs @ [0] = b64_body bs @ rest \<and> rest \<noteq> [] \<and> \<not> b64_char (hd rest)) \<and>
   b64_dec (map b64_value (b64_body bs)) = bs"
proof (induction bs rule: b64_enc.induct)
  case (4 a b c bs)
  then show ?case
    using enc_idx [of a b c]
    by (auto simp: b64_body_def enc_defs b64_value_basis b64_char_basis)
next
  case (2 a)
  show ?case using enc_idx [of a 0 0]
    by (auto simp: b64_body_def enc_defs b64_value_basis b64_char_basis pad_values)
next
  case (3 a b)
  show ?case using enc_idx [of a b 0]
    by (auto simp: b64_body_def enc_defs b64_value_basis b64_char_basis pad_values)
qed (simp add: b64_body_def pad_values)


lemma b64_enc_no_NUL: "0 \<notin> set (b64_enc bs)"
proof -
  have "c = 0x3D \<or> b64_char c" if "c \<in> set (b64_enc bs)" for c
    using that
  proof (induction bs rule: b64_enc.induct)
    case (4 a b c bs)
    then show ?case using enc_idx [of a b c] by (auto simp: enc_defs b64_char_basis)
  next
    case (3 a b)
    then show ?case using enc_idx [of a b 0] by (auto simp: enc_defs b64_char_basis)
  next
    case (2 a)
    then show ?case using enc_idx [of a 0 0] by (auto simp: enc_defs b64_char_basis)
  qed simp
  from this [of 0] show ?thesis using pad_values(2) by auto
qed

end
