(* ===== verification/Sha256.thy ===== *)
theory Sha256
  imports Prelude
begin

text \<open>
  \<open>euicc/sha256.c\<close>: the streaming SHA-256 with which \<open>es10b_prepare_download\<close> hashes the
  confirmation code. The lemmas show that the block buffer is never overrun and that any sequence
  of updates followed by the final call gives the hash of the concatenated data, defined here by
  padding the whole message and folding the block function over it.
\<close>

subsection \<open>The code\<close>

record sha256_ctx =
  s_data :: "byte list"
  s_datalen :: u32
  s_bitlen :: u64
  s_state :: "u32 list"

definition ROTRIGHT :: "u32 \<Rightarrow> nat \<Rightarrow> u32" where
  "ROTRIGHT a b = drop_bit b a OR push_bit (32 - b) a"

definition CH :: "u32 \<Rightarrow> u32 \<Rightarrow> u32 \<Rightarrow> u32" where
  "CH x y z = (x AND y) XOR (NOT x AND z)"

definition MAJ :: "u32 \<Rightarrow> u32 \<Rightarrow> u32 \<Rightarrow> u32" where
  "MAJ x y z = (x AND y) XOR (x AND z) XOR (y AND z)"

definition EP0 :: "u32 \<Rightarrow> u32" where
  "EP0 x = ROTRIGHT x 2 XOR ROTRIGHT x 13 XOR ROTRIGHT x 22"

definition EP1 :: "u32 \<Rightarrow> u32" where
  "EP1 x = ROTRIGHT x 6 XOR ROTRIGHT x 11 XOR ROTRIGHT x 25"

definition SIG0 :: "u32 \<Rightarrow> u32" where
  "SIG0 x = ROTRIGHT x 7 XOR ROTRIGHT x 18 XOR drop_bit 3 x"

definition SIG1 :: "u32 \<Rightarrow> u32" where
  "SIG1 x = ROTRIGHT x 17 XOR ROTRIGHT x 19 XOR drop_bit 10 x"

definition sha256_k :: "u32 list" where
  "sha256_k = [
    0x428A2F98, 0x71374491, 0xB5C0FBCF, 0xE9B5DBA5, 0x3956C25B, 0x59F111F1, 0x923F82A4, 0xAB1C5ED5,
    0xD807AA98, 0x12835B01, 0x243185BE, 0x550C7DC3, 0x72BE5D74, 0x80DEB1FE, 0x9BDC06A7, 0xC19BF174,
    0xE49B69C1, 0xEFBE4786, 0x0FC19DC6, 0x240CA1CC, 0x2DE92C6F, 0x4A7484AA, 0x5CB0A9DC, 0x76F988DA,
    0x983E5152, 0xA831C66D, 0xB00327C8, 0xBF597FC7, 0xC6E00BF3, 0xD5A79147, 0x06CA6351, 0x14292967,
    0x27B70A85, 0x2E1B2138, 0x4D2C6DFC, 0x53380D13, 0x650A7354, 0x766A0ABB, 0x81C2C92E, 0x92722C85,
    0xA2BFE8A1, 0xA81A664B, 0xC24B8B70, 0xC76C51A3, 0xD192E819, 0xD6990624, 0xF40E3585, 0x106AA070,
    0x19A4C116, 0x1E376C08, 0x2748774C, 0x34B0BCB5, 0x391C0CB3, 0x4ED8AA4A, 0x5B9CCA4F, 0x682E6FF3,
    0x748F82EE, 0x78A5636F, 0x84C87814, 0x8CC70208, 0x90BEFFFA, 0xA4506CEB, 0xBEF9A3F7, 0xC67178F2]"

fun sha256_words :: "byte list \<Rightarrow> u32 list" where
  "sha256_words (b0 # b1 # b2 # b3 # data) =
     (push_bit 24 (ucast b0) OR push_bit 16 (ucast b1) OR push_bit 8 (ucast b2) OR ucast b3) #
     sha256_words data"
| "sha256_words _ = []"

text \<open>\<open>m[i] = SIG1(m[i - 2]) + m[i - 7] + SIG0(m[i - 15]) + m[i - 16]\<close> for \<open>i = 16, ..., 63\<close>.\<close>

definition sha256_extend :: "u32 list \<Rightarrow> u32 list" where
  "sha256_extend m =
     (let i = length m in
      m @ [SIG1 (m ! (i - 2)) + m ! (i - 7) + SIG0 (m ! (i - 15)) + m ! (i - 16)])"

type_synonym sha256_vars = "u32 \<times> u32 \<times> u32 \<times> u32 \<times> u32 \<times> u32 \<times> u32 \<times> u32"

fun sha256_round :: "u32 \<times> u32 \<Rightarrow> sha256_vars \<Rightarrow> sha256_vars" where
  "sha256_round (ki, mi) (a, b, c, d, e, f, g, h) =
     (let t1 = h + EP1 e + CH e f g + ki + mi; t2 = EP0 a + MAJ a b c
      in (t1 + t2, a, b, c, d + t1, e, f, g))"

definition sha256_block :: "u32 list \<Rightarrow> byte list \<Rightarrow> u32 list" where
  "sha256_block st data =
     (let m = (sha256_extend ^^ 48) (sha256_words data);
          (a, b, c, d, e, f, g, h) =
            fold sha256_round (zip sha256_k m)
              (st ! 0, st ! 1, st ! 2, st ! 3, st ! 4, st ! 5, st ! 6, st ! 7)
      in [st ! 0 + a, st ! 1 + b, st ! 2 + c, st ! 3 + d,
          st ! 4 + e, st ! 5 + f, st ! 6 + g, st ! 7 + h])"

definition sha256_transform :: "sha256_ctx \<Rightarrow> sha256_ctx" where
  "sha256_transform ctx = ctx\<lparr>s_state := sha256_block (s_state ctx) (s_data ctx)\<rparr>"

definition sha256_h0 :: "u32 list" where
  "sha256_h0 = [0x6a09e667, 0xbb67ae85, 0x3c6ef372, 0xa54ff53a,
     0x510e527f, 0x9b05688c, 0x1f83d9ab, 0x5be0cd19]"

definition euicc_sha256_init :: "sha256_ctx \<Rightarrow> sha256_ctx" where
  "euicc_sha256_init ctx = ctx\<lparr>s_datalen := 0, s_bitlen := 0, s_state := sha256_h0\<rparr>"

definition sha256_update_byte :: "byte \<Rightarrow> sha256_ctx \<Rightarrow> sha256_ctx cres" where
  "sha256_update_byte b ctx =
     cbind (cstore (s_data ctx) (unat (s_datalen ctx)) b) (\<lambda>data.
     let ctx = ctx\<lparr>s_data := data, s_datalen := s_datalen ctx + 1\<rparr> in
     if s_datalen ctx = 64
     then let ctx = sha256_transform ctx in
       Ret (ctx\<lparr>s_bitlen := s_bitlen ctx + 512, s_datalen := 0\<rparr>)
     else Ret ctx)"

definition euicc_sha256_update :: "sha256_ctx \<Rightarrow> cptr \<Rightarrow> nat \<Rightarrow> sha256_ctx cres" where
  "euicc_sha256_update ctx data len =
     (if len \<le> length data then cfold sha256_update_byte (take len data) ctx else UB)"

text \<open>\<open>data[i++] = 0x80; while (i < n) data[i++] = 0x00;\<close>\<close>

definition sha256_pad_to :: "nat \<Rightarrow> nat \<Rightarrow> byte list \<Rightarrow> byte list cres" where
  "sha256_pad_to n i data =
     cbind (cstore data i 0x80) (\<lambda>data. memset data (i + 1) 0 (n - (i + 1)))"

definition sha256_put_bitlen :: "u64 \<Rightarrow> byte list \<Rightarrow> byte list cres" where
  "sha256_put_bitlen bitlen data =
     cfold (\<lambda>i data. cstore data (63 - i) (ucast (drop_bit (8 * i) bitlen))) [0..<8] data"

definition sha256_hash_bytes :: "u32 list \<Rightarrow> byte list" where
  "sha256_hash_bytes st =
     concat (map (\<lambda>w. map (\<lambda>i. ucast (drop_bit (24 - 8 * i) w AND 0xff)) [0..<4]) st)"

definition euicc_sha256_final :: "sha256_ctx \<Rightarrow> (sha256_ctx \<times> byte list) cres" where
  "euicc_sha256_final ctx =
     (let i = unat (s_datalen ctx) in
      cbind (if s_datalen ctx < 56 then
               cbind (sha256_pad_to 56 i (s_data ctx)) (\<lambda>data. Ret (ctx\<lparr>s_data := data\<rparr>))
             else
               cbind (sha256_pad_to 64 i (s_data ctx)) (\<lambda>data.
               let ctx = sha256_transform (ctx\<lparr>s_data := data\<rparr>) in
               cbind (memset (s_data ctx) 0 0 56) (\<lambda>data. Ret (ctx\<lparr>s_data := data\<rparr>)))) (\<lambda>ctx.
      let bitlen = s_bitlen ctx + ucast (s_datalen ctx * 8) in
      cbind (sha256_put_bitlen bitlen (s_data ctx)) (\<lambda>data.
      let ctx = sha256_transform (ctx\<lparr>s_bitlen := bitlen, s_data := data\<rparr>) in
      Ret (ctx, sha256_hash_bytes (s_state ctx)))))"

subsection \<open>The hash of a message\<close>

function sha256_blocks :: "u32 list \<Rightarrow> byte list \<Rightarrow> u32 list" where
  "sha256_blocks st bs =
     (if length bs < 64 then st else sha256_blocks (sha256_block st (take 64 bs)) (drop 64 bs))"
  by pat_completeness auto
termination
  by (relation "measure (\<lambda>(st, bs). length bs)") auto

declare sha256_blocks.simps [simp del]

definition be64 :: "nat \<Rightarrow> byte list" where
  "be64 n = map (\<lambda>i. ucast (drop_bit (8 * i) (of_nat n :: u64))) (rev [0..<8])"

definition sha256_pad :: "byte list \<Rightarrow> byte list" where
  "sha256_pad bs = bs @ 0x80 # replicate ((119 - length bs mod 64) mod 64) 0 @ be64 (8 * length bs)"

definition sha256 :: "byte list \<Rightarrow> byte list" where
  "sha256 bs = sha256_hash_bytes (sha256_blocks sha256_h0 (sha256_pad bs))"

subsection \<open>Streaming\<close>

lemma sha256_blocks_append:
  "length xs = 64 * n \<Longrightarrow> sha256_blocks st (xs @ ys) = sha256_blocks (sha256_blocks st xs) ys"
proof (induction n arbitrary: st xs)
  case 0
  then show ?case by (simp add: sha256_blocks.simps [of st "[]"])
next
  case (Suc n)
  have "sha256_blocks st (xs @ ys) = sha256_blocks (sha256_block st (take 64 xs)) (drop 64 xs @ ys)"
    using Suc.prems by (subst sha256_blocks.simps) simp
  moreover have "sha256_blocks st xs = sha256_blocks (sha256_block st (take 64 xs)) (drop 64 xs)"
    using Suc.prems by (subst sha256_blocks.simps) simp
  ultimately show ?case using Suc by simp
qed

lemma sha256_blocks_one: "length xs = 64 \<Longrightarrow> sha256_blocks st xs = sha256_block st xs"
  by (simp add: sha256_blocks.simps [of st xs] sha256_blocks.simps [of _ "[]"])

text \<open>The context after the bytes \<open>bs\<close> have been absorbed since the last \<open>init\<close>.\<close>

definition sha256_absorbed :: "byte list \<Rightarrow> sha256_ctx \<Rightarrow> bool" where
  "sha256_absorbed bs ctx \<longleftrightarrow> (\<exists>n full rest. bs = full @ rest \<and> length full = 64 * n \<and>
     length rest < 64 \<and> length (s_data ctx) = 64 \<and> s_datalen ctx = of_nat (length rest) \<and>
     take (length rest) (s_data ctx) = rest \<and> s_bitlen ctx = of_nat (512 * n) \<and>
     s_state ctx = sha256_blocks sha256_h0 full)"

lemma sha256_absorbed_init: "length (s_data ctx) = 64 \<Longrightarrow> sha256_absorbed [] (euicc_sha256_init ctx)"
  by (simp add: sha256_absorbed_def euicc_sha256_init_def sha256_blocks.simps)

lemma sha256_absorbed_byte:
  assumes "sha256_absorbed bs ctx"
  shows "\<exists>ctx'. sha256_update_byte b ctx = Ret ctx' \<and> sha256_absorbed (bs @ [b]) ctx'"
proof -
  obtain n full rest where inv: "bs = full @ rest" "length full = 64 * n" "length rest < 64"
      "length (s_data ctx) = 64" "s_datalen ctx = of_nat (length rest)"
      "take (length rest) (s_data ctx) = rest" "s_bitlen ctx = of_nat (512 * n)"
      "s_state ctx = sha256_blocks sha256_h0 full"
    using assms by (auto simp: sha256_absorbed_def)
  let ?data = "(s_data ctx)[length rest := b]"
  have dl: "unat (s_datalen ctx) = length rest" using inv(3,5) by simp
  have store: "cstore (s_data ctx) (unat (s_datalen ctx)) b = Ret ?data"
    using inv(3,4) dl by (simp add: cstore_def)
  have tk: "take (Suc (length rest)) ?data = rest @ [b]"
    using inv(3,4,6) by (simp add: take_list_update_append)
  have "unat (s_datalen ctx + 1) = Suc (length rest)"
    using inv(3) dl by (simp add: unat_word_ariths)
  then have full_iff: "s_datalen ctx + 1 = 64 \<longleftrightarrow> Suc (length rest) = 64"
    by (simp add: word_unat_eq_iff)
  show ?thesis
  proof (cases "Suc (length rest) = 64")
    case True
    then have "?data = rest @ [b]" using tk inv(4) by simp
    moreover have "sha256_blocks sha256_h0 (full @ rest @ [b]) =
        sha256_block (sha256_blocks sha256_h0 full) (rest @ [b])"
      using True inv(2) by (simp add: sha256_blocks_append sha256_blocks_one)
    ultimately have "sha256_absorbed (bs @ [b])
        (ctx\<lparr>s_data := ?data, s_state := sha256_block (s_state ctx) ?data,
          s_bitlen := s_bitlen ctx + 512, s_datalen := 0\<rparr>)"
      unfolding sha256_absorbed_def using True inv
      by (intro exI [of _ "Suc n"] exI [of _ "full @ rest @ [b]"] exI [of _ "[]"]) simp
    then show ?thesis
      using True store full_iff
      by (simp add: sha256_update_byte_def sha256_transform_def Let_def)
  next
    case False
    have "sha256_absorbed (bs @ [b]) (ctx\<lparr>s_data := ?data, s_datalen := s_datalen ctx + 1\<rparr>)"
      unfolding sha256_absorbed_def using False inv tk
      by (intro exI [of _ n] exI [of _ full] exI [of _ "rest @ [b]"]) simp
    then show ?thesis
      using False store full_iff by (simp add: sha256_update_byte_def Let_def)
  qed
qed

lemma sha256_absorbed_update:
  assumes "sha256_absorbed bs ctx" "n \<le> length data"
  shows "\<exists>ctx'. euicc_sha256_update ctx data n = Ret ctx' \<and> sha256_absorbed (bs @ take n data) ctx'"
proof -
  have "\<exists>ctx'. cfold sha256_update_byte xs ctx = Ret ctx' \<and> sha256_absorbed (bs @ xs) ctx'" for xs
    using assms(1)
  proof (induction xs arbitrary: bs ctx)
    case (Cons x xs)
    then show ?case using sha256_absorbed_byte [of bs ctx x] by fastforce
  qed simp
  then show ?thesis using assms(2) by (simp add: euicc_sha256_update_def)
qed

lemma sha256_pad_to_eq:
  assumes "i < n" "n \<le> length data"
  shows "sha256_pad_to n i data =
    Ret (take i data @ 0x80 # replicate (n - Suc i) 0 @ drop n data)"
  using assms
  by (simp add: sha256_pad_to_def cstore_def memset_def memcpy_def take_list_update_append)

lemma sha256_put_bitlen_eq:
  assumes "length data = 64"
  shows "sha256_put_bitlen (of_nat n) data = Ret (take 56 data @ be64 n)"
proof -
  obtain hd56 tl8 where data: "data = hd56 @ tl8" "length hd56 = 56" "length tl8 = 8"
    using assms that [of "take 56 data" "drop 56 data"] by simp
  from data(3) obtain x0 x1 x2 x3 x4 x5 x6 x7 where "tl8 = [x0, x1, x2, x3, x4, x5, x6, x7]"
    by (auto simp: length_Suc_conv eval_nat_numeral)
  with data(1,2) show ?thesis
    by (simp add: sha256_put_bitlen_def upt_rec cstore_def be64_def list_update_append)
qed

theorem sha256_absorbed_final:
  assumes "sha256_absorbed bs ctx"
  shows "\<exists>ctx'. euicc_sha256_final ctx = Ret (ctx', sha256 bs)"
proof -
  obtain n full rest where inv: "bs = full @ rest" "length full = 64 * n" "length rest < 64"
      "length (s_data ctx) = 64" "s_datalen ctx = of_nat (length rest)"
      "take (length rest) (s_data ctx) = rest" "s_bitlen ctx = of_nat (512 * n)"
      "s_state ctx = sha256_blocks sha256_h0 full"
    using assms by (auto simp: sha256_absorbed_def)
  let ?r = "length rest"
  have dl: "unat (s_datalen ctx) = ?r" using inv(3,5) by simp
  have "(ucast (s_datalen ctx * 8) :: u64) = of_nat (8 * ?r)"
  proof -
    have "unat (s_datalen ctx * 8) = 8 * ?r" using inv(3) dl by (simp add: unat_word_ariths)
    then show ?thesis by (metis of_nat_unat)
  qed
  then have bl: "s_bitlen ctx + ucast (s_datalen ctx * 8) = of_nat (8 * length bs)"
    using inv(1,2,7) by (simp add: algebra_simps)
  have lbs: "length bs mod 64 = ?r" using inv by simp
  show ?thesis
  proof (cases "?r < 56")
    case True
    have lt: "s_datalen ctx < 56" using True dl by (simp add: word_less_nat_alt)
    let ?b = "rest @ 0x80 # replicate (55 - ?r) 0 @ be64 (8 * length bs)"
    have "sha256_pad bs = full @ ?b"
      using True lbs inv(1) by (simp add: sha256_pad_def mod_if)
    moreover have "length ?b = 64" using True by (simp add: be64_def)
    ultimately have "sha256 bs = sha256_hash_bytes (sha256_block (s_state ctx) ?b)"
      using inv(2,8) by (simp add: sha256_def sha256_blocks_append sha256_blocks_one)
    moreover have "56 - ?r = Suc (55 - ?r)" using True by simp
    ultimately show ?thesis
      using True lt inv(3,4,6) bl dl
      by (simp add: euicc_sha256_final_def sha256_pad_to_eq sha256_put_bitlen_eq Let_def
          sha256_transform_def del: of_nat_mult)
  next
    case False
    have lt: "\<not> s_datalen ctx < 56" using False dl by (simp add: word_less_nat_alt)
    let ?b1 = "rest @ 0x80 # replicate (63 - ?r) 0"
    let ?b2 = "replicate 56 0 @ be64 (8 * length bs)"
    have "replicate (119 - ?r) (0 :: byte) = replicate (63 - ?r) 0 @ replicate 56 0"
      using inv(3) by (simp flip: replicate_add)
    then have "sha256_pad bs = full @ ?b1 @ ?b2"
      using False lbs inv(1,3) by (simp add: sha256_pad_def)
    moreover have "length ?b1 = 64 * 1" "length ?b2 = 64" using inv(3) by (simp_all add: be64_def)
    ultimately have "sha256 bs =
        sha256_hash_bytes (sha256_block (sha256_block (s_state ctx) ?b1) ?b2)"
      using inv(2,8) by (simp only: sha256_def sha256_blocks_append) (simp add: sha256_blocks_one)
    then show ?thesis
      using False lt inv(3,4,6) bl dl
      by (simp add: euicc_sha256_final_def sha256_pad_to_eq sha256_put_bitlen_eq Let_def
          sha256_transform_def memset_def memcpy_def del: of_nat_mult)
  qed
qed

end
