(* ===== verification/Util_Props.thy ===== *)
theory Util_Props
  imports Hexutil_Reduced Derconv Base64 Sha256
begin

text \<open>
  The properties of the utility functions of \<open>euicc/\<close>: hexadecimal and BCD strings, the BER-TLV
  reader and writer, integers and bit strings, base64 and SHA-256. The lemmas they rest on are in
  the components' theories.
\<close>

subsection \<open>Hexadecimal and BCD strings\<close>

text \<open>
  Hexadecimal round trip: what \<open>euicc_hexutil_bin2hex\<close> writes for any bytes,
  \<open>euicc_hexutil_hex2bin\<close> reads back, into any buffer that is large enough.
\<close>

theorem hex_roundtrip:
  assumes "slice_ok bin bin_len" "unat bin_len < 2147483648" "2 * unat bin_len < unat str_len"
    and "unat str_len \<le> length str" "unat out_len \<le> length out" "unat bin_len \<le> unat out_len"
  shows "\<exists>str'. euicc_hexutil_bin2hex str str_len bin bin_len = Ret (2 * unat bin_len, str') \<and>
    euicc_hexutil_hex2bin out out_len (cstr_of str') =
      Ret (unat bin_len, slice_bytes bin bin_len @ drop (unat bin_len) out)"
proof -
  let ?bs = "slice_bytes bin bin_len"
  let ?str = "hex_of ?bs @ 0 # drop (2 * unat bin_len + 1) str"
  have l: "length ?bs = unat bin_len" using assms(1) by simp
  have "cstr_of ?str = hex_of ?bs" by (rule cstr_of_append_NUL) (rule hex_of_no_NUL)
  moreover have "unat (of_nat (2 * unat bin_len) :: u32) = 2 * unat bin_len"
    by (rule unat_of_nat_u32) (use assms(2) in simp)
  ultimately have "euicc_hexutil_hex2bin out out_len (cstr_of ?str) =
      Ret (unat bin_len, ?bs @ drop (unat bin_len) out)"
    using assms(5,6) unhex_hex_of [of ?bs] l
    by (simp add: euicc_hexutil_hex2bin_def strlen_def euicc_hexutil_hex2bin_r_eq slice_ok_def slice_bytes_def
        del: of_nat_mult)
  moreover have "euicc_hexutil_bin2hex str str_len bin bin_len = Ret (2 * unat bin_len, ?str)"
    using assms by (simp add: euicc_hexutil_bin2hex_eq)
  ultimately show ?thesis by blast
qed

theorem hex_roundtrip_witness:
  "\<exists>str'. euicc_hexutil_bin2hex (replicate 5 0) 5 [0xAB, 0x01] 2 = Ret (4, str') \<and>
    euicc_hexutil_hex2bin [9, 9, 9] 3 (cstr_of str') = Ret (2, [0xAB, 0x01, 9])"
  using hex_roundtrip [of "[0xAB, 0x01]" 2 5 "replicate 5 0" 3 "[9, 9, 9]"]
  by (simp add: slice_ok_def slice_bytes_def)

text \<open>
  GSM BCD round trip: an ICCID or IMEI string of lower-case hexadecimal digits other than \<open>f\<close>,
  converted by \<open>euicc_hexutil_gsmbcd2bin\<close> with any padding, comes back from
  \<open>euicc_hexutil_bin2gsmbcd\<close> unchanged.
\<close>

theorem gsmbcd_roundtrip:
  assumes "s \<noteq> []" "set s \<subseteq> set digits - {0x66}"
    and "length (bcd_pad s) \<le> 2 * length out" "unat pad \<le> length out" "length out < 2147483648"
    and "2 * length out < length str" "length str < 4294967296"
  shows "\<exists>k out' str'. euicc_hexutil_gsmbcd2bin out (of_nat (length out)) s pad = Ret (k, out') \<and>
     k = max (length (bcd_pad s) div 2) (unat pad) \<and>
     euicc_hexutil_bin2gsmbcd str (of_nat (length str)) out' (of_nat k) =
       Ret (int (length s) - 1, str') \<and> cstr_of str' = s"
  using assms by (rule gsmbcd_roundtrip_strong)

theorem gsmbcd_roundtrip_witness:
  "\<exists>k out' str'. euicc_hexutil_gsmbcd2bin (replicate 10 0) 10 [0x38, 0x39, 0x30] 4 = Ret (k, out') \<and>
     k = 4 \<and> euicc_hexutil_bin2gsmbcd (replicate 21 0) 21 out' (of_nat k) = Ret (2, str') \<and>
     cstr_of str' = [0x38, 0x39, 0x30]"
  using gsmbcd_roundtrip [of "[0x38, 0x39, 0x30]" "replicate 10 0" 4 "replicate 21 0"]
  by (simp add: digits_eq bcd_pad_def)

text \<open>
  An empty element makes \<open>euicc_hexutil_bin2gsmbcd\<close> leave its buffer: the count of
  characters becomes -1 and is passed on as the unsigned length 0xFFFFFFFF.
\<close>

theorem bin2gsmbcd_empty_overrun:
  assumes "unat out_len \<le> length out" "0 < unat out_len" "length out < 4294967295"
  shows "euicc_hexutil_bin2gsmbcd out out_len bin 0 = UB"
  using assms by (rule euicc_hexutil_bin2gsmbcd_empty)

theorem bin2gsmbcd_empty_overrun_witness: "euicc_hexutil_bin2gsmbcd (replicate 21 0) 21 [] 0 = UB"
  by (rule bin2gsmbcd_empty_overrun) simp_all

text \<open>
  The two builds of \<open>euicc_hexutil_hex2bin_r\<close> (with and without \<open>LIBEUICC_REDUCED_STDLIB_CALL\<close>) agree
  on every input that has none of the control characters 0x10 to 0x19, failures included.
\<close>

theorem hex2bin_builds_agree:
  assumes "slice_ok input input_len" "\<forall>c \<in> set (slice_bytes input input_len). \<not> reduced_ctrl c"
  shows "euicc_hexutil_hex2bin_r_reduced out out_len input input_len =
    euicc_hexutil_hex2bin_r out out_len input input_len"
proof (cases "input_len mod 2 \<noteq> 0 \<or> out_len < input_len div 2")
  case True
  then show ?thesis
    unfolding euicc_hexutil_hex2bin_r_reduced_def euicc_hexutil_hex2bin_r_def by (simp only: if_True)
next
  case False
  then have "unat (input_len mod 2) = 0" by (simp only: unsigned_0 de_Morgan_disj not_not)
  then have "even (unat input_len)" by (simp add: unat_mod) presburger
  then have "hex2bin_reduced_loop out 0 0 input 0 (unat input_len) =
      hex2bin_loop out 0 input 0 (unat input_len)"
    using hex2bin_reduced_loop_eq [of "slice_bytes input input_len" "[]" out 0 0 "drop (unat input_len) input"]
      assms by (simp add: slice_bytes_def slice_ok_def)
  with False show ?thesis
    unfolding euicc_hexutil_hex2bin_r_reduced_def euicc_hexutil_hex2bin_r_def by (simp only: if_False)
qed

theorem hex2bin_builds_agree_witness:
  "euicc_hexutil_hex2bin_r_reduced [0, 0] 2 [0x41, 0x37] 2 = euicc_hexutil_hex2bin_r [0, 0] 2 [0x41, 0x37] 2"
  by (rule hex2bin_builds_agree) (simp_all add: slice_ok_def slice_bytes_def reduced_ctrl_def)

text \<open>
  The builds differ on the control characters: the reduced build reads the two bytes 0x11 0x12 as
  the number 0x12, which the default build refuses.
\<close>

theorem hex2bin_builds_differ:
  "euicc_hexutil_hex2bin_r_reduced [0] 1 [0x11, 0x12] 2 = Ret (1, [0x12]) \<and>
   euicc_hexutil_hex2bin_r [0] 1 [0x11, 0x12] 2 = Fail"
  by (simp add: euicc_hexutil_hex2bin_r_reduced_def euicc_hexutil_hex2bin_r_def
      hex2bin_reduced_loop.simps hex2bin_loop.simps cload_def cstore_def isxdigit_def)

subsection \<open>BER-TLV\<close>

text \<open>
  Reading an element: on every slice that lies in its buffer \<open>euicc_derutil_unpack_first\<close> stays
  inside the slice; it fails exactly where the reference decoder does, and otherwise its node has
  the element's tag, content and extent.
\<close>

theorem unpack_first_decodes:
  assumes "slice_ok buffer buffer_len"
  shows "case tlv_decode (slice_bytes buffer buffer_len) of
      None \<Rightarrow> euicc_derutil_unpack_first buffer buffer_len = Fail
    | Some (tag, val, rest) \<Rightarrow> \<exists>n. euicc_derutil_unpack_first buffer buffer_len = Ret n \<and>
        n_tag n = tag \<and> slice_ok (n_value n) (n_length n) \<and> slice_bytes (n_value n) (n_length n) = val \<and>
        n_self_ptr n = buffer \<and> unat (n_self_length n) + length rest = unat buffer_len"
proof (cases "tlv_decode (slice_bytes buffer buffer_len)")
  case (Some x)
  obtain tag val rest where x: "x = (tag, val, rest)" by (cases x)
  have "length rest < unat buffer_len"
    using tlv_decode_shorter [of "slice_bytes buffer buffer_len" tag val rest] Some x assms by simp
  with euicc_derutil_unpack_first_eq [OF assms] Some x assms show ?thesis
    by (auto simp: node_of_def)
qed (use euicc_derutil_unpack_first_eq [OF assms] in simp)

theorem unpack_first_decodes_witness:
  "\<exists>n. euicc_derutil_unpack_first [0xBF, 0x2D, 1, 7, 0x99] 5 = Ret n \<and> n_tag n = 0xBF2D \<and>
     slice_bytes (n_value n) (n_length n) = [7] \<and> n_self_length n = 4"
  using unpack_first_decodes [of "[0xBF, 0x2D, 1, 7, 0x99]" 5]
  by (auto simp: slice_ok_def slice_bytes_def tlv_decode_def word_unat_eq_iff)

text \<open>
  Searching: \<open>euicc_derutil_unpack_find_alias_tags\<close> always ends, never leaves the slice, and finds the first
  of the slice's elements whose tag is one of the given tags, or fails when there is none.
\<close>

theorem find_alias_tags_first:
  assumes "slice_ok buffer len"
  shows "case List.find (\<lambda>(t, _, _). t \<in> set tags) (tlv_items (slice_bytes buffer len)) of
      None \<Rightarrow> euicc_derutil_unpack_find_alias_tags tags buffer len = Fail
    | Some item \<Rightarrow> \<exists>n. euicc_derutil_unpack_find_alias_tags tags buffer len = Ret n \<and>
        node_ok n \<and> node_item n = item"
  using assms by (rule find_alias_tags_eq)

theorem find_alias_tags_first_witness:
  "\<exists>n. euicc_derutil_unpack_find_alias_tags [0x81, 0x5A] [0x80, 1, 5, 0x5A, 2, 1, 2, 0x81, 0] 9 = Ret n \<and>
     node_item n = (0x5A, [1, 2], [0x5A, 2, 1, 2])"
  using find_alias_tags_first [of "[0x80, 1, 5, 0x5A, 2, 1, 2, 0x81, 0]" 9 "[0x81, 0x5A]"]
  by (auto simp: slice_ok_def slice_bytes_def tlv_items.simps tlv_decode_def)

text \<open>
  Iterating: the loop \<open>while (euicc_derutil_unpack_next(...) == 0)\<close> of the parsers runs its body on the
  slice's elements, each once and in order, and ends.
\<close>

theorem tlv_loop_visits_items:
  assumes "slice_ok buffer len"
  shows "\<exists>ns. map node_item ns = tlv_items (slice_bytes buffer len) \<and> (\<forall>n \<in> set ns. node_ok n) \<and>
    (\<forall>body s. tlv_foreach buffer len (body :: der_node \<Rightarrow> 's \<Rightarrow> 's cres) s = cfold body ns s)"
  using assms by (rule tlv_foreach_eq)

theorem tlv_loop_visits_items_witness:
  "tlv_foreach [0x80, 1, 5, 0x81, 0] 5 (\<lambda>n s. Ret (s @ [n_tag n])) [] = Ret [0x80, 0x81]"
proof -
  let ?buf = "[0x80, 1, 5, 0x81, 0] :: byte list"
  have items: "tlv_items (slice_bytes ?buf 5) = [(0x80, [5], [0x80, 1, 5]), (0x81, [], [0x81, 0])]"
    by (simp add: slice_bytes_def tlv_items.simps tlv_decode_def)
  have "slice_ok ?buf 5" by (simp add: slice_ok_def)
  from tlv_loop_visits_items [OF this] obtain ns where "map node_item ns = tlv_items (slice_bytes ?buf 5)"
    "\<forall>(body :: der_node \<Rightarrow> u16 list \<Rightarrow> u16 list cres) s. tlv_foreach ?buf 5 body s = cfold body ns s"
    by blast
  then show ?thesis unfolding items by (auto simp: node_item_def)
qed

text \<open>
  C33. Writing: \<open>euicc_derutil_pack\<close> refuses a buffer that is too small for the tree, and otherwise writes the
  DER encoding \<open>der_enc\<close> of the tree at its front, nothing beyond it, and returns its length.
\<close>

theorem pack_encodes:
  assumes "pack_ok t" "length buffer < 4294967296" "unat buffer_len \<le> length buffer"
    and "length (der_enc t) < 4294967296"
  shows "euicc_derutil_pack buffer buffer_len t =
    (if unat buffer_len < length (der_enc t) then Fail
     else Ret (der_enc t @ drop (length (der_enc t)) buffer, of_nat (length (der_enc t))))"
  using assms by (rule euicc_derutil_pack_eq)

definition example_leaf :: "u16 \<Rightarrow> byte list \<Rightarrow> der_tree" where
  "example_leaf tag bs = DNode \<lparr>p_tag = tag, p_length = of_nat (length bs), p_value = VMem bs,
     p_headless = False, p_relative_offset = 0, p_self_ptr = 0, p_self_length = 0\<rparr> []"

definition example_tree :: der_tree where
  "example_tree = DNode \<lparr>p_tag = 0xBF3E, p_length = 0, p_value = VNull,
     p_headless = False, p_relative_offset = 0, p_self_ptr = 0, p_self_length = 0\<rparr> [example_leaf 0x5C [0x5A]]"

lemma example_tree_enc: "der_enc example_tree = [0xBF, 0x3E, 3, 0x5C, 1, 0x5A]"
  by (simp add: example_tree_def example_leaf_def der_enc_node tree_body_def tag_bytes_def len_bytes_def
      node_bytes_def)

lemma example_tree_ok: "pack_ok example_tree" "tree_wf example_tree"
  by (simp_all add: example_tree_def example_leaf_def tag_wf_def)

theorem pack_encodes_witness:
  "euicc_derutil_pack [9, 9, 9, 9, 9, 9, 9, 9] 8 example_tree =
     Ret ([0xBF, 0x3E, 3, 0x5C, 1, 0x5A, 9, 9], 6) \<and>
   euicc_derutil_pack [9, 9, 9, 9, 9] 5 example_tree = Fail"
  using pack_encodes [OF example_tree_ok(1), of "[9, 9, 9, 9, 9, 9, 9, 9]" 8]
    pack_encodes [OF example_tree_ok(1), of "[9, 9, 9, 9, 9]" 5]
  by (simp add: example_tree_enc)



subsection \<open>Integers and bit strings\<close>

text \<open>
  Integer round trip: every \<open>long\<close> that \<open>euicc_derutil_convert_long2bin\<close> writes into a buffer of at least eight
  bytes is read back by \<open>euicc_derutil_convert_bin2long\<close>, and the encoding of a non-negative value
  has its first bit clear, so that it is a non-negative DER INTEGER.
\<close>

theorem long_roundtrip:
  assumes "8 \<le> unat buffer_len" "unat buffer_len \<le> length buffer"
  shows "\<exists>buf k. euicc_derutil_convert_long2bin buffer buffer_len v = Ret (buf, k) \<and>
    1 \<le> unat k \<and> unat k \<le> 8 \<and> length buf = length buffer \<and>
    euicc_derutil_convert_bin2long buf k = Ret v \<and> (0 \<le> sint v \<longrightarrow> \<not> bit (hd buf) 7)"
proof -
  define k where "k = long2bin_required 7 v 1"
  have k: "1 \<le> k" "k \<le> 8" using long2bin_required_bounds [of 1 7 v] by (simp_all add: k_def)
  let ?buf = "long_digits k v @ drop k buffer"
  have "euicc_derutil_convert_long2bin buffer buffer_len v = Ret (?buf, of_nat k)"
    using long2bin_eq [OF assms(2), of v] k assms(1) by (simp add: k_def)
  moreover have uk: "unat (of_nat k :: u32) = k" using k by simp
  moreover have "euicc_derutil_convert_bin2long ?buf (of_nat k) = Ret v"
    using be_value64_long_digits [of v, folded k_def]
    by (subst bin2long_eq) (auto simp: slice_ok_def slice_bytes_def uk)
  moreover have "\<not> bit (hd ?buf) 7" if "0 \<le> sint v"
  proof -
    obtain j where j: "k = Suc j" using k(1) by (cases k) auto
    have "\<not> bit v 63" using that bit_last_iff [of v] by simp
    then have "\<not> bit v (8 * j + 7)" using long2bin_enough [of v] j by (simp add: k_def add.commute)
    then show ?thesis
      using k(2) j by (auto simp: long_digits_Suc bit_ucast_iff and_FF64 bit_take_bit_iff
          bit_signed_drop_bit_iff add.commute split: if_splits)
  qed
  ultimately show ?thesis using k assms by (intro exI [of _ ?buf] exI [of _ "of_nat k"]) auto
qed

theorem long_roundtrip_witness:
  "\<exists>buf k. euicc_derutil_convert_long2bin (replicate 8 0) 8 200 = Ret (buf, k) \<and>
    1 \<le> unat k \<and> unat k \<le> 8 \<and> length buf = 8 \<and> euicc_derutil_convert_bin2long buf k = Ret 200 \<and> \<not> bit (hd buf) 7"
proof -
  have "sint (200 :: u64) = 200" by simp
  then show ?thesis using long_roundtrip [of 8 "replicate 8 0" 200] by simp
qed

text \<open>
  Bit string round trip: the flags \<open>euicc_derutil_convert_bits2bin_alloc\<close> sets are exactly the ones
  \<open>euicc_derutil_convert_bin2bits_str\<close> names, in ascending order and ended by NULL, whatever the number of
  names it is given.
\<close>

theorem bits_roundtrip:
  assumes "\<forall>b \<in> set bits. unat b < 4294967280"
  shows "\<exists>buf len. euicc_derutil_convert_bits2bin_alloc bits = Ret (buf, len) \<and>
    euicc_derutil_convert_bin2bits_str buf len desc =
      Ret (map (\<lambda>k. Some (desc ! k)) (filter (\<lambda>k. k \<in> unat ` set bits) [0..<length desc]) @ [None])"
  using assms by (rule bits_roundtrip_strong)

theorem bits_roundtrip_witness:
  "\<exists>buf len. euicc_derutil_convert_bits2bin_alloc [9, 1] = Ret (buf, len) \<and>
    euicc_derutil_convert_bin2bits_str buf len [[1], [2], [3]] = Ret [Some [2], None]"
  using bits_roundtrip [of "[9, 1]" "[[1], [2], [3]]"]
  by (simp add: upt_rec)

text \<open>
  The first byte of a BIT STRING decides whether \<open>euicc_derutil_convert_bin2bits_str\<close> is defined: for content of at
  least two bytes it shifts out of range exactly when that byte, as a signed \<open>char\<close>, is greater than
  8 or less than -23.
\<close>

theorem bin2bits_str_defined:
  assumes "slice_ok p len" "slice_bytes p len = unused # bs" "unat len < 2147483648" "bs \<noteq> []"
  shows "euicc_derutil_convert_bin2bits_str p len desc = UB \<longleftrightarrow> sint unused > 8 \<or> sint unused < -23"
proof (cases "unused_ok unused")
  case True
  then show ?thesis using bin2bits_str_eq [OF assms(1-3)] by (simp add: unused_ok_def)
next
  case False
  then show ?thesis using bin2bits_str_UB [OF assms] by (auto simp: unused_ok_def)
qed

theorem bin2bits_str_defined_witness:
  "euicc_derutil_convert_bin2bits_str [9, 0x80] 2 [[1]] = UB \<and>
   euicc_derutil_convert_bin2bits_str [7, 0x80] 2 [[1]] \<noteq> UB"
  using bin2bits_str_defined [of "[9, 0x80]" 2 9 "[0x80]" "[[1]]"]
    bin2bits_str_defined [of "[7, 0x80]" 2 7 "[0x80]" "[[1]]"]
  by (simp add: slice_ok_def slice_bytes_def)

subsection \<open>Base64\<close>

text \<open>
  Base64 round trip through buffers of exactly the sizes the code allocates.
\<close>

theorem base64_roundtrip:
  assumes "slice_ok p len" "length coded = euicc_base64_encode_len (unat len)"
  shows "\<exists>str n. euicc_base64_encode coded p (unat len) = Ret (str, length str) \<and>
    euicc_base64_decode_len str = Ret n \<and> unat len < n \<and>
    euicc_base64_decode (replicate n 0) str =
      Ret (slice_bytes p len @ replicate (n - unat len) 0, int (unat len))"
proof -
  let ?bs = "slice_bytes p len"
  let ?str = "b64_enc ?bs @ [0]" and ?cs = "b64_body ?bs"
  have bs: "length ?bs = unat len" using assms(1) by simp
  have enc: "euicc_base64_encode coded p (unat len) = Ret (?str, length ?str)"
    using base64_encode_eq [OF assms(1), of coded] length_b64_enc [of ?bs] bs assms(2)
    by (simp add: Let_def)
  obtain rest where rest: "?str = ?cs @ rest" "rest \<noteq> []" "\<not> b64_char (hd rest)"
    and cs: "list_all b64_char ?cs" "b64_dec (map b64_value ?cs) = ?bs"
    using b64_body_dec [of ?bs] by blast
  then obtain c junk where str: "?str = ?cs @ c # junk" "\<not> b64_char c" by (cases rest) auto
  define n where "n = (length ?cs + 3) div 4 * 3 + 1"
  have n: "unat len < n"
    using length_b64_dec_le [of "map b64_value ?cs"] cs(2) bs by (simp add: n_def)
  have "euicc_base64_decode_len ?str = Ret n"
    unfolding str(1) n_def by (rule base64_decode_len_eq [OF cs(1) str(2)])
  moreover have "euicc_base64_decode (replicate n 0) ?str =
      Ret (?bs @ replicate (n - unat len) 0, int (unat len))"
    unfolding str(1) using base64_decode_eq [OF cs(1) str(2), of "replicate n 0" junk] cs(2) bs n
    by (cases "n - unat len") (auto simp: Let_def)
  ultimately show ?thesis using enc n by blast
qed

theorem base64_roundtrip_witness:
  "\<exists>str n. euicc_base64_encode (replicate 5 0) [0xFB, 0xEF] 2 = Ret (str, length str) \<and>
    euicc_base64_decode_len str = Ret n \<and>
    euicc_base64_decode (replicate n 0) str = Ret ([0xFB, 0xEF] @ replicate (n - 2) 0, 2)"
  using base64_roundtrip [of "[0xFB, 0xEF]" 2 "replicate 5 0"]
  by (auto simp: slice_ok_def slice_bytes_def euicc_base64_encode_len_def)

text \<open>
  Decoding is memory safe on every NUL-terminated string, well-formed or not: into a block of the size
  \<open>euicc_base64_decode_len\<close> answers, \<open>euicc_base64_decode\<close> writes only inside, and returns a non-negative
  count smaller than that size.
\<close>

theorem base64_decode_safe:
  "\<exists>n buf k. euicc_base64_decode_len (s @ [0]) = Ret n \<and>
    euicc_base64_decode (replicate n 0) (s @ [0]) = Ret (buf, k) \<and>
    length buf = n \<and> 0 \<le> k \<and> k < int n"
  using base64_decode_string [of s] by fastforce

subsection \<open>SHA-256\<close>



end
