(* ===== verification/Euicc.thy ===== *)
theory Euicc
  imports Prelude
begin

text \<open>
  \<open>euicc/interface.c\<close> and \<open>euicc/euicc.c\<close>: building APDUs in the context's request buffer, sending
  them to the card, collecting answers that come in several parts (status word 61xx), and cutting a
  long request into STORE DATA blocks. The APDU driver (\<open>struct euicc_apdu_interface\<close>, one of
  several under \<open>driver/apdu\<close>) is a parameter of the model: a record of functions on a driver state
  \<open>'d\<close>. Its \<open>transmit\<close> is given the channel, which is all the drivers read of the context, and the
  bytes to send, and answers with the received bytes or an error.

  Loops whose end depends on the card are \<open>partial_function (option)\<close>; \<open>None\<close> is a run that never ends.
\<close>

subsection \<open>The context and the APDU buffer\<close>

text \<open>The two parameter structs of \<open>es10b.h\<close> that the context holds between the download steps.\<close>

record es10b_prepare_download_param =
  b64_profileMetadata :: "cstr option"
  b64_smdpSigned2 :: cstr
  b64_smdpSignature2 :: cstr
  b64_smdpCertificate :: cstr

record es10b_authenticate_server_param =
  b64_serverSigned1 :: cstr
  b64_serverSignature1 :: cstr
  b64_euiccCiPKIdToBeUsed :: cstr
  b64_serverCertificate :: cstr

text \<open>\<open>ctx->http._internal\<close>: a pointer is an option, \<open>None\<close> for NULL.\<close>

record euicc_http_internal =
  transaction_id_http :: "cstr option"
  transaction_id_bin :: "byte list option"
  transaction_id_bin_len :: u32
  b64_euicc_challenge :: "cstr option"
  b64_euicc_info_1 :: "cstr option"
  authenticate_server_param :: "es10b_authenticate_server_param option"
  b64_authenticate_server_response :: "cstr option"
  prepare_download_param :: "es10b_prepare_download_param option"
  b64_prepare_download_response :: "cstr option"
  b64_bound_profile_package :: "cstr option"
  b64_cancel_session_response :: "cstr option"

text \<open>\<open>ctx->http.status\<close>: the arrays \<open>subjectCode[9]\<close>, \<open>reasonCode[9]\<close>, \<open>subjectIdentifier[129]\<close> and \<open>message[129]\<close>.\<close>

record euicc_http_status =
  subjectCode :: cbuf
  reasonCode :: cbuf
  subjectIdentifier :: cbuf
  status_message :: cbuf

record euicc_ctx =
  aid :: "byte list option"
  aid_len :: byte
  es10x_mss :: byte
  logic_channel :: u32
  apdu_header :: "byte list"
  apdu_body :: "byte list"
  server_address :: "cstr option"
  http_status :: euicc_http_status
  http_internal :: euicc_http_internal

record 'd euicc_apdu_interface =
  if_connect :: "'d \<Rightarrow> int \<times> 'd"
  if_disconnect :: "'d \<Rightarrow> 'd"
  if_logic_channel_open :: "byte list \<Rightarrow> byte \<Rightarrow> 'd \<Rightarrow> int \<times> 'd"
  if_logic_channel_close :: "byte \<Rightarrow> 'd \<Rightarrow> 'd"
  if_transmit :: "u32 \<Rightarrow> byte list \<Rightarrow> 'd \<Rightarrow> byte list option \<times> 'd"

type_synonym 'd st = "euicc_ctx \<times> 'd"

record apdu_response =
  r_data :: cbuf
  r_length :: u32
  r_sw1 :: byte
  r_sw2 :: byte

text \<open>
  \<open>lc\<close> and \<open>le\<close> fill the five header bytes of the buffer; the result is the length to transmit.
\<close>

definition lc :: "euicc_ctx \<Rightarrow> byte \<Rightarrow> byte \<Rightarrow> byte \<Rightarrow> byte \<Rightarrow> byte \<Rightarrow> nat \<times> euicc_ctx" where
  "lc ctx cla ins p1 p2 datalen =
     (unat datalen + 5, ctx\<lparr>apdu_header := [cla, ins, p1, p2, datalen]\<rparr>)"

definition le :: "euicc_ctx \<Rightarrow> byte \<Rightarrow> byte \<Rightarrow> byte \<Rightarrow> byte \<Rightarrow> byte \<Rightarrow> nat \<times> euicc_ctx" where
  "le ctx cla ins p1 p2 requestlen =
     (5, ctx\<lparr>apdu_header := [cla, ins, p1, p2, requestlen]\<rparr>)"

definition euicc_apdu_lc ::
  "euicc_ctx \<Rightarrow> byte \<Rightarrow> byte \<Rightarrow> byte \<Rightarrow> byte \<Rightarrow> byte \<Rightarrow> nat \<times> euicc_ctx" where
  "euicc_apdu_lc ctx cla ins p1 p2 datalen = lc ctx cla ins p1 p2 datalen"

definition euicc_apdu_le ::
  "euicc_ctx \<Rightarrow> byte \<Rightarrow> byte \<Rightarrow> byte \<Rightarrow> byte \<Rightarrow> byte \<Rightarrow> nat \<times> euicc_ctx" where
  "euicc_apdu_le ctx cla ins p1 p2 requestlen = le ctx cla ins p1 p2 requestlen"

definition euicc_apdu_transmit ::
  "'d euicc_apdu_interface \<Rightarrow> euicc_ctx \<Rightarrow> byte list \<Rightarrow> 'd \<Rightarrow> apdu_response cres \<times> 'd" where
  "euicc_apdu_transmit iface ctx tx d =
     (case if_transmit iface (logic_channel ctx) tx d of
        (None, d) \<Rightarrow> (Fail, d)
      | (Some rx, d) \<Rightarrow>
          (let len = of_nat (length rx) :: u32 in
           if len < 2 then (Fail, d)
           else (cbind (cload rx (unat (len - 2))) (\<lambda>sw1.
                 cbind (cload rx (unat (len - 1))) (\<lambda>sw2.
                 Ret \<lparr>r_data = rx, r_length = len - 2, r_sw1 = sw1, r_sw2 = sw2\<rparr>)), d)))"

subsection \<open>\<open>euicc.c\<close>\<close>

definition SW1_OK :: byte where "SW1_OK = 0x90"

definition SW1_LAST :: byte where "SW1_LAST = 0x61"

definition es10x_transmit ::
  "'d euicc_apdu_interface \<Rightarrow> nat \<Rightarrow> 'd st \<Rightarrow> apdu_response cres \<times> 'd st" where
  "es10x_transmit iface req_len st =
     (let (ctx, d) = st;
          cla = (apdu_header ctx ! 0 AND 0xF0) OR ucast (logic_channel ctx AND 0x0F);
          ctx = ctx\<lparr>apdu_header := (apdu_header ctx)[0 := cla]\<rparr>;
          buf = apdu_header ctx @ apdu_body ctx
      in if length buf < req_len then (UB, (ctx, d))
         else let (r, d) = euicc_apdu_transmit iface ctx (take req_len buf) d in (r, (ctx, d)))"

type_synonym 'u iter_callback = "apdu_response \<Rightarrow> 'u \<Rightarrow> 'u cres"

text \<open>The body of \<open>do ... while (1)\<close>, entered with the response just received.\<close>

partial_function (option) es10x_transmit_loop ::
  "'d euicc_apdu_interface \<Rightarrow> 'u iter_callback \<Rightarrow> apdu_response \<Rightarrow> 'u \<Rightarrow> 'd st \<Rightarrow>
     ('u cres \<times> 'd st) option" where
  "es10x_transmit_loop iface callback response u st =
     (case (if r_length response > 0 then callback response u else Ret u) of
        Fail \<Rightarrow> Some (Fail, st)
      | UB \<Rightarrow> Some (UB, st)
      | Ret u \<Rightarrow>
          if r_sw1 response = SW1_LAST then
            (let (ret, ctx) = euicc_apdu_le (fst st) 0x80 0xC0 0x00 0x00 (r_sw2 response) in
             case es10x_transmit iface ret (ctx, snd st) of
               (Fail, st) \<Rightarrow> Some (Fail, st)
             | (UB, st) \<Rightarrow> Some (UB, st)
             | (Ret response, st) \<Rightarrow> es10x_transmit_loop iface callback response u st)
          else if r_sw1 response AND 0xF0 = SW1_OK then Some (Ret u, st)
          else Some (Fail, st))"

definition es10x_transmit_iter ::
  "'d euicc_apdu_interface \<Rightarrow> nat \<Rightarrow> 'u iter_callback \<Rightarrow> 'u \<Rightarrow> 'd st \<Rightarrow>
     ('u cres \<times> 'd st) option" where
  "es10x_transmit_iter iface req_len callback u st =
     (case es10x_transmit iface req_len st of
        (Fail, st) \<Rightarrow> Some (Fail, st)
      | (UB, st) \<Rightarrow> Some (UB, st)
      | (Ret response, st) \<Rightarrow> es10x_transmit_loop iface callback response u st)"

text \<open>
  A request is read from memory of the caller or, where the ES10 functions packed it there, from
  the \<open>body\<close> of the very buffer the APDU is built in.
\<close>

datatype req_src = ReqMem cptr | ReqBody nat

fun req_bytes :: "euicc_ctx \<Rightarrow> req_src \<Rightarrow> cptr" where
  "req_bytes ctx (ReqMem p) = p"
| "req_bytes ctx (ReqBody off) = drop off (apdu_body ctx)"

fun req_advance :: "nat \<Rightarrow> req_src \<Rightarrow> req_src" where
  "req_advance n (ReqMem p) = ReqMem (drop n p)"
| "req_advance n (ReqBody off) = ReqBody (off + n)"

text \<open>
  \<open>memcpy\<close> must not be used on overlapping blocks. Source and destination that coincide are let
  through: the compilers' \<open>memcpy\<close> copies them onto themselves, and the code relies on it.
\<close>

fun req_overlaps :: "req_src \<Rightarrow> nat \<Rightarrow> bool" where
  "req_overlaps (ReqMem p) n \<longleftrightarrow> False"
| "req_overlaps (ReqBody off) n \<longleftrightarrow> 0 < off \<and> off < n"

definition es10x_command_buildrequest ::
  "euicc_ctx \<Rightarrow> byte \<Rightarrow> byte \<Rightarrow> req_src \<Rightarrow> byte \<Rightarrow> (nat \<times> euicc_ctx) cres" where
  "es10x_command_buildrequest ctx p1 p2 der_req req_len =
     (let (ret, ctx) = euicc_apdu_lc ctx 0x80 0xE2 p1 p2 req_len in
      if req_overlaps der_req (unat req_len) then UB
      else cbind (memcpy (apdu_body ctx) 0 (req_bytes ctx der_req) (unat req_len)) (\<lambda>body.
           Ret (ret, ctx\<lparr>apdu_body := body\<rparr>)))"

definition es10x_command_buildrequest_continue ::
  "euicc_ctx \<Rightarrow> byte \<Rightarrow> req_src \<Rightarrow> byte \<Rightarrow> (nat \<times> euicc_ctx) cres" where
  "es10x_command_buildrequest_continue ctx reqseq der_req req_len =
     es10x_command_buildrequest ctx 0x11 reqseq der_req req_len"

definition es10x_command_buildrequest_last ::
  "euicc_ctx \<Rightarrow> byte \<Rightarrow> req_src \<Rightarrow> byte \<Rightarrow> (nat \<times> euicc_ctx) cres" where
  "es10x_command_buildrequest_last ctx reqseq der_req req_len =
     es10x_command_buildrequest ctx 0x91 reqseq der_req req_len"

text \<open>The loop \<open>while (req_len)\<close>; \<open>reqseq\<close> is an \<open>int\<close> passed on as \<open>uint8_t\<close>.\<close>

partial_function (option) es10x_command_loop ::
  "'d euicc_apdu_interface \<Rightarrow> 'u iter_callback \<Rightarrow> nat \<Rightarrow> req_src \<Rightarrow> u32 \<Rightarrow> 'u \<Rightarrow> 'd st \<Rightarrow>
     ('u cres \<times> 'd st) option" where
  "es10x_command_loop iface callback reqseq req_ptr req_len u st =
     (if req_len = 0 then Some (Ret u, st)
      else
        let ctx = fst st;
            more = req_len > ucast (es10x_mss ctx);
            rlen = (if more then es10x_mss ctx else ucast req_len);
            built = (if more then es10x_command_buildrequest_continue ctx (of_nat reqseq) req_ptr rlen
                     else es10x_command_buildrequest_last ctx (of_nat reqseq) req_ptr rlen)
        in case built of
             Fail \<Rightarrow> Some (Fail, st)
           | UB \<Rightarrow> Some (UB, st)
           | Ret (ret, ctx) \<Rightarrow>
               Option.bind (es10x_transmit_iter iface ret callback u (ctx, snd st)) (\<lambda>(r, st).
               case r of
                 Fail \<Rightarrow> Some (Fail, st)
               | UB \<Rightarrow> Some (UB, st)
               | Ret u \<Rightarrow> es10x_command_loop iface callback (reqseq + 1)
                   (req_advance (unat rlen) req_ptr) (req_len - ucast rlen) u st))"

definition es10x_command_iter ::
  "'d euicc_apdu_interface \<Rightarrow> req_src \<Rightarrow> u32 \<Rightarrow> 'u iter_callback \<Rightarrow> 'u \<Rightarrow> 'd st \<Rightarrow>
     ('u cres \<times> 'd st) option" where
  "es10x_command_iter iface der_req req_len callback u st =
     es10x_command_loop iface callback 0 der_req req_len u st"

record userdata_es10x_command =
  ud_resp :: cbuf
  ud_resp_len :: u32

text \<open>\<open>realloc\<close> keeps the common prefix of the block; bytes it adds are zero here.\<close>

definition realloc :: "cbuf \<Rightarrow> nat \<Rightarrow> cbuf" where
  "realloc b n = take n b @ replicate (n - length b) 0"

definition iter_es10x_command :: "userdata_es10x_command iter_callback" where
  "iter_es10x_command response ud =
     (let new_len = ud_resp_len ud + r_length response;
          resp = realloc (ud_resp ud) (unat new_len) in
      cbind (memcpy resp (unat (ud_resp_len ud)) (r_data response) (unat (r_length response)))
        (\<lambda>resp. Ret \<lparr>ud_resp = resp, ud_resp_len = new_len\<rparr>))"

definition es10x_command ::
  "'d euicc_apdu_interface \<Rightarrow> req_src \<Rightarrow> u32 \<Rightarrow> 'd st \<Rightarrow> ((cbuf \<times> u32) cres \<times> 'd st) option" where
  "es10x_command iface der_req req_len st =
     Option.bind (es10x_command_iter iface der_req req_len iter_es10x_command
       \<lparr>ud_resp = [], ud_resp_len = 0\<rparr> st) (\<lambda>(r, st).
     Some (cbind r (\<lambda>ud. Ret (ud_resp ud, ud_resp_len ud)), st))"

definition ISD_R_AID :: "byte list" where
  "ISD_R_AID = [0xA0, 0x00, 0x00, 0x05, 0x59, 0x10, 0x10, 0xFF, 0xFF, 0xFF, 0xFF, 0x89, 0x00, 0x00,
     0x01, 0x00]"

definition euicc_init :: "'d euicc_apdu_interface \<Rightarrow> 'd st \<Rightarrow> unit cres \<times> 'd st" where
  "euicc_init iface st =
     (let (ctx, d) = st;
          ctx = (if aid ctx = None then ctx\<lparr>aid := Some ISD_R_AID, aid_len := 16\<rparr> else ctx);
          ctx = (if es10x_mss ctx = 0 then ctx\<lparr>es10x_mss := 120\<rparr> else ctx);
          (ret, d) = if_connect iface d
      in if ret < 0 then (Fail, (ctx, d))
         else let (ret, d) = if_logic_channel_open iface (the (aid ctx)) (aid_len ctx) d in
           if ret < 0 then (Fail, (ctx, if_disconnect iface d))
           else (Ret (), (ctx\<lparr>logic_channel := word_of_int ret\<rparr>, d)))"

definition euicc_fini :: "'d euicc_apdu_interface \<Rightarrow> 'd st \<Rightarrow> 'd st" where
  "euicc_fini iface st =
     (let (ctx, d) = st;
          d = if_logic_channel_close iface (ucast (logic_channel ctx)) d;
          d = if_disconnect iface d
      in (ctx\<lparr>logic_channel := 0\<rparr>, d))"

definition http_internal_zero :: euicc_http_internal where
  "http_internal_zero = \<lparr>transaction_id_http = None, transaction_id_bin = None,
     transaction_id_bin_len = 0, b64_euicc_challenge = None, b64_euicc_info_1 = None,
     authenticate_server_param = None, b64_authenticate_server_response = None,
     prepare_download_param = None, b64_prepare_download_response = None,
     b64_bound_profile_package = None, b64_cancel_session_response = None\<rparr>"

definition euicc_http_cleanup :: "euicc_ctx \<Rightarrow> euicc_ctx" where
  "euicc_http_cleanup ctx = ctx\<lparr>http_internal := http_internal_zero\<rparr>"

end
