(* ===== verification/Apdu_Wire.thy ===== *)
theory Apdu_Wire
  imports Euicc
begin

text \<open>
  What the APDU layer of \<open>Euicc\<close> does on the wire. The reference has no context and no buffer: an
  inductive relation \<open>exchanges\<close> between the list of APDUs sent, the driver's state and the outcome.
  The main lemma shows that \<open>es10x_command_iter\<close> ends with an outcome exactly when the exchange of
  the request's segments does, although every APDU is built in one shared buffer in which the
  request itself may lie.
\<close>

subsection \<open>The exchange seen from the wire\<close>

text \<open>
  The reference has no buffer: it is given the APDUs to send as byte strings, and sends GET RESPONSE
  while the card answers 61xx.
\<close>

definition wire_cla :: "u32 \<Rightarrow> byte" where
  "wire_cla ch = 0x80 OR ucast (ch AND 0x0F)"

definition get_response :: "u32 \<Rightarrow> byte \<Rightarrow> byte list" where
  "get_response ch n = [wire_cla ch, 0xC0, 0, 0, n]"

definition store_data :: "u32 \<Rightarrow> byte \<Rightarrow> nat \<Rightarrow> byte list \<Rightarrow> byte list" where
  "store_data ch p1 seq data = [wire_cla ch, 0xE2, p1, of_nat seq, of_nat (length data)] @ data"

definition card_answer ::
  "'d euicc_apdu_interface \<Rightarrow> u32 \<Rightarrow> byte list \<Rightarrow> 'd \<Rightarrow> apdu_response option \<times> 'd" where
  "card_answer iface ch tx d =
     (case if_transmit iface ch tx d of
        (None, d) \<Rightarrow> (None, d)
      | (Some rx, d) \<Rightarrow>
          (if length rx < 2 then None
           else Some \<lparr>r_data = rx, r_length = of_nat (length rx - 2),
             r_sw1 = rx ! (length rx - 2), r_sw2 = rx ! (length rx - 1)\<rparr>, d))"

definition deliver :: "'u iter_callback \<Rightarrow> apdu_response \<Rightarrow> 'u \<Rightarrow> 'u cres" where
  "deliver callback response u = (if r_length response > 0 then callback response u else Ret u)"

text \<open>
  \<open>collects iface ch cb response u d r d'\<close>: handling \<open>response\<close> and the parts that follow it takes
  the driver from \<open>d\<close> to \<open>d'\<close> and ends with \<open>r\<close>. There is no derivation when the parts never end.
\<close>

inductive collects ::
  "'d euicc_apdu_interface \<Rightarrow> u32 \<Rightarrow> 'u iter_callback \<Rightarrow> apdu_response \<Rightarrow> 'u \<Rightarrow> 'd \<Rightarrow>
     'u cres \<Rightarrow> 'd \<Rightarrow> bool"
  for iface ch callback where
  refused: "deliver callback response u = Fail \<Longrightarrow> collects iface ch callback response u d Fail d"
| crashed: "deliver callback response u = UB \<Longrightarrow> collects iface ch callback response u d UB d"
| finished: "deliver callback response u = Ret u' \<Longrightarrow> r_sw1 response \<noteq> SW1_LAST \<Longrightarrow>
    r_sw1 response AND 0xF0 = SW1_OK \<Longrightarrow> collects iface ch callback response u d (Ret u') d"
| bad_status: "deliver callback response u = Ret u' \<Longrightarrow> r_sw1 response \<noteq> SW1_LAST \<Longrightarrow>
    r_sw1 response AND 0xF0 \<noteq> SW1_OK \<Longrightarrow> collects iface ch callback response u d Fail d"
| lost: "deliver callback response u = Ret u' \<Longrightarrow> r_sw1 response = SW1_LAST \<Longrightarrow>
    card_answer iface ch (get_response ch (r_sw2 response)) d = (None, d') \<Longrightarrow>
    collects iface ch callback response u d Fail d'"
| more: "deliver callback response u = Ret u' \<Longrightarrow> r_sw1 response = SW1_LAST \<Longrightarrow>
    card_answer iface ch (get_response ch (r_sw2 response)) d = (Some response', d') \<Longrightarrow>
    collects iface ch callback response' u' d' r d'' \<Longrightarrow>
    collects iface ch callback response u d r d''"

text \<open>The whole exchange for a list of APDUs; it stops at the first failure.\<close>

inductive exchanges ::
  "'d euicc_apdu_interface \<Rightarrow> u32 \<Rightarrow> 'u iter_callback \<Rightarrow> byte list list \<Rightarrow> 'u \<Rightarrow> 'd \<Rightarrow>
     'u cres \<Rightarrow> 'd \<Rightarrow> bool"
  for iface ch callback where
  all_sent: "exchanges iface ch callback [] u d (Ret u) d"
| unanswered: "card_answer iface ch apdu d = (None, d') \<Longrightarrow>
    exchanges iface ch callback (apdu # apdus) u d Fail d'"
| stopped: "card_answer iface ch apdu d = (Some response, d') \<Longrightarrow>
    collects iface ch callback response u d' r d'' \<Longrightarrow> r = Fail \<or> r = UB \<Longrightarrow>
    exchanges iface ch callback (apdu # apdus) u d r d''"
| answered: "card_answer iface ch apdu d = (Some response, d') \<Longrightarrow>
    collects iface ch callback response u d' (Ret u') d'' \<Longrightarrow>
    exchanges iface ch callback apdus u' d'' r e \<Longrightarrow>
    exchanges iface ch callback (apdu # apdus) u d r e"

text \<open>A request cut into blocks of \<open>mss\<close> bytes, numbered from \<open>seq\<close>, the last one marked.\<close>

function segments :: "u32 \<Rightarrow> nat \<Rightarrow> nat \<Rightarrow> byte list \<Rightarrow> byte list list" where
  "segments ch mss seq bs =
     (if bs = [] \<or> mss = 0 then []
      else if mss < length bs
      then store_data ch 0x11 seq (take mss bs) # segments ch mss (seq + 1) (drop mss bs)
      else [store_data ch 0x91 seq bs])"
  by pat_completeness auto
termination
  by (relation "measure (\<lambda>(ch, mss, seq, bs). length bs)") auto

declare segments.simps [simp del]

definition wf_ctx :: "euicc_ctx \<Rightarrow> bool" where
  "wf_ctx ctx \<longleftrightarrow> length (apdu_header ctx) = 5 \<and> length (apdu_body ctx) = 255"

text \<open>What the interface promises: \<open>rx_len\<close> is the length of the bytes it hands out.\<close>

definition small_answers :: "'d euicc_apdu_interface \<Rightarrow> bool" where
  "small_answers iface \<longleftrightarrow>
     (\<forall>ch tx d rx d'. if_transmit iface ch tx d = (Some rx, d') \<longrightarrow> length rx < 4294967296)"

text \<open>Contexts that differ in the APDU header only, which every APDU rewrites.\<close>

definition same_but_header :: "euicc_ctx \<Rightarrow> euicc_ctx \<Rightarrow> bool" where
  "same_but_header ctx ctx' \<longleftrightarrow>
     ctx'\<lparr>apdu_header := apdu_header ctx\<rparr> = ctx \<and> length (apdu_header ctx') = length (apdu_header ctx)"

fun opt_res :: "'a option \<Rightarrow> 'a cres" where
  "opt_res None = Fail"
| "opt_res (Some a) = Ret a"

lemma apdu_transmit_answer:
  assumes "small_answers iface"
  shows "euicc_apdu_transmit iface ctx tx d =
    map_prod opt_res id (card_answer iface (logic_channel ctx) tx d)"
proof (cases "if_transmit iface (logic_channel ctx) tx d")
  case (Pair rx d')
  show ?thesis
  proof (cases rx)
    case (Some bs)
    have small: "length bs < 4294967296" using assms Pair Some unfolding small_answers_def by blast
    have lt: "(of_nat (length bs) :: u32) < 2 \<longleftrightarrow> length bs < 2"
      using small by (simp add: word_less_nat_alt)
    show ?thesis
    proof (cases "length bs < 2")
      case False
      then have "(of_nat (length bs) :: u32) - 2 = of_nat (length bs - 2)"
        "(of_nat (length bs) :: u32) - 1 = of_nat (length bs - 1)"
        by (simp_all add: of_nat_diff)
      moreover from False small have "unat (of_nat (length bs - 2) :: u32) = length bs - 2"
        "unat (of_nat (length bs - 1) :: u32) = length bs - 1" by (simp_all del: of_nat_diff)
      ultimately show ?thesis
        using Pair Some False lt
        by (auto simp: euicc_apdu_transmit_def card_answer_def Let_def cload_def)
    qed (use Pair Some lt in \<open>simp add: euicc_apdu_transmit_def card_answer_def Let_def\<close>)
  qed (simp add: Pair euicc_apdu_transmit_def card_answer_def)
qed

lemma es10x_transmit_answer:
  assumes "small_answers iface" "wf_ctx ctx" "n \<le> 260"
    and "apdu_header ctx = [cla, ins, p1, p2, l]"
  defines "hdr \<equiv> [(cla AND 0xF0) OR ucast (logic_channel ctx AND 0x0F), ins, p1, p2, l]"
  shows "es10x_transmit iface n (ctx, d) =
    map_prod opt_res (Pair (ctx\<lparr>apdu_header := hdr\<rparr>))
      (card_answer iface (logic_channel ctx) (take n (hdr @ apdu_body ctx)) d)"
  using assms(2,3,4)
  by (simp add: es10x_transmit_def hdr_def wf_ctx_def apdu_transmit_answer [OF assms(1)] Let_def
      map_prod_def split: prod.splits)

lemma le_transmit:
  assumes "small_answers iface" "wf_ctx ctx"
  shows "es10x_transmit iface (fst (euicc_apdu_le ctx 0x80 0xC0 0 0 k))
      (snd (euicc_apdu_le ctx 0x80 0xC0 0 0 k), d) =
    map_prod opt_res (Pair (ctx\<lparr>apdu_header := get_response (logic_channel ctx) k\<rparr>))
      (card_answer iface (logic_channel ctx) (get_response (logic_channel ctx) k) d)"
  using es10x_transmit_answer [OF assms(1), of "snd (euicc_apdu_le ctx 0x80 0xC0 0 0 k)" 5
      "0x80" "0xC0" 0 0 k d] assms(2)
  by (simp add: euicc_apdu_le_def le_def wf_ctx_def get_response_def wire_cla_def)


lemma length_get_response [simp]: "length (get_response ch k) = 5"
  by (simp add: get_response_def)

lemma same_but_header_refl [simp]: "same_but_header ctx ctx"
  by (simp add: same_but_header_def)

lemma same_but_header_simps:
  "same_but_header ctx ctx' \<Longrightarrow> logic_channel ctx' = logic_channel ctx"
  "same_but_header ctx ctx' \<Longrightarrow> apdu_body ctx' = apdu_body ctx"
  "same_but_header ctx ctx' \<Longrightarrow> es10x_mss ctx' = es10x_mss ctx"
  "same_but_header ctx ctx' \<Longrightarrow> wf_ctx ctx' = wf_ctx ctx"
  unfolding same_but_header_def wf_ctx_def by (metis euicc_ctx.simps euicc_ctx.select_convs euicc_ctx.surjective euicc_ctx.update_convs)+

lemma same_but_header_trans:
  "same_but_header ctx ctx' \<Longrightarrow> same_but_header ctx' ctx'' \<Longrightarrow> same_but_header ctx ctx''"
  by (cases ctx; cases ctx'; cases ctx'') (simp add: same_but_header_def)

lemma same_but_header_update:
  "wf_ctx ctx \<Longrightarrow> length h = 5 \<Longrightarrow> same_but_header ctx (ctx\<lparr>apdu_header := h\<rparr>)"
  by (cases ctx) (simp add: same_but_header_def wf_ctx_def)

lemma le_step:
  assumes "small_answers iface" "wf_ctx ctx"
  shows "(let (ret, ctx1) = euicc_apdu_le ctx 0x80 0xC0 0 0 k in
      case es10x_transmit iface ret (ctx1, d) of
        (Fail, st) \<Rightarrow> Some (Fail, st) | (UB, st) \<Rightarrow> Some (UB, st) | (Ret response, st) \<Rightarrow> f response st) =
    (case card_answer iface (logic_channel ctx) (get_response (logic_channel ctx) k) d of
       (None, d') \<Rightarrow> Some (Fail, (ctx\<lparr>apdu_header := get_response (logic_channel ctx) k\<rparr>, d'))
     | (Some response, d') \<Rightarrow> f response (ctx\<lparr>apdu_header := get_response (logic_channel ctx) k\<rparr>, d'))"
  using le_transmit [OF assms, of k d]
  by (simp add: Let_def case_prod_beta split: prod.splits option.splits)

text \<open>One direction of the simulation: a run of the code that ends is a run on the wire.\<close>

lemma transmit_loop_wire:
  assumes "small_answers iface" "wf_ctx ctx"
    and "es10x_transmit_loop iface cb response u (ctx, d) = Some (r, ctx', d')"
  shows "collects iface (logic_channel ctx) cb response u d r d' \<and> same_but_header ctx ctx'"
proof -
  let ?P = "\<lambda>iface' cb' response u st res. iface' = iface \<longrightarrow> cb' = cb \<longrightarrow> wf_ctx (fst st) \<longrightarrow>
    collects iface (logic_channel (fst st)) cb response u (snd st) (fst res) (snd (snd res)) \<and>
    same_but_header (fst st) (fst (snd res))"
  have "?P iface cb response u (ctx, d) (r, ctx', d')"
  proof (rule es10x_transmit_loop.raw_induct [where P = ?P, OF _ assms(3)], intro impI, goal_cases)
    case (1 f iface' cb' response u st res)
    obtain c e where st: "st = (c, e)" by (cases st)
    have wf: "wf_ctx c" using 1 st by simp
    note step = 1(2) [unfolded 1(3) 1(4) st fst_conv snd_conv le_step [OF assms(1) wf]
        deliver_def [symmetric]]
    show ?case
    proof (cases "deliver cb response u")
      case (Ret u')
      show ?thesis
      proof (cases "r_sw1 response = SW1_LAST")
        case True
        let ?g = "get_response (logic_channel c) (r_sw2 response)"
        obtain a e' where ans: "card_answer iface (logic_channel c) ?g e = (a, e')" by force
        have hdr: "same_but_header c (c\<lparr>apdu_header := ?g\<rparr>)"
          using wf by (rule same_but_header_update) simp
        show ?thesis
        proof (cases a)
          case None
          with step Ret True ans hdr show ?thesis by (auto simp: st intro: collects.lost)
        next
          case (Some response')
          with step Ret True ans have "f iface cb response' u' (c\<lparr>apdu_header := ?g\<rparr>, e') = Some res"
            by simp
          from 1(1) [OF this] wf hdr have
            "collects iface (logic_channel c) cb response' u' e' (fst res) (snd (snd res))"
            "same_but_header (c\<lparr>apdu_header := ?g\<rparr>) (fst (snd res))"
            by (simp_all add: same_but_header_simps)
          with Some Ret True ans hdr show ?thesis
            by (auto simp: st intro: collects.more same_but_header_trans)
        qed
      next
        case False
        with step Ret show ?thesis
          by (auto simp: st split: if_splits intro: collects.finished collects.bad_status)
      qed
    qed (use step in \<open>auto simp: st intro: collects.refused collects.crashed\<close>)
  qed
  then show ?thesis using assms by simp
qed

text \<open>The other direction: the code follows every run on the wire.\<close>

lemma wire_transmit_loop:
  assumes "small_answers iface"
    and "collects iface ch cb response u d r d'"
  shows "wf_ctx ctx \<Longrightarrow> logic_channel ctx = ch \<Longrightarrow>
    \<exists>ctx'. es10x_transmit_loop iface cb response u (ctx, d) = Some (r, ctx', d')"
  using assms(2)
proof (induction arbitrary: ctx)
  case (more response u u' d response' d' r d'')
  let ?c = "ctx\<lparr>apdu_header := get_response ch (r_sw2 response)\<rparr>"
  have "wf_ctx ?c" using more.prems by (simp add: wf_ctx_def)
  from more.IH [OF this] more.prems more.hyps show ?case
    by (auto simp: es10x_transmit_loop.simps [of _ _ response] le_step [OF assms(1)]
        deliver_def [symmetric])
qed (simp_all add: es10x_transmit_loop.simps le_step [OF assms(1)] deliver_def [symmetric])

definition answered_by ::
  "'d euicc_apdu_interface \<Rightarrow> u32 \<Rightarrow> 'u iter_callback \<Rightarrow> byte list \<Rightarrow> 'u \<Rightarrow> 'd \<Rightarrow> 'u cres \<Rightarrow> 'd \<Rightarrow> bool"
  where "answered_by iface ch cb apdu u d r d' \<longleftrightarrow>
    (case card_answer iface ch apdu d of
       (None, d1) \<Rightarrow> r = Fail \<and> d' = d1
     | (Some response, d1) \<Rightarrow> collects iface ch cb response u d1 r d')"

inductive_simps exchanges_Nil: "exchanges iface ch cb [] u d r e"
inductive_simps exchanges_Cons_iff: "exchanges iface ch cb (apdu # apdus) u d r e"

lemma exchanges_Cons:
  "exchanges iface ch cb (apdu # apdus) u d r e \<longleftrightarrow>
    (answered_by iface ch cb apdu u d r e \<and> (r = Fail \<or> r = UB)) \<or>
    (\<exists>u' d'. answered_by iface ch cb apdu u d (Ret u') d' \<and> exchanges iface ch cb apdus u' d' r e)"
proof (cases "card_answer iface ch apdu d")
  case (Pair a d1)
  then show ?thesis by (cases a) (auto simp: exchanges_Cons_iff answered_by_def)
qed

text \<open>A STORE DATA block built in the buffer, whatever the buffer held.\<close>

definition built_ctx :: "euicc_ctx \<Rightarrow> byte \<Rightarrow> nat \<Rightarrow> byte list \<Rightarrow> euicc_ctx" where
  "built_ctx ctx p1 seq data =
     ctx\<lparr>apdu_header := [0x80, 0xE2, p1, of_nat seq, of_nat (length data)],
         apdu_body := data @ drop (length data) (apdu_body ctx)\<rparr>"

lemma buildrequest_eq:
  assumes "wf_ctx ctx" "take (length data) (req_bytes ctx src) = data" "length data < 256"
    and "\<not> req_overlaps src (length data)"
  shows "es10x_command_buildrequest ctx p1 (of_nat seq) src (of_nat (length data)) =
    Ret (length data + 5, built_ctx ctx p1 seq data)"
proof -
  have un: "unat (of_nat (length data) :: byte) = length data"
    using assms(3) by (simp add: unat_of_nat)
  have "length data \<le> length (req_bytes ctx src)"
    using assms(2) by (metis length_take min.cobounded1)
  moreover have "req_bytes (ctx\<lparr>apdu_header := h\<rparr>) src = req_bytes ctx src" for h
    by (cases src) simp_all
  ultimately show ?thesis
    using assms by (simp add: es10x_command_buildrequest_def euicc_apdu_lc_def lc_def un memcpy_def
        wf_ctx_def built_ctx_def)
qed

lemma take_header:
  "take (length data + 5) (a # b # c # d # e # data @ rest) = a # b # c # d # e # data"
  by (simp add: eval_nat_numeral)

lemma transmit_iter_wire:
  fixes p1 seq
  assumes "small_answers iface" "wf_ctx ctx" "length data < 256"
  defines "c \<equiv> built_ctx ctx p1 seq data" and "ch \<equiv> logic_channel ctx"
  shows "es10x_transmit_iter iface (length data + 5) cb u (c, d) = Some (r, ctx', d') \<Longrightarrow>
      answered_by iface ch cb (store_data ch p1 seq data) u d r d' \<and> same_but_header c ctx'"
    and "answered_by iface ch cb (store_data ch p1 seq data) u d r d' \<Longrightarrow>
      \<exists>ctx'. es10x_transmit_iter iface (length data + 5) cb u (c, d) = Some (r, ctx', d')"
proof -
  let ?h = "[wire_cla ch, 0xE2, p1, of_nat seq, of_nat (length data)]"
  have wf: "wf_ctx c" "wf_ctx (c\<lparr>apdu_header := ?h\<rparr>)"
    using assms(2,3) by (simp_all add: c_def built_ctx_def wf_ctx_def)
  have ch: "logic_channel c = ch" "logic_channel (c\<lparr>apdu_header := ?h\<rparr>) = ch"
    by (simp_all add: c_def built_ctx_def ch_def)
  have tr: "es10x_transmit iface (length data + 5) (c, d) =
      map_prod opt_res (Pair (c\<lparr>apdu_header := ?h\<rparr>))
        (card_answer iface ch (store_data ch p1 seq data) d)"
    using es10x_transmit_answer [OF assms(1) wf(1), of "length data + 5" "0x80" "0xE2" p1 "of_nat seq"
        "of_nat (length data)" d] assms(3) ch
    by (simp add: c_def built_ctx_def store_data_def wire_cla_def take_header)
  have hdr: "same_but_header c (c\<lparr>apdu_header := ?h\<rparr>)"
    using wf(1) by (rule same_but_header_update) simp
  show "answered_by iface ch cb (store_data ch p1 seq data) u d r d' \<and> same_but_header c ctx'"
    if "es10x_transmit_iter iface (length data + 5) cb u (c, d) = Some (r, ctx', d')"
  proof (cases "card_answer iface ch (store_data ch p1 seq data) d")
    case (Pair a d1)
    show ?thesis
    proof (cases a)
      case None
      with Pair that hdr show ?thesis by (auto simp: es10x_transmit_iter_def tr answered_by_def)
    next
      case (Some response)
      with Pair that have "es10x_transmit_loop iface cb response u (c\<lparr>apdu_header := ?h\<rparr>, d1) =
          Some (r, ctx', d')"
        by (simp add: es10x_transmit_iter_def tr)
      from transmit_loop_wire [OF assms(1) wf(2) this] Some Pair hdr show ?thesis
        by (auto simp: answered_by_def ch intro: same_but_header_trans)
    qed
  qed
  show "\<exists>ctx'. es10x_transmit_iter iface (length data + 5) cb u (c, d) = Some (r, ctx', d')"
    if "answered_by iface ch cb (store_data ch p1 seq data) u d r d'"
    using that wire_transmit_loop [OF assms(1) _ wf(2) ch(2), of cb _ u _ r d']
    by (auto simp: es10x_transmit_iter_def tr answered_by_def split: prod.splits option.splits)
qed

text \<open>The bytes still to be sent are where \<open>src\<close> points, and copying them cannot overlap partially.\<close>

definition src_holds :: "euicc_ctx \<Rightarrow> req_src \<Rightarrow> byte list \<Rightarrow> bool" where
  "src_holds ctx src bs \<longleftrightarrow> take (length bs) (req_bytes ctx src) = bs \<and>
     (bs = [] \<or> (\<forall>n \<le> unat (es10x_mss ctx). \<not> req_overlaps src n))"

lemma src_holds_prefix:
  assumes "src_holds ctx src bs" "n \<le> length bs"
  shows "take n (req_bytes ctx src) = take n bs"
proof -
  have "take n bs = take n (take (length bs) (req_bytes ctx src))"
    using assms(1) by (simp add: src_holds_def)
  also have "\<dots> = take n (req_bytes ctx src)" using assms(2) by (simp add: min_absorb1)
  finally show ?thesis ..
qed

lemma src_holds_advance:
  assumes "src_holds ctx src bs" "wf_ctx ctx" "n = unat (es10x_mss ctx)" "n \<le> length bs"
    and "same_but_header (built_ctx ctx p1 seq (take n bs)) ctx'"
  shows "src_holds ctx' (req_advance n src) (drop n bs)"
proof -
  have n: "n < 256" using unsigned_less [of "es10x_mss ctx", where ?'a = nat] assms(3) by simp
  have body: "apdu_body ctx' = take n bs @ drop n (apdu_body ctx)" and mss: "es10x_mss ctx' = es10x_mss ctx"
    using same_but_header_simps [OF assms(5)] assms(4) by (simp_all add: built_ctx_def)
  have "req_bytes ctx' (req_advance n src) = drop n (req_bytes ctx src)"
    using body assms(4) by (cases src) (simp_all add: add.commute)
  moreover have "\<not> req_overlaps (req_advance n src) m" if "m \<le> n" for m
    using that by (cases src) auto
  ultimately show ?thesis
    using assms(1,3,4) mss by (simp add: src_holds_def flip: drop_take)
qed

lemma command_loop_unfold:
  fixes st :: "'d st"
  assumes "src_holds ctx src bs" "wf_ctx ctx" "length bs < 4294967296" "bs \<noteq> []"
  defines "mss \<equiv> unat (es10x_mss ctx)"
  defines "cont \<equiv> mss < length bs"
  defines "data \<equiv> (if cont then take mss bs else bs)"
    and "p1 \<equiv> (if cont then 0x11 else 0x91)"
  shows "es10x_command_loop iface cb seq src (of_nat (length bs)) u (ctx, d) =
    Option.bind (es10x_transmit_iter iface (length data + 5) cb u (built_ctx ctx p1 seq data, d))
      (\<lambda>(r, st). case r of Fail \<Rightarrow> Some (Fail, st) | UB \<Rightarrow> Some (UB, st)
       | Ret u \<Rightarrow> es10x_command_loop iface cb (seq + 1) (req_advance (length data) src)
           (of_nat (length bs - length data)) u st)"
proof -
  have mss: "mss < 256" using unsigned_less [of "es10x_mss ctx", where ?'a = nat] by (simp add: mss_def)
  have nz: "(of_nat (length bs) :: u32) \<noteq> 0"
    using assms(3,4) by (simp add: word_unat_eq_iff)
  have cmp: "(of_nat (length bs) :: u32) > ucast (es10x_mss ctx) \<longleftrightarrow> cont"
    using assms(3) mss by (simp add: word_less_nat_alt unsigned_ucast_eq take_bit_nat_eq_self cont_def
        mss_def [symmetric])
  have dl: "length data < 256" "length data \<le> length bs"
    using mss by (auto simp: data_def cont_def)
  have rlen: "(if cont then es10x_mss ctx else ucast (of_nat (length bs) :: u32)) = of_nat (length data)"
  proof (cases cont)
    case True
    then have "length data = mss" by (simp add: data_def cont_def)
    with True show ?thesis by (simp add: mss_def)
  next
    case False
    moreover have "(ucast (of_nat (length bs) :: u32) :: byte) = of_nat (length bs)"
      using assms(3) by (metis of_nat_unat unat_of_nat_u32)
    ultimately show ?thesis by (simp add: data_def)
  qed
  have un: "unat (of_nat (length data) :: byte) = length data" using dl by (simp add: unat_of_nat)
  have "ucast (of_nat (length data) :: byte) = (of_nat (length data) :: u32)"
    using un by (metis of_nat_unat)
  then have rest: "(of_nat (length bs) :: u32) - ucast (of_nat (length data) :: byte) =
      of_nat (length bs - length data)"
    using dl by (simp add: of_nat_diff)
  have "take (length data) (req_bytes ctx src) = data" "\<not> req_overlaps src (length data)"
    using assms(1,4) src_holds_prefix [OF assms(1), of "length data"] dl(2)
    by (auto simp: data_def cont_def src_holds_def mss_def not_less)
  then have built: "(if cont then es10x_command_buildrequest_continue ctx (of_nat seq) src (of_nat (length data))
      else es10x_command_buildrequest_last ctx (of_nat seq) src (of_nat (length data))) =
    Ret (length data + 5, built_ctx ctx p1 seq data)"
    using assms(2) dl(1) by (simp add: es10x_command_buildrequest_continue_def
        es10x_command_buildrequest_last_def buildrequest_eq p1_def)
  show ?thesis
    by (subst es10x_command_loop.simps)
      (simp only: nz if_False Let_def fst_conv snd_conv cmp rlen built rest un cres.case prod.case)
qed

theorem command_loop_wire:
  assumes "small_answers iface" "wf_ctx ctx" "es10x_mss ctx \<noteq> 0" "length bs < 4294967296"
    and "src_holds ctx src bs"
  shows "(\<exists>ctx'. es10x_command_loop iface cb seq src (of_nat (length bs)) u (ctx, d) =
      Some (r, ctx', d')) \<longleftrightarrow>
    exchanges iface (logic_channel ctx) cb
      (segments (logic_channel ctx) (unat (es10x_mss ctx)) seq bs) u d r d'"
  using assms(2-)
proof (induction "length bs" arbitrary: bs ctx src seq u d rule: less_induct)
  case less
  let ?ch = "logic_channel ctx" and ?mss = "unat (es10x_mss ctx)"
  show ?case
  proof (cases "bs = []")
    case True
    then show ?thesis
      by (auto simp: es10x_command_loop.simps segments.simps exchanges_Nil)
  next
    case False
    have mss: "?mss \<noteq> 0" "?mss < 256"
      using less.prems(2) unsigned_less [of "es10x_mss ctx", where ?'a = nat]
      by (simp_all add: unsigned_eq_0_iff)
    define data where "data = (if ?mss < length bs then take ?mss bs else bs)"
    define p1 :: byte where "p1 = (if ?mss < length bs then 0x11 else 0x91)"
    let ?c = "built_ctx ctx p1 seq data"
    have unf: "es10x_command_loop iface cb seq src (of_nat (length bs)) u (ctx, d) =
      Option.bind (es10x_transmit_iter iface (length data + 5) cb u (?c, d))
        (\<lambda>(r, st). case r of Fail \<Rightarrow> Some (Fail, st) | UB \<Rightarrow> Some (UB, st)
         | Ret u \<Rightarrow> es10x_command_loop iface cb (seq + 1) (req_advance (length data) src)
             (of_nat (length bs - length data)) u st)"
      unfolding data_def p1_def
      by (rule command_loop_unfold) (use less.prems False in auto)
    have seg: "segments ?ch ?mss seq bs = store_data ?ch p1 seq data #
        segments ?ch ?mss (seq + 1) (drop (length data) bs)"
      using False mss by (subst segments.simps) (simp add: data_def p1_def segments.simps)
    have dl: "length data < 256" "0 < length data" "length data \<le> length bs"
      using mss False by (auto simp: data_def)
    note wire = transmit_iter_wire [OF assms(1) less.prems(1) dl(1)]
    have next_seg: "(\<exists>ctx'. es10x_command_loop iface cb (seq + 1) (req_advance (length data) src)
          (of_nat (length bs - length data)) u1 (c1, d1) = Some (r, ctx', d')) \<longleftrightarrow>
        exchanges iface ?ch cb (segments ?ch ?mss (seq + 1) (drop (length data) bs)) u1 d1 r d'"
      if same: "same_but_header ?c c1" for u1 c1 d1
    proof -
      have c1: "wf_ctx c1" "es10x_mss c1 = es10x_mss ctx" "logic_channel c1 = ?ch"
        using same_but_header_simps [OF same] less.prems(1) dl(1)
        by (simp_all add: built_ctx_def wf_ctx_def)
      have "src_holds c1 (req_advance (length data) src) (drop (length data) bs)"
      proof (cases "?mss < length bs")
        case True
        then have data: "data = take ?mss bs" "length data = ?mss" by (simp_all add: data_def)
        show ?thesis
          using src_holds_advance [OF less.prems(4,1) refl _ same [unfolded data(1)]] True
          by (simp add: data(2))
      next
        case False
        then show ?thesis by (simp add: data_def src_holds_def)
      qed
      moreover have "length (drop (length data) bs) < length bs"
        using dl False by (simp add: diff_less)
      ultimately show ?thesis
        using less.hyps [of "drop (length data) bs" c1 "req_advance (length data) src" "seq + 1" u1 d1]
          less.prems(2,3) c1 by simp
    qed
    show ?thesis
    proof
      assume "\<exists>ctx'. es10x_command_loop iface cb seq src (of_nat (length bs)) u (ctx, d) =
        Some (r, ctx', d')"
      then obtain ctx' where "es10x_command_loop iface cb seq src (of_nat (length bs)) u (ctx, d) =
        Some (r, ctx', d')" ..
      then obtain r1 c1 d1 where 1: "es10x_transmit_iter iface (length data + 5) cb u (?c, d) =
          Some (r1, c1, d1)"
        and 2: "(case r1 of Fail \<Rightarrow> Some (Fail, c1, d1) | UB \<Rightarrow> Some (UB, c1, d1)
         | Ret u \<Rightarrow> es10x_command_loop iface cb (seq + 1) (req_advance (length data) src)
             (of_nat (length bs - length data)) u (c1, d1)) = Some (r, ctx', d')"
        by (auto simp: unf Option.bind_eq_Some_conv)
      from wire(1) [OF 1] have w: "answered_by iface ?ch cb (store_data ?ch p1 seq data) u d r1 d1"
        "same_but_header ?c c1" by auto
      with 2 next_seg [OF w(2)] show "exchanges iface ?ch cb (segments ?ch ?mss seq bs) u d r d'"
        by (cases r1) (auto simp: seg exchanges_Cons)
    next
      assume "exchanges iface ?ch cb (segments ?ch ?mss seq bs) u d r d'"
      then consider "answered_by iface ?ch cb (store_data ?ch p1 seq data) u d r d'" "r = Fail \<or> r = UB"
        | u1 d1 where "answered_by iface ?ch cb (store_data ?ch p1 seq data) u d (Ret u1) d1"
          "exchanges iface ?ch cb (segments ?ch ?mss (seq + 1) (drop (length data) bs)) u1 d1 r d'"
        by (auto simp: seg exchanges_Cons)
      then show "\<exists>ctx'. es10x_command_loop iface cb seq src (of_nat (length bs)) u (ctx, d) =
        Some (r, ctx', d')"
      proof cases
        case 1
        then show ?thesis using wire(2) [OF 1(1)] by (auto simp: unf)
      next
        case 2
        from wire(2) [OF 2(1)] obtain c1 where
          it: "es10x_transmit_iter iface (length data + 5) cb u (?c, d) = Some (Ret u1, c1, d1)" ..
        with wire(1) [OF it] next_seg 2(2) show ?thesis by (auto simp: unf)
      qed
    qed
  qed
qed

subsection \<open>Callbacks\<close>

definition resp_ok :: "apdu_response \<Rightarrow> bool" where
  "resp_ok response \<longleftrightarrow> unat (r_length response) \<le> length (r_data response)"

lemma card_answer_ok:
  "small_answers iface \<Longrightarrow> card_answer iface ch tx d = (Some response, d') \<Longrightarrow> resp_ok response"
proof -
  assume small: "small_answers iface" and a: "card_answer iface ch tx d = (Some response, d')"
  obtain rx where "if_transmit iface ch tx d = (Some rx, d')" "\<not> length rx < 2"
      "r_data response = rx" "r_length response = of_nat (length rx - 2)"
    using a by (auto simp: card_answer_def split: prod.splits option.splits if_splits)
  moreover from small this(1) have "length rx < 4294967296" unfolding small_answers_def by blast
  ultimately show ?thesis by (simp add: resp_ok_def del: of_nat_diff)
qed

text \<open>
  The contract between \<open>es10x_command_iter\<close> and the callback it is given: as long as the callback
  accepts, its private state keeps an invariant and follows an abstract callback.
\<close>

locale callback_sim =
  fixes cb :: "'u iter_callback" and acb :: "'a iter_callback"
    and inv :: "'u \<Rightarrow> bool" and absf :: "'u \<Rightarrow> 'a"
  assumes accept: "inv u \<Longrightarrow> resp_ok response \<Longrightarrow> cb response u = Ret u' \<Longrightarrow>
    inv u' \<and> acb response (absf u) = Ret (absf u')"
begin

lemma collects_sim:
  assumes "small_answers iface" "collects iface ch cb response u d r d'"
  shows "r = Ret u' \<Longrightarrow> inv u \<Longrightarrow> resp_ok response \<Longrightarrow>
    inv u' \<and> collects iface ch acb response (absf u) d (Ret (absf u')) d'"
  using assms(2)
proof (induction)
  case (finished response u v d)
  then have "inv v \<and> deliver acb response (absf u) = Ret (absf v)"
    using accept [of u response v] by (auto simp: deliver_def split: if_splits)
  with finished show ?case by (auto intro: collects.finished)
next
  case (more response u v d response' d1 r d2)
  then have "inv v \<and> deliver acb response (absf u) = Ret (absf v)"
    using accept [of u response v] by (auto simp: deliver_def split: if_splits)
  with more card_answer_ok [OF assms(1) more.hyps(3)] show ?case
    by (auto intro: collects.more)
qed simp_all

lemma exchanges_sim:
  assumes "small_answers iface" "exchanges iface ch cb apdus u d r d'"
  shows "r = Ret u' \<Longrightarrow> inv u \<Longrightarrow> inv u' \<and> exchanges iface ch acb apdus (absf u) d (Ret (absf u')) d'"
  using assms(2)
proof (induction)
  case (answered apdu d response d1 u v d2 apdus r e)
  from collects_sim [OF assms(1) answered.hyps(2) refl] answered.prems
    card_answer_ok [OF assms(1) answered.hyps(1)]
  have "inv v \<and> collects iface ch acb response (absf u) d1 (Ret (absf v)) d2" by simp
  with answered show ?case by (auto intro: exchanges.answered)
qed (auto intro: exchanges.all_sent)

end

text \<open>The callback of \<open>es10x_command\<close> appends.\<close>

definition append_response :: "byte list iter_callback" where
  "append_response response acc = Ret (acc @ take (unat (r_length response)) (r_data response))"

definition ud_ok :: "userdata_es10x_command \<Rightarrow> bool" where
  "ud_ok ud \<longleftrightarrow> length (ud_resp ud) = unat (ud_resp_len ud)"

lemma iter_es10x_command_eq:
  assumes "ud_ok ud" "resp_ok response"
  shows "iter_es10x_command response ud =
    (if unat (ud_resp_len ud) + unat (r_length response) < 4294967296
     then Ret \<lparr>ud_resp = ud_resp ud @ take (unat (r_length response)) (r_data response),
       ud_resp_len = ud_resp_len ud + r_length response\<rparr>
     else UB)"
proof (cases "unat (ud_resp_len ud) + unat (r_length response) < 4294967296")
  case True
  then have "unat (ud_resp_len ud + r_length response) =
      unat (ud_resp_len ud) + unat (r_length response)" by (rule unat_plus_u32)
  with True assms show ?thesis
    by (simp add: iter_es10x_command_def Let_def realloc_def memcpy_def ud_ok_def resp_ok_def)
next
  case False
  have lt: "unat (ud_resp_len ud) < 4294967296" "unat (r_length response) < 4294967296"
    using unsigned_less [of "ud_resp_len ud", where ?'a = nat]
      unsigned_less [of "r_length response", where ?'a = nat] by simp_all
  let ?s = "unat (ud_resp_len ud) + unat (r_length response)"
  have "unat (ud_resp_len ud + r_length response) = ?s mod 4294967296"
    by (simp add: unat_word_ariths)
  also have "\<dots> < ?s" using False by (intro order.strict_trans2 [OF mod_less_divisor]) auto
  finally have "unat (ud_resp_len ud + r_length response) < ?s" .
  moreover have "length (realloc b n) = n" for b n by (simp add: realloc_def)
  ultimately show ?thesis
    using False by (simp add: iter_es10x_command_def Let_def memcpy_def)
qed

interpretation es10x_cb: callback_sim iter_es10x_command append_response ud_ok ud_resp
proof
  fix u response u'
  assume *: "ud_ok u" "resp_ok response" "iter_es10x_command response u = Ret u'"
  then have lt: "unat (ud_resp_len u) + unat (r_length response) < 4294967296"
    and u': "u' = \<lparr>ud_resp = ud_resp u @ take (unat (r_length response)) (r_data response),
       ud_resp_len = ud_resp_len u + r_length response\<rparr>"
    by (simp_all add: iter_es10x_command_eq split: if_splits)
  from lt have "unat (ud_resp_len u + r_length response) =
      unat (ud_resp_len u) + unat (r_length response)" by (rule unat_plus_u32)
  with * u' show "ud_ok u' \<and> append_response response (ud_resp u) = Ret (ud_resp u')"
    by (simp add: ud_ok_def resp_ok_def append_response_def)
qed

definition src_request :: "euicc_ctx \<Rightarrow> req_src \<Rightarrow> byte list \<Rightarrow> bool" where
  "src_request ctx src req \<longleftrightarrow> take (length req) (req_bytes ctx src) = req \<and>
     (\<exists>p. src = ReqMem p \<or> src = ReqBody 0)"

lemma src_request_holds: "src_request ctx src req \<Longrightarrow> src_holds ctx src req"
  by (auto simp: src_request_def src_holds_def)

theorem es10x_command_wire:
  assumes "small_answers iface" "wf_ctx ctx" "es10x_mss ctx \<noteq> 0" "length req < 4294967296"
    and "src_request ctx src req"
    and "es10x_command iface src (of_nat (length req)) (ctx, d) = Some (Ret (resp, resp_len), ctx', d')"
  shows "exchanges iface (logic_channel ctx) append_response
      (segments (logic_channel ctx) (unat (es10x_mss ctx)) 0 req) [] d (Ret resp) d'"
    and "length resp = unat resp_len"
proof -
  obtain ud where ud: "es10x_command_loop iface iter_es10x_command 0 src (of_nat (length req))
      \<lparr>ud_resp = [], ud_resp_len = 0\<rparr> (ctx, d) = Some (Ret ud, ctx', d')"
    "resp = ud_resp ud" "resp_len = ud_resp_len ud"
    using assms(6)
    by (auto simp: es10x_command_def es10x_command_iter_def Option.bind_eq_Some_conv cbind_eq_Ret)
  then have ex: "exchanges iface (logic_channel ctx) iter_es10x_command
      (segments (logic_channel ctx) (unat (es10x_mss ctx)) 0 req)
      \<lparr>ud_resp = [], ud_resp_len = 0\<rparr> d (Ret ud) d'"
    using command_loop_wire [OF assms(1-4) src_request_holds [OF assms(5)], THEN iffD1, OF exI, OF ud(1)]
    by simp
  have "ud_ok \<lparr>ud_resp = [], ud_resp_len = 0\<rparr>" by (simp add: ud_ok_def)
  from es10x_cb.exchanges_sim [OF assms(1) ex refl this] ud(2,3)
  show "exchanges iface (logic_channel ctx) append_response
      (segments (logic_channel ctx) (unat (es10x_mss ctx)) 0 req) [] d (Ret resp) d'"
    and "length resp = unat resp_len"
    by (simp_all add: ud_ok_def)
qed

theorem es10x_command_complete:
  assumes "small_answers iface" "wf_ctx ctx" "es10x_mss ctx \<noteq> 0" "length req < 4294967296"
    and "src_request ctx src req"
    and "exchanges iface (logic_channel ctx) iter_es10x_command
      (segments (logic_channel ctx) (unat (es10x_mss ctx)) 0 req) \<lparr>ud_resp = [], ud_resp_len = 0\<rparr> d r d'"
  shows "\<exists>ctx'. es10x_command iface src (of_nat (length req)) (ctx, d) =
    Some (cbind r (\<lambda>ud. Ret (ud_resp ud, ud_resp_len ud)), ctx', d')"
proof -
  obtain ctx' where "es10x_command_loop iface iter_es10x_command 0 src (of_nat (length req))
      \<lparr>ud_resp = [], ud_resp_len = 0\<rparr> (ctx, d) = Some (r, ctx', d')"
    using command_loop_wire [OF assms(1-4) src_request_holds [OF assms(5)], THEN iffD2, OF assms(6)]
    by blast
  then show ?thesis by (simp add: es10x_command_def es10x_command_iter_def)
qed

subsection \<open>Termination\<close>

text \<open>
  The loop over the parts of an answer ends when the card cannot go on announcing further parts
  forever: some measure of the driver's state goes down with every 61xx answer to GET RESPONSE.
\<close>

definition card_finite :: "'d euicc_apdu_interface \<Rightarrow> u32 \<Rightarrow> ('d \<Rightarrow> nat) \<Rightarrow> bool" where
  "card_finite iface ch m \<longleftrightarrow>
     (\<forall>k d response d'. card_answer iface ch (get_response ch k) d = (Some response, d') \<longrightarrow>
        r_sw1 response = SW1_LAST \<longrightarrow> m d' < m d)"

lemma collects_last:
  "r_sw1 response \<noteq> SW1_LAST \<Longrightarrow> \<exists>r. collects iface ch cb response u d r d"
  by (cases "deliver cb response u"; cases "r_sw1 response AND 0xF0 = SW1_OK")
    (auto intro: collects.intros)

lemma collects_total:
  assumes "card_finite iface ch m"
  shows "\<exists>r d'. collects iface ch cb response u d r d'"
proof (induction "m d" arbitrary: d response u rule: less_induct)
  case less
  show ?case
  proof (cases "deliver cb response u")
    case (Ret u')
    show ?thesis
    proof (cases "r_sw1 response = SW1_LAST")
      case True
      obtain a d' where ans: "card_answer iface ch (get_response ch (r_sw2 response)) d = (a, d')"
        by force
      show ?thesis
      proof (cases a)
        case None
        with Ret True ans show ?thesis by (auto intro: collects.lost)
      next
        case (Some response')
        have "\<exists>r e. collects iface ch cb response' u' d' r e"
        proof (cases "r_sw1 response' = SW1_LAST")
          case True
          with assms ans Some have "m d' < m d" unfolding card_finite_def by blast
          then show ?thesis by (rule less)
        qed (use collects_last [of response' iface ch cb u' d'] in blast)
        with Ret True ans Some show ?thesis by (blast intro: collects.more)
      qed
    qed (use collects_last [of response iface ch cb u d] in blast)
  qed (auto intro: collects.refused collects.crashed)
qed

lemma answered_by_total:
  "card_finite iface ch m \<Longrightarrow> \<exists>r d'. answered_by iface ch cb apdu u d r d'"
  using collects_total [of iface ch m cb _ u "snd (card_answer iface ch apdu d)"]
  by (cases "card_answer iface ch apdu d"; cases "fst (card_answer iface ch apdu d)")
    (auto simp: answered_by_def)

lemma exchanges_total:
  assumes "card_finite iface ch m"
  shows "\<exists>r d'. exchanges iface ch cb apdus u d r d'"
proof (induction apdus arbitrary: u d)
  case (Cons apdu apdus)
  obtain r d' where r: "answered_by iface ch cb apdu u d r d'"
    using answered_by_total [OF assms, of cb apdu u d] by blast
  show ?case
  proof (cases r)
    case (Ret u')
    with r Cons [of u' d'] show ?thesis by (auto simp: exchanges_Cons)
  qed (use r in \<open>auto simp: exchanges_Cons\<close>)
qed (auto intro: exchanges.all_sent)

subsection \<open>Segments\<close>

lemma segments_data:
  "mss \<noteq> 0 \<Longrightarrow> concat (map (drop 5) (segments ch mss seq bs)) = bs"
proof (induction ch mss seq bs rule: segments.induct)
  case (1 ch mss seq bs)
  then show ?case by (subst segments.simps) (auto simp: store_data_def)
qed

lemma segments_length:
  "mss \<noteq> 0 \<Longrightarrow> length (segments ch mss seq bs) = (length bs + mss - 1) div mss"
proof (induction ch mss seq bs rule: segments.induct)
  case (1 ch mss seq bs)
  consider "bs = []" | "bs \<noteq> []" "mss < length bs" | "bs \<noteq> []" "length bs \<le> mss" by force
  then show ?case
  proof cases
    case 2
    then have q: "length bs + mss - 1 = (length bs - mss + mss - 1) + mss" by simp
    have "(length bs + mss - 1) div mss = Suc ((length bs - mss + mss - 1) div mss)"
      by (subst q) (simp only: div_add_self2 [OF "1.prems"] Suc_eq_plus1)
    with 2 "1.IH" "1.prems" show ?thesis by (subst segments.simps) simp
  next
    case 3
    moreover from 3 "1.prems" have "(length bs + mss - 1) div mss = 1"
      by (cases bs) (auto intro!: div_nat_eqI)
    ultimately show ?thesis using "1.prems" by (subst segments.simps) simp
  qed (use "1.prems" in \<open>simp add: segments.simps\<close>)
qed

text \<open>The \<open>i\<close>-th segment: its header says whether it is the last, its number and its length.\<close>

lemma segments_nth:
  assumes "mss \<noteq> 0" "i < length (segments ch mss seq bs)"
  shows "segments ch mss seq bs ! i =
    store_data ch (if Suc i = length (segments ch mss seq bs) then 0x91 else 0x11) (seq + i)
      (take mss (drop (i * mss) bs))"
  using assms
proof (induction ch mss seq bs arbitrary: i rule: segments.induct)
  case (1 ch mss seq bs)
  show ?case
  proof (cases "bs \<noteq> [] \<and> mss < length bs")
    case True
    then have unf: "segments ch mss seq bs =
        store_data ch 0x11 seq (take mss bs) # segments ch mss (seq + 1) (drop mss bs)"
      using "1.prems"(1) by (subst segments.simps) simp
    have ne: "segments ch mss (seq + 1) (drop mss bs) \<noteq> []"
      using True "1.prems"(1) by (subst segments.simps) simp
    show ?thesis
    proof (cases i)
      case 0
      then show ?thesis using ne by (simp add: unf)
    next
      case (Suc j)
      with 1 True show ?thesis by (simp add: unf add.commute)
    qed
  next
    case False
    with "1.prems" have "bs \<noteq> []" "segments ch mss seq bs = [store_data ch 0x91 seq bs]"
      by (subst (asm) segments.simps, simp split: if_splits)
        (subst segments.simps, use "1.prems" False in \<open>simp split: if_splits add: segments.simps\<close>)
    with "1.prems" False show ?thesis by simp
  qed
qed

subsection \<open>The APDUs the card sees\<close>

text \<open>A driver that also records what it is asked to transmit.\<close>

definition logged :: "'d euicc_apdu_interface \<Rightarrow> (byte list list \<times> 'd) euicc_apdu_interface" where
  "logged iface = \<lparr>
     if_connect = (\<lambda>(l, d). let (r, d') = if_connect iface d in (r, (l, d'))),
     if_disconnect = (\<lambda>(l, d). (l, if_disconnect iface d)),
     if_logic_channel_open = (\<lambda>a n (l, d). let (r, d') = if_logic_channel_open iface a n d in (r, (l, d'))),
     if_logic_channel_close = (\<lambda>c (l, d). (l, if_logic_channel_close iface c d)),
     if_transmit = (\<lambda>ch tx (l, d). let (r, d') = if_transmit iface ch tx d in (r, (l @ [tx], d')))\<rparr>"

definition is_store_data :: "byte list \<Rightarrow> bool" where
  "is_store_data tx \<longleftrightarrow> tx ! 1 = 0xE2"

lemma logged_answer:
  "card_answer (logged iface) ch tx (l, d) = (a, (l', d')) \<Longrightarrow> l' = l @ [tx]"
  by (auto simp: card_answer_def logged_def Let_def split: prod.splits option.splits)

lemma small_logged: "small_answers iface \<Longrightarrow> small_answers (logged iface)"
  unfolding small_answers_def by (fastforce simp: logged_def Let_def split: prod.splits)

lemma is_store_data_simps [simp]:
  "\<not> is_store_data (get_response ch k)" "is_store_data (store_data ch p1 seq data)"
  by (simp_all add: is_store_data_def get_response_def store_data_def)

lemma collects_log:
  assumes "collects (logged iface) ch cb response u d r d'"
  shows "\<exists>sent. fst d' = fst d @ sent \<and> filter is_store_data sent = []"
  using assms
proof (induction)
  case (lost response u u' d d')
  then show ?case using logged_answer [of iface ch _ "fst d" "snd d" None "fst d'" "snd d'"] by auto
next
  case (more response u u' d response' d' r d'')
  moreover from more have "fst d' = fst d @ [get_response ch (r_sw2 response)]"
    using logged_answer [of iface ch _ "fst d" "snd d" "Some response'" "fst d'" "snd d'"] by auto
  ultimately show ?case by auto
qed auto

lemma exchanges_log:
  assumes "exchanges (logged iface) ch cb apdus u d r d'"
  shows "list_all is_store_data apdus \<Longrightarrow>
    \<exists>sent n. fst d' = fst d @ sent \<and> filter is_store_data sent = take n apdus \<and>
      (\<forall>u'. r = Ret u' \<longrightarrow> length apdus \<le> n)"
  using assms
proof (induction)
  case (unanswered apdu d d' apdus u)
  then show ?case using logged_answer [of iface ch apdu "fst d" "snd d" None "fst d'" "snd d'"]
    by (auto intro!: exI [of _ "[apdu]"] exI [of _ 1])
next
  case (stopped apdu d response d' u r d'' apdus)
  have "fst d' = fst d @ [apdu]"
    using stopped logged_answer [of iface ch apdu "fst d" "snd d" "Some response" "fst d'" "snd d'"] by auto
  moreover obtain sent where "fst d'' = fst d' @ sent" "filter is_store_data sent = []"
    using collects_log [OF stopped.hyps(2)] by blast
  ultimately show ?case
    using stopped by (auto intro!: exI [of _ "apdu # sent"] exI [of _ 1])
next
  case (answered apdu d response d' u u' d'' apdus r e)
  have "fst d' = fst d @ [apdu]"
    using answered logged_answer [of iface ch apdu "fst d" "snd d" "Some response" "fst d'" "snd d'"] by auto
  moreover obtain sent where "fst d'' = fst d' @ sent" "filter is_store_data sent = []"
    using collects_log [OF answered.hyps(2)] by blast
  moreover obtain sent' n where "fst e = fst d'' @ sent'" "filter is_store_data sent' = take n apdus"
      "\<forall>u'. r = Ret u' \<longrightarrow> length apdus \<le> n"
    using answered by auto
  ultimately show ?case
    using answered.prems by (intro exI [of _ "apdu # sent @ sent'"] exI [of _ "Suc n"]) auto
qed auto

lemma segments_store: "list_all is_store_data (segments ch mss seq bs)"
proof (induction ch mss seq bs rule: segments.induct)
  case (1 ch mss seq bs)
  then show ?case by (subst segments.simps) auto
qed

end
