(* ===== verification/Apdu_Props.thy ===== *)
theory Apdu_Props
  imports Apdu_Wire
begin

text \<open>
  The properties of the APDU layer (\<open>euicc/euicc.c\<close>, \<open>euicc/interface.c\<close>), stated on the definitions of
  \<open>Euicc\<close>, with a scripted card for the examples.
\<close>

text \<open>A card that gives prepared answers, for the examples.\<close>

definition script_card :: "byte list list euicc_apdu_interface" where
  "script_card = \<lparr>
     if_connect = (\<lambda>d. (0, d)), if_disconnect = (\<lambda>d. d),
     if_logic_channel_open = (\<lambda>a n d. (1, d)), if_logic_channel_close = (\<lambda>c d. d),
     if_transmit = (\<lambda>ch tx d. case d of [] \<Rightarrow> (None, [])
       | rx # d' \<Rightarrow> (if length rx < 65536 then Some rx else None, d'))\<rparr>"

definition script_ctx :: euicc_ctx where
  "script_ctx = \<lparr>aid = None, aid_len = 0, es10x_mss = 2, logic_channel = 1,
     apdu_header = [0, 0, 0, 0, 0], apdu_body = replicate 255 0, server_address = None,
     http_status = \<lparr>subjectCode = replicate 9 0, reasonCode = replicate 9 0, subjectIdentifier = replicate 129 0,
       status_message = replicate 129 0\<rparr>, http_internal = http_internal_zero\<rparr>"

lemma script_card_small: "small_answers script_card"
  by (auto simp: small_answers_def script_card_def split: list.splits if_splits)

lemma script_ctx_wf: "wf_ctx script_ctx" "es10x_mss script_ctx \<noteq> 0" "logic_channel script_ctx = 1"
  by (simp_all add: script_ctx_def wf_ctx_def)

text \<open>
  C1. Whatever the card does, and whether the request lies in the caller's memory or in the very
  buffer the APDUs are built in, \<open>es10x_command_iter\<close> ends with an outcome exactly when the exchange
  of the request's segments over the wire does: sending \<open>segments\<close> (blocks of \<open>es10x_mss\<close> bytes,
  numbered, the last one marked), and GET RESPONSE after every 61xx.
\<close>

theorem es10x_command_iter_refines:
  assumes "small_answers iface" "wf_ctx ctx" "es10x_mss ctx \<noteq> 0" "length req < 4294967296"
    and "src_request ctx src req"
  shows "(\<exists>ctx'. es10x_command_iter iface src (of_nat (length req)) cb u (ctx, d) =
      Some (r, ctx', d')) \<longleftrightarrow>
    exchanges iface (logic_channel ctx) cb
      (segments (logic_channel ctx) (unat (es10x_mss ctx)) 0 req) u d r d'"
  unfolding es10x_command_iter_def
  by (rule command_loop_wire [OF assms(1-4) src_request_holds [OF assms(5)]])

lemma script_src: "src_request script_ctx (ReqMem [1, 2, 3]) [1, 2, 3]"
  by (simp add: src_request_def)

lemmas script_simps = card_answer_def script_card_def deliver_def SW1_LAST_def SW1_OK_def Let_def

lemma script_answer_plain:
  "answered_by script_card ch cb apdu u ([0x90, 0] # d) (Ret u) d"
  by (auto simp: answered_by_def script_simps intro!: collects.finished)

lemma script_answer_parts:
  assumes "cb \<lparr>r_data = [a, 0x61, 1], r_length = 1, r_sw1 = 0x61, r_sw2 = 1\<rparr> u = Ret u'"
    and "cb \<lparr>r_data = [b, 0x90, 0], r_length = 1, r_sw1 = 0x90, r_sw2 = 0\<rparr> u' = Ret v"
  shows "answered_by script_card ch cb apdu u ([a, 0x61, 1] # [b, 0x90, 0] # d) (Ret v) d"
proof -
  have "collects script_card ch cb \<lparr>r_data = [b, 0x90, 0], r_length = 1, r_sw1 = 0x90, r_sw2 = 0\<rparr> u' d (Ret v) d"
    by (rule collects.finished) (use assms(2) in \<open>simp_all add: script_simps\<close>)
  then have "collects script_card ch cb \<lparr>r_data = [a, 0x61, 1], r_length = 1, r_sw1 = 0x61, r_sw2 = 1\<rparr> u
      ([b, 0x90, 0] # d) (Ret v) d"
    by (rule collects.more [rotated 3]) (use assms(1) in \<open>simp_all add: script_simps\<close>)
  then show ?thesis by (simp add: answered_by_def script_simps)
qed

lemma script_mss: "unat (es10x_mss script_ctx) = 2"
  by (simp add: script_ctx_def)

lemma script_segments:
  "segments 1 2 0 [1, 2, 3] = [store_data 1 0x11 0 [1, 2], store_data 1 0x91 1 [3]]"
  by (simp add: segments.simps)

lemma exchanges_two:
  "answered_by iface ch cb a u d (Ret u') d' \<Longrightarrow> answered_by iface ch cb b u' d' (Ret v) e \<Longrightarrow>
    exchanges iface ch cb [a, b] u d (Ret v) e"
  by (auto simp: exchanges_Cons exchanges_Nil)

lemma script_exchange:
  "exchanges script_card 1 append_response (segments 1 2 0 [1, 2, 3]) []
     [[0x90, 0], [7, 0x61, 1], [8, 0x90, 0]] (Ret [7, 8]) []"
  "exchanges script_card 1 iter_es10x_command (segments 1 2 0 [1, 2, 3]) \<lparr>ud_resp = [], ud_resp_len = 0\<rparr>
     [[0x90, 0], [7, 0x61, 1], [8, 0x90, 0]] (Ret \<lparr>ud_resp = [7, 8], ud_resp_len = 2\<rparr>) []"
  unfolding script_segments
  by (rule exchanges_two [OF script_answer_plain script_answer_parts [where u' = "[7]"]],
      simp_all add: append_response_def)
    (rule exchanges_two [OF script_answer_plain
        script_answer_parts [where u' = "\<lparr>ud_resp = [7], ud_resp_len = 1\<rparr>"]],
      simp_all add: iter_es10x_command_def realloc_def memcpy_def Let_def)

theorem es10x_command_iter_refines_witness:
  "\<exists>ctx'. es10x_command_iter script_card (ReqMem [1, 2, 3]) 3 append_response []
      (script_ctx, [[0x90, 0], [7, 0x61, 1], [8, 0x90, 0]]) = Some (Ret [7, 8], ctx', [])"
  using es10x_command_iter_refines [OF script_card_small script_ctx_wf(1,2) _ script_src,
      of append_response "[]" "[[0x90, 0], [7, 0x61, 1], [8, 0x90, 0]]" "Ret [7, 8]" "[]"]
    script_exchange(1)
  by (simp add: script_ctx_def)

text \<open>
  C3. When \<open>es10x_command\<close> succeeds, the response it returns is the concatenation of the data parts
  the card sent in answer to the segments, and its length field is the length of that buffer.
\<close>

theorem es10x_command_response:
  assumes "small_answers iface" "wf_ctx ctx" "es10x_mss ctx \<noteq> 0" "length req < 4294967296"
    and "src_request ctx src req"
    and "es10x_command iface src (of_nat (length req)) (ctx, d) = Some (Ret (resp, resp_len), ctx', d')"
  shows "exchanges iface (logic_channel ctx) append_response
      (segments (logic_channel ctx) (unat (es10x_mss ctx)) 0 req) [] d (Ret resp) d' \<and>
    resp_len = of_nat (length resp)"
  using es10x_command_wire [OF assms] by simp

lemma script_run:
  "\<exists>ctx'. es10x_command script_card (ReqMem [1, 2, 3]) 3
      (script_ctx, [[0x90, 0], [7, 0x61, 1], [8, 0x90, 0]]) = Some (Ret ([7, 8], 2), ctx', [])"
  using es10x_command_complete [OF script_card_small script_ctx_wf(1,2) _ script_src,
      of "[[0x90, 0], [7, 0x61, 1], [8, 0x90, 0]]" "Ret \<lparr>ud_resp = [7, 8], ud_resp_len = 2\<rparr>" "[]"]
    script_exchange(2)
  by (simp add: script_ctx_def)

theorem es10x_command_response_witness:
  "exchanges script_card 1 append_response (segments 1 2 0 [1, 2, 3]) []
     [[0x90, 0], [7, 0x61, 1], [8, 0x90, 0]] (Ret [7, 8]) []"
  using script_run es10x_command_response [OF script_card_small script_ctx_wf(1,2) _ script_src, simplified]
  by (fastforce simp: script_ctx_def)

lemma es10x_command_total:
  assumes "small_answers iface" "wf_ctx ctx" "es10x_mss ctx \<noteq> 0" "length req < 4294967296"
    and "src_request ctx src req" "card_finite iface (logic_channel ctx) m"
  shows "\<exists>r ctx' d'. es10x_command iface src (of_nat (length req)) (ctx, d) = Some (r, ctx', d')"
proof -
  obtain r d' where "exchanges iface (logic_channel ctx) iter_es10x_command
      (segments (logic_channel ctx) (unat (es10x_mss ctx)) 0 req) \<lparr>ud_resp = [], ud_resp_len = 0\<rparr> d r d'"
    using exchanges_total [OF assms(6)] by (metis (no_types))
  from es10x_command_complete [OF assms(1-5) this] show ?thesis by blast
qed

text \<open>
  C4. \<open>es10x_command\<close> returns whenever the card cannot answer GET RESPONSE with 61xx for ever (some
  measure of the driver's state goes down with each such answer).
\<close>

theorem es10x_command_terminates:
  assumes "small_answers iface" "wf_ctx ctx" "es10x_mss ctx \<noteq> 0" "length req < 4294967296"
    and "src_request ctx src req" "card_finite iface (logic_channel ctx) m"
  shows "\<exists>r ctx' d'. es10x_command iface src (of_nat (length req)) (ctx, d) = Some (r, ctx', d')"
  using assms by (rule es10x_command_total)

lemma script_card_finite: "card_finite script_card ch length"
  by (auto simp: card_finite_def script_simps split: list.splits if_splits)

theorem es10x_command_terminates_witness:
  "\<exists>r ctx' d'. es10x_command script_card (ReqMem [1, 2, 3]) 3 (script_ctx, [[0x61, 5], [0x61, 4], [0x6A, 0x88]]) =
     Some (r, ctx', d')"
  using es10x_command_terminates [OF script_card_small script_ctx_wf(1,2) _ script_src script_card_finite]
  by simp

lemma endless_no_collect:
  assumes "collects iface ch cb response u d r d'"
    and "\<And>tx d. fst (if_transmit iface ch tx d) = Some [0x61, sw2]"
  shows "r_length response = 0 \<Longrightarrow> r_sw1 response \<noteq> SW1_LAST"
  using assms(1)
proof (induction)
  case (lost response u u' d d')
  then show ?case using assms(2) [of "get_response ch (r_sw2 response)" d]
    by (auto simp: card_answer_def split: prod.splits)
next
  case (more response u u' d response' d' r d'')
  from more.hyps(3) have "r_length response' = 0" "r_sw1 response' = SW1_LAST"
    using assms(2) [of "get_response ch (r_sw2 response)" d]
    by (auto simp: card_answer_def SW1_LAST_def split: prod.splits)
  with more.IH show ?case by simp
qed (simp_all add: deliver_def)

text \<open>
  C36. Nothing bounds the loop over the parts of an answer: with a card that answers 61xx to every APDU,
  \<open>es10x_command\<close> never returns, for any non-empty request.
\<close>

theorem es10x_command_endless:
  assumes "small_answers iface" "wf_ctx ctx" "es10x_mss ctx \<noteq> 0" "length req < 4294967296"
    and "src_request ctx src req" "req \<noteq> []"
    and "\<And>tx d. fst (if_transmit iface (logic_channel ctx) tx d) = Some [0x61, sw2]"
  shows "es10x_command iface src (of_nat (length req)) (ctx, d) = None"
proof (rule ccontr)
  let ?ch = "logic_channel ctx" and ?mss = "unat (es10x_mss ctx)"
  assume "es10x_command iface src (of_nat (length req)) (ctx, d) \<noteq> None"
  then obtain r ctx' d' where "es10x_command_iter iface src (of_nat (length req)) iter_es10x_command
      \<lparr>ud_resp = [], ud_resp_len = 0\<rparr> (ctx, d) = Some (r, ctx', d')"
    by (auto simp: es10x_command_def Option.bind_eq_Some_conv)
  then have ex: "exchanges iface ?ch iter_es10x_command (segments ?ch ?mss 0 req)
      \<lparr>ud_resp = [], ud_resp_len = 0\<rparr> d r d'"
    using command_loop_wire [OF assms(1-4) src_request_holds [OF assms(5)], THEN iffD1, OF exI]
    unfolding es10x_command_iter_def by fastforce
  have "?mss \<noteq> 0" using assms(3) by (simp add: unsigned_eq_0_iff)
  then have "segments ?ch ?mss 0 req \<noteq> []"
    using assms(6) by (subst segments.simps) simp
  then obtain apdu apdus where "segments ?ch ?mss 0 req = apdu # apdus" by (cases "segments ?ch ?mss 0 req") auto
  with ex obtain r1 d1 where "answered_by iface ?ch iter_es10x_command apdu
      \<lparr>ud_resp = [], ud_resp_len = 0\<rparr> d r1 d1"
    by (auto simp: exchanges_Cons)
  then show False
    using assms(7) [of apdu d]
    by (auto simp: answered_by_def card_answer_def SW1_LAST_def split: prod.splits
        dest!: endless_no_collect [OF _ assms(7)])
qed

definition endless_card :: "unit euicc_apdu_interface" where
  "endless_card = \<lparr>
     if_connect = (\<lambda>d. (0, d)), if_disconnect = (\<lambda>d. d),
     if_logic_channel_open = (\<lambda>a n d. (1, d)), if_logic_channel_close = (\<lambda>c d. d),
     if_transmit = (\<lambda>ch tx d. (Some [0x61, 0x10], d))\<rparr>"

theorem es10x_command_endless_witness:
  "es10x_command endless_card (ReqMem [1, 2, 3]) 3 (script_ctx, ()) = None"
proof -
  have "small_answers endless_card" by (simp add: small_answers_def endless_card_def)
  from es10x_command_endless [OF this script_ctx_wf(1,2) _ script_src, where ?sw2.0 = "0x10" and d = "()"]
  show ?thesis by (simp add: endless_card_def)
qed

text \<open>
  C2. On the wire: the STORE DATA APDUs the card sees are the first segments of the request, in order and
  with nothing but GET RESPONSE between them; after a success they are all of them, and their data
  put together is the request.
\<close>

theorem es10x_command_trace:
  assumes "small_answers iface" "wf_ctx ctx" "es10x_mss ctx \<noteq> 0" "length req < 4294967296"
    and "src_request ctx src req"
    and "es10x_command (logged iface) src (of_nat (length req)) (ctx, l, d) = Some (r, ctx', l', d')"
  shows "\<exists>sent n. l' = l @ sent \<and>
    filter is_store_data sent = take n (segments (logic_channel ctx) (unat (es10x_mss ctx)) 0 req) \<and>
    (\<forall>x. r = Ret x \<longrightarrow> concat (map (drop 5) (filter is_store_data sent)) = req)"
proof -
  let ?segs = "segments (logic_channel ctx) (unat (es10x_mss ctx)) 0 req"
  obtain r1 where r1: "es10x_command_iter (logged iface) src (of_nat (length req)) iter_es10x_command
      \<lparr>ud_resp = [], ud_resp_len = 0\<rparr> (ctx, l, d) = Some (r1, ctx', l', d')"
    "r = cbind r1 (\<lambda>ud. Ret (ud_resp ud, ud_resp_len ud))"
    using assms(6) by (auto simp: es10x_command_def Option.bind_eq_Some_conv)
  then have ex: "exchanges (logged iface) (logic_channel ctx) iter_es10x_command ?segs
      \<lparr>ud_resp = [], ud_resp_len = 0\<rparr> (l, d) r1 (l', d')"
    using command_loop_wire [OF small_logged [OF assms(1)] assms(2-4) src_request_holds [OF assms(5)],
        THEN iffD1, OF exI] unfolding es10x_command_iter_def by fastforce
  obtain sent n where sent: "l' = l @ sent" "filter is_store_data sent = take n ?segs"
    "\<forall>u'. r1 = Ret u' \<longrightarrow> length ?segs \<le> n"
    using exchanges_log [OF ex segments_store] by auto
  have "unat (es10x_mss ctx) \<noteq> 0" using assms(3) by (simp add: unsigned_eq_0_iff)
  then have "concat (map (drop 5) ?segs) = req" by (rule segments_data)
  then have "concat (map (drop 5) (filter is_store_data sent)) = req" if "r = Ret x" for x
    using that sent(2,3) r1(2) by (cases r1) auto
  with sent show ?thesis by blast
qed

theorem es10x_command_trace_witness:
  "\<exists>r ctx' l' d'. es10x_command (logged script_card) (ReqMem [1, 2, 3]) 3
      (script_ctx, [], [[0x90, 0], [0x61, 2], [0x90, 0]]) = Some (r, ctx', l', d') \<and>
    (\<exists>sent n. l' = sent \<and> filter is_store_data sent = take n (segments 1 2 0 [1, 2, 3]) \<and>
      (\<forall>x. r = Ret x \<longrightarrow> concat (map (drop 5) (filter is_store_data sent)) = [1, 2, 3]))"
proof -
  have fin: "card_finite (logged script_card) 1 (\<lambda>(l, d). length d)"
    by (auto simp: card_finite_def script_simps logged_def split: list.splits if_splits)
  obtain r ctx' l' d' where run: "es10x_command (logged script_card) (ReqMem [1, 2, 3]) 3
      (script_ctx, [], [[0x90, 0], [0x61, 2], [0x90, 0]]) = Some (r, ctx', l', d')"
    using es10x_command_total [OF small_logged [OF script_card_small] script_ctx_wf(1,2) _ script_src,
        of "\<lambda>(l, d). length d" "([], [[0x90, 0], [0x61, 2], [0x90, 0]])"] fin script_ctx_wf(3)
    by auto
  with es10x_command_trace [OF script_card_small script_ctx_wf(1,2) _ script_src,
      of "[]" "[[0x90, 0], [0x61, 2], [0x90, 0]]" r ctx' l' d'] show ?thesis
    by (auto simp: script_ctx_wf(3) script_mss)
qed

text \<open>
  \<open>euicc_init\<close> leaves the context ready for \<open>es10x_command\<close>: the block size is not zero (120 where
  the caller set none), the buffers are untouched, on success the channel is the one the driver
  opened, and a driver whose channel cannot be opened is disconnected again.
\<close>

theorem euicc_init_ready:
  assumes "wf_ctx ctx" "euicc_init iface (ctx, d) = (r, ctx', d')"
  shows "wf_ctx ctx' \<and> es10x_mss ctx' = (if es10x_mss ctx = 0 then 120 else es10x_mss ctx) \<and>
    es10x_mss ctx' \<noteq> 0 \<and> apdu_body ctx' = apdu_body ctx \<and> http_internal ctx' = http_internal ctx \<and>
    (let (ret, d1) = if_connect iface d; (ch, d2) = if_logic_channel_open iface (the (aid ctx')) (aid_len ctx') d1 in
     if ret < 0 then r = Fail \<and> d' = d1
     else if ch < 0 then r = Fail \<and> d' = if_disconnect iface d2
     else r = Ret () \<and> d' = d2 \<and> logic_channel ctx' = word_of_int ch)"
  using assms
  by (auto simp: euicc_init_def wf_ctx_def Let_def split: prod.splits if_splits)

theorem euicc_init_ready_witness:
  "\<exists>ctx'. euicc_init script_card (script_ctx\<lparr>es10x_mss := 0\<rparr>, []) = (Ret (), ctx', []) \<and>
     es10x_mss ctx' = 120 \<and> logic_channel ctx' = 1"
proof -
  obtain r ctx' d' where run: "euicc_init script_card (script_ctx\<lparr>es10x_mss := 0\<rparr>, []) = (r, ctx', d')"
    by (cases "euicc_init script_card (script_ctx\<lparr>es10x_mss := 0\<rparr>, [])") auto
  have "wf_ctx (script_ctx\<lparr>es10x_mss := 0\<rparr>)" by (simp add: script_ctx_def wf_ctx_def)
  from euicc_init_ready [OF this run] run show ?thesis
    by (simp add: script_card_def script_ctx_def)
qed

end
