(* ===== verification/Apdu_Card.thy ===== *)
theory Apdu_Card
  imports Apdu_Wire
begin

text \<open>
  What the ES10 functions use of the APDU layer: \<open>es10x_command\<close> leaves everything of the context but
  the APDU buffer alone, and it answers exactly what the card gives for the request.
\<close>

subsection \<open>What a command keeps of the context\<close>

definition same_session :: "euicc_ctx \<Rightarrow> euicc_ctx \<Rightarrow> bool" where
  "same_session ctx ctx' \<longleftrightarrow> aid ctx' = aid ctx \<and> aid_len ctx' = aid_len ctx \<and>
     es10x_mss ctx' = es10x_mss ctx \<and> logic_channel ctx' = logic_channel ctx \<and>
     server_address ctx' = server_address ctx \<and> http_status ctx' = http_status ctx \<and>
     http_internal ctx' = http_internal ctx \<and>
     length (apdu_header ctx') = length (apdu_header ctx) \<and> length (apdu_body ctx') = length (apdu_body ctx)"

lemma same_session_refl [simp]: "same_session ctx ctx"
  by (simp add: same_session_def)

lemma same_session_trans [trans]:
  "same_session a b \<Longrightarrow> same_session b c \<Longrightarrow> same_session a c"
  by (simp add: same_session_def)

lemma same_session_wf: "same_session ctx ctx' \<Longrightarrow> wf_ctx ctx \<Longrightarrow> wf_ctx ctx'"
  by (simp add: same_session_def wf_ctx_def)

lemma length_memcpy: "memcpy dst off src n = Ret b \<Longrightarrow> length b = length dst"
  by (auto simp: memcpy_def split: if_splits)

lemma es10x_transmit_session:
  "es10x_transmit iface n (ctx, d) = (r, ctx', d') \<Longrightarrow> same_session ctx ctx'"
  by (auto simp: es10x_transmit_def Let_def same_session_def split: if_splits prod.splits)

lemma transmit_loop_session:
  assumes "es10x_transmit_loop iface cb response u st = Some y" "wf_ctx (fst st)"
  shows "same_session (fst st) (fst (snd y))"
proof -
  have "wf_ctx (fst st) \<longrightarrow> same_session (fst st) (fst (snd y))"
  proof (rule es10x_transmit_loop.raw_induct [OF _ assms(1),
        where P = "\<lambda>iface cb response u st y. wf_ctx (fst st) \<longrightarrow> same_session (fst st) (fst (snd y))"],
      intro impI)
    fix loop iface cb and response :: apdu_response and u :: 'a and st :: "'b st" and y
    assume IH: "\<And>iface cb response u st y. loop iface cb response u st = Some y \<Longrightarrow>
        wf_ctx (fst st) \<longrightarrow> same_session (fst st) (fst (snd y))"
      and y: "(case (if r_length response > 0 then cb response u else Ret u) of
          Fail \<Rightarrow> Some (Fail, st) | UB \<Rightarrow> Some (UB, st)
        | Ret u \<Rightarrow> if r_sw1 response = SW1_LAST then
            (let (ret, ctx) = euicc_apdu_le (fst st) 0x80 0xC0 0x00 0x00 (r_sw2 response) in
             case es10x_transmit iface ret (ctx, snd st) of
               (Fail, st) \<Rightarrow> Some (Fail, st)
             | (UB, st) \<Rightarrow> Some (UB, st)
             | (Ret response, st) \<Rightarrow> loop iface cb response u st)
          else if r_sw1 response AND 0xF0 = SW1_OK then Some (Ret u, st)
          else Some (Fail, st)) = Some y"
      and wf: "wf_ctx (fst st)"
    let ?le = "euicc_apdu_le (fst st) 0x80 0xC0 0 0 (r_sw2 response)"
    obtain r1 ctx1 d1 where tr: "es10x_transmit iface (fst ?le) (snd ?le, snd st) = (r1, ctx1, d1)"
      by (metis prod.exhaust)
    have "same_session (fst st) (snd ?le)"
      using wf by (simp add: euicc_apdu_le_def le_def same_session_def wf_ctx_def)
    then have s1: "same_session (fst st) ctx1"
      by (rule same_session_trans) (rule es10x_transmit_session [OF tr])
    show "same_session (fst st) (fst (snd y))"
    proof (cases "if r_length response > 0 then cb response u else Ret u")
      case (Ret u')
      show ?thesis
      proof (cases "r_sw1 response = SW1_LAST")
        case True
        with y Ret tr s1 IH [of iface cb _ u' "(ctx1, d1)" y] same_session_wf [OF s1 wf] show ?thesis
          by (cases r1) (auto simp: split_beta Let_def intro: same_session_trans)
      qed (use y Ret in \<open>auto split: if_splits\<close>)
    qed (use y in auto)
  qed
  with assms(2) show ?thesis by blast
qed

lemma transmit_iter_session:
  assumes "es10x_transmit_iter iface n cb u st = Some y" "wf_ctx (fst st)"
  shows "same_session (fst st) (fst (snd y))"
proof -
  obtain r1 ctx1 d1 where tr: "es10x_transmit iface n (fst st, snd st) = (r1, ctx1, d1)"
    by (metis prod.exhaust)
  then have s1: "same_session (fst st) ctx1" by (rule es10x_transmit_session)
  with tr assms transmit_loop_session [of iface cb _ u "(ctx1, d1)" y] same_session_wf [OF s1] show ?thesis
    by (cases r1) (auto simp: es10x_transmit_iter_def intro: same_session_trans)
qed

lemma buildrequest_session:
  "es10x_command_buildrequest ctx p1 p2 src n = Ret (k, ctx') \<Longrightarrow> wf_ctx ctx \<Longrightarrow> same_session ctx ctx'"
  by (auto simp: es10x_command_buildrequest_def euicc_apdu_lc_def lc_def Let_def cbind_eq_Ret
      same_session_def wf_ctx_def dest: length_memcpy split: if_splits)

lemma command_loop_session:
  assumes "es10x_command_loop iface cb seq src n u st = Some y" "wf_ctx (fst st)"
  shows "same_session (fst st) (fst (snd y))"
proof -
  have "wf_ctx (fst st) \<longrightarrow> same_session (fst st) (fst (snd y))"
  proof (rule es10x_command_loop.raw_induct [OF _ assms(1),
        where P = "\<lambda>iface cb seq src n u st y. wf_ctx (fst st) \<longrightarrow> same_session (fst st) (fst (snd y))"],
      intro impI)
    fix loop iface cb seq src and n :: u32 and u :: 'a and st :: "'b st" and y
    assume IH: "\<And>iface cb seq src n u st y. loop iface cb seq src n u st = Some y \<Longrightarrow>
        wf_ctx (fst st) \<longrightarrow> same_session (fst st) (fst (snd y))"
      and y: "(if n = 0 then Some (Ret u, st) else
        let ctx = fst st; more = n > ucast (es10x_mss ctx);
            rlen = (if more then es10x_mss ctx else ucast n);
            built = (if more then es10x_command_buildrequest_continue ctx (of_nat seq) src rlen
                     else es10x_command_buildrequest_last ctx (of_nat seq) src rlen)
        in case built of Fail \<Rightarrow> Some (Fail, st) | UB \<Rightarrow> Some (UB, st)
           | Ret (ret, ctx) \<Rightarrow>
               Option.bind (es10x_transmit_iter iface ret cb u (ctx, snd st)) (\<lambda>(r, st).
               case r of Fail \<Rightarrow> Some (Fail, st) | UB \<Rightarrow> Some (UB, st)
               | Ret u \<Rightarrow> loop iface cb (seq + 1) (req_advance (unat rlen) src) (n - ucast rlen) u st))
          = Some y"
      and wf: "wf_ctx (fst st)"
    let ?built = "\<lambda>rlen. if n > ucast (es10x_mss (fst st))
        then es10x_command_buildrequest_continue (fst st) (of_nat seq) src rlen
        else es10x_command_buildrequest_last (fst st) (of_nat seq) src rlen"
    have built: "same_session (fst st) ctx1" if "?built rlen = Ret (k, ctx1)" for rlen k ctx1
      using that wf by (auto simp: es10x_command_buildrequest_continue_def
          es10x_command_buildrequest_last_def dest: buildrequest_session split: if_splits)
    show "same_session (fst st) (fst (snd y))"
    proof (cases "n = 0")
      case False
      define rlen where "rlen = (if n > ucast (es10x_mss (fst st)) then es10x_mss (fst st) else ucast n)"
      show ?thesis
      proof (cases "?built rlen")
        case (Ret b)
        obtain k ctx1 where b: "b = (k, ctx1)" by (cases b)
        with Ret have s1: "same_session (fst st) ctx1" by (intro built) simp
        obtain r2 st2 where it: "es10x_transmit_iter iface k cb u (ctx1, snd st) = Some (r2, st2)"
          and y2: "(case r2 of Fail \<Rightarrow> Some (Fail, st2) | UB \<Rightarrow> Some (UB, st2)
            | Ret u \<Rightarrow> loop iface cb (seq + 1) (req_advance (unat rlen) src) (n - ucast rlen) u st2) = Some y"
          using y False Ret b unfolding Let_def rlen_def [symmetric]
          by (auto simp: Option.bind_eq_Some_conv)
        from transmit_iter_session [OF it] same_session_wf [OF s1 wf] s1
        have s2: "same_session (fst st) (fst st2)" by (auto intro: same_session_trans)
        with y2 IH [of iface cb _ _ _ _ st2 y] same_session_wf [OF s2 wf] show ?thesis
          by (cases r2) (auto intro: same_session_trans)
      qed (use y False in \<open>auto simp: Let_def rlen_def split: if_splits\<close>)
    qed (use y in auto)
  qed
  with assms(2) show ?thesis by blast
qed

theorem es10x_command_session:
  assumes "es10x_command iface src n (ctx, d) = Some (r, ctx', d')" "wf_ctx ctx"
  shows "same_session ctx ctx'"
  using assms command_loop_session [of iface iter_es10x_command 0 src n _ "(ctx, d)"]
  by (fastforce simp: es10x_command_def es10x_command_iter_def Option.bind_eq_Some_conv)

subsection \<open>What the card gives\<close>

definition card_gives ::
  "'d euicc_apdu_interface \<Rightarrow> euicc_ctx \<Rightarrow> byte list \<Rightarrow> 'd \<Rightarrow> byte list \<Rightarrow> 'd \<Rightarrow> bool" where
  "card_gives iface ctx req d resp d' \<longleftrightarrow>
     exchanges iface (logic_channel ctx) append_response
       (segments (logic_channel ctx) (unat (es10x_mss ctx)) 0 req) [] d (Ret resp) d'"

lemma card_gives_session:
  "same_session ctx ctx' \<Longrightarrow> card_gives iface ctx' = card_gives iface ctx"
  by (intro ext) (simp add: card_gives_def same_session_def)

text \<open>The buffer of \<open>es10x_command\<close> after the bytes \<open>acc\<close>.\<close>

definition ud_of :: "byte list \<Rightarrow> userdata_es10x_command" where
  "ud_of acc = \<lparr>ud_resp = acc, ud_resp_len = of_nat (length acc)\<rparr>"

lemma deliver_append:
  assumes "deliver append_response response acc = Ret acc'" "resp_ok response" "length acc' < 4294967296"
  shows "deliver iter_es10x_command response (ud_of acc) = Ret (ud_of acc') \<and> length acc \<le> length acc'"
proof (cases "r_length response > 0")
  case True
  with assms have acc': "acc' = acc @ take (unat (r_length response)) (r_data response)"
    by (simp add: deliver_def append_response_def)
  with assms(2,3) have "length acc' = length acc + unat (r_length response)" "length acc < 4294967296"
    by (auto simp: resp_ok_def)
  with True assms(2,3) acc' show ?thesis
    by (simp add: deliver_def ud_of_def iter_es10x_command_eq ud_ok_def)
qed (use assms in \<open>simp add: deliver_def\<close>)

lemma collects_append:
  assumes "small_answers iface" "collects iface ch append_response response acc d r d'"
  shows "r = Ret res \<Longrightarrow> length res < 4294967296 \<Longrightarrow> resp_ok response \<Longrightarrow>
    collects iface ch iter_es10x_command response (ud_of acc) d (Ret (ud_of res)) d' \<and>
    length acc \<le> length res"
  using assms(2)
proof (induction)
  case (finished response acc acc' d)
  with deliver_append [OF finished.hyps(1)] show ?case by (auto intro: collects.finished)
next
  case (more response acc acc' d response' d1 r d2)
  with card_answer_ok [OF assms(1) more.hyps(3)]
  have ih: "collects iface ch iter_es10x_command response' (ud_of acc') d1 (Ret (ud_of res)) d2"
    "length acc' \<le> length res" by auto
  with more.prems deliver_append [OF more.hyps(1)]
  have "deliver iter_es10x_command response (ud_of acc) = Ret (ud_of acc')" "length acc \<le> length acc'" by auto
  with ih more.hyps show ?case by (auto intro: collects.more)
qed simp_all

lemma exchanges_append:
  assumes "small_answers iface" "exchanges iface ch append_response apdus acc d r d'"
  shows "r = Ret res \<Longrightarrow> length res < 4294967296 \<Longrightarrow>
    exchanges iface ch iter_es10x_command apdus (ud_of acc) d (Ret (ud_of res)) d' \<and> length acc \<le> length res"
  using assms(2)
proof (induction)
  case (answered apdu d response d1 acc acc' d2 apdus r e)
  then have ih: "exchanges iface ch iter_es10x_command apdus (ud_of acc') d2 (Ret (ud_of res)) e"
    "length acc' \<le> length res" by auto
  with collects_append [OF assms(1) answered.hyps(2) refl] answered.prems
    card_answer_ok [OF assms(1) answered.hyps(1)]
  have "collects iface ch iter_es10x_command response (ud_of acc) d1 (Ret (ud_of acc')) d2"
    "length acc \<le> length acc'" by auto
  with ih answered.hyps(1) show ?case by (auto intro: exchanges.answered)
qed (auto intro: exchanges.all_sent)

theorem es10x_command_gives:
  assumes "small_answers iface" "wf_ctx ctx" "es10x_mss ctx \<noteq> 0" "length req < 4294967296"
    and "src_request ctx src req" "length resp < 4294967296"
  shows "(\<exists>ctx'. es10x_command iface src (of_nat (length req)) (ctx, d) =
      Some (Ret (resp, of_nat (length resp)), ctx', d')) \<longleftrightarrow> card_gives iface ctx req d resp d'"
proof
  assume "\<exists>ctx'. es10x_command iface src (of_nat (length req)) (ctx, d) =
      Some (Ret (resp, of_nat (length resp)), ctx', d')"
  with es10x_command_wire(1) [OF assms(1-5)] show "card_gives iface ctx req d resp d'"
    by (auto simp: card_gives_def)
next
  assume "card_gives iface ctx req d resp d'"
  then have "exchanges iface (logic_channel ctx) iter_es10x_command
      (segments (logic_channel ctx) (unat (es10x_mss ctx)) 0 req) (ud_of []) d (Ret (ud_of resp)) d'"
    using exchanges_append [OF assms(1) _ refl assms(6)] by (auto simp: card_gives_def)
  from es10x_command_complete [OF assms(1-5) this [unfolded ud_of_def [of "[]"], simplified]]
  show "\<exists>ctx'. es10x_command iface src (of_nat (length req)) (ctx, d) =
      Some (Ret (resp, of_nat (length resp)), ctx', d')"
    by (simp add: ud_of_def)
qed

lemma es10x_command_result:
  assumes "small_answers iface" "wf_ctx ctx" "es10x_mss ctx \<noteq> 0" "length req < 4294967296"
    and "src_request ctx src req"
    and "es10x_command iface src (of_nat (length req)) (ctx, d) = Some (Ret (resp, n), ctx', d')"
  shows "card_gives iface ctx req d resp d' \<and> n = of_nat (length resp) \<and> length resp < 4294967296"
  using es10x_command_wire [OF assms] unsigned_less [of n, where ?'a = nat]
  by (simp add: card_gives_def)

end
