(* ===== verification/Es10x.thy ===== *)
theory Es10x
  imports Apdu_Card Derconv Base64 Hexutil
begin

text \<open>
  What the ES10 functions (\<open>es10a.c\<close>, \<open>es10b.c\<close>, \<open>es10c.c\<close>, \<open>es10c_ex.c\<close>, \<open>es8p.c\<close>) have in common: they pack a
  request, send it with \<open>es10x_command\<close>, look elements up in the answer and copy them out as C strings.
  The first part has the code fragments that recur in those files; the second part describes what they
  compute on plain byte strings and shows, once for all functions, that a call returns exactly what the
  description makes of the bytes the card gives.

  A function that returns a number read from the card (\<open>fret = euicc_derutil_convert_bin2long(...)\<close>) has
  the result \<open>Ret\<close> of the 32 bits of that \<open>int\<close>; \<open>goto err\<close> is \<open>Fail\<close>. Blocks that are allocated and
  filled are values; what is freed on the error paths is dropped.
\<close>

subsection \<open>Recurring code\<close>

text \<open>\<open>reqlen = sizeof(body); euicc_derutil_pack(body, &reqlen, &n_request); es10x_command(...)\<close>, and \<open>parse\<close> on the answer.\<close>

definition es10x_request ::
  "'d euicc_apdu_interface \<Rightarrow> der_tree \<Rightarrow> (cptr \<Rightarrow> u32 \<Rightarrow> 'a cres) \<Rightarrow> 'd st \<Rightarrow>
     ('a cres \<times> 'd st) option" where
  "es10x_request iface n_request parse st =
     (case euicc_derutil_pack (apdu_body (fst st)) 255 n_request of
        Fail \<Rightarrow> Some (Fail, st)
      | UB \<Rightarrow> Some (UB, st)
      | Ret (body, reqlen) \<Rightarrow>
          Option.bind (es10x_command iface (ReqBody 0) reqlen ((fst st)\<lparr>apdu_body := body\<rparr>, snd st))
            (\<lambda>(r, st). Some (cbind r (\<lambda>(respbuf, resplen). parse respbuf resplen), st)))"

text \<open>The same with a request packed into a block of its own (\<open>euicc_derutil_pack_alloc\<close>).\<close>

definition es10x_request_alloc ::
  "'d euicc_apdu_interface \<Rightarrow> der_tree \<Rightarrow> (cptr \<Rightarrow> u32 \<Rightarrow> 'a cres) \<Rightarrow> 'd st \<Rightarrow>
     ('a cres \<times> 'd st) option" where
  "es10x_request_alloc iface n_request parse st =
     (case euicc_derutil_pack_alloc n_request of
        Fail \<Rightarrow> Some (Fail, st)
      | UB \<Rightarrow> Some (UB, st)
      | Ret (reqbuf, reqlen) \<Rightarrow>
          Option.bind (es10x_command iface (ReqMem reqbuf) reqlen st)
            (\<lambda>(r, st). Some (cbind r (\<lambda>(respbuf, resplen). parse respbuf resplen), st)))"

text \<open>Request nodes: zeroed (\<open>memset\<close> or a designated initialiser) but for the fields given.\<close>

definition n_leaf :: "u16 \<Rightarrow> cptr \<Rightarrow> u32 \<Rightarrow> der_tree" where
  "n_leaf tag value len = DNode \<lparr>p_tag = tag, p_length = len, p_value = VMem value, p_headless = False,
     p_relative_offset = 0, p_self_ptr = 0, p_self_length = 0\<rparr> []"

definition n_empty :: "u16 \<Rightarrow> der_tree" where
  "n_empty tag = DNode \<lparr>p_tag = tag, p_length = 0, p_value = VNull, p_headless = False,
     p_relative_offset = 0, p_self_ptr = 0, p_self_length = 0\<rparr> []"

definition n_cons :: "u16 \<Rightarrow> der_tree list \<Rightarrow> der_tree" where
  "n_cons tag child = DNode \<lparr>p_tag = tag, p_length = 0, p_value = VNull, p_headless = False,
     p_relative_offset = 0, p_self_ptr = 0, p_self_length = 0\<rparr> child"

text \<open>A node the reader found, packed again: its content is copied under its tag.\<close>

definition n_found :: "der_node \<Rightarrow> der_tree" where
  "n_found n = n_leaf (n_tag n) (n_value n) (n_length n)"

text \<open>\<open>s = malloc(len + 1); memcpy(s, p, len); s[len] = '\0';\<close>\<close>

definition str_dup :: "cptr \<Rightarrow> u32 \<Rightarrow> cstr cres" where
  "str_dup p len =
     cbind (memcpy (replicate (unat (len + 1)) 0) 0 p (unat len)) (\<lambda>s.
     cbind (cstore s (unat len) 0) (\<lambda>s. Ret (cstr_of s)))"

text \<open>
  \<open>s = malloc((len * 2) + 1); euicc_hexutil_bin2hex(s, (len * 2) + 1, p, len);\<close> The result is not
  looked at: after a failure the block would be read uninitialised.
\<close>

definition hex_dup :: "cptr \<Rightarrow> u32 \<Rightarrow> cstr cres" where
  "hex_dup p len =
     ctry (euicc_hexutil_bin2hex (replicate (unat (len * 2 + 1)) 0) (len * 2 + 1) p len)
       (\<lambda>(n, s). Ret (cstr_of s)) UB"

text \<open>\<open>s = malloc((len * 2) + 1); if (euicc_hexutil_bin2gsmbcd(...) < 0) { free(s); s = NULL; }\<close>\<close>

definition bcd_dup :: "cptr \<Rightarrow> u32 \<Rightarrow> cstr option cres" where
  "bcd_dup p len =
     ctry (euicc_hexutil_bin2gsmbcd (replicate (unat (len * 2 + 1)) 0) (len * 2 + 1) p len)
       (\<lambda>(n, s). Ret (if n < 0 then None else Some (cstr_of s))) (Ret None)"

text \<open>
  \<open>euicc_hexutil_bin2hex(buf, sizeof(buf), p, len);\<close> and the same with \<open>bin2gsmbcd\<close>, into an array of a
  struct; the result is not looked at, and a failure leaves the array alone.
\<close>

definition hex_into :: "cbuf \<Rightarrow> u32 \<Rightarrow> cptr \<Rightarrow> u32 \<Rightarrow> cbuf cres" where
  "hex_into buf cap p len = ctry (euicc_hexutil_bin2hex buf cap p len) (\<lambda>(n, b). Ret b) (Ret buf)"

definition bcd_into :: "cbuf \<Rightarrow> u32 \<Rightarrow> cptr \<Rightarrow> u32 \<Rightarrow> cbuf cres" where
  "bcd_into buf cap p len = ctry (euicc_hexutil_bin2gsmbcd buf cap p len) (\<lambda>(n, b). Ret b) (Ret buf)"

text \<open>
  \<open>s = malloc(euicc_base64_encode_len(len)); euicc_base64_encode(s, p, len);\<close> The length is an \<open>int\<close>
  there, whose arithmetic overflows from 0x5FFFFFFE on.
\<close>

definition b64_dup :: "cptr \<Rightarrow> u32 \<Rightarrow> cstr cres" where
  "b64_dup p len =
     (if 0x5FFFFFFE \<le> len then UB
      else cbind (euicc_base64_encode (replicate (euicc_base64_encode_len (unat len)) 0) p (unat len))
        (\<lambda>(s, n). Ret (cstr_of s)))"

text \<open>\<open>b = malloc(euicc_base64_decode_len(s)); if ((n = euicc_base64_decode(b, s)) < 0) goto err;\<close>\<close>

definition b64_decode_dup :: "cstr \<Rightarrow> (cbuf \<times> u32) cres" where
  "b64_decode_dup s =
     cbind (euicc_base64_decode_len (s @ [0])) (\<lambda>size.
     cbind (euicc_base64_decode (replicate size 0) (s @ [0])) (\<lambda>(b, n).
     if n < 0 then Fail else Ret (b, word_of_int n)))"

text \<open>\<open>(int) euicc_derutil_convert_bin2long(p, len)\<close>\<close>

definition bin2int :: "cptr \<Rightarrow> u32 \<Rightarrow> u32 cres" where
  "bin2int p len = cbind (euicc_derutil_convert_bin2long p len) (\<lambda>v. Ret (ucast v))"

text \<open>
  The tail of the functions that return a number of the card: the element \<open>80\<close> inside the element
  with the request's tag.
\<close>

definition parse_result :: "u16 \<Rightarrow> cptr \<Rightarrow> u32 \<Rightarrow> u32 cres" where
  "parse_result tag respbuf resplen =
     cbind (euicc_derutil_unpack_find_tag tag respbuf resplen) (\<lambda>tmpnode.
     cbind (euicc_derutil_unpack_find_tag 0x80 (n_value tmpnode) (n_length tmpnode)) (\<lambda>tmpnode.
     bin2int (n_value tmpnode) (n_length tmpnode)))"

subsection \<open>Elements of a byte string\<close>

type_synonym item = "u16 \<times> byte list \<times> byte list"

definition tlv_find :: "u16 list \<Rightarrow> byte list \<Rightarrow> item option" where
  "tlv_find tags bs = List.find (\<lambda>(t, _, _). t \<in> set tags) (tlv_items bs)"

text \<open>The content, or the whole encoding, of the first element with a tag.\<close>

definition tlv_val :: "u16 \<Rightarrow> byte list \<Rightarrow> byte list option" where
  "tlv_val tag bs = map_option (\<lambda>(t, v, e). v) (tlv_find [tag] bs)"

definition tlv_enc :: "u16 \<Rightarrow> byte list \<Rightarrow> byte list option" where
  "tlv_enc tag bs = map_option (\<lambda>(t, v, e). e) (tlv_find [tag] bs)"

text \<open>No element \<open>5A\<close> (the ICCID) is empty.\<close>

definition no_empty_iccid :: "byte list \<Rightarrow> bool" where
  "no_empty_iccid v \<longleftrightarrow> list_all (\<lambda>(t, w, e). t = 0x5A \<longrightarrow> w \<noteq> []) (tlv_items v)"

text \<open>A slice in its object and short enough for the \<open>int\<close> arithmetic of the string helpers.\<close>

definition slice_small :: "cptr \<Rightarrow> u32 \<Rightarrow> bool" where
  "slice_small p len \<longleftrightarrow> slice_ok p len \<and> unat len < 0x40000000"

definition node_small :: "der_node \<Rightarrow> bool" where
  "node_small n \<longleftrightarrow> node_ok n \<and> slice_small (n_value n) (n_length n) \<and>
     slice_small (n_self_ptr n) (n_self_length n)"

lemma slice_small_ok [simp]: "slice_small p len \<Longrightarrow> slice_ok p len"
  by (simp add: slice_small_def)

lemma slice_small_length: "slice_small p len \<Longrightarrow> length (slice_bytes p len) < 0x40000000"
  by (simp add: slice_small_def)

lemma node_small_simps [simp]:
  "node_small n \<Longrightarrow> slice_small (n_value n) (n_length n)"
  "node_small n \<Longrightarrow> slice_small (n_self_ptr n) (n_self_length n)"
  by (simp_all add: node_small_def)

lemma slice_bytes_whole [simp]:
  "length bs < 4294967296 \<Longrightarrow> slice_bytes bs (of_nat (length bs)) = bs"
  by (simp add: slice_bytes_def)

lemma slice_small_whole: "length bs < 0x40000000 \<Longrightarrow> slice_small bs (of_nat (length bs))"
  by (simp add: slice_small_def slice_ok_def)

lemma tlv_items_enc_length: "(t, v, e) \<in> set (tlv_items bs) \<Longrightarrow> length e \<le> length bs"
proof (induction bs rule: tlv_items.induct)
  case (1 bs)
  show ?case
  proof (cases "tlv_decode bs")
    case None
    with "1.prems" show ?thesis by (simp add: tlv_items.simps [of bs])
  next
    case (Some d)
    then obtain tag val rest where d: "tlv_decode bs = Some (tag, val, rest)" by (cases d) simp
    with "1.prems" consider "e = take (length bs - length rest) bs" | "(t, v, e) \<in> set (tlv_items rest)"
      by (auto simp: tlv_items.simps [of bs])
    then show ?thesis
    proof cases
      case 2
      with "1.IH" [OF d refl refl] tlv_decode_shorter [OF d] show ?thesis by simp
    qed simp
  qed
qed

lemma node_item_small:
  assumes "slice_small p len" "node_ok n" "node_item n \<in> set (tlv_items (slice_bytes p len))"
  shows "node_small n"
proof -
  have self: "slice_ok (n_self_ptr n) (n_self_length n)" "slice_ok (n_value n) (n_length n)"
    and len: "unat (n_length n) + 2 \<le> unat (n_self_length n)"
    using assms(2) unfolding node_ok_def by blast+
  from assms(3) have "length (slice_bytes (n_self_ptr n) (n_self_length n)) \<le> length (slice_bytes p len)"
    unfolding node_item_def by (rule tlv_items_enc_length)
  with self(1) slice_small_length [OF assms(1)] have "unat (n_self_length n) < 0x40000000" by simp
  with self len assms(2) show ?thesis by (simp add: node_small_def slice_small_def)
qed

lemma find_alias_cases:
  assumes "slice_small p len"
  obtains (none) "tlv_find tags (slice_bytes p len) = None"
      "euicc_derutil_unpack_find_alias_tags tags p len = Fail"
    | (found) n where "tlv_find tags (slice_bytes p len) = Some (node_item n)"
      "euicc_derutil_unpack_find_alias_tags tags p len = Ret n" "node_small n" "n_tag n \<in> set tags"
proof (cases "tlv_find tags (slice_bytes p len)")
  case None
  with find_alias_tags_eq [of p len tags] assms none show ?thesis by (simp add: tlv_find_def)
next
  case (Some item)
  with find_alias_tags_eq [of p len tags] assms obtain n where
    n: "euicc_derutil_unpack_find_alias_tags tags p len = Ret n" "node_ok n" "node_item n = item"
    by (auto simp: tlv_find_def)
  moreover have "node_item n \<in> set (tlv_items (slice_bytes p len))" "n_tag n \<in> set tags"
    using Some n(3) by (auto simp: tlv_find_def find_Some_iff node_item_def dest: nth_mem)
  ultimately show ?thesis using found Some node_item_small [OF assms] by blast
qed

text \<open>Content and encoding of a node as byte strings.\<close>

definition node_val :: "der_node \<Rightarrow> byte list" where
  "node_val n = slice_bytes (n_value n) (n_length n)"

definition node_enc :: "der_node \<Rightarrow> byte list" where
  "node_enc n = slice_bytes (n_self_ptr n) (n_self_length n)"

lemma node_item_eq: "node_item n = (n_tag n, node_val n, node_enc n)"
  by (simp add: node_item_def node_val_def node_enc_def)

lemma node_small_lengths:
  "node_small n \<Longrightarrow> length (node_val n) = unat (n_length n)"
  "node_small n \<Longrightarrow> length (node_enc n) = unat (n_self_length n)"
  "node_small n \<Longrightarrow> unat (n_length n) < 0x40000000"
  "node_small n \<Longrightarrow> unat (n_self_length n) < 0x40000000"
  by (simp_all add: node_small_def slice_small_def node_val_def node_enc_def)

subsection \<open>The fragments as functions of the bytes\<close>

lemma unat_plus1_u32: "unat len < 0x7FFFFFFF \<Longrightarrow> unat (len + 1 :: u32) = unat len + 1"
  by (subst unat_plus_u32) auto

lemma str_dup_eq:
  assumes "slice_small p len"
  shows "str_dup p len = Ret (cstr_of (slice_bytes p len))"
proof -
  have "cstr_of (bs @ [0]) = cstr_of bs" for bs :: cbuf
    by (induction bs) (simp_all add: cstr_of_def)
  with assms show ?thesis
    by (simp add: str_dup_def slice_small_def slice_ok_def unat_plus1_u32 memcpy_def cstore_def
        slice_bytes_def list_update_append replicate_Suc [where n = 0] del: replicate_Suc)
qed

lemma double_comm: "len * 2 + 1 = 2 * len + (1 :: u32)"
  by simp

lemma hex_dup_eq:
  assumes "slice_small p len"
  shows "hex_dup p len = Ret (hex_of (slice_bytes p len))"
proof -
  have "unat (2 * len + 1) = 2 * unat len + 1"
    using assms by (intro unat_double_plus1_u32) (simp add: slice_small_def)
  with assms show ?thesis
    by (simp add: hex_dup_def double_comm euicc_hexutil_bin2hex_eq slice_small_def cstr_of_append_NUL
        hex_of_no_NUL)
qed

lemma b64_dup_eq:
  assumes "slice_small p len"
  shows "b64_dup p len = Ret (b64_enc (slice_bytes p len))"
proof -
  have "\<not> 0x5FFFFFFE \<le> len" using assms by (simp add: slice_small_def word_le_nat_alt)
  moreover have "0 \<notin> set (b64_enc bs)" for bs
    using b64_enc_no_NUL .
  ultimately show ?thesis
    using assms by (simp add: b64_dup_def base64_encode_eq Let_def cstr_of_append_NUL)
qed

lemma bcd_of_no_NUL: "0 \<notin> set (bcd_of bs)"
proof -
  have "set (swap_pairs xs) = set xs" for xs :: "'a list"
    by (induction xs rule: swap_pairs.induct) auto
  moreover have "set (strip_f xs) \<subseteq> set xs" for xs
    by (auto simp: strip_f_def dest: set_dropWhileD)
  ultimately show ?thesis
    using hex_of_no_NUL [of bs] by (fastforce simp: bcd_of_def split: list.splits dest: arg_cong [where f = set])
qed

lemma bcd_dup_eq:
  assumes "slice_small p len" "len \<noteq> 0"
  shows "bcd_dup p len = Ret (Some (bcd_of (slice_bytes p len)))"
proof -
  have u: "unat (2 * len + 1) = 2 * unat len + 1"
    using assms(1) by (intro unat_double_plus1_u32) (simp add: slice_small_def)
  have "length (slice_bytes p len) \<noteq> 0" using assms by (simp add: unsigned_eq_0_iff)
  then have "bcd_of (slice_bytes p len) \<noteq> []" by (intro bcd_of_nonempty) auto
  then have n: "\<not> int (length (bcd_of (slice_bytes p len))) - 1 < 0"
    by (cases "bcd_of (slice_bytes p len)") auto
  have "cstr_of (bcd_of (slice_bytes p len) @ replicate k 0 @ [0]) = bcd_of (slice_bytes p len)" for k
    using cstr_of_append_NUL [OF bcd_of_no_NUL] by (cases k) simp_all
  with u n assms show ?thesis
    by (simp add: bcd_dup_def double_comm euicc_hexutil_bin2gsmbcd_eq slice_small_def Let_def)
qed

lemma bcd_dup_empty: "bcd_dup p 0 = UB"
  by (simp add: bcd_dup_def euicc_hexutil_bin2gsmbcd_empty)

text \<open>The arrays after writing the digits of \<open>v\<close>, if they fit.\<close>

definition put_hex :: "cbuf \<Rightarrow> byte list \<Rightarrow> cbuf" where
  "put_hex buf v = (if length buf \<le> 2 * length v then buf else put_bytes buf 0 (hex_of v @ [0]))"

definition put_bcd :: "cbuf \<Rightarrow> byte list \<Rightarrow> cbuf" where
  "put_bcd buf v =
     (if length buf \<le> 2 * length v then buf
      else put_bytes buf 0 (bcd_of v @ replicate (2 * length v + 1 - length (bcd_of v)) 0))"

lemma hex_into_eq:
  assumes "slice_small p len" "unat cap = length buf"
  shows "hex_into buf cap p len = Ret (put_hex buf (slice_bytes p len))"
  using assms
  by (auto simp: hex_into_def put_hex_def euicc_hexutil_bin2hex_eq slice_small_def put_bytes_def)

lemma length_bcd_of: "length (bcd_of v) \<le> 2 * length v"
proof (cases "swap_pairs (hex_of v)")
  case (Cons c s)
  have "length (strip_f s) \<le> length s"
    unfolding strip_f_def using length_dropWhile_le [of _ "rev s"] by simp
  moreover have "length (swap_pairs (hex_of v)) = 2 * length v" by simp
  then have "Suc (length s) = 2 * length v" by (simp add: Cons)
  moreover have "length (bcd_of v) = Suc (length (strip_f s))" by (simp add: bcd_of_def Cons)
  ultimately show ?thesis by linarith
qed (simp add: bcd_of_def)

lemma bcd_into_eq:
  assumes "slice_small p len" "unat cap = length buf" "len \<noteq> 0"
  shows "bcd_into buf cap p len = Ret (put_bcd buf (slice_bytes p len))"
proof -
  have l: "length (slice_bytes p len) = unat len" using assms(1) by simp
  then have "length (bcd_of (slice_bytes p len)) \<le> 2 * unat len" using length_bcd_of by metis
  then have "Suc (2 * unat len) - length (bcd_of (slice_bytes p len)) =
      Suc (2 * unat len - length (bcd_of (slice_bytes p len)))" by simp
  with assms l length_bcd_of [of "slice_bytes p len"] show ?thesis
    by (auto simp: bcd_into_def put_bcd_def euicc_hexutil_bin2gsmbcd_eq slice_small_def put_bytes_def
        Let_def replicate_append_same [symmetric])
qed

lemma cstr_put_bcd: "2 * length v < length buf \<Longrightarrow> cstr_of (put_bcd buf v) = bcd_of v"
  using length_bcd_of [of v] cstr_of_append_NUL [OF bcd_of_no_NUL, of v]
  by (simp add: put_bcd_def put_bytes_def Suc_diff_le)

lemma cstr_put_hex: "2 * length v < length buf \<Longrightarrow> cstr_of (put_hex buf v) = hex_of v"
  using cstr_of_append_NUL [OF hex_of_no_NUL, of v] by (simp add: put_hex_def put_bytes_def)

lemma length_put_digits [simp]:
  "length (put_hex buf v) = length buf" "length (put_bcd buf v) = length buf"
  using length_bcd_of [of v] by (simp_all add: put_hex_def put_bcd_def)

lemma b64_decode_dup_eq:
  assumes "length s < 0x40000000"
  shows "\<exists>b n. b64_decode_dup s = Ret (b, n) \<and> slice_small b n \<and> slice_bytes b n = b64_plain s"
proof -
  have "length (b64_plain s) \<le> (length (takeWhile b64_char s) + 3) div 4 * 3"
    using length_b64_dec_le [of "map b64_value (takeWhile b64_char s)"] by (simp add: b64_plain_def)
  also have "\<dots> < 0x40000000" using length_takeWhile_le [of b64_char s] assms by linarith
  finally show ?thesis
    using base64_decode_string [of s]
    by (auto simp: b64_decode_dup_def slice_small_def slice_ok_def slice_bytes_def)
qed

lemma bin2int_eq:
  "slice_small p len \<Longrightarrow> bin2int p len = Ret (ucast (be_value64 (slice_bytes p len)))"
  by (simp add: bin2int_def bin2long_eq)

text \<open>The names of the flags of a BIT STRING, and the bit strings the code can read.\<close>

definition bits_names :: "cstr list \<Rightarrow> byte list \<Rightarrow> cstr option list option" where
  "bits_names desc v = (case v of [] \<Rightarrow> None
     | unused # bs \<Rightarrow> Some (map (\<lambda>k. Some (desc ! k)) (flags_of unused bs (length desc)) @ [None]))"

definition bits_ok :: "byte list \<Rightarrow> bool" where
  "bits_ok v \<longleftrightarrow> (case v of unused # b # bs \<Rightarrow> unused_ok unused | _ \<Rightarrow> True)"

lemma bin2bits_names:
  assumes "slice_small p len" "bits_ok (slice_bytes p len)"
  shows "euicc_derutil_convert_bin2bits_str p len desc = opt_res (bits_names desc (slice_bytes p len))"
proof (cases "slice_bytes p len")
  case Nil
  then have "unat len = 0" using assms(1) length_slice_bytes [of p len] by simp
  then have "len = 0" by (simp add: unsigned_eq_0_iff)
  with Nil show ?thesis by (simp add: euicc_derutil_convert_bin2bits_str_def bits_names_def)
next
  case (Cons unused bs)
  have "bs \<noteq> [] \<Longrightarrow> unused_ok unused"
    using assms(2) by (auto simp: bits_ok_def Cons split: list.splits)
  with assms(1) Cons show ?thesis
    by (simp add: bin2bits_str_eq slice_small_def bits_names_def)
qed

subsection \<open>Rules for the parsers\<close>

lemma cbind_find_val:
  assumes "slice_small p len"
    and "\<And>n. node_small n \<Longrightarrow> n_tag n = tag \<Longrightarrow>
      tlv_val tag (slice_bytes p len) = Some (node_val n) \<Longrightarrow> f n = opt_res (g (node_val n))"
  shows "cbind (euicc_derutil_unpack_find_tag tag p len) f =
    opt_res (Option.bind (tlv_val tag (slice_bytes p len)) g)"
  using assms(2) unfolding euicc_derutil_unpack_find_tag_def tlv_val_def
  by (cases rule: find_alias_cases [OF assms(1), of "[tag]"]) (simp_all add: node_item_eq)

lemma cbind_find_enc:
  assumes "slice_small p len"
    and "\<And>n. node_small n \<Longrightarrow> n_tag n = tag \<Longrightarrow>
      tlv_enc tag (slice_bytes p len) = Some (node_enc n) \<Longrightarrow> f n = opt_res (g (node_enc n))"
  shows "cbind (euicc_derutil_unpack_find_tag tag p len) f =
    opt_res (Option.bind (tlv_enc tag (slice_bytes p len)) g)"
  using assms(2) unfolding euicc_derutil_unpack_find_tag_def tlv_enc_def
  by (cases rule: find_alias_cases [OF assms(1), of "[tag]"]) (simp_all add: node_item_eq)

lemma cbind_find_alias:
  assumes "slice_small p len"
    and "\<And>n. node_small n \<Longrightarrow> n_tag n \<in> set tags \<Longrightarrow> f n = opt_res (g (node_item n))"
  shows "cbind (euicc_derutil_unpack_find_alias_tags tags p len) f =
    opt_res (Option.bind (tlv_find tags (slice_bytes p len)) g)"
  using assms(2) by (cases rule: find_alias_cases [OF assms(1), of tags]) simp_all

lemma ctry_find_val:
  assumes "slice_small p len"
    and "\<And>n. node_small n \<Longrightarrow> n_tag n = tag \<Longrightarrow>
      tlv_val tag (slice_bytes p len) = Some (node_val n) \<Longrightarrow> f n = opt_res (g (node_val n))" "k = opt_res h"
  shows "ctry (euicc_derutil_unpack_find_tag tag p len) f k =
    opt_res (case tlv_val tag (slice_bytes p len) of None \<Rightarrow> h | Some v \<Rightarrow> g v)"
  using assms(2,3) unfolding euicc_derutil_unpack_find_tag_def tlv_val_def
  by (cases rule: find_alias_cases [OF assms(1), of "[tag]"]) (simp_all add: node_item_eq)

fun ofold :: "('x \<Rightarrow> 's \<Rightarrow> 's option) \<Rightarrow> 'x list \<Rightarrow> 's \<Rightarrow> 's option" where
  "ofold f [] s = Some s"
| "ofold f (x # xs) s = Option.bind (f x s) (ofold f xs)"

lemma fold_append_filter:
  "fold (\<lambda>x l. if P x then l @ [f x] else l) xs l = l @ map f (filter P xs)"
  by (induction xs arbitrary: l) simp_all

lemma ofold_Some: "ofold (\<lambda>x s. Some (f x s)) xs s = Some (fold f xs s)"
  by (induction xs arbitrary: s) simp_all

lemma foreach_ofold_inv:
  fixes body :: "der_node \<Rightarrow> 's \<Rightarrow> 's cres"
  assumes "slice_small p len" "I s"
    and "\<And>n s. node_small n \<Longrightarrow> node_item n \<in> set (tlv_items (slice_bytes p len)) \<Longrightarrow> I s \<Longrightarrow>
      body n s = opt_res (f (node_item n) s)"
    and "\<And>x s s'. I s \<Longrightarrow> f x s = Some s' \<Longrightarrow> I s'"
  shows "tlv_foreach p len body s = opt_res (ofold f (tlv_items (slice_bytes p len)) s)"
proof -
  obtain ns where ns: "map node_item ns = tlv_items (slice_bytes p len)" "\<forall>n \<in> set ns. node_ok n"
    "\<And>s. tlv_foreach p len body s = cfold body ns s"
    using tlv_foreach_eq [of p len, where ?'s = 's] assms(1) by fastforce
  have "body n s = opt_res (f (node_item n) s)" if "n \<in> set ns" "I s" for n s
  proof -
    have "node_item n \<in> set (tlv_items (slice_bytes p len))" using that by (simp flip: ns(1))
    with that ns(2) node_item_small [OF assms(1)] show ?thesis by (intro assms(3)) auto
  qed
  then have "cfold body ns s = opt_res (ofold f (map node_item ns) s)"
    using assms(2)
  proof (induction ns arbitrary: s)
    case (Cons n ns)
    then show ?case using assms(4) [of s "node_item n"] by (cases "f (node_item n) s") simp_all
  qed simp
  with ns show ?thesis by simp
qed

lemma foreach_ofold:
  fixes body :: "der_node \<Rightarrow> 's \<Rightarrow> 's cres"
  assumes "slice_small p len"
    and "\<And>n s. node_small n \<Longrightarrow> node_item n \<in> set (tlv_items (slice_bytes p len)) \<Longrightarrow>
      body n s = opt_res (f (node_item n) s)"
  shows "tlv_foreach p len body s = opt_res (ofold f (tlv_items (slice_bytes p len)) s)"
  by (rule foreach_ofold_inv [where I = "\<lambda>_. True"]) (use assms in auto)

lemma foreach_fold_inv:
  fixes body :: "der_node \<Rightarrow> 's \<Rightarrow> 's cres"
  assumes "slice_small p len" "I s"
    and "\<And>n s. node_small n \<Longrightarrow> node_item n \<in> set (tlv_items (slice_bytes p len)) \<Longrightarrow> I s \<Longrightarrow>
      body n s = Ret (f (node_item n) s)"
    and "\<And>x s. I s \<Longrightarrow> I (f x s)"
  shows "tlv_foreach p len body s = Ret (fold f (tlv_items (slice_bytes p len)) s)"
proof -
  have "tlv_foreach p len body s = opt_res (ofold (\<lambda>x s. Some (f x s)) (tlv_items (slice_bytes p len)) s)"
    by (rule foreach_ofold_inv [where I = I]) (use assms in auto)
  then show ?thesis by (simp add: ofold_Some)
qed

lemma foreach_fold:
  fixes body :: "der_node \<Rightarrow> 's \<Rightarrow> 's cres"
  assumes "slice_small p len"
    and "\<And>n s. node_small n \<Longrightarrow> node_item n \<in> set (tlv_items (slice_bytes p len)) \<Longrightarrow>
      body n s = Ret (f (node_item n) s)"
  shows "tlv_foreach p len body s = Ret (fold f (tlv_items (slice_bytes p len)) s)"
  using foreach_ofold [of p len body "\<lambda>x s. Some (f x s)"] assms by (simp add: ofold_Some)

text \<open>The loops that parse every element with one tag and append the result to a list.\<close>

definition vals_with :: "u16 \<Rightarrow> (byte list \<Rightarrow> 'a) \<Rightarrow> byte list \<Rightarrow> 'a list" where
  "vals_with tag f bs = map (\<lambda>(t, v, e). f v) (filter (\<lambda>(t, v, e). t = tag) (tlv_items bs))"

lemma foreach_entries:
  assumes "slice_small p len"
    and "\<And>m. node_small m \<Longrightarrow> n_tag m = tag \<Longrightarrow> node_item m \<in> set (tlv_items (slice_bytes p len)) \<Longrightarrow>
      entry m = Ret (f (node_val m))"
  shows "tlv_foreach p len (\<lambda>n l. if n_tag n \<noteq> tag then Ret l else cbind (entry n) (\<lambda>x. Ret (l @ [x]))) [] =
    Ret (vals_with tag f (slice_bytes p len))"
proof -
  let ?add = "\<lambda>x l. if (\<lambda>(t, v, e). t = tag) x then l @ [(\<lambda>(t, v, e). f v) x] else l"
  have "tlv_foreach p len (\<lambda>n l. if n_tag n \<noteq> tag then Ret l else cbind (entry n) (\<lambda>x. Ret (l @ [x]))) [] =
      Ret (fold ?add (tlv_items (slice_bytes p len)) [])"
    by (rule foreach_fold [OF assms(1)]) (use assms(2) in \<open>auto simp: node_item_eq\<close>)
  then show ?thesis by (simp only: fold_append_filter vals_with_def append_Nil)
qed

lemmas dup_eqs = str_dup_eq hex_dup_eq b64_dup_eq bin2int_eq bin2long_eq node_val_def node_enc_def

lemma parse_result_eq:
  assumes "slice_small p len"
  shows "parse_result tag p len = opt_res (do { r \<leftarrow> tlv_val tag (slice_bytes p len);
    v \<leftarrow> tlv_val 0x80 r; Some (ucast (be_value64 v)) })"
  unfolding parse_result_def
  by (rule cbind_find_val [OF assms], unfold node_val_def, rule cbind_find_val) (simp_all add: dup_eqs)

subsection \<open>Requests as bytes\<close>

definition tlv :: "u16 \<Rightarrow> byte list \<Rightarrow> byte list" where
  "tlv tag content = tag_bytes tag @ len_bytes (of_nat (length content)) @ content"

lemma der_enc_leaf [simp]: "der_enc (n_leaf tag p len) = tlv tag (slice_bytes p len)"
  by (simp add: n_leaf_def tlv_def der_enc_node tree_body_def node_bytes_def slice_bytes_def)

lemma der_enc_found [simp]: "der_enc (n_found n) = tlv (n_tag n) (node_val n)"
  by (simp add: n_found_def node_val_def)

lemma der_enc_empty [simp]: "der_enc (n_empty tag) = tlv tag []"
  by (simp add: n_empty_def tlv_def der_enc_node tree_body_def node_bytes_def)

lemma der_enc_cons [simp]: "child \<noteq> [] \<Longrightarrow> der_enc (n_cons tag child) = tlv tag (der_encs child)"
  by (simp add: n_cons_def tlv_def der_enc_node tree_body_def)

lemma pack_ok_nodes [simp]:
  "pack_ok (n_leaf tag p len) = slice_ok p len" "pack_ok (n_empty tag)"
  "child \<noteq> [] \<Longrightarrow> pack_ok (n_cons tag child) = list_all pack_ok child"
  "pack_ok (n_found n) = slice_ok (n_value n) (n_length n)"
  by (simp_all add: n_leaf_def n_empty_def n_cons_def n_found_def slice_ok_def)

lemma length_tag_bytes_le: "length (tag_bytes tag) \<le> 2"
  by (simp add: tag_bytes_def)

lemma len_bytes_short [simp]: "n < 128 \<Longrightarrow> len_bytes (of_nat n) = [of_nat n]"
  by (auto simp: len_bytes_def word_less_nat_alt bit_simps intro: bit_word_eqI)

text \<open>The minimal big-endian bytes of a number, as \<open>euicc_derutil_convert_long2bin\<close> writes them.\<close>

definition long_bytes :: "u64 \<Rightarrow> byte list" where
  "long_bytes v = long_digits (long2bin_required 7 v 1) v"

lemma length_long_bytes: "1 \<le> length (long_bytes v) \<and> length (long_bytes v) \<le> 8"
  using long2bin_required_bounds [of 1 7 v] by (simp add: long_bytes_def long_digits_def)

lemma be_value64_long_bytes [simp]: "be_value64 (long_bytes v) = v"
  unfolding long_bytes_def by (rule be_value64_long_digits)

lemma long2bin_bytes:
  assumes "unat len \<le> length buf"
  shows "euicc_derutil_convert_long2bin buf len v =
    (if unat len < length (long_bytes v) then Fail
     else Ret (long_bytes v @ drop (length (long_bytes v)) buf, of_nat (length (long_bytes v))))"
  using long2bin_eq [OF assms, of v] by (simp add: long_bytes_def long_digits_def)

subsection \<open>A call returns what the card's answer says\<close>

text \<open>
  The contract between a parser and the call: on answers that are \<open>safe\<close>, the parser computes the
  function \<open>spec\<close> of the answer's bytes.
\<close>

locale es10_parser =
  fixes parse :: "cptr \<Rightarrow> u32 \<Rightarrow> 'a cres" and safe :: "byte list \<Rightarrow> bool" and spec :: "byte list \<Rightarrow> 'a option"
  assumes parse_spec: "safe (slice_bytes p len) \<Longrightarrow> slice_small p len \<Longrightarrow>
    parse p len = opt_res (spec (slice_bytes p len))"
begin

lemma command_spec:
  assumes "small_answers iface" "wf_ctx ctx" "es10x_mss ctx \<noteq> 0" "length req < 4294967296"
    and "src_request ctx src req" "card_gives iface ctx req d resp d'" "length resp < 0x40000000" "safe resp"
  shows "\<exists>ctx'. Option.bind (es10x_command iface src (of_nat (length req)) (ctx, d))
      (\<lambda>(r, st). Some (cbind r (\<lambda>(respbuf, resplen). parse respbuf resplen), st)) =
    Some (opt_res (spec resp), ctx', d') \<and> same_session ctx ctx'"
proof -
  obtain ctx' where run: "es10x_command iface src (of_nat (length req)) (ctx, d) =
      Some (Ret (resp, of_nat (length resp)), ctx', d')"
    using es10x_command_gives [OF assms(1-5), of resp] assms(6,7) by auto
  with es10x_command_session [OF run assms(2)] parse_spec [of resp "of_nat (length resp)"] assms(7,8)
    slice_small_whole [of resp] show ?thesis by simp
qed

lemma request_spec:
  assumes "small_answers iface" "wf_ctx ctx" "es10x_mss ctx \<noteq> 0"
    and "pack_ok req" "length (der_enc req) \<le> 255"
    and "card_gives iface ctx (der_enc req) d resp d'" "length resp < 0x40000000" "safe resp"
  shows "\<exists>ctx'. es10x_request iface req parse (ctx, d) = Some (opt_res (spec resp), ctx', d') \<and>
    same_session ctx ctx'"
proof -
  define body where "body = der_enc req @ drop (length (der_enc req)) (apdu_body ctx)"
  define ctx1 where "ctx1 = ctx\<lparr>apdu_body := body\<rparr>"
  have pack: "euicc_derutil_pack (apdu_body ctx) 255 req = Ret (body, of_nat (length (der_enc req)))"
    using assms(2,4,5) by (simp add: euicc_derutil_pack_eq wf_ctx_def body_def)
  have same: "same_session ctx ctx1"
    using assms(2,5) by (simp add: same_session_def ctx1_def wf_ctx_def body_def)
  then have "wf_ctx ctx1" "es10x_mss ctx1 \<noteq> 0" "card_gives iface ctx1 (der_enc req) d resp d'"
    using assms(2,3,6) by (auto simp: same_session_wf same_session_def card_gives_def)
  moreover have "src_request ctx1 (ReqBody 0) (der_enc req)"
    by (simp add: src_request_def ctx1_def body_def)
  ultimately obtain ctx' where "Option.bind (es10x_command iface (ReqBody 0) (of_nat (length (der_enc req))) (ctx1, d))
      (\<lambda>(r, st). Some (cbind r (\<lambda>(respbuf, resplen). parse respbuf resplen), st)) =
    Some (opt_res (spec resp), ctx', d')" "same_session ctx1 ctx'"
    using command_spec [OF assms(1), of ctx1 "der_enc req" "ReqBody 0" d resp d'] assms(5,7,8) by fastforce
  then show ?thesis
    using same_session_trans [OF same] by (simp add: es10x_request_def pack flip: ctx1_def)
qed

lemma request_alloc_spec:
  assumes "small_answers iface" "wf_ctx ctx" "es10x_mss ctx \<noteq> 0"
    and "pack_ok req" "length (der_enc req) < 4294967296"
    and "card_gives iface ctx (der_enc req) d resp d'" "length resp < 0x40000000" "safe resp"
  shows "\<exists>ctx'. es10x_request_alloc iface req parse (ctx, d) = Some (opt_res (spec resp), ctx', d') \<and>
    same_session ctx ctx'"
  unfolding es10x_request_alloc_def euicc_derutil_pack_alloc_eq [OF assms(4,5)]
  using command_spec [OF assms(1-3,5) _ assms(6-8), of "ReqMem (der_enc req)"]
  by (simp add: src_request_def)

end

text \<open>A request that does not fit the buffer of the context is never sent.\<close>

lemma request_too_long:
  assumes "wf_ctx ctx" "pack_ok req" "255 < length (der_enc req)" "length (der_enc req) < 4294967296"
  shows "es10x_request iface req parse (ctx, d) = Some (Fail, ctx, d)"
  using assms by (simp add: es10x_request_def euicc_derutil_pack_eq wf_ctx_def)

text \<open>A result can only come from an answer of the card.\<close>

lemma request_answered:
  assumes "small_answers iface" "wf_ctx ctx" "es10x_mss ctx \<noteq> 0" "pack_ok req" "length (der_enc req) \<le> 255"
    and "es10x_request iface req parse (ctx, d) = Some (Ret a, ctx', d')"
  shows "\<exists>resp. card_gives iface ctx (der_enc req) d resp d' \<and> parse resp (of_nat (length resp)) = Ret a"
proof -
  define body where "body = der_enc req @ drop (length (der_enc req)) (apdu_body ctx)"
  define ctx1 where "ctx1 = ctx\<lparr>apdu_body := body\<rparr>"
  have pack: "euicc_derutil_pack (apdu_body ctx) 255 req = Ret (body, of_nat (length (der_enc req)))"
    using assms(2,4,5) by (simp add: euicc_derutil_pack_eq wf_ctx_def body_def)
  have c1: "wf_ctx ctx1" "es10x_mss ctx1 \<noteq> 0" "src_request ctx1 (ReqBody 0) (der_enc req)"
    "card_gives iface ctx1 = card_gives iface ctx"
    using assms(2,3,5) by (auto simp: ctx1_def wf_ctx_def body_def src_request_def card_gives_def fun_eq_iff)
  from assms(6) obtain resp n where
    run: "es10x_command iface (ReqBody 0) (of_nat (length (der_enc req))) (ctx1, d) = Some (Ret (resp, n), ctx', d')"
    and p: "parse resp n = Ret a"
    by (auto simp: es10x_request_def pack Option.bind_eq_Some_conv cbind_eq_Ret simp flip: ctx1_def)
  from es10x_command_result [OF assms(1) c1(1,2) _ c1(3) run] assms(5) p c1(4) show ?thesis by auto
qed

interpretation result: es10_parser "parse_result tag" "\<lambda>_. True"
  "\<lambda>resp. do { r \<leftarrow> tlv_val tag resp; v \<leftarrow> tlv_val 0x80 r; Some (ucast (be_value64 v)) }" for tag
  by unfold_locales (simp add: parse_result_eq)

end
