(* ===== verification/Es10_Answers.thy ===== *)
theory Es10_Answers
  imports Es10x Apdu_Props
begin

text \<open>
  Answers of a card written down with the encoder \<open>tlv\<close>, and what a reader sees in them; a scripted card
  that gives one such answer, for the examples.
\<close>

subsection \<open>Elements of encoded answers\<close>

lemma tlv_items_Nil [simp]: "tlv_items [] = []"
  by (simp add: tlv_items.simps tlv_decode_def)

lemma tlv_decode_tlv:
  "tag_wf tag \<Longrightarrow> length v < 4294967296 \<Longrightarrow> tlv_decode (tlv tag v @ bs) = Some (tag, v, bs)"
  by (simp add: tlv_def tlv_decode_def tlv_tag_tag_bytes tlv_len_len_bytes)

lemma tlv_items_tlv [simp]:
  assumes "tag_wf tag" "length v < 4294967296"
  shows "tlv_items (tlv tag v @ bs) = (tag, v, tlv tag v) # tlv_items bs"
  by (simp add: tlv_items.simps [of "tlv tag v @ bs"] tlv_decode_tlv [OF assms])

lemma tlv_items_tlv1 [simp]:
  "tag_wf tag \<Longrightarrow> length v < 4294967296 \<Longrightarrow> tlv_items (tlv tag v) = [(tag, v, tlv tag v)]"
  using tlv_items_tlv [of tag v "[]"] by simp

lemma tlv_val_tlv [simp]:
  "tag_wf tag \<Longrightarrow> length v < 4294967296 \<Longrightarrow> tlv_val tag (tlv tag v @ bs) = Some v"
  "tag_wf tag \<Longrightarrow> length v < 4294967296 \<Longrightarrow> tlv_val tag (tlv tag v) = Some v"
  by (simp_all add: tlv_val_def tlv_find_def)

lemma tlv_val_other:
  "tag_wf t \<Longrightarrow> length v < 4294967296 \<Longrightarrow> tag \<noteq> t \<Longrightarrow> tlv_val tag (tlv t v @ bs) = tlv_val tag bs"
  "tag_wf t \<Longrightarrow> length v < 4294967296 \<Longrightarrow> tag \<noteq> t \<Longrightarrow> tlv_val tag (tlv t v) = None"
  by (simp_all add: tlv_val_def tlv_find_def)

lemma length_tlv:
  fixes tag v
  shows "length (tlv tag v) \<le> length v + 7" "length v < length (tlv tag v)"
  using byte_count_le_4 [of "of_nat (length v)"] length_tag_bytes [of tag]
  by (auto simp: tlv_def length_len_bytes)

lemma length_tlv_le: "length v + 7 \<le> n \<Longrightarrow> length (tlv tag v) \<le> n"
  using length_tlv(1) [of tag v] by simp

lemma tlv_nonempty [simp]: "tlv tag v \<noteq> []"
  using length_tlv(2) [of v tag] by auto

lemma tlv_short: "length v < 128 \<Longrightarrow> tlv tag v = tag_bytes tag @ of_nat (length v) # v"
  by (simp add: tlv_def)

lemma length_tlv_exact:
  "length v < 256 \<Longrightarrow>
    length (tlv tag v) = (if drop_bit 8 tag \<noteq> 0 then 2 else 1) + (if length v < 128 then 1 else 2) + length v"
proof -
  assume l: "length v < 256"
  have "byte_count (of_nat (length v)) \<le> 1" using l by (intro byte_count_le) simp
  moreover have "of_nat (length v) < (0x80 :: u32) \<longleftrightarrow> length v < 128"
    using l by (simp add: word_less_nat_alt)
  moreover have "byte_count (of_nat (length v)) \<noteq> 0" if "\<not> length v < 128"
  proof -
    from l that have "unat (of_nat (length v) :: u32) \<noteq> 0" by auto
    then have "(of_nat (length v) :: u32) \<noteq> 0" by (metis unsigned_0)
    then show ?thesis by (simp add: byte_count.simps)
  qed
  ultimately show ?thesis by (auto simp: tlv_def length_len_bytes length_tag_bytes)
qed

lemmas tag_simps = tag_wf_def tag_bytes_def

lemma tlv_items_concat:
  assumes "tag_wf tag" "\<And>x. x \<in> set xs \<Longrightarrow> length (f x) < 4294967296"
  shows "tlv_items (concat (map (\<lambda>x. tlv tag (f x)) xs)) = map (\<lambda>x. (tag, f x, tlv tag (f x))) xs"
  using assms(2) by (induction xs) (simp_all add: assms(1))

text \<open>The number the card gives as the result of an operation.\<close>

definition result_spec :: "u16 \<Rightarrow> byte list \<Rightarrow> u32 option" where
  "result_spec tag resp = do { r \<leftarrow> tlv_val tag resp; v \<leftarrow> tlv_val 0x80 r; Some (ucast (be_value64 v)) }"

lemmas result_request = result.request_spec [folded result_spec_def]

lemma be_value64_byte: "ucast (be_value64 [b]) = (ucast b :: u32)"
  by (simp add: be_value64_def bit_eq_iff bit_simps)

lemma result_spec_byte:
  "tag_wf tag \<Longrightarrow> result_spec tag (tlv tag (tlv 0x80 [b])) = Some (ucast b)"
  using length_tlv(1) [of "0x80" "[b]"] by (simp add: result_spec_def tag_wf_def be_value64_byte)

text \<open>The content of an element lies in its encoding, and that in the bytes read.\<close>

lemma tlv_items_val_length: "(t, v, e) \<in> set (tlv_items bs) \<Longrightarrow> length v \<le> length e"
proof (induction bs rule: tlv_items.induct)
  case (1 bs)
  obtain tag w rest where d: "tlv_decode bs = Some (tag, w, rest)"
    using "1.prems" by (cases "tlv_decode bs") (auto simp: tlv_items.simps [of bs])
  then have "length w \<le> length bs - length rest"
    by (auto simp: tlv_decode_def bind_eq_Some_conv split: if_splits dest!: tlv_tag_length tlv_len_length)
  with "1.IH" [OF d refl refl] "1.prems" d show ?case by (auto simp: tlv_items.simps [of bs])
qed

lemma tlv_find_in: "tlv_find tags bs = Some x \<Longrightarrow> x \<in> set (tlv_items bs)"
  unfolding tlv_find_def find_Some_iff using nth_mem by blast

lemma tlv_val_length: "tlv_val tag bs = Some v \<Longrightarrow> length v \<le> length bs"
  by (auto simp: tlv_val_def dest!: tlv_find_in) (meson le_trans tlv_items_val_length tlv_items_enc_length)

lemma length_b64_plain: "length (b64_plain s) \<le> length s + 3"
  using length_b64_dec_le [of "map b64_value (takeWhile b64_char s)"] length_takeWhile_le [of b64_char s]
  by (simp add: b64_plain_def)

lemma b64_plain_enc: "b64_plain (b64_enc bs) = bs"
  using b64_body_dec [of bs] by (simp add: b64_plain_def b64_body_def)

subsection \<open>Refinement of readers\<close>

text \<open>The code \<open>r\<close> computes the specified result \<open>x\<close> up to the relation \<open>R\<close>, and fails where there is none.\<close>

definition res_rel :: "('a \<Rightarrow> 'b \<Rightarrow> bool) \<Rightarrow> 'a option \<Rightarrow> 'b cres \<Rightarrow> bool" where
  "res_rel R x r \<longleftrightarrow> (case x of None \<Rightarrow> r = Fail | Some a \<Rightarrow> \<exists>b. r = Ret b \<and> R a b)"

lemma res_rel_simps [simp]: "res_rel R None Fail" "res_rel R (Some a) (Ret b) = R a b"
  by (simp_all add: res_rel_def)

lemma res_rel_bind:
  assumes "res_rel R x r" "\<And>a b. x = Some a \<Longrightarrow> R a b \<Longrightarrow> res_rel S (f a) (g b)"
  shows "res_rel S (Option.bind x f) (cbind r g)"
proof (cases x)
  case None
  with assms(1) show ?thesis by (simp add: res_rel_def)
next
  case (Some a)
  with assms(1) obtain b where "r = Ret b" "R a b" by (auto simp: res_rel_def)
  with assms(2) Some show ?thesis by simp
qed

lemma res_rel_cases:
  assumes "res_rel R x r"
  obtains (none) "x = None" "r = Fail" | (some) a b where "x = Some a" "r = Ret b" "R a b"
  using assms by (cases x) (auto simp: res_rel_def)

text \<open>A found element, and the slice it is searched in.\<close>

definition val_node :: "u16 \<Rightarrow> byte list \<Rightarrow> der_node \<Rightarrow> bool" where
  "val_node tag v n \<longleftrightarrow> node_small n \<and> n_tag n = tag \<and> node_val n = v"

lemma find_tag_rel:
  assumes "slice_small p len"
  shows "res_rel (val_node tag) (tlv_val tag (slice_bytes p len)) (euicc_derutil_unpack_find_tag tag p len)"
  using assms unfolding euicc_derutil_unpack_find_tag_def tlv_val_def
  by (cases rule: find_alias_cases [OF assms, of "[tag]"]) (simp_all add: node_item_eq val_node_def res_rel_def)

lemma find_in_rel:
  "val_node t v m \<Longrightarrow> res_rel (val_node tag) (tlv_val tag v) (euicc_derutil_unpack_find_tag tag (n_value m) (n_length m))"
  using find_tag_rel [of "n_value m" "n_length m" tag] by (auto simp: val_node_def node_val_def)

text \<open>A base64 string and the slice it decodes to.\<close>

definition val_slice :: "byte list \<Rightarrow> cbuf \<times> u32 \<Rightarrow> bool" where
  "val_slice v = (\<lambda>(b, n). slice_small b n \<and> slice_bytes b n = v)"

lemma decode_rel: "length s < 0x40000000 \<Longrightarrow> res_rel val_slice (Some (b64_plain s)) (b64_decode_dup s)"
  using b64_decode_dup_eq [of s] by (auto simp: res_rel_def val_slice_def)

lemma find_slice_rel:
  "val_slice v (p, len) \<Longrightarrow> res_rel (val_node tag) (tlv_val tag v) (euicc_derutil_unpack_find_tag tag p len)"
  using find_tag_rel by (auto simp: val_slice_def)

subsection \<open>A card that answers one command\<close>

definition demo_ctx :: euicc_ctx where
  "demo_ctx = script_ctx\<lparr>es10x_mss := 120\<rparr>"

lemma demo_ctx_wf: "wf_ctx demo_ctx" "es10x_mss demo_ctx \<noteq> 0"
  by (simp_all add: demo_ctx_def script_ctx_def wf_ctx_def)

lemma script_gives:
  assumes "req \<noteq> []" "length req \<le> 120" "length resp < 65534"
  shows "card_gives script_card demo_ctx req ((resp @ [0x90, 0]) # d) resp d"
proof -
  define a where "a = \<lparr>r_data = resp @ [0x90, 0], r_length = of_nat (length resp), r_sw1 = 0x90, r_sw2 = 0\<rparr>"
  have seg: "segments 1 120 0 req = [store_data 1 0x91 0 req]"
    using assms by (subst segments.simps) (simp add: segments.simps [of _ _ _ "[]"])
  have "deliver append_response a [] = Ret resp"
    using assms(3) by (simp add: a_def deliver_def append_response_def word_less_nat_alt)
  then have "collects script_card 1 append_response a [] d (Ret resp) d"
    by (rule collects.finished) (simp_all add: a_def SW1_LAST_def SW1_OK_def)
  moreover have "card_answer script_card 1 tx ((resp @ [0x90, 0]) # d) = (Some a, d)" for tx
    using assms(3) by (simp add: card_answer_def script_card_def a_def nth_append)
  ultimately have "answered_by script_card 1 append_response (store_data 1 0x91 0 req) []
      ((resp @ [0x90, 0]) # d) (Ret resp) d"
    by (simp add: answered_by_def)
  then show ?thesis
    by (auto simp: card_gives_def demo_ctx_def script_ctx_def seg exchanges_Cons exchanges_Nil)
qed

lemma demo_gives:
  "length content \<le> 113 \<Longrightarrow> length resp < 65534 \<Longrightarrow>
    card_gives script_card demo_ctx (tlv tag content) [resp @ [0x90, 0]] resp []"
  by (rule script_gives) (simp_all add: length_tlv_le)

end
