(* ===== verification/Es10b_Notification.thy ===== *)
theory Es10b_Notification
  imports Es10x
begin

text \<open>
  \<open>euicc/es10b.c\<close>, notifications: listing their metadata, retrieving one that is pending, and removing
  one from the list.
\<close>

subsection \<open>Data\<close>

datatype es10b_profile_management_operation =
  ES10B_PROFILE_MANAGEMENT_OPERATION_NULL
| ES10B_PROFILE_MANAGEMENT_OPERATION_INSTALL
| ES10B_PROFILE_MANAGEMENT_OPERATION_ENABLE
| ES10B_PROFILE_MANAGEMENT_OPERATION_DISABLE
| ES10B_PROFILE_MANAGEMENT_OPERATION_DELETE
| ES10B_PROFILE_MANAGEMENT_OPERATION_UNDEFINED

text \<open>The switch on \<open>tmpnode.value[1]\<close>.\<close>

definition profile_management_operation_of :: "byte \<Rightarrow> es10b_profile_management_operation" where
  "profile_management_operation_of b =
     (if b = 0x80 then ES10B_PROFILE_MANAGEMENT_OPERATION_INSTALL
      else if b = 0x40 then ES10B_PROFILE_MANAGEMENT_OPERATION_ENABLE
      else if b = 0x20 then ES10B_PROFILE_MANAGEMENT_OPERATION_DISABLE
      else if b = 0x10 then ES10B_PROFILE_MANAGEMENT_OPERATION_DELETE
      else ES10B_PROFILE_MANAGEMENT_OPERATION_UNDEFINED)"

record es10b_notification_metadata_list =
  nm_seqNumber :: u64
  nm_profileManagementOperation :: es10b_profile_management_operation
  nm_notificationAddress :: "cstr option"
  nm_iccid :: "cstr option"

definition notification_metadata_new :: es10b_notification_metadata_list where
  "notification_metadata_new = \<lparr>nm_seqNumber = 0,
     nm_profileManagementOperation = ES10B_PROFILE_MANAGEMENT_OPERATION_NULL,
     nm_notificationAddress = None, nm_iccid = None\<rparr>"

record es10b_pending_notification =
  pn_notificationAddress :: "cstr option"
  pn_b64_PendingNotification :: "cstr option"

subsection \<open>\<open>es10b_list_notification\<close>\<close>

definition notification_field ::
  "der_node \<Rightarrow> es10b_notification_metadata_list \<Rightarrow> es10b_notification_metadata_list cres" where
  "notification_field n p =
     (let v = n_value n; len = n_length n in
      if n_tag n = 0x80 then
        cbind (euicc_derutil_convert_bin2long v len) (\<lambda>i. Ret (p\<lparr>nm_seqNumber := i\<rparr>))
      else if n_tag n = 0x81 then
        (if len \<ge> 2 then
           cbind (cload v 1) (\<lambda>b.
           Ret (p\<lparr>nm_profileManagementOperation := profile_management_operation_of b\<rparr>))
         else Ret p)
      else if n_tag n = 0x0C then
        cbind (str_dup v len) (\<lambda>s. Ret (p\<lparr>nm_notificationAddress := Some s\<rparr>))
      else if n_tag n = 0x5A then
        cbind (bcd_dup v len) (\<lambda>s. Ret (p\<lparr>nm_iccid := s\<rparr>))
      else Ret p)"

definition notification_entry ::
  "der_node \<Rightarrow> es10b_notification_metadata_list list \<Rightarrow> es10b_notification_metadata_list list cres" where
  "notification_entry n l =
     (if n_tag n \<noteq> 0xBF2F then Ret l
      else cbind (tlv_foreach (n_value n) (n_length n) notification_field notification_metadata_new)
        (\<lambda>p. Ret (l @ [p])))"

definition parse_notification_list :: "cptr \<Rightarrow> u32 \<Rightarrow> es10b_notification_metadata_list list cres" where
  "parse_notification_list respbuf resplen =
     cbind (euicc_derutil_unpack_find_tag 0xBF28 respbuf resplen) (\<lambda>tmpnode.
     cbind (euicc_derutil_unpack_find_tag 0xA0 (n_value tmpnode) (n_length tmpnode)) (\<lambda>n_list.
     tlv_foreach (n_value n_list) (n_length n_list) notification_entry []))"

definition es10b_list_notification ::
  "'d euicc_apdu_interface \<Rightarrow> 'd st \<Rightarrow> (es10b_notification_metadata_list list cres \<times> 'd st) option" where
  "es10b_list_notification iface st =
     es10x_request iface (n_empty 0xBF28) parse_notification_list st"

subsection \<open>\<open>es10b_retrieve_notifications_list\<close>\<close>

text \<open>The metadata of a pending notification: inside the installation result, or directly.\<close>

definition pending_metadata :: "der_node \<Rightarrow> der_node cres" where
  "pending_metadata n_PendingNotification =
     (let v = n_value n_PendingNotification; len = n_length n_PendingNotification in
      if n_tag n_PendingNotification = 0xBF37 then
        cbind (euicc_derutil_unpack_find_tag 0xBF27 v len) (\<lambda>tmpnode.
        euicc_derutil_unpack_find_tag 0xBF2F (n_value tmpnode) (n_length tmpnode))
      else euicc_derutil_unpack_find_tag 0xBF2F v len)"

definition parse_pending_notification :: "cptr \<Rightarrow> u32 \<Rightarrow> es10b_pending_notification cres" where
  "parse_pending_notification respbuf resplen =
     cbind (euicc_derutil_unpack_find_tag 0xBF2B respbuf resplen) (\<lambda>tmpnode.
     cbind (euicc_derutil_unpack_find_tag 0xA0 (n_value tmpnode) (n_length tmpnode)) (\<lambda>tmpnode.
     cbind (euicc_derutil_unpack_find_alias_tags [0xBF37, 0x30] (n_value tmpnode) (n_length tmpnode))
       (\<lambda>n_PendingNotification.
     cbind (pending_metadata n_PendingNotification) (\<lambda>n_NotificationMetadata.
     cbind (euicc_derutil_unpack_find_tag 0x0C (n_value n_NotificationMetadata) (n_length n_NotificationMetadata))
       (\<lambda>tmpnode.
     cbind (str_dup (n_value tmpnode) (n_length tmpnode)) (\<lambda>notificationAddress.
     cbind (b64_dup (n_self_ptr n_PendingNotification) (n_self_length n_PendingNotification))
       (\<lambda>b64_PendingNotification.
     Ret \<lparr>pn_notificationAddress = Some notificationAddress,
       pn_b64_PendingNotification = Some b64_PendingNotification\<rparr>)))))))"

text \<open>\<open>uint8_t seqNumber_buf[sizeof(seqNumber)]\<close>, filled by \<open>long2bin\<close>: an element \<open>80\<close>.\<close>

definition seq_number_node :: "u64 \<Rightarrow> der_tree cres" where
  "seq_number_node seqNumber =
     cbind (euicc_derutil_convert_long2bin (replicate 8 0) 8 seqNumber) (\<lambda>(buf, len).
     Ret (n_leaf 0x80 buf len))"

definition es10b_retrieve_notifications_list ::
  "'d euicc_apdu_interface \<Rightarrow> u64 \<Rightarrow> 'd st \<Rightarrow> (es10b_pending_notification cres \<times> 'd st) option" where
  "es10b_retrieve_notifications_list iface seqNumber st =
     (case seq_number_node seqNumber of
        Fail \<Rightarrow> Some (Fail, st)
      | UB \<Rightarrow> Some (UB, st)
      | Ret n_seqNumber \<Rightarrow>
          es10x_request iface (n_cons 0xBF2B [n_cons 0xA0 [n_seqNumber]]) parse_pending_notification st)"

subsection \<open>\<open>es10b_remove_notification_from_list\<close>\<close>

definition es10b_remove_notification_from_list ::
  "'d euicc_apdu_interface \<Rightarrow> u64 \<Rightarrow> 'd st \<Rightarrow> (u32 cres \<times> 'd st) option" where
  "es10b_remove_notification_from_list iface seqNumber st =
     (case seq_number_node seqNumber of
        Fail \<Rightarrow> Some (Fail, st)
      | UB \<Rightarrow> Some (UB, st)
      | Ret n_seqNumber \<Rightarrow>
          es10x_request iface (n_cons 0xBF30 [n_seqNumber]) (parse_result 0xBF30) st)"

definition es10b_pending_notification_free :: "es10b_pending_notification \<Rightarrow> es10b_pending_notification" where
  "es10b_pending_notification_free PendingNotification =
     \<lparr>pn_notificationAddress = None, pn_b64_PendingNotification = None\<rparr>"

subsection \<open>What the parsers compute\<close>

definition notification_item ::
  "item \<Rightarrow> es10b_notification_metadata_list \<Rightarrow> es10b_notification_metadata_list" where
  "notification_item = (\<lambda>(tag, v, e) p.
     if tag = 0x80 then p\<lparr>nm_seqNumber := be_value64 v\<rparr>
     else if tag = 0x81 then
       (if 2 \<le> length v then p\<lparr>nm_profileManagementOperation := profile_management_operation_of (v ! 1)\<rparr> else p)
     else if tag = 0x0C then p\<lparr>nm_notificationAddress := Some (cstr_of v)\<rparr>
     else if tag = 0x5A then p\<lparr>nm_iccid := Some (bcd_of v)\<rparr>
     else p)"

definition notification_of :: "byte list \<Rightarrow> es10b_notification_metadata_list" where
  "notification_of v = fold notification_item (tlv_items v) notification_metadata_new"

definition notifications_of :: "byte list \<Rightarrow> es10b_notification_metadata_list list" where
  "notifications_of l = vals_with 0xBF2F notification_of l"

definition notifications_spec :: "byte list \<Rightarrow> es10b_notification_metadata_list list option" where
  "notifications_spec resp =
     do { r \<leftarrow> tlv_val 0xBF28 resp; l \<leftarrow> tlv_val 0xA0 r; Some (notifications_of l) }"

definition notifications_safe :: "byte list \<Rightarrow> bool" where
  "notifications_safe resp \<longleftrightarrow>
     (case do { r \<leftarrow> tlv_val 0xBF28 resp; tlv_val 0xA0 r } of None \<Rightarrow> True
      | Some l \<Rightarrow> list_all (\<lambda>(t, v, e). t = 0xBF2F \<longrightarrow> no_empty_iccid v) (tlv_items l))"

lemma notification_field_eq:
  assumes "node_small n" "n_tag n = 0x5A \<Longrightarrow> node_val n \<noteq> []"
  shows "notification_field n p = Ret (notification_item (node_item n) p)"
proof -
  have "n_length n \<noteq> 0" if "n_tag n = 0x5A"
    using assms(2) [OF that] by (auto simp: node_val_def slice_bytes_def)
  moreover have "slice_ok (n_value n) (n_length n)" using assms(1) by simp
  then have "2 \<le> n_length n \<longleftrightarrow> 2 \<le> length (node_val n)"
    "2 \<le> n_length n \<Longrightarrow> cload (n_value n) 1 = Ret (node_val n ! 1)"
    by (auto simp: node_val_def slice_bytes_def slice_ok_def word_le_nat_alt cload_def)
  ultimately show ?thesis
    using assms(1)
    by (simp add: notification_field_def notification_item_def node_item_eq Let_def dup_eqs bcd_dup_eq
        del: One_nat_def)
qed

lemma notification_fields_eq:
  assumes "node_small n" "no_empty_iccid (node_val n)"
  shows "tlv_foreach (n_value n) (n_length n) notification_field notification_metadata_new =
    Ret (notification_of (node_val n))"
  unfolding notification_of_def node_val_def
proof (rule foreach_fold)
  fix m s
  assume m: "node_small m" "node_item m \<in> set (tlv_items (slice_bytes (n_value n) (n_length n)))"
  then show "notification_field m s = Ret (notification_item (node_item m) s)"
    using assms(2)
    by (intro notification_field_eq) (auto simp: no_empty_iccid_def list_all_iff node_val_def node_item_eq)
qed (use assms(1) in simp)

lemma notification_entries_eq:
  assumes "node_small n" "list_all (\<lambda>(t, v, e). t = 0xBF2F \<longrightarrow> no_empty_iccid v) (tlv_items (node_val n))"
  shows "tlv_foreach (n_value n) (n_length n) notification_entry [] = Ret (notifications_of (node_val n))"
  unfolding notifications_of_def notification_entry_def [abs_def] node_val_def
proof (rule foreach_entries)
  fix m assume "node_small m" "n_tag m = 0xBF2F"
    "node_item m \<in> set (tlv_items (slice_bytes (n_value n) (n_length n)))"
  then show "tlv_foreach (n_value m) (n_length m) notification_field notification_metadata_new =
      Ret (notification_of (node_val m))"
    using assms(2) by (intro notification_fields_eq) (auto simp: list_all_iff node_val_def node_item_eq)
qed (use assms(1) in simp)

interpretation notifications: es10_parser parse_notification_list notifications_safe notifications_spec
proof
  fix p len assume s: "notifications_safe (slice_bytes p len)" "slice_small p len"
  show "parse_notification_list p len = opt_res (notifications_spec (slice_bytes p len))"
    unfolding parse_notification_list_def notifications_spec_def
  proof (rule cbind_find_val [OF s(2)], unfold node_val_def, rule cbind_find_val)
    fix r l assume "node_small r" "node_small l"
      "tlv_val 0xBF28 (slice_bytes p len) = Some (slice_bytes (n_value r) (n_length r))"
      "tlv_val 0xA0 (slice_bytes (n_value r) (n_length r)) = Some (node_val l)"
    with s(1) notification_entries_eq [of l]
    show "tlv_foreach (n_value l) (n_length l) notification_entry [] = opt_res (Some (notifications_of (node_val l)))"
      by (simp add: notifications_safe_def)
  qed simp_all
qed

text \<open>A pending notification: its address and its whole encoding in base64.\<close>

definition pending_metadata_spec :: "u16 \<Rightarrow> byte list \<Rightarrow> byte list option" where
  "pending_metadata_spec tag v =
     (if tag = 0xBF37 then Option.bind (tlv_val 0xBF27 v) (tlv_val 0xBF2F) else tlv_val 0xBF2F v)"

definition pending_spec :: "byte list \<Rightarrow> es10b_pending_notification option" where
  "pending_spec resp =
     do { r \<leftarrow> tlv_val 0xBF2B resp; l \<leftarrow> tlv_val 0xA0 r; (tag, v, e) \<leftarrow> tlv_find [0xBF37, 0x30] l;
          m \<leftarrow> pending_metadata_spec tag v; a \<leftarrow> tlv_val 0x0C m;
          Some \<lparr>pn_notificationAddress = Some (cstr_of a), pn_b64_PendingNotification = Some (b64_enc e)\<rparr> }"

lemma cbind_pending_metadata:
  assumes "node_small n" "\<And>m. node_small m \<Longrightarrow> f m = opt_res (g (node_val m))"
  shows "cbind (pending_metadata n) f = opt_res (Option.bind (pending_metadata_spec (n_tag n) (node_val n)) g)"
proof (cases "n_tag n = 0xBF37")
  case True
  have "cbind (euicc_derutil_unpack_find_tag 0xBF27 (n_value n) (n_length n))
      (\<lambda>m. cbind (euicc_derutil_unpack_find_tag 0xBF2F (n_value m) (n_length m)) f) =
    opt_res (Option.bind (tlv_val 0xBF27 (node_val n)) (\<lambda>v. Option.bind (tlv_val 0xBF2F v) g))"
    unfolding node_val_def
    by (rule cbind_find_val, use assms(1) in simp, unfold node_val_def, rule cbind_find_val)
      (simp_all add: assms(2))
  with True show ?thesis
    by (simp add: pending_metadata_def pending_metadata_spec_def cbind_assoc Option.bind_assoc)
next
  case False
  then show ?thesis
    unfolding pending_metadata_def pending_metadata_spec_def node_val_def
    by (simp add: Let_def, intro cbind_find_val) (simp_all add: assms node_val_def)
qed

interpretation pending: es10_parser parse_pending_notification "\<lambda>_. True" pending_spec
proof
  fix p len assume s: "slice_small p len"
  show "parse_pending_notification p len = opt_res (pending_spec (slice_bytes p len))"
    unfolding parse_pending_notification_def pending_spec_def
    by (rule cbind_find_val [OF s], unfold node_val_def, rule cbind_find_val, simp,
        unfold node_val_def, rule cbind_find_alias, simp, unfold node_item_eq prod.case,
        rule cbind_pending_metadata, simp, unfold node_val_def, rule cbind_find_val)
      (simp_all add: dup_eqs)
qed

lemma seq_number_node_eq:
  "\<exists>t. seq_number_node i = Ret t \<and> pack_ok t \<and> der_enc t = tlv 0x80 (long_bytes i)"
  using length_long_bytes [of i]
  by (auto simp: seq_number_node_def long2bin_bytes slice_ok_def slice_bytes_def)

end
