(* ===== verification/Es10b_Rat.thy ===== *)
theory Es10b_Rat
  imports Es10x
begin

text \<open>\<open>euicc/es10b.c\<close>, \<open>es10b_get_rat\<close>: the rules authorisation table.\<close>

subsection \<open>The code\<close>

record es10b_operation_id =
  op_plmn :: "cstr option"
  op_gid1 :: "cstr option"
  op_gid2 :: "cstr option"

definition operation_id_new :: es10b_operation_id where
  "operation_id_new = \<lparr>op_plmn = None, op_gid1 = None, op_gid2 = None\<rparr>"

record es10b_rat =
  rat_pprIds :: "cstr option list option"
  rat_allowedOperators :: "es10b_operation_id list"
  rat_pprFlags :: "cstr option list option"

definition rat_new :: es10b_rat where
  "rat_new = \<lparr>rat_pprIds = None, rat_allowedOperators = [], rat_pprFlags = None\<rparr>"

definition ppr_ids_desc :: "cstr list" where
  "ppr_ids_desc = [cstr ''pprUpdateControl'', cstr ''ppr1'', cstr ''ppr2'', cstr ''ppr3'']"

definition ppr_flags_desc :: "cstr list" where
  "ppr_flags_desc = [cstr ''consentRequired'']"

definition operator_field :: "der_node \<Rightarrow> es10b_operation_id \<Rightarrow> es10b_operation_id cres" where
  "operator_field n p =
     (if n_length n = 0 then Ret p
      else if n_tag n = 0x80 then cbind (hex_dup (n_value n) (n_length n)) (\<lambda>s. Ret (p\<lparr>op_plmn := Some s\<rparr>))
      else if n_tag n = 0x81 then cbind (hex_dup (n_value n) (n_length n)) (\<lambda>s. Ret (p\<lparr>op_gid1 := Some s\<rparr>))
      else if n_tag n = 0x82 then cbind (hex_dup (n_value n) (n_length n)) (\<lambda>s. Ret (p\<lparr>op_gid2 := Some s\<rparr>))
      else Ret p)"

text \<open>
  \<open>if (operations_wptr == NULL) operations_wptr = p; else operations_wptr->next = p;\<close> The write pointer
  stays at the first operator, so every further one takes the second place.
\<close>

fun link_operator :: "es10b_operation_id \<Rightarrow> es10b_operation_id list \<Rightarrow> es10b_operation_id list" where
  "link_operator p [] = [p]"
| "link_operator p (first # _) = [first, p]"

definition operator_entry :: "der_node \<Rightarrow> es10b_operation_id list \<Rightarrow> es10b_operation_id list cres" where
  "operator_entry n ops =
     cbind (tlv_foreach (n_value n) (n_length n) operator_field operation_id_new) (\<lambda>p.
     Ret (link_operator p ops))"

definition rat_field :: "der_node \<Rightarrow> es10b_rat \<Rightarrow> es10b_rat cres" where
  "rat_field n rat =
     (if n_tag n = 0x80 then
        cbind (euicc_derutil_convert_bin2bits_str (n_value n) (n_length n) ppr_ids_desc) (\<lambda>l.
        Ret (rat\<lparr>rat_pprIds := Some l\<rparr>))
      else if n_tag n = 0xA1 then
        cbind (tlv_foreach (n_value n) (n_length n) operator_entry []) (\<lambda>ops.
        Ret (rat\<lparr>rat_allowedOperators := ops\<rparr>))
      else if n_tag n = 0x82 then
        cbind (euicc_derutil_convert_bin2bits_str (n_value n) (n_length n) ppr_flags_desc) (\<lambda>l.
        Ret (rat\<lparr>rat_pprFlags := Some l\<rparr>))
      else Ret rat)"

definition rat_entry :: "der_node \<Rightarrow> es10b_rat list \<Rightarrow> es10b_rat list cres" where
  "rat_entry n l =
     cbind (tlv_foreach (n_value n) (n_length n) rat_field rat_new) (\<lambda>rat. Ret (l @ [rat]))"

definition parse_rat :: "cptr \<Rightarrow> u32 \<Rightarrow> es10b_rat list cres" where
  "parse_rat respbuf resplen =
     (if resplen = 0 then Fail
      else
        cbind (euicc_derutil_unpack_find_tag 0xBF43 respbuf resplen) (\<lambda>tmpnode.
        cbind (euicc_derutil_unpack_find_tag 0xA0 (n_value tmpnode) (n_length tmpnode)) (\<lambda>tmpnode.
        tlv_foreach (n_value tmpnode) (n_length tmpnode) rat_entry [])))"

definition es10b_get_rat ::
  "'d euicc_apdu_interface \<Rightarrow> 'd st \<Rightarrow> (es10b_rat list cres \<times> 'd st) option" where
  "es10b_get_rat iface st = es10x_request iface (n_empty 0xBF43) parse_rat st"

subsection \<open>What the parser computes\<close>

definition operator_item :: "item \<Rightarrow> es10b_operation_id \<Rightarrow> es10b_operation_id" where
  "operator_item = (\<lambda>(tag, v, e) p.
     if v = [] then p
     else if tag = 0x80 then p\<lparr>op_plmn := Some (hex_of v)\<rparr>
     else if tag = 0x81 then p\<lparr>op_gid1 := Some (hex_of v)\<rparr>
     else if tag = 0x82 then p\<lparr>op_gid2 := Some (hex_of v)\<rparr>
     else p)"

definition operator_of :: "byte list \<Rightarrow> es10b_operation_id" where
  "operator_of v = fold operator_item (tlv_items v) operation_id_new"

definition operators_of :: "byte list \<Rightarrow> es10b_operation_id list" where
  "operators_of v = map (\<lambda>(t, w, e). operator_of w) (tlv_items v)"

text \<open>What the list keeps: the first and the last.\<close>

definition first_last :: "'a list \<Rightarrow> 'a list" where
  "first_last l = (if length l \<le> 1 then l else [hd l, last l])"

definition rat_item :: "item \<Rightarrow> es10b_rat \<Rightarrow> es10b_rat option" where
  "rat_item = (\<lambda>(tag, v, e) rat.
     if tag = 0x80 then map_option (\<lambda>l. rat\<lparr>rat_pprIds := Some l\<rparr>) (bits_names ppr_ids_desc v)
     else if tag = 0xA1 then Some (rat\<lparr>rat_allowedOperators := first_last (operators_of v)\<rparr>)
     else if tag = 0x82 then map_option (\<lambda>l. rat\<lparr>rat_pprFlags := Some l\<rparr>) (bits_names ppr_flags_desc v)
     else Some rat)"

definition rat_of :: "byte list \<Rightarrow> es10b_rat option" where
  "rat_of v = ofold rat_item (tlv_items v) rat_new"

definition rats_of :: "byte list \<Rightarrow> es10b_rat list option" where
  "rats_of v = ofold (\<lambda>(t, w, e) l. map_option (\<lambda>rat. l @ [rat]) (rat_of w)) (tlv_items v) []"

definition rat_spec :: "byte list \<Rightarrow> es10b_rat list option" where
  "rat_spec resp = do { r \<leftarrow> tlv_val 0xBF43 resp; l \<leftarrow> tlv_val 0xA0 r; rats_of l }"

text \<open>Every bit string in the table has a first byte the code can use.\<close>

definition rule_safe :: "byte list \<Rightarrow> bool" where
  "rule_safe v \<longleftrightarrow> list_all (\<lambda>(t, w, e). t = 0x80 \<or> t = 0x82 \<longrightarrow> bits_ok w) (tlv_items v)"

definition rat_safe :: "byte list \<Rightarrow> bool" where
  "rat_safe resp \<longleftrightarrow>
     (case do { r \<leftarrow> tlv_val 0xBF43 resp; tlv_val 0xA0 r } of None \<Rightarrow> True
      | Some l \<Rightarrow> list_all (\<lambda>(t, v, e). rule_safe v) (tlv_items l))"

lemma operator_field_eq:
  assumes "node_small n"
  shows "operator_field n p = Ret (operator_item (node_item n) p)"
proof -
  have "n_length n = 0 \<longleftrightarrow> node_val n = []"
    using node_small_lengths(1) [OF assms] by (auto simp: unsigned_eq_0_iff)
  with assms show ?thesis
    by (simp add: operator_field_def operator_item_def node_item_eq hex_dup_eq flip: node_val_def)
qed

lemma link_operators: "fold (\<lambda>x l. link_operator (f x) l) xs [] = first_last (map f xs)"
proof (cases xs)
  case (Cons x ys)
  have "fold (\<lambda>x l. link_operator (f x) l) ys l = (if ys = [] then l else [hd l, f (last ys)])"
    if "l \<noteq> []" for l
    using that
  proof (induction ys arbitrary: l)
    case (Cons y ys)
    then show ?case by (cases l) auto
  qed simp
  with Cons show ?thesis by (cases ys rule: rev_cases) (auto simp: first_last_def)
qed (simp add: first_last_def)

lemma operators_eq:
  assumes "node_small n"
  shows "tlv_foreach (n_value n) (n_length n) operator_entry [] = Ret (first_last (operators_of (node_val n)))"
proof -
  have op: "tlv_foreach (n_value m) (n_length m) operator_field operation_id_new = Ret (operator_of (node_val m))"
    if "node_small m" for m
    unfolding operator_of_def node_val_def
    by (rule foreach_fold) (use that in \<open>simp_all add: operator_field_eq\<close>)
  have "tlv_foreach (n_value n) (n_length n) operator_entry [] =
      Ret (fold (\<lambda>x l. link_operator ((\<lambda>(t, w, e). operator_of w) x) l)
        (tlv_items (slice_bytes (n_value n) (n_length n))) [])"
    by (rule foreach_fold) (use assms in \<open>simp_all add: operator_entry_def op node_item_eq\<close>)
  then show ?thesis by (simp only: link_operators operators_of_def node_val_def)
qed

lemma rat_field_eq:
  assumes "node_small n" "n_tag n = 0x80 \<or> n_tag n = 0x82 \<Longrightarrow> bits_ok (node_val n)"
  shows "rat_field n rat = opt_res (rat_item (node_item n) rat)"
proof -
  have "euicc_derutil_convert_bin2bits_str (n_value n) (n_length n) desc = opt_res (bits_names desc (node_val n))"
    if "n_tag n = 0x80 \<or> n_tag n = 0x82" for desc
    using assms that unfolding node_val_def by (intro bin2bits_names) simp_all
  moreover have "cbind (opt_res x) (\<lambda>l. Ret (f l)) = opt_res (map_option f x)" for x and f :: "'b \<Rightarrow> 'c"
    by (cases x) simp_all
  ultimately show ?thesis
    using assms(1) by (auto simp: rat_field_def rat_item_def node_item_eq operators_eq)
qed

lemma rules_eq:
  assumes "node_small n" "list_all (\<lambda>(t, v, e). rule_safe v) (tlv_items (node_val n))"
  shows "tlv_foreach (n_value n) (n_length n) rat_entry [] = opt_res (rats_of (node_val n))"
  unfolding rats_of_def node_val_def
proof (rule foreach_ofold)
  fix m l
  assume m: "node_small m" "node_item m \<in> set (tlv_items (slice_bytes (n_value n) (n_length n)))"
  have safe: "rule_safe (node_val m)"
    using m(2) assms(2) by (auto simp: list_all_iff node_val_def node_item_eq)
  have "tlv_foreach (n_value m) (n_length m) rat_field rat_new = opt_res (rat_of (node_val m))"
    unfolding rat_of_def node_val_def
  proof (rule foreach_ofold)
    fix k s
    assume "node_small k" "node_item k \<in> set (tlv_items (slice_bytes (n_value m) (n_length m)))"
    with safe show "rat_field k s = opt_res (rat_item (node_item k) s)"
      by (intro rat_field_eq) (auto simp: rule_safe_def list_all_iff node_val_def node_item_eq)
  qed (use m in simp)
  then show "rat_entry m l = opt_res ((\<lambda>(t, w, e) l. map_option (\<lambda>rat. l @ [rat]) (rat_of w)) (node_item m) l)"
    by (cases "rat_of (node_val m)") (simp_all add: rat_entry_def node_item_eq)
qed (use assms(1) in simp)

interpretation rat: es10_parser parse_rat rat_safe rat_spec
proof
  fix p len assume s: "rat_safe (slice_bytes p len)" "slice_small p len"
  have parse: "cbind (euicc_derutil_unpack_find_tag 0xBF43 p len) (\<lambda>tmpnode.
      cbind (euicc_derutil_unpack_find_tag 0xA0 (n_value tmpnode) (n_length tmpnode)) (\<lambda>tmpnode.
      tlv_foreach (n_value tmpnode) (n_length tmpnode) rat_entry [])) = opt_res (rat_spec (slice_bytes p len))"
    unfolding rat_spec_def
  proof (rule cbind_find_val [OF s(2)], unfold node_val_def, rule cbind_find_val)
    fix r l assume "node_small r" "node_small l"
      "tlv_val 0xBF43 (slice_bytes p len) = Some (slice_bytes (n_value r) (n_length r))"
      "tlv_val 0xA0 (slice_bytes (n_value r) (n_length r)) = Some (node_val l)"
    with s(1) rules_eq [of l]
    show "tlv_foreach (n_value l) (n_length l) rat_entry [] = opt_res (rats_of (node_val l))"
      by (simp add: rat_safe_def)
  qed simp_all
  have "rat_spec [] = None"
    by (simp add: rat_spec_def tlv_val_def tlv_find_def tlv_items.simps tlv_decode_def)
  with parse show "parse_rat p len = opt_res (rat_spec (slice_bytes p len))"
    by (simp add: parse_rat_def slice_bytes_def)
qed

end
