(* ===== verification/Es10b_Props.thy ===== *)
theory Es10b_Props
  imports Es10_Answers Es10b_Notification Es10b_Rat
begin

text \<open>The properties of the notification functions and of the rules authorisation table (\<open>euicc/es10b.c\<close>).\<close>

text \<open>
  \<open>es10b_list_notification\<close> returns the metadata of the notifications in the card's answer to
  \<open>BF2800\<close>: one entry per \<open>BF2F\<close> element, in order, fails exactly when the list is missing, and is in
  bounds as long as no ICCID in the answer is empty.
\<close>

theorem es10b_list_notification_returns:
  assumes "small_answers iface" "wf_ctx ctx" "es10x_mss ctx \<noteq> 0"
    and "card_gives iface ctx (tlv 0xBF28 []) d resp d'" "length resp < 0x40000000" "notifications_safe resp"
  shows "\<exists>ctx'. es10b_list_notification iface (ctx, d) = Some (opt_res (notifications_spec resp), ctx', d') \<and>
    same_session ctx ctx'"
  unfolding es10b_list_notification_def
  using assms by (intro notifications.request_spec) (simp_all add: length_tlv_le)

definition demo_notification :: "byte list" where
  "demo_notification = tlv 0x80 [0x2A] @ tlv 0x81 [0x04, 0x40] @ tlv 0x0C [0x61] @ tlv 0x5A [0x98, 0x10]"

lemma demo_notification_items:
  "tlv_items demo_notification = [(0x80, [0x2A], tlv 0x80 [0x2A]), (0x81, [0x04, 0x40], tlv 0x81 [0x04, 0x40]),
    (0x0C, [0x61], tlv 0x0C [0x61]), (0x5A, [0x98, 0x10], tlv 0x5A [0x98, 0x10])]"
  by (simp add: demo_notification_def tag_wf_def)

lemma length_demo_notification: "length demo_notification = 14"
  by (simp add: demo_notification_def length_tlv_exact)

lemma demo_bcd: "bcd_of [0x98, 0x10] = cstr ''8901''"
  by code_simp

theorem es10b_list_notification_returns_witness:
  "\<exists>ctx'. es10b_list_notification script_card
      (demo_ctx, [tlv 0xBF28 (tlv 0xA0 (tlv 0xBF2F demo_notification)) @ [0x90, 0]]) =
    Some (Ret [\<lparr>nm_seqNumber = 42, nm_profileManagementOperation = ES10B_PROFILE_MANAGEMENT_OPERATION_ENABLE,
      nm_notificationAddress = Some [0x61], nm_iccid = Some (cstr ''8901'')\<rparr>], ctx', [])"
proof -
  let ?resp = "tlv 0xBF28 (tlv 0xA0 (tlv 0xBF2F demo_notification))"
  have len: "length ?resp < 65534" by (simp add: length_tlv_exact length_demo_notification)
  have gives: "card_gives script_card demo_ctx (tlv 0xBF28 []) [?resp @ [0x90, 0]] ?resp []"
    by (rule demo_gives) (use len in simp_all)
  have items: "tlv_val 0xBF28 ?resp = Some (tlv 0xA0 (tlv 0xBF2F demo_notification))"
    "tlv_val 0xA0 (tlv 0xA0 (tlv 0xBF2F demo_notification)) = Some (tlv 0xBF2F demo_notification)"
    "tlv_items (tlv 0xBF2F demo_notification) = [(0xBF2F, demo_notification, tlv 0xBF2F demo_notification)]"
    by (simp_all add: length_tlv_exact length_demo_notification tag_wf_def)
  have "notifications_spec ?resp = Some [\<lparr>nm_seqNumber = 42,
      nm_profileManagementOperation = ES10B_PROFILE_MANAGEMENT_OPERATION_ENABLE,
      nm_notificationAddress = Some [0x61], nm_iccid = Some (cstr ''8901'')\<rparr>]"
    by (simp add: notifications_spec_def items notifications_of_def vals_with_def notification_of_def
        demo_notification_items notification_item_def notification_metadata_new_def demo_bcd be_value64_def
        profile_management_operation_of_def cstr_of_def)
  moreover have "notifications_safe ?resp"
    by (simp add: notifications_safe_def items no_empty_iccid_def demo_notification_items)
  ultimately show ?thesis
    using es10b_list_notification_returns [OF script_card_small demo_ctx_wf gives] len by auto
qed

lemma retrieve_spec:
  assumes "small_answers iface" "wf_ctx ctx" "es10x_mss ctx \<noteq> 0"
    and "card_gives iface ctx (tlv 0xBF2B (tlv 0xA0 (tlv 0x80 (long_bytes seq)))) d resp d'"
    and "length resp < 0x40000000"
  shows "\<exists>ctx'. es10b_retrieve_notifications_list iface seq (ctx, d) = Some (opt_res (pending_spec resp), ctx', d') \<and>
      same_session ctx ctx'"
proof -
  obtain t where t: "seq_number_node seq = Ret t" "pack_ok t" "der_enc t = tlv 0x80 (long_bytes seq)"
    using seq_number_node_eq by blast
  have "length (tlv 0xBF2B (tlv 0xA0 (tlv 0x80 (long_bytes seq)))) \<le> 29"
    using length_long_bytes [of seq] by (intro length_tlv_le) (simp add: length_tlv_exact)
  then have "\<exists>ctx'. es10x_request iface (n_cons 0xBF2B [n_cons 0xA0 [t]]) parse_pending_notification (ctx, d) =
      Some (opt_res (pending_spec resp), ctx', d') \<and> same_session ctx ctx'"
    using assms t(2,3) by (intro pending.request_spec) simp_all
  then show ?thesis by (simp add: es10b_retrieve_notifications_list_def t(1))
qed

text \<open>
  \<open>es10b_retrieve_notifications_list\<close> asks for the notification with the given sequence number (as the
  shortest big-endian number, \<open>long_bytes\<close>) and returns the address in its metadata and its complete
  encoding in base64, whether it is an installation result or another signed notification.
\<close>

theorem es10b_retrieve_notifications_list_returns:
  assumes "small_answers iface" "wf_ctx ctx" "es10x_mss ctx \<noteq> 0"
    and "card_gives iface ctx (tlv 0xBF2B (tlv 0xA0 (tlv 0x80 (long_bytes seq)))) d resp d'"
    and "length resp < 0x40000000"
  shows "be_value64 (long_bytes seq) = seq \<and>
    (\<exists>ctx'. es10b_retrieve_notifications_list iface seq (ctx, d) = Some (opt_res (pending_spec resp), ctx', d') \<and>
      same_session ctx ctx')"
  using retrieve_spec [OF assms] by simp

theorem es10b_retrieve_notifications_list_returns_witness:
  "\<exists>ctx'. es10b_retrieve_notifications_list script_card 42
      (demo_ctx, [tlv 0xBF2B (tlv 0xA0 (tlv 0x30 (tlv 0xBF2F demo_notification))) @ [0x90, 0]]) =
    Some (Ret \<lparr>pn_notificationAddress = Some [0x61],
      pn_b64_PendingNotification = Some (b64_enc (tlv 0x30 (tlv 0xBF2F demo_notification)))\<rparr>, ctx', [])"
proof -
  let ?resp = "tlv 0xBF2B (tlv 0xA0 (tlv 0x30 (tlv 0xBF2F demo_notification)))"
  have len: "length ?resp < 65534" by (simp add: length_tlv_exact length_demo_notification)
  have gives: "card_gives script_card demo_ctx (tlv 0xBF2B (tlv 0xA0 (tlv 0x80 (long_bytes 42))))
      [?resp @ [0x90, 0]] ?resp []"
    using length_long_bytes [of 42] by (intro demo_gives len) (simp add: length_tlv_exact)
  have items: "tlv_val 0xBF2B ?resp = Some (tlv 0xA0 (tlv 0x30 (tlv 0xBF2F demo_notification)))"
    "tlv_val 0xA0 (tlv 0xA0 (tlv 0x30 (tlv 0xBF2F demo_notification))) = Some (tlv 0x30 (tlv 0xBF2F demo_notification))"
    "tlv_find [0xBF37, 0x30] (tlv 0x30 (tlv 0xBF2F demo_notification)) =
      Some (0x30, tlv 0xBF2F demo_notification, tlv 0x30 (tlv 0xBF2F demo_notification))"
    "tlv_val 0xBF2F (tlv 0xBF2F demo_notification) = Some demo_notification"
    by (simp_all add: length_tlv_exact length_demo_notification tag_wf_def tlv_find_def)
  have "tlv_val 0x0C demo_notification = Some [0x61]"
    by (simp add: tlv_val_def tlv_find_def demo_notification_items)
  then have "pending_spec ?resp = Some \<lparr>pn_notificationAddress = Some [0x61],
      pn_b64_PendingNotification = Some (b64_enc (tlv 0x30 (tlv 0xBF2F demo_notification)))\<rparr>"
    by (simp add: pending_spec_def items pending_metadata_spec_def cstr_of_def)
  then show ?thesis
    using es10b_retrieve_notifications_list_returns [OF script_card_small demo_ctx_wf gives] len by auto
qed

text \<open>
  \<open>es10b_remove_notification_from_list\<close> names the notification by its sequence number: the number in
  the request reads back as \<open>seq\<close> for every \<open>unsigned long\<close>, the card's result is returned, and the
  function returns a number only if the card gave one for this very request.
\<close>

theorem es10b_remove_notification_names:
  assumes "small_answers iface" "wf_ctx ctx" "es10x_mss ctx \<noteq> 0"
  shows "\<exists>bs. be_value64 bs = seq \<and> length bs \<le> 8 \<and>
    (\<forall>resp d'. card_gives iface ctx (tlv 0xBF30 (tlv 0x80 bs)) d resp d' \<longrightarrow> length resp < 0x40000000 \<longrightarrow>
      (\<exists>ctx'. es10b_remove_notification_from_list iface seq (ctx, d) =
         Some (opt_res (result_spec 0xBF30 resp), ctx', d') \<and> same_session ctx ctx')) \<and>
    (\<forall>v ctx' d'. es10b_remove_notification_from_list iface seq (ctx, d) = Some (Ret v, ctx', d') \<longrightarrow>
      (\<exists>resp. card_gives iface ctx (tlv 0xBF30 (tlv 0x80 bs)) d resp d'))"
proof -
  obtain t where t: "seq_number_node seq = Ret t" "pack_ok t" "der_enc t = tlv 0x80 (long_bytes seq)"
    using seq_number_node_eq by blast
  let ?t = "n_cons 0xBF30 [t]"
  have enc: "der_enc ?t = tlv 0xBF30 (tlv 0x80 (long_bytes seq))" "pack_ok ?t" using t by simp_all
  then have len: "length (der_enc ?t) \<le> 255"
    using length_long_bytes [of seq] by (simp add: length_tlv_exact)
  have run: "es10b_remove_notification_from_list iface seq (ctx, d) = es10x_request iface ?t (parse_result 0xBF30) (ctx, d)"
    by (simp add: es10b_remove_notification_from_list_def t(1))
  have "\<exists>resp. card_gives iface ctx (tlv 0xBF30 (tlv 0x80 (long_bytes seq))) d resp d'"
    if "es10x_request iface ?t (parse_result 0xBF30) (ctx, d) = Some (Ret v, ctx', d')" for v ctx' d'
    using request_answered [OF assms enc(2) len that] enc(1) by auto
  then show ?thesis
    unfolding run
    using result_request [OF assms enc(2) len] length_long_bytes [of seq]
    by (intro exI [of _ "long_bytes seq"]) (auto simp: enc(1))
qed

theorem es10b_remove_notification_names_witness:
  "\<exists>bs. be_value64 bs = 300 \<and> length bs \<le> 8 \<and>
    (\<exists>ctx'. es10b_remove_notification_from_list script_card 300 (demo_ctx, [tlv 0xBF30 (tlv 0x80 [0]) @ [0x90, 0]]) =
       Some (Ret 0, ctx', []))"
proof -
  let ?resp = "tlv 0xBF30 (tlv 0x80 [0])"
  have len: "length ?resp < 65534" by (simp add: length_tlv_exact)
  obtain bs where bs: "be_value64 bs = 300" "length bs \<le> 8"
    and run: "\<And>resp d'. card_gives script_card demo_ctx (tlv 0xBF30 (tlv 0x80 bs)) [?resp @ [0x90, 0]] resp d' \<Longrightarrow>
      length resp < 0x40000000 \<Longrightarrow> \<exists>ctx'. es10b_remove_notification_from_list script_card 300
        (demo_ctx, [?resp @ [0x90, 0]]) = Some (opt_res (result_spec 0xBF30 resp), ctx', d')"
    using es10b_remove_notification_names [OF script_card_small demo_ctx_wf, of 300 "[?resp @ [0x90, 0]]"] by blast
  have "card_gives script_card demo_ctx (tlv 0xBF30 (tlv 0x80 bs)) [?resp @ [0x90, 0]] ?resp []"
    using bs(2) by (intro demo_gives len) (simp add: length_tlv_exact)
  from run [OF this] len bs result_spec_byte [of "0xBF30" 0] show ?thesis by (auto simp: tag_wf_def)
qed

text \<open>
  \<open>es10b_get_rat\<close> returns the rules of the card's table, in order and in bounds as long as the first byte
  of each bit string is between -23 and 8; but of the allowed operators of a rule it keeps only the
  first and the last one (\<open>first_last\<close> in \<open>rat_item\<close>).
\<close>

theorem es10b_get_rat_returns:
  assumes "small_answers iface" "wf_ctx ctx" "es10x_mss ctx \<noteq> 0"
    and "card_gives iface ctx (tlv 0xBF43 []) d resp d'" "length resp < 0x40000000" "rat_safe resp"
  shows "\<exists>ctx'. es10b_get_rat iface (ctx, d) = Some (opt_res (rat_spec resp), ctx', d') \<and> same_session ctx ctx'"
  unfolding es10b_get_rat_def
  using assms by (intro rat.request_spec) (simp_all add: length_tlv_le)

definition demo_operator :: "byte \<Rightarrow> byte list" where
  "demo_operator b = tlv 0x30 (tlv 0x80 [b])"

definition demo_rat :: "byte list" where
  "demo_rat = tlv 0x30 (tlv 0xA1 (demo_operator 1 @ demo_operator 2 @ demo_operator 3))"

lemma demo_rat_lengths: "length (demo_operator b) = 5" "length demo_rat = 19"
  by (simp_all add: demo_operator_def demo_rat_def length_tlv_exact)

theorem es10b_get_rat_returns_witness:
  "\<exists>rat ctx'. es10b_get_rat script_card (demo_ctx, [tlv 0xBF43 (tlv 0xA0 demo_rat) @ [0x90, 0]]) =
      Some (Ret [rat], ctx', []) \<and>
    map op_plmn (rat_allowedOperators rat) = [Some (cstr ''01''), Some (cstr ''03'')]"
proof -
  let ?resp = "tlv 0xBF43 (tlv 0xA0 demo_rat)"
  let ?rule = "tlv 0xA1 (demo_operator 1 @ demo_operator 2 @ demo_operator 3)"
  have len: "length ?resp < 65534" by (simp add: length_tlv_exact demo_rat_lengths)
  have gives: "card_gives script_card demo_ctx (tlv 0xBF43 []) [?resp @ [0x90, 0]] ?resp []"
    by (rule demo_gives) (use len in simp_all)
  have op: "operator_of (tlv 0x80 [b]) = operation_id_new\<lparr>op_plmn := Some (hex_of [b])\<rparr>" for b
    by (simp add: operator_of_def operator_item_def tag_wf_def)
  have items: "tlv_val 0xBF43 ?resp = Some (tlv 0xA0 demo_rat)" "tlv_val 0xA0 (tlv 0xA0 demo_rat) = Some demo_rat"
    "tlv_items demo_rat = [(0x30, ?rule, demo_rat)]"
    "tlv_items ?rule = [(0xA1, demo_operator 1 @ demo_operator 2 @ demo_operator 3, ?rule)]"
    by (simp_all add: length_tlv_exact demo_rat_lengths tag_wf_def) (simp add: demo_rat_def length_tlv_exact
        demo_rat_lengths tag_wf_def)
  have ops: "operators_of (demo_operator 1 @ demo_operator 2 @ demo_operator 3) =
      map (\<lambda>b. operation_id_new\<lparr>op_plmn := Some (hex_of [b])\<rparr>) [1, 2, 3]"
    by (simp add: operators_of_def demo_operator_def tag_wf_def length_tlv_exact op)
  have "rat_spec ?resp = Some [rat_new\<lparr>rat_allowedOperators := first_last
      (map (\<lambda>b. operation_id_new\<lparr>op_plmn := Some (hex_of [b])\<rparr>) [1, 2, 3])\<rparr>]"
    by (simp add: rat_spec_def items rats_of_def rat_of_def rat_item_def ops)
  moreover have "rat_safe ?resp" by (simp add: rat_safe_def items rule_safe_def)
  moreover have "hex_of [1] = cstr ''01''" "hex_of [3] = cstr ''03''" by code_simp+
  ultimately show ?thesis
    using es10b_get_rat_returns [OF script_card_small demo_ctx_wf gives] len
    by (auto simp: first_last_def simp del: hex_of.simps)
qed

end
