(* ===== verification/Es10c_Ex.thy ===== *)
theory Es10c_Ex
  imports Es10x
begin

text \<open>\<open>euicc/es10c_ex.c\<close>: \<open>EUICCInfo2\<close>, the capabilities and versions of the card.\<close>

subsection \<open>The code\<close>

record ext_card_resource =
  installedApplication :: u32
  freeNonVolatileMemory :: u32
  freeVolatileMemory :: u32

record certification_data_object =
  platformLabel :: "cstr option"
  discoveryBaseURL :: "cstr option"

text \<open>Arrays of strings end with a \<open>NULL\<close> (\<open>None\<close>).\<close>

record es10c_ex_euiccinfo2 =
  ei_profileVersion :: "cstr option"
  ei_svn :: "cstr option"
  ei_euiccFirmwareVer :: "cstr option"
  ei_extCardResource :: ext_card_resource
  ei_uiccCapability :: "cstr option list option"
  ei_ts102241Version :: "cstr option"
  ei_globalplatformVersion :: "cstr option"
  ei_rspCapability :: "cstr option list option"
  ei_euiccCiPKIdListForVerification :: "cstr option list option"
  ei_euiccCiPKIdListForSigning :: "cstr option list option"
  ei_euiccCategory :: "cstr option"
  ei_forbiddenProfilePolicyRules :: "cstr option list option"
  ei_ppVersion :: "cstr option"
  ei_sasAcreditationNumber :: "cstr option"
  ei_certificationDataObject :: certification_data_object

definition euiccinfo2_zero :: es10c_ex_euiccinfo2 where
  "euiccinfo2_zero = \<lparr>ei_profileVersion = None, ei_svn = None, ei_euiccFirmwareVer = None,
     ei_extCardResource = \<lparr>installedApplication = 0, freeNonVolatileMemory = 0, freeVolatileMemory = 0\<rparr>,
     ei_uiccCapability = None, ei_ts102241Version = None, ei_globalplatformVersion = None,
     ei_rspCapability = None, ei_euiccCiPKIdListForVerification = None,
     ei_euiccCiPKIdListForSigning = None, ei_euiccCategory = None, ei_forbiddenProfilePolicyRules = None,
     ei_ppVersion = None, ei_sasAcreditationNumber = None,
     ei_certificationDataObject = \<lparr>platformLabel = None, discoveryBaseURL = None\<rparr>\<rparr>"

definition uicc_capability_desc :: "cstr list" where
  "uicc_capability_desc = map cstr [''contactlessSupport'', ''usimSupport'', ''isimSupport'', ''csimSupport'',
     ''akaMilenage'', ''akaCave'', ''akaTuak128'', ''akaTuak256'', ''rfu1'', ''rfu2'', ''gbaAuthenUsim'',
     ''gbaAuthenISim'', ''mbmsAuthenUsim'', ''eapClient'', ''javacard'', ''multos'', ''multipleUsimSupport'',
     ''multipleIsimSupport'', ''multipleCsimSupport'', ''berTlvFileSupport'', ''dfLinkSupport'', ''catTp'',
     ''getIdentity'', ''profile-a-x25519'', ''profile-b-p256'', ''suciCalculatorApi'']"

definition rsp_capability_desc :: "cstr list" where
  "rsp_capability_desc = map cstr [''additionalProfile'', ''crlSupport'', ''rpmSupport'', ''testProfileSupport'',
     ''deviceInfoExtensibilitySupport'']"

definition forbidden_ppr_desc :: "cstr list" where
  "forbidden_ppr_desc = map cstr [''pprUpdateControl'', ''ppr1'', ''ppr2'', ''ppr3'']"

text \<open>\<open>%d\<close> of \<open>asprintf\<close>, for a number that is not negative.\<close>

fun dec_str :: "nat \<Rightarrow> cstr" where
  "dec_str n = (if n < 10 then [of_nat (48 + n)] else dec_str (n div 10) @ [of_nat (48 + n mod 10)])"

declare dec_str.simps [simp del]

text \<open>The length is passed as \<open>uint8_t\<close>; the result is not looked at, and a failure leaves \<open>*out\<close> alone.\<close>

definition versiontype2str :: "cstr option \<Rightarrow> cptr \<Rightarrow> u32 \<Rightarrow> cstr option cres" where
  "versiontype2str out buffer len =
     (if (ucast len :: byte) \<noteq> 3 then Ret out
      else cbind (cload buffer 0) (\<lambda>a. cbind (cload buffer 1) (\<lambda>b. cbind (cload buffer 2) (\<lambda>c.
        Ret (Some (dec_str (unat a) @ [0x2E] @ dec_str (unat b) @ [0x2E] @ dec_str (unat c)))))))"

definition ext_card_resource_field :: "der_node \<Rightarrow> ext_card_resource \<Rightarrow> ext_card_resource cres" where
  "ext_card_resource_field n r =
     (if n_tag n = 0x81 then
        cbind (bin2int (n_value n) (n_length n)) (\<lambda>v. Ret (r\<lparr>installedApplication := v\<rparr>))
      else if n_tag n = 0x82 then
        cbind (bin2int (n_value n) (n_length n)) (\<lambda>v. Ret (r\<lparr>freeNonVolatileMemory := v\<rparr>))
      else if n_tag n = 0x83 then
        cbind (bin2int (n_value n) (n_length n)) (\<lambda>v. Ret (r\<lparr>freeVolatileMemory := v\<rparr>))
      else Ret r)"

text \<open>
  The lists of key identifiers: a first loop counts the elements, an array with one more entry is
  allocated and zeroed, and a second loop fills it.
\<close>

definition pkid_list :: "cptr \<Rightarrow> u32 \<Rightarrow> cstr option list cres" where
  "pkid_list p len =
     cbind (tlv_foreach p len (\<lambda>n count. Ret (count + 1)) (0 :: nat)) (\<lambda>count.
     cbind (tlv_foreach p len (\<lambda>n (i, l).
         cbind (hex_dup (n_value n) (n_length n)) (\<lambda>s.
         cbind (cstore l i (Some s)) (\<lambda>l. Ret (i + 1, l)))) (0 :: nat, replicate (count + 1) None))
       (\<lambda>(i, l). Ret l))"

definition euicc_category :: "u64 \<Rightarrow> cstr" where
  "euicc_category v =
     (if v = 1 then cstr ''basicEuicc'' else if v = 2 then cstr ''mediumEuicc''
      else if v = 3 then cstr ''contactlessEuicc'' else cstr ''other'')"

definition certification_field ::
  "der_node \<Rightarrow> certification_data_object \<Rightarrow> certification_data_object cres" where
  "certification_field n c =
     (if n_tag n = 0x80 then cbind (str_dup (n_value n) (n_length n)) (\<lambda>s. Ret (c\<lparr>platformLabel := Some s\<rparr>))
      else if n_tag n = 0x81 then
        cbind (str_dup (n_value n) (n_length n)) (\<lambda>s. Ret (c\<lparr>discoveryBaseURL := Some s\<rparr>))
      else Ret c)"

definition euiccinfo2_field :: "der_node \<Rightarrow> es10c_ex_euiccinfo2 \<Rightarrow> es10c_ex_euiccinfo2 cres" where
  "euiccinfo2_field n info =
     (let v = n_value n; len = n_length n; tag = n_tag n;
          bits = euicc_derutil_convert_bin2bits_str v len in
      if tag = 0x81 then cbind (versiontype2str (ei_profileVersion info) v len) (\<lambda>s.
        Ret (info\<lparr>ei_profileVersion := s\<rparr>))
      else if tag = 0x82 then cbind (versiontype2str (ei_svn info) v len) (\<lambda>s. Ret (info\<lparr>ei_svn := s\<rparr>))
      else if tag = 0x83 then cbind (versiontype2str (ei_euiccFirmwareVer info) v len) (\<lambda>s.
        Ret (info\<lparr>ei_euiccFirmwareVer := s\<rparr>))
      else if tag = 0x84 then
        cbind (tlv_foreach v len ext_card_resource_field (ei_extCardResource info)) (\<lambda>r.
        Ret (info\<lparr>ei_extCardResource := r\<rparr>))
      else if tag = 0x85 then cbind (bits uicc_capability_desc) (\<lambda>l. Ret (info\<lparr>ei_uiccCapability := Some l\<rparr>))
      else if tag = 0x86 then cbind (versiontype2str (ei_ts102241Version info) v len) (\<lambda>s.
        Ret (info\<lparr>ei_ts102241Version := s\<rparr>))
      else if tag = 0x87 then cbind (versiontype2str (ei_globalplatformVersion info) v len) (\<lambda>s.
        Ret (info\<lparr>ei_globalplatformVersion := s\<rparr>))
      else if tag = 0x88 then cbind (bits rsp_capability_desc) (\<lambda>l. Ret (info\<lparr>ei_rspCapability := Some l\<rparr>))
      else if tag = 0xA9 then cbind (pkid_list v len) (\<lambda>l.
        Ret (info\<lparr>ei_euiccCiPKIdListForVerification := Some l\<rparr>))
      else if tag = 0xAA then cbind (pkid_list v len) (\<lambda>l.
        Ret (info\<lparr>ei_euiccCiPKIdListForSigning := Some l\<rparr>))
      else if tag = 0xAB then cbind (euicc_derutil_convert_bin2long v len) (\<lambda>i.
        Ret (info\<lparr>ei_euiccCategory := Some (euicc_category i)\<rparr>))
      else if tag = 0x99 then cbind (bits forbidden_ppr_desc) (\<lambda>l.
        Ret (info\<lparr>ei_forbiddenProfilePolicyRules := Some l\<rparr>))
      else if tag = 0x04 then cbind (versiontype2str (ei_ppVersion info) v len) (\<lambda>s.
        Ret (info\<lparr>ei_ppVersion := s\<rparr>))
      else if tag = 0x0C then cbind (str_dup v len) (\<lambda>s. Ret (info\<lparr>ei_sasAcreditationNumber := Some s\<rparr>))
      else if tag = 0xAC then
        cbind (tlv_foreach v len certification_field (ei_certificationDataObject info)) (\<lambda>c.
        Ret (info\<lparr>ei_certificationDataObject := c\<rparr>))
      else Ret info)"

definition parse_euiccinfo2 :: "cptr \<Rightarrow> u32 \<Rightarrow> es10c_ex_euiccinfo2 cres" where
  "parse_euiccinfo2 respbuf resplen =
     cbind (euicc_derutil_unpack_find_tag 0xBF22 respbuf resplen) (\<lambda>n_EUICCInfo2.
     tlv_foreach (n_value n_EUICCInfo2) (n_length n_EUICCInfo2) euiccinfo2_field euiccinfo2_zero)"

definition es10c_ex_get_euiccinfo2 ::
  "'d euicc_apdu_interface \<Rightarrow> 'd st \<Rightarrow> (es10c_ex_euiccinfo2 cres \<times> 'd st) option" where
  "es10c_ex_get_euiccinfo2 iface st = es10x_request iface (n_empty 0xBF22) parse_euiccinfo2 st"

definition es10c_ex_euiccinfo2_free :: "es10c_ex_euiccinfo2 option \<Rightarrow> es10c_ex_euiccinfo2 option" where
  "es10c_ex_euiccinfo2_free euiccinfo2 = map_option (\<lambda>_. euiccinfo2_zero) euiccinfo2"

subsection \<open>What the parser computes\<close>

definition version_str :: "byte list \<Rightarrow> cstr option \<Rightarrow> cstr option" where
  "version_str v old =
     (if length v mod 256 \<noteq> 3 then old
      else Some (dec_str (unat (v ! 0)) @ [0x2E] @ dec_str (unat (v ! 1)) @ [0x2E] @ dec_str (unat (v ! 2))))"

definition resource_item :: "item \<Rightarrow> ext_card_resource \<Rightarrow> ext_card_resource" where
  "resource_item = (\<lambda>(tag, v, e) r.
     if tag = 0x81 then r\<lparr>installedApplication := ucast (be_value64 v)\<rparr>
     else if tag = 0x82 then r\<lparr>freeNonVolatileMemory := ucast (be_value64 v)\<rparr>
     else if tag = 0x83 then r\<lparr>freeVolatileMemory := ucast (be_value64 v)\<rparr>
     else r)"

definition certification_item :: "item \<Rightarrow> certification_data_object \<Rightarrow> certification_data_object" where
  "certification_item = (\<lambda>(tag, v, e) c.
     if tag = 0x80 then c\<lparr>platformLabel := Some (cstr_of v)\<rparr>
     else if tag = 0x81 then c\<lparr>discoveryBaseURL := Some (cstr_of v)\<rparr>
     else c)"

definition pkids_of :: "byte list \<Rightarrow> cstr option list" where
  "pkids_of v = map (\<lambda>(t, w, e). Some (hex_of w)) (tlv_items v) @ [None]"

definition euiccinfo2_item :: "item \<Rightarrow> es10c_ex_euiccinfo2 \<Rightarrow> es10c_ex_euiccinfo2 option" where
  "euiccinfo2_item = (\<lambda>(tag, v, e) info.
     if tag = 0x81 then Some (info\<lparr>ei_profileVersion := version_str v (ei_profileVersion info)\<rparr>)
     else if tag = 0x82 then Some (info\<lparr>ei_svn := version_str v (ei_svn info)\<rparr>)
     else if tag = 0x83 then Some (info\<lparr>ei_euiccFirmwareVer := version_str v (ei_euiccFirmwareVer info)\<rparr>)
     else if tag = 0x84 then
       Some (info\<lparr>ei_extCardResource := fold resource_item (tlv_items v) (ei_extCardResource info)\<rparr>)
     else if tag = 0x85 then
       map_option (\<lambda>l. info\<lparr>ei_uiccCapability := Some l\<rparr>) (bits_names uicc_capability_desc v)
     else if tag = 0x86 then Some (info\<lparr>ei_ts102241Version := version_str v (ei_ts102241Version info)\<rparr>)
     else if tag = 0x87 then
       Some (info\<lparr>ei_globalplatformVersion := version_str v (ei_globalplatformVersion info)\<rparr>)
     else if tag = 0x88 then
       map_option (\<lambda>l. info\<lparr>ei_rspCapability := Some l\<rparr>) (bits_names rsp_capability_desc v)
     else if tag = 0xA9 then Some (info\<lparr>ei_euiccCiPKIdListForVerification := Some (pkids_of v)\<rparr>)
     else if tag = 0xAA then Some (info\<lparr>ei_euiccCiPKIdListForSigning := Some (pkids_of v)\<rparr>)
     else if tag = 0xAB then Some (info\<lparr>ei_euiccCategory := Some (euicc_category (be_value64 v))\<rparr>)
     else if tag = 0x99 then
       map_option (\<lambda>l. info\<lparr>ei_forbiddenProfilePolicyRules := Some l\<rparr>) (bits_names forbidden_ppr_desc v)
     else if tag = 0x04 then Some (info\<lparr>ei_ppVersion := version_str v (ei_ppVersion info)\<rparr>)
     else if tag = 0x0C then Some (info\<lparr>ei_sasAcreditationNumber := Some (cstr_of v)\<rparr>)
     else if tag = 0xAC then
       Some (info\<lparr>ei_certificationDataObject :=
         fold certification_item (tlv_items v) (ei_certificationDataObject info)\<rparr>)
     else Some info)"

definition euiccinfo2_spec :: "byte list \<Rightarrow> es10c_ex_euiccinfo2 option" where
  "euiccinfo2_spec resp =
     do { v \<leftarrow> tlv_val 0xBF22 resp; ofold euiccinfo2_item (tlv_items v) euiccinfo2_zero }"

definition euiccinfo2_safe :: "byte list \<Rightarrow> bool" where
  "euiccinfo2_safe resp \<longleftrightarrow> (case tlv_val 0xBF22 resp of None \<Rightarrow> True
     | Some v \<Rightarrow> list_all (\<lambda>(t, w, e). t \<in> {0x85, 0x88, 0x99} \<longrightarrow> bits_ok w) (tlv_items v))"

lemma versiontype2str_eq:
  assumes "node_small n"
  shows "versiontype2str old (n_value n) (n_length n) = Ret (version_str (node_val n) old)"
proof -
  have len: "length (node_val n) = unat (n_length n)" and ok: "unat (n_length n) \<le> length (n_value n)"
    using node_small_lengths(1) [OF assms] slice_small_ok [OF node_small_simps(1) [OF assms]]
    by (simp_all add: slice_ok_def)
  have u: "unat (ucast (n_length n) :: byte) = unat (n_length n) mod 256"
    by (simp add: unsigned_ucast_eq take_bit_eq_mod)
  then have "(ucast (n_length n) :: byte) = 3 \<longleftrightarrow> unat (n_length n) mod 256 = 3"
    by (simp add: word_unat_eq_iff)
  moreover have "n_value n ! i = node_val n ! i" if "i < unat (n_length n)" for i
    using that by (simp add: node_val_def slice_bytes_def)
  moreover have "3 \<le> unat (n_length n)" if "unat (n_length n) mod 256 = 3"
    using that by (metis mod_less_eq_dividend)
  ultimately show ?thesis
    using ok by (auto simp: versiontype2str_def version_str_def len cload_def)
qed

lemma pkid_list_eq:
  assumes "node_small n"
  shows "pkid_list (n_value n) (n_length n) = Ret (pkids_of (node_val n))"
proof -
  have s: "slice_small (n_value n) (n_length n)" using assms by simp
  let ?items = "tlv_items (slice_bytes (n_value n) (n_length n))"
  let ?f = "\<lambda>(t, w, e). Some (hex_of w)"
  have "tlv_foreach (n_value n) (n_length n) (\<lambda>n count. Ret (Suc count)) 0 = Ret (fold (\<lambda>x. Suc) ?items 0)"
    by (rule foreach_fold [OF s]) simp
  moreover have "fold (\<lambda>x. Suc) xs c = c + length xs" for xs :: "item list" and c
    by (induction xs arbitrary: c) simp_all
  ultimately have count: "tlv_foreach (n_value n) (n_length n) (\<lambda>n count. Ret (Suc count)) 0 = Ret (length ?items)"
    by simp
  obtain ns where ns: "map node_item ns = ?items" "\<forall>n \<in> set ns. node_ok n"
    "\<And>body s. tlv_foreach (n_value n) (n_length n)
      (body :: der_node \<Rightarrow> nat \<times> cstr option list \<Rightarrow> (nat \<times> cstr option list) cres) s = cfold body ns s"
    using tlv_foreach_eq [of "n_value n" "n_length n", where ?'s = "nat \<times> cstr option list"] s by fastforce
  have hex: "hex_dup (n_value m) (n_length m) = Ret (hex_of (node_val m))" if "m \<in> set ns" for m
  proof -
    from that have "node_item m \<in> set (map node_item ns)" by simp
    with that ns(1,2) have "node_small m" by (intro node_item_small [OF s]) simp_all
    then show ?thesis by (simp add: hex_dup_eq node_val_def)
  qed
  have fill: "cfold (\<lambda>n (i, l). cbind (hex_dup (n_value n) (n_length n)) (\<lambda>s.
      cbind (cstore l i (Some s)) (\<lambda>l. Ret (i + 1, l)))) ms (length acc, acc @ replicate (length ms + 1) None) =
    Ret (length acc + length ms, acc @ map (\<lambda>m. Some (hex_of (node_val m))) ms @ [None])"
    if "set ms \<subseteq> set ns" for ms acc
    using that
  proof (induction ms arbitrary: acc)
    case (Cons m ms)
    then show ?case
      using Cons.IH [of "acc @ [Some (hex_of (node_val m))]"] hex
      by (simp add: cstore_def list_update_append)
  qed simp
  have "map (\<lambda>m. Some (hex_of (node_val m))) ns = map ?f ?items"
    by (simp add: node_item_eq flip: ns(1))
  then show ?thesis
    using fill [of ns "[]"] arg_cong [OF ns(1), of length]
    by (simp add: pkid_list_def count ns(3) pkids_of_def node_val_def)
qed

lemma euiccinfo2_field_eq:
  assumes "node_small n" "n_tag n \<in> {0x85, 0x88, 0x99} \<Longrightarrow> bits_ok (node_val n)"
  shows "euiccinfo2_field n info = opt_res (euiccinfo2_item (node_item n) info)"
proof -
  have s: "slice_small (n_value n) (n_length n)" using assms(1) by simp
  have bits: "euicc_derutil_convert_bin2bits_str (n_value n) (n_length n) desc = opt_res (bits_names desc (node_val n))"
    if "n_tag n \<in> {0x85, 0x88, 0x99}" for desc
    using assms that unfolding node_val_def by (intro bin2bits_names) simp_all
  have res: "tlv_foreach (n_value n) (n_length n) ext_card_resource_field r =
      Ret (fold resource_item (tlv_items (node_val n)) r)" for r
    unfolding node_val_def
    by (rule foreach_fold [OF s])
      (simp add: ext_card_resource_field_def resource_item_def node_item_eq dup_eqs)
  have cert: "tlv_foreach (n_value n) (n_length n) certification_field c =
      Ret (fold certification_item (tlv_items (node_val n)) c)" for c
    unfolding node_val_def
    by (rule foreach_fold [OF s])
      (simp add: certification_field_def certification_item_def node_item_eq dup_eqs)
  have map: "cbind (opt_res x) (\<lambda>l. Ret (f l)) = opt_res (map_option f x)"
    for x and f :: "cstr option list \<Rightarrow> es10c_ex_euiccinfo2"
    by (cases x) simp_all
  have "str_dup (n_value n) (n_length n) = Ret (cstr_of (node_val n))"
    "euicc_derutil_convert_bin2long (n_value n) (n_length n) = Ret (be_value64 (node_val n))"
    using s by (simp_all add: dup_eqs)
  with assms(1) bits show ?thesis
    by (simp add: euiccinfo2_field_def euiccinfo2_item_def node_item_eq Let_def versiontype2str_eq
        pkid_list_eq res cert map)
qed

interpretation euiccinfo2: es10_parser parse_euiccinfo2 euiccinfo2_safe euiccinfo2_spec
proof
  fix p len assume s: "euiccinfo2_safe (slice_bytes p len)" "slice_small p len"
  show "parse_euiccinfo2 p len = opt_res (euiccinfo2_spec (slice_bytes p len))"
    unfolding parse_euiccinfo2_def euiccinfo2_spec_def
  proof (rule cbind_find_val [OF s(2)])
    fix m assume m: "node_small m" "tlv_val 0xBF22 (slice_bytes p len) = Some (node_val m)"
    with s(1) have safe: "list_all (\<lambda>(t, w, e). t \<in> {0x85, 0x88, 0x99} \<longrightarrow> bits_ok w) (tlv_items (node_val m))"
      by (simp add: euiccinfo2_safe_def)
    show "tlv_foreach (n_value m) (n_length m) euiccinfo2_field euiccinfo2_zero =
        opt_res (ofold euiccinfo2_item (tlv_items (node_val m)) euiccinfo2_zero)"
      unfolding node_val_def
    proof (rule foreach_ofold)
      fix k info
      assume "node_small k" "node_item k \<in> set (tlv_items (slice_bytes (n_value m) (n_length m)))"
      with safe show "euiccinfo2_field k info = opt_res (euiccinfo2_item (node_item k) info)"
        by (intro euiccinfo2_field_eq) (auto simp: list_all_iff node_val_def node_item_eq)
    qed (use m(1) in simp)
  qed
qed

end
