(* ===== verification/Es10c.thy ===== *)
theory Es10c
  imports Es10x
begin

text \<open>
  \<open>euicc/es10c.c\<close>: listing, enabling, disabling and deleting profiles, memory reset, the EID and
  nicknames. The lists that are built with \<open>list_wptr->next = p\<close> are lists; the members of
  \<open>struct es10c_profile_info_list\<close> that no code fills are left out.
\<close>

subsection \<open>Data\<close>

datatype es10c_profile_state =
  ES10C_PROFILE_STATE_NULL | ES10C_PROFILE_STATE_DISABLED | ES10C_PROFILE_STATE_ENABLED
| ES10C_PROFILE_STATE_UNDEFINED

datatype es10c_profile_class =
  ES10C_PROFILE_CLASS_NULL | ES10C_PROFILE_CLASS_TEST | ES10C_PROFILE_CLASS_PROVISIONING
| ES10C_PROFILE_CLASS_OPERATIONAL | ES10C_PROFILE_CLASS_UNDEFINED

datatype es10c_icon_type =
  ES10C_ICON_TYPE_NULL | ES10C_ICON_TYPE_JPEG | ES10C_ICON_TYPE_PNG | ES10C_ICON_TYPE_UNDEFINED

text \<open>The switches on the \<open>int\<close> read from the card.\<close>

definition profile_state_of :: "u32 \<Rightarrow> es10c_profile_state" where
  "profile_state_of tmpint =
     (if tmpint = 0 then ES10C_PROFILE_STATE_DISABLED
      else if tmpint = 1 then ES10C_PROFILE_STATE_ENABLED
      else ES10C_PROFILE_STATE_UNDEFINED)"

definition profile_class_of :: "u32 \<Rightarrow> es10c_profile_class" where
  "profile_class_of tmpint =
     (if tmpint = 0 then ES10C_PROFILE_CLASS_TEST
      else if tmpint = 1 then ES10C_PROFILE_CLASS_PROVISIONING
      else if tmpint = 2 then ES10C_PROFILE_CLASS_OPERATIONAL
      else ES10C_PROFILE_CLASS_UNDEFINED)"

definition icon_type_of :: "u32 \<Rightarrow> es10c_icon_type" where
  "icon_type_of tmpint =
     (if tmpint = 0 then ES10C_ICON_TYPE_JPEG
      else if tmpint = 1 then ES10C_ICON_TYPE_PNG
      else ES10C_ICON_TYPE_UNDEFINED)"

record es10c_profile_info_list =
  pi_iccid :: cbuf
  pi_isdpAid :: cbuf
  pi_profileState :: es10c_profile_state
  pi_profileClass :: es10c_profile_class
  pi_profileNickname :: "cstr option"
  pi_serviceProviderName :: "cstr option"
  pi_profileName :: "cstr option"
  pi_iconType :: es10c_icon_type
  pi_icon :: "cstr option"

text \<open>A fresh element: \<open>memset(p, 0, sizeof(*p))\<close> and the three \<open>NULL\<close> values.\<close>

definition profile_info_new :: es10c_profile_info_list where
  "profile_info_new = \<lparr>pi_iccid = replicate 21 0, pi_isdpAid = replicate 33 0,
     pi_profileState = ES10C_PROFILE_STATE_NULL, pi_profileClass = ES10C_PROFILE_CLASS_NULL,
     pi_profileNickname = None, pi_serviceProviderName = None, pi_profileName = None,
     pi_iconType = ES10C_ICON_TYPE_NULL, pi_icon = None\<rparr>"

subsection \<open>\<open>es10c_get_profiles_info\<close>\<close>

text \<open>The \<open>switch (tmpnode.tag)\<close> of the inner loop.\<close>

definition profile_info_field ::
  "der_node \<Rightarrow> es10c_profile_info_list \<Rightarrow> es10c_profile_info_list cres" where
  "profile_info_field n p =
     (let v = n_value n; len = n_length n in
      if n_tag n = 0x5A then
        cbind (bcd_into (pi_iccid p) 21 v len) (\<lambda>b. Ret (p\<lparr>pi_iccid := b\<rparr>))
      else if n_tag n = 0x4F then
        cbind (hex_into (pi_isdpAid p) 33 v len) (\<lambda>b. Ret (p\<lparr>pi_isdpAid := b\<rparr>))
      else if n_tag n = 0x9F70 then
        cbind (bin2int v len) (\<lambda>i. Ret (p\<lparr>pi_profileState := profile_state_of i\<rparr>))
      else if n_tag n = 0x90 then
        cbind (str_dup v len) (\<lambda>s. Ret (p\<lparr>pi_profileNickname := Some s\<rparr>))
      else if n_tag n = 0x91 then
        cbind (str_dup v len) (\<lambda>s. Ret (p\<lparr>pi_serviceProviderName := Some s\<rparr>))
      else if n_tag n = 0x92 then
        cbind (str_dup v len) (\<lambda>s. Ret (p\<lparr>pi_profileName := Some s\<rparr>))
      else if n_tag n = 0x93 then
        cbind (bin2int v len) (\<lambda>i. Ret (p\<lparr>pi_iconType := icon_type_of i\<rparr>))
      else if n_tag n = 0x94 then
        cbind (b64_dup v len) (\<lambda>s. Ret (p\<lparr>pi_icon := Some s\<rparr>))
      else if n_tag n = 0x95 then
        cbind (bin2int v len) (\<lambda>i. Ret (p\<lparr>pi_profileClass := profile_class_of i\<rparr>))
      else Ret p)"

text \<open>The body of the outer loop; \<open>l\<close> is the list behind \<open>*profileInfoList\<close>.\<close>

definition profile_info_entry ::
  "der_node \<Rightarrow> es10c_profile_info_list list \<Rightarrow> es10c_profile_info_list list cres" where
  "profile_info_entry n l =
     (if n_tag n \<noteq> 0xE3 then Ret l
      else cbind (tlv_foreach (n_value n) (n_length n) profile_info_field profile_info_new)
        (\<lambda>p. Ret (l @ [p])))"

definition parse_profiles_info :: "cptr \<Rightarrow> u32 \<Rightarrow> es10c_profile_info_list list cres" where
  "parse_profiles_info respbuf resplen =
     cbind (euicc_derutil_unpack_find_tag 0xBF2D respbuf resplen) (\<lambda>tmpnode.
     cbind (euicc_derutil_unpack_find_tag 0xA0 (n_value tmpnode) (n_length tmpnode)) (\<lambda>n_profileInfoListOk.
     tlv_foreach (n_value n_profileInfoListOk) (n_length n_profileInfoListOk) profile_info_entry []))"

definition es10c_get_profiles_info ::
  "'d euicc_apdu_interface \<Rightarrow> 'd st \<Rightarrow> (es10c_profile_info_list list cres \<times> 'd st) option" where
  "es10c_get_profiles_info iface st =
     es10x_request iface (n_empty 0xBF2D) parse_profiles_info st"

subsection \<open>Enable, disable, delete\<close>

text \<open>
  The identifier: 32 characters are an AID in hexadecimal, anything else an ICCID; tag, bytes and
  length of \<open>n_profileIdentifierChoice\<close>. (\<open>id\<close> is not initialised; only bytes written to it are used.)
\<close>

definition profile_identifier :: "cstr \<Rightarrow> (u16 \<times> cbuf \<times> u32) cres" where
  "profile_identifier str_id =
     (if strlen str_id = 32
      then cbind (euicc_hexutil_hex2bin (replicate 16 0) 16 str_id) (\<lambda>(id_len, ident).
        Ret (0x4F, ident, of_nat id_len))
      else cbind (euicc_hexutil_gsmbcd2bin (replicate 16 0) 16 str_id 10) (\<lambda>(id_len, ident).
        Ret (0x5A, ident, of_nat id_len)))"

definition profile_op_request :: "u16 \<Rightarrow> u16 \<times> cbuf \<times> u32 \<Rightarrow> byte \<Rightarrow> der_tree" where
  "profile_op_request op_tag choice refreshFlag =
     (let (tag, ident, id_len) = choice; n_profileIdentifierChoice = n_leaf tag ident id_len in
      if refreshFlag AND 0x80 \<noteq> 0 then
        (let refreshFlag = refreshFlag AND 0x7F;
             refreshFlag = (if refreshFlag \<noteq> 0 then 0xFF else refreshFlag)
         in n_cons op_tag [n_cons 0xA0 [n_profileIdentifierChoice], n_leaf 0x81 [refreshFlag] 1])
      else n_cons op_tag [n_profileIdentifierChoice])"

definition es10c_enable_disable_delete_profile ::
  "'d euicc_apdu_interface \<Rightarrow> u16 \<Rightarrow> cstr \<Rightarrow> byte \<Rightarrow> 'd st \<Rightarrow> (u32 cres \<times> 'd st) option" where
  "es10c_enable_disable_delete_profile iface op_tag str_id refreshFlag st =
     (case profile_identifier str_id of
        Fail \<Rightarrow> Some (Fail, st)
      | UB \<Rightarrow> Some (UB, st)
      | Ret choice \<Rightarrow>
          es10x_request iface (profile_op_request op_tag choice refreshFlag) (parse_result op_tag) st)"

definition es10c_enable_profile ::
  "'d euicc_apdu_interface \<Rightarrow> cstr \<Rightarrow> byte \<Rightarrow> 'd st \<Rightarrow> (u32 cres \<times> 'd st) option" where
  "es10c_enable_profile iface ident refreshFlag st =
     es10c_enable_disable_delete_profile iface 0xBF31 ident (if refreshFlag \<noteq> 0 then 0xFF else 0x80) st"

definition es10c_disable_profile ::
  "'d euicc_apdu_interface \<Rightarrow> cstr \<Rightarrow> byte \<Rightarrow> 'd st \<Rightarrow> (u32 cres \<times> 'd st) option" where
  "es10c_disable_profile iface ident refreshFlag st =
     es10c_enable_disable_delete_profile iface 0xBF32 ident (if refreshFlag \<noteq> 0 then 0xFF else 0x80) st"

definition es10c_delete_profile ::
  "'d euicc_apdu_interface \<Rightarrow> cstr \<Rightarrow> 'd st \<Rightarrow> (u32 cres \<times> 'd st) option" where
  "es10c_delete_profile iface ident st = es10c_enable_disable_delete_profile iface 0xBF33 ident 0 st"

subsection \<open>Memory reset, EID, nickname\<close>

definition es10c_euicc_memory_reset ::
  "'d euicc_apdu_interface \<Rightarrow> 'd st \<Rightarrow> (u32 cres \<times> 'd st) option" where
  "es10c_euicc_memory_reset iface st =
     es10x_request iface (n_cons 0xBF34 [n_leaf 0x82 [0x05, 0xE0] 2]) (parse_result 0xBF34) st"

definition parse_eid :: "cptr \<Rightarrow> u32 \<Rightarrow> cstr cres" where
  "parse_eid respbuf resplen =
     cbind (euicc_derutil_unpack_find_tag 0xBF3E respbuf resplen) (\<lambda>tmpnode.
     cbind (euicc_derutil_unpack_find_tag 0x5A (n_value tmpnode) (n_length tmpnode)) (\<lambda>tmpnode.
     hex_dup (n_value tmpnode) (n_length tmpnode)))"

definition es10c_get_eid :: "'d euicc_apdu_interface \<Rightarrow> 'd st \<Rightarrow> (cstr cres \<times> 'd st) option" where
  "es10c_get_eid iface st = es10x_request iface (n_cons 0xBF3E [n_leaf 0x5C [0x5A] 1]) parse_eid st"

definition es10c_set_nickname ::
  "'d euicc_apdu_interface \<Rightarrow> cstr \<Rightarrow> cstr \<Rightarrow> 'd st \<Rightarrow> (u32 cres \<times> 'd st) option" where
  "es10c_set_nickname iface iccid profileNickname st =
     (case euicc_hexutil_gsmbcd2bin (replicate 10 0) 10 iccid 10 of
        Fail \<Rightarrow> Some (Fail, st)
      | UB \<Rightarrow> Some (UB, st)
      | Ret (n, asn1iccid) \<Rightarrow>
          es10x_request iface
            (n_cons 0xBF29 [n_leaf 0x5A asn1iccid 10, n_leaf 0x90 profileNickname (strlen profileNickname)])
            (parse_result 0xBF29) st)"

subsection \<open>What the parsers compute\<close>

text \<open>One element of a profile, and a whole profile.\<close>

definition profile_item :: "item \<Rightarrow> es10c_profile_info_list \<Rightarrow> es10c_profile_info_list" where
  "profile_item = (\<lambda>(tag, v, e) p.
     if tag = 0x5A then p\<lparr>pi_iccid := put_bcd (pi_iccid p) v\<rparr>
     else if tag = 0x4F then p\<lparr>pi_isdpAid := put_hex (pi_isdpAid p) v\<rparr>
     else if tag = 0x9F70 then p\<lparr>pi_profileState := profile_state_of (ucast (be_value64 v))\<rparr>
     else if tag = 0x90 then p\<lparr>pi_profileNickname := Some (cstr_of v)\<rparr>
     else if tag = 0x91 then p\<lparr>pi_serviceProviderName := Some (cstr_of v)\<rparr>
     else if tag = 0x92 then p\<lparr>pi_profileName := Some (cstr_of v)\<rparr>
     else if tag = 0x93 then p\<lparr>pi_iconType := icon_type_of (ucast (be_value64 v))\<rparr>
     else if tag = 0x94 then p\<lparr>pi_icon := Some (b64_enc v)\<rparr>
     else if tag = 0x95 then p\<lparr>pi_profileClass := profile_class_of (ucast (be_value64 v))\<rparr>
     else p)"

definition profile_of :: "byte list \<Rightarrow> es10c_profile_info_list" where
  "profile_of v = fold profile_item (tlv_items v) profile_info_new"

definition profiles_of :: "byte list \<Rightarrow> es10c_profile_info_list list" where
  "profiles_of l = vals_with 0xE3 profile_of l"

definition profiles_spec :: "byte list \<Rightarrow> es10c_profile_info_list list option" where
  "profiles_spec resp = do { r \<leftarrow> tlv_val 0xBF2D resp; l \<leftarrow> tlv_val 0xA0 r; Some (profiles_of l) }"

definition profiles_safe :: "byte list \<Rightarrow> bool" where
  "profiles_safe resp \<longleftrightarrow>
     (case do { r \<leftarrow> tlv_val 0xBF2D resp; tlv_val 0xA0 r } of None \<Rightarrow> True
      | Some l \<Rightarrow> list_all (\<lambda>(t, v, e). t = 0xE3 \<longrightarrow> no_empty_iccid v) (tlv_items l))"

definition profile_ok :: "es10c_profile_info_list \<Rightarrow> bool" where
  "profile_ok p \<longleftrightarrow> length (pi_iccid p) = 21 \<and> length (pi_isdpAid p) = 33"

lemma profile_item_ok: "profile_ok p \<Longrightarrow> profile_ok (profile_item x p)"
  by (cases x) (simp add: profile_item_def profile_ok_def)

lemma profile_info_field_eq:
  assumes "node_small n" "profile_ok p" "n_tag n = 0x5A \<Longrightarrow> node_val n \<noteq> []"
  shows "profile_info_field n p = Ret (profile_item (node_item n) p)"
proof -
  have "n_length n \<noteq> 0" if "n_tag n = 0x5A"
    using assms(3) [OF that] by (auto simp: node_val_def slice_bytes_def)
  with assms(1,2) show ?thesis
    by (simp add: profile_info_field_def profile_item_def node_item_eq Let_def dup_eqs hex_into_eq
        bcd_into_eq profile_ok_def)
qed

lemma profile_info_fields_eq:
  assumes "node_small n" "no_empty_iccid (node_val n)"
  shows "tlv_foreach (n_value n) (n_length n) profile_info_field profile_info_new =
    Ret (profile_of (node_val n))"
  unfolding profile_of_def node_val_def
proof (rule foreach_fold_inv [where I = profile_ok])
  fix m s
  assume m: "node_small m" "node_item m \<in> set (tlv_items (slice_bytes (n_value n) (n_length n)))" "profile_ok s"
  have "n_tag m = 0x5A \<Longrightarrow> node_val m \<noteq> []"
    using m(2) assms(2) by (auto simp: no_empty_iccid_def list_all_iff node_val_def node_item_eq)
  with m(1,3) show "profile_info_field m s = Ret (profile_item (node_item m) s)"
    by (rule profile_info_field_eq)
qed (use assms(1) in \<open>simp_all add: profile_item_ok\<close>, simp add: profile_ok_def profile_info_new_def)

lemma profile_entries_eq:
  assumes "node_small n" "list_all (\<lambda>(t, v, e). t = 0xE3 \<longrightarrow> no_empty_iccid v) (tlv_items (node_val n))"
  shows "tlv_foreach (n_value n) (n_length n) profile_info_entry [] = Ret (profiles_of (node_val n))"
  unfolding profiles_of_def profile_info_entry_def [abs_def] node_val_def
proof (rule foreach_entries)
  fix m assume "node_small m" "n_tag m = 0xE3" "node_item m \<in> set (tlv_items (slice_bytes (n_value n) (n_length n)))"
  then show "tlv_foreach (n_value m) (n_length m) profile_info_field profile_info_new = Ret (profile_of (node_val m))"
    using assms(2) by (intro profile_info_fields_eq) (auto simp: list_all_iff node_val_def node_item_eq)
qed (use assms(1) in simp)

lemma parse_profiles_info_eq:
  assumes "profiles_safe (slice_bytes p len)" "slice_small p len"
  shows "parse_profiles_info p len = opt_res (profiles_spec (slice_bytes p len))"
  unfolding parse_profiles_info_def profiles_spec_def
proof (rule cbind_find_val [OF assms(2)], unfold node_val_def, rule cbind_find_val)
  fix r l assume "node_small r" "node_small l"
    "tlv_val 0xBF2D (slice_bytes p len) = Some (slice_bytes (n_value r) (n_length r))"
    "tlv_val 0xA0 (slice_bytes (n_value r) (n_length r)) = Some (node_val l)"
  with assms(1) profile_entries_eq [of l]
  show "tlv_foreach (n_value l) (n_length l) profile_info_entry [] = opt_res (Some (profiles_of (node_val l)))"
    by (simp add: profiles_safe_def)
qed simp_all

interpretation profiles: es10_parser parse_profiles_info profiles_safe profiles_spec
  by unfold_locales (rule parse_profiles_info_eq)

text \<open>An empty ICCID element is a write outside \<open>iccid\<close>.\<close>

lemma profile_info_field_empty:
  assumes "n_tag n = 0x5A" "n_length n = 0" "profile_ok p"
  shows "profile_info_field n p = UB"
  using assms by (simp add: profile_info_field_def bcd_into_def profile_ok_def euicc_hexutil_bin2gsmbcd_empty)

definition eid_spec :: "byte list \<Rightarrow> cstr option" where
  "eid_spec resp = do { r \<leftarrow> tlv_val 0xBF3E resp; v \<leftarrow> tlv_val 0x5A r; Some (hex_of v) }"

interpretation eid: es10_parser parse_eid "\<lambda>_. True" eid_spec
proof
  fix p len assume s: "slice_small p len"
  show "parse_eid p len = opt_res (eid_spec (slice_bytes p len))"
    unfolding parse_eid_def eid_spec_def
    by (rule cbind_find_val [OF s], unfold node_val_def, rule cbind_find_val) (simp_all add: dup_eqs)
qed

text \<open>The identifier of a profile as the request carries it.\<close>

definition iccid_bytes :: "cstr \<Rightarrow> byte list option" where
  "iccid_bytes s = map_option (\<lambda>bs. bs @ replicate (10 - length bs) 0xFF) (unhex (swap_pairs (bcd_pad s)))"

definition profile_id :: "cstr \<Rightarrow> (u16 \<times> byte list) option" where
  "profile_id s =
     (if length s = 32 then map_option (Pair 0x4F) (unhex s)
      else do { bs \<leftarrow> iccid_bytes s; if length bs \<le> 16 then Some (0x5A, bs) else None })"

lemma profile_identifier_eq:
  assumes "length s < 2147483648"
  shows "case profile_id s of None \<Rightarrow> profile_identifier s = Fail
    | Some (tag, bs) \<Rightarrow> \<exists>ident. profile_identifier s = Ret (tag, ident, of_nat (length bs)) \<and>
        take (length bs) ident = bs \<and> length bs \<le> 16"
proof (cases "length s = 32")
  case True
  then have "strlen s = 32" by (simp add: strlen_def)
  then show ?thesis
    using True length_unhex [of s]
    by (auto simp: profile_identifier_def profile_id_def euicc_hexutil_hex2bin_def euicc_hexutil_hex2bin_r_eq
        slice_ok_def slice_bytes_def split: option.splits)
next
  case False
  have "strlen s \<noteq> 32"
  proof
    assume "strlen s = 32"
    then have "unat (strlen s) = 32" by simp
    with False assms show False by (simp add: strlen_def)
  qed
  then have ident: "profile_identifier s = cbind (euicc_hexutil_gsmbcd2bin (replicate 16 0) 16 s 10)
      (\<lambda>(id_len, ident). Ret (0x5A, ident, of_nat id_len))"
    by (simp add: profile_identifier_def)
  show ?thesis
  proof (cases "unhex (swap_pairs (bcd_pad s))")
    case None
    with False assms show ?thesis
      by (simp add: ident profile_id_def iccid_bytes_def euicc_hexutil_gsmbcd2bin_eq)
  next
    case (Some bs)
    then have "length (bcd_pad s) div 2 = length bs" using length_unhex [OF Some] by simp
    with False Some assms show ?thesis
      by (auto simp: ident profile_id_def iccid_bytes_def euicc_hexutil_gsmbcd2bin_eq Let_def max_def)
  qed
qed

end
