(* ===== verification/Es8p.thy ===== *)
theory Es8p
  imports Es10c
begin

text \<open>\<open>euicc/es8p.c\<close>: the profile metadata the server sends, with Android's access rules.\<close>

subsection \<open>The code\<close>

record es8p_metadata_access_rule =
  ar_certificateHash :: "cstr option"
  ar_packageName :: "cstr option"

record es8p_metadata =
  md_iccid :: cbuf
  md_serviceProviderName :: "cstr option"
  md_profileName :: "cstr option"
  md_iconType :: es10c_icon_type
  md_icon :: "cstr option"
  md_profileClass :: es10c_profile_class
  md_accessRules :: "es8p_metadata_access_rule list"

definition access_rule_new :: es8p_metadata_access_rule where
  "access_rule_new = \<lparr>ar_certificateHash = None, ar_packageName = None\<rparr>"

definition metadata_new :: es8p_metadata where
  "metadata_new = \<lparr>md_iccid = replicate 21 0, md_serviceProviderName = None, md_profileName = None,
     md_iconType = ES10C_ICON_TYPE_NULL, md_icon = None, md_profileClass = ES10C_PROFILE_CLASS_NULL,
     md_accessRules = []\<rparr>"

text \<open>The search for the one REF-DO; \<open>s\<close> is \<open>n_ref_do\<close>, once it is found.\<close>

definition ref_do_child :: "der_node \<Rightarrow> der_node option \<Rightarrow> der_node option cres" where
  "ref_do_child n s =
     (if n_tag n = 0xE1 then (case s of Some _ \<Rightarrow> Fail | None \<Rightarrow> Ret (Some n)) else Ret s)"

definition access_rule_field :: "der_node \<Rightarrow> es8p_metadata_access_rule \<Rightarrow> es8p_metadata_access_rule cres" where
  "access_rule_field n rule =
     (if n_tag n = 0xC1 then
        (if ar_certificateHash rule \<noteq> None then Fail
         else cbind (euicc_hexutil_bin2hex (replicate (unat (n_length n * 2 + 1)) 0) (n_length n * 2 + 1)
             (n_value n) (n_length n)) (\<lambda>(k, s). Ret (rule\<lparr>ar_certificateHash := Some (cstr_of s)\<rparr>)))
      else if n_tag n = 0xCA then
        (if ar_packageName rule \<noteq> None then Fail
         else cbind (str_dup (n_value n) (n_length n)) (\<lambda>s. Ret (rule\<lparr>ar_packageName := Some s\<rparr>)))
      else Ret rule)"

definition access_rule_entry ::
  "der_node \<Rightarrow> es8p_metadata_access_rule list \<Rightarrow> es8p_metadata_access_rule list cres" where
  "access_rule_entry n rules =
     (if n_tag n \<noteq> 0xE2 then Ret rules
      else
        cbind (tlv_foreach (n_value n) (n_length n) ref_do_child None) (\<lambda>found.
        case found of
          None \<Rightarrow> Fail
        | Some n_ref_do \<Rightarrow>
            cbind (tlv_foreach (n_value n_ref_do) (n_length n_ref_do) access_rule_field access_rule_new)
              (\<lambda>rule.
            if ar_certificateHash rule = None then Fail else Ret (rules @ [rule]))))"

definition es8p_metadata_parse_access_rules ::
  "cptr \<Rightarrow> u32 \<Rightarrow> es8p_metadata_access_rule list cres" where
  "es8p_metadata_parse_access_rules buffer buffer_len = tlv_foreach buffer buffer_len access_rule_entry []"

definition metadata_field :: "der_node \<Rightarrow> es8p_metadata \<Rightarrow> es8p_metadata cres" where
  "metadata_field n p =
     (let v = n_value n; len = n_length n in
      if n_tag n = 0x5A then cbind (bcd_into (md_iccid p) 21 v len) (\<lambda>b. Ret (p\<lparr>md_iccid := b\<rparr>))
      else if n_tag n = 0x91 then cbind (str_dup v len) (\<lambda>s. Ret (p\<lparr>md_serviceProviderName := Some s\<rparr>))
      else if n_tag n = 0x92 then cbind (str_dup v len) (\<lambda>s. Ret (p\<lparr>md_profileName := Some s\<rparr>))
      else if n_tag n = 0x93 then cbind (bin2int v len) (\<lambda>i. Ret (p\<lparr>md_iconType := icon_type_of i\<rparr>))
      else if n_tag n = 0x94 then cbind (b64_dup v len) (\<lambda>s. Ret (p\<lparr>md_icon := Some s\<rparr>))
      else if n_tag n = 0x95 then cbind (bin2int v len) (\<lambda>i. Ret (p\<lparr>md_profileClass := profile_class_of i\<rparr>))
      else if n_tag n = 0xBF76 then
        cbind (es8p_metadata_parse_access_rules v len) (\<lambda>rules. Ret (p\<lparr>md_accessRules := rules\<rparr>))
      else Ret p)"

definition es8p_metadata_parse :: "cstr \<Rightarrow> es8p_metadata cres" where
  "es8p_metadata_parse b64_Metadata =
     cbind (b64_decode_dup b64_Metadata) (\<lambda>(metadata, metadata_len).
     cbind (euicc_derutil_unpack_find_tag 0xBF25 metadata metadata_len) (\<lambda>n_metadata.
     tlv_foreach (n_value n_metadata) (n_length n_metadata) metadata_field metadata_new))"

subsection \<open>What the parser computes\<close>

text \<open>The one element with a tag, if there is exactly one.\<close>

definition the_one :: "u16 \<Rightarrow> item list \<Rightarrow> byte list option" where
  "the_one tag items = (case filter (\<lambda>(t, v, e). t = tag) items of [(t, v, e)] \<Rightarrow> Some v | _ \<Rightarrow> None)"

text \<open>At most one element with a tag: \<open>None\<close> when there are more.\<close>

definition at_most_one :: "u16 \<Rightarrow> item list \<Rightarrow> byte list option option" where
  "at_most_one tag items =
     (case filter (\<lambda>(t, v, e). t = tag) items of [] \<Rightarrow> Some None | [(t, v, e)] \<Rightarrow> Some (Some v) | _ \<Rightarrow> None)"

definition access_rule_of :: "byte list \<Rightarrow> es8p_metadata_access_rule option" where
  "access_rule_of v =
     do { r \<leftarrow> the_one 0xE1 (tlv_items v); h \<leftarrow> the_one 0xC1 (tlv_items r);
          p \<leftarrow> at_most_one 0xCA (tlv_items r);
          Some \<lparr>ar_certificateHash = Some (hex_of h), ar_packageName = map_option cstr_of p\<rparr> }"

definition access_rules_of :: "byte list \<Rightarrow> es8p_metadata_access_rule list option" where
  "access_rules_of v =
     ofold (\<lambda>(t, w, e) l. if t = 0xE2 then map_option (\<lambda>r. l @ [r]) (access_rule_of w) else Some l)
       (tlv_items v) []"

definition metadata_item :: "item \<Rightarrow> es8p_metadata \<Rightarrow> es8p_metadata option" where
  "metadata_item = (\<lambda>(tag, v, e) p.
     if tag = 0x5A then Some (p\<lparr>md_iccid := put_bcd (md_iccid p) v\<rparr>)
     else if tag = 0x91 then Some (p\<lparr>md_serviceProviderName := Some (cstr_of v)\<rparr>)
     else if tag = 0x92 then Some (p\<lparr>md_profileName := Some (cstr_of v)\<rparr>)
     else if tag = 0x93 then Some (p\<lparr>md_iconType := icon_type_of (ucast (be_value64 v))\<rparr>)
     else if tag = 0x94 then Some (p\<lparr>md_icon := Some (b64_enc v)\<rparr>)
     else if tag = 0x95 then Some (p\<lparr>md_profileClass := profile_class_of (ucast (be_value64 v))\<rparr>)
     else if tag = 0xBF76 then map_option (\<lambda>r. p\<lparr>md_accessRules := r\<rparr>) (access_rules_of v)
     else Some p)"

definition metadata_spec :: "cstr \<Rightarrow> es8p_metadata option" where
  "metadata_spec b64 = do { v \<leftarrow> tlv_val 0xBF25 (b64_plain b64); ofold metadata_item (tlv_items v) metadata_new }"

definition metadata_safe :: "cstr \<Rightarrow> bool" where
  "metadata_safe b64 \<longleftrightarrow> (case tlv_val 0xBF25 (b64_plain b64) of None \<Rightarrow> True | Some v \<Rightarrow> no_empty_iccid v)"

lemma cfold_ref_do:
  "cfold ref_do_child ns s =
    (case (case s of None \<Rightarrow> [] | Some k \<Rightarrow> [k]) @ filter (\<lambda>n. n_tag n = 0xE1) ns of
       [] \<Rightarrow> Ret None | [m] \<Rightarrow> Ret (Some m) | _ \<Rightarrow> Fail)"
  by (induction ns arbitrary: s) (auto simp: ref_do_child_def split: option.splits list.splits)

lemma ref_do_cases:
  assumes "node_small n"
  obtains (found) m where "tlv_foreach (n_value n) (n_length n) ref_do_child None = Ret (Some m)"
      "node_small m" "the_one 0xE1 (tlv_items (node_val n)) = Some (node_val m)"
    | (none) "tlv_foreach (n_value n) (n_length n) ref_do_child None = Ret None"
      "the_one 0xE1 (tlv_items (node_val n)) = None"
    | (many) "tlv_foreach (n_value n) (n_length n) ref_do_child None = Fail"
      "the_one 0xE1 (tlv_items (node_val n)) = None"
proof -
  have s: "slice_small (n_value n) (n_length n)" using assms by simp
  obtain ns where ns: "map node_item ns = tlv_items (node_val n)" "\<forall>n \<in> set ns. node_ok n"
    "tlv_foreach (n_value n) (n_length n) ref_do_child None = cfold ref_do_child ns None"
    using tlv_foreach_eq [of "n_value n" "n_length n", where ?'s = "der_node option"] s
    by (fastforce simp: node_val_def)
  let ?fs = "filter (\<lambda>n. n_tag n = 0xE1) ns"
  have small: "node_small m" if "m \<in> set ?fs" for m
  proof (rule node_item_small [OF s])
    from that have "node_item m \<in> set (map node_item ns)" by simp
    then show "node_item m \<in> set (tlv_items (slice_bytes (n_value n) (n_length n)))"
      by (simp only: ns(1) node_val_def)
  qed (use that ns(2) in simp)
  have items: "filter (\<lambda>(t, v, e). t = 0xE1) (tlv_items (node_val n)) = map node_item ?fs"
    by (simp add: filter_map o_def node_item_eq flip: ns(1))
  consider "?fs = []" | m where "?fs = [m]" | m k fs where "?fs = m # k # fs"
    by (cases ?fs rule: list.exhaust [case_names Nil Cons]; cases "tl ?fs") auto
  then show ?thesis
  proof cases
    case 1
    then show ?thesis using ns(3) items by (intro none) (simp_all add: cfold_ref_do the_one_def)
  next
    case (2 m)
    then have "node_small m" using small by simp
    with 2 show ?thesis
      using ns(3) items by (intro found [of m]) (simp_all add: cfold_ref_do the_one_def node_item_eq)
  next
    case (3 m k fs)
    then show ?thesis
      using ns(3) items by (intro many) (simp_all add: cfold_ref_do the_one_def node_item_eq)
  qed
qed

definition rule_item :: "item \<Rightarrow> es8p_metadata_access_rule \<Rightarrow> es8p_metadata_access_rule option" where
  "rule_item = (\<lambda>(t, v, e) rule.
     if t = 0xC1 then
       (if ar_certificateHash rule \<noteq> None then None else Some (rule\<lparr>ar_certificateHash := Some (hex_of v)\<rparr>))
     else if t = 0xCA then
       (if ar_packageName rule \<noteq> None then None else Some (rule\<lparr>ar_packageName := Some (cstr_of v)\<rparr>))
     else Some rule)"

lemma access_rule_field_eq:
  assumes "node_small n"
  shows "access_rule_field n rule = opt_res (rule_item (node_item n) rule)"
proof -
  have s: "slice_small (n_value n) (n_length n)" using assms by simp
  have "cbind (euicc_hexutil_bin2hex (replicate (unat (n_length n * 2 + 1)) 0) (n_length n * 2 + 1)
      (n_value n) (n_length n)) (\<lambda>(k, s). Ret (f (cstr_of s))) = Ret (f (hex_of (node_val n)))" for f :: "cstr \<Rightarrow> es8p_metadata_access_rule"
    using hex_dup_eq [OF s]
    by (cases "euicc_hexutil_bin2hex (replicate (unat (n_length n * 2 + 1)) 0) (n_length n * 2 + 1)
      (n_value n) (n_length n)") (auto simp: hex_dup_def node_val_def)
  from this [of "\<lambda>s. rule\<lparr>ar_certificateHash := Some s\<rparr>"] s show ?thesis
    by (simp add: access_rule_field_def rule_item_def node_item_eq str_dup_eq node_val_def)
qed

text \<open>A member that may be set once: the values on offer, after what it holds.\<close>

definition once :: "'a option \<Rightarrow> 'a list \<Rightarrow> 'a option option" where
  "once cur xs = (case (case cur of None \<Rightarrow> [] | Some x \<Rightarrow> [x]) @ xs of
     [] \<Rightarrow> Some None | [x] \<Rightarrow> Some (Some x) | _ \<Rightarrow> None)"

lemma once_simps [simp]:
  "once cur [] = Some cur" "once (Some x) (y # ys) = None" "once None (y # ys) = once (Some y) ys"
  by (auto simp: once_def split: option.splits list.splits)

lemma rule_item_simps:
  "rule_item (0xC1, v, e) rule = (if ar_certificateHash rule = None
     then Some (rule\<lparr>ar_certificateHash := Some (hex_of v)\<rparr>) else None)"
  "rule_item (0xCA, v, e) rule = (if ar_packageName rule = None
     then Some (rule\<lparr>ar_packageName := Some (cstr_of v)\<rparr>) else None)"
  "t \<noteq> 0xC1 \<Longrightarrow> t \<noteq> 0xCA \<Longrightarrow> rule_item (t, v, e) rule = Some rule"
  by (simp_all add: rule_item_def)

lemma ofold_rule_item:
  "ofold rule_item items rule =
    do { h \<leftarrow> once (ar_certificateHash rule) (map (\<lambda>(t, v, e). hex_of v) (filter (\<lambda>(t, v, e). t = 0xC1) items));
         p \<leftarrow> once (ar_packageName rule) (map (\<lambda>(t, v, e). cstr_of v) (filter (\<lambda>(t, v, e). t = 0xCA) items));
         Some (rule\<lparr>ar_certificateHash := h, ar_packageName := p\<rparr>) }"
proof (induction items arbitrary: rule)
  case (Cons x items)
  obtain t v e where x: "x = (t, v, e)" by (cases x)
  consider "t = 0xC1" | "t = 0xCA" | "t \<noteq> 0xC1" "t \<noteq> 0xCA" by blast
  then show ?case
  proof cases
    case 1
    then show ?thesis by (cases "ar_certificateHash rule") (simp_all add: x rule_item_simps Cons.IH)
  next
    case 2
    then show ?thesis
      by (cases "ar_packageName rule")
        (simp_all add: x rule_item_simps Cons.IH split: Option.bind_splits)
  next
    case 3
    then show ?thesis by (simp add: x rule_item_simps Cons.IH)
  qed
qed simp

lemma access_rule_of_items:
  "Option.bind (ofold rule_item items access_rule_new) (\<lambda>r. if ar_certificateHash r = None then None else Some r) =
    do { h \<leftarrow> the_one 0xC1 items; p \<leftarrow> at_most_one 0xCA items;
         Some \<lparr>ar_certificateHash = Some (hex_of h), ar_packageName = map_option cstr_of p\<rparr> }"
  by (auto simp: ofold_rule_item the_one_def at_most_one_def once_def access_rule_new_def
      split: list.splits Option.bind_splits)

lemma access_rule_entry_eq:
  assumes "node_small n"
  shows "access_rule_entry n rules = opt_res
    ((\<lambda>(t, w, e) l. if t = 0xE2 then map_option (\<lambda>r. l @ [r]) (access_rule_of w) else Some l) (node_item n) rules)"
proof (cases "n_tag n = 0xE2")
  case True
  show ?thesis
  proof (cases rule: ref_do_cases [OF assms, case_names found none many])
    case (found m)
    have fields: "tlv_foreach (n_value m) (n_length m) access_rule_field access_rule_new =
        opt_res (ofold rule_item (tlv_items (node_val m)) access_rule_new)"
      unfolding node_val_def
      by (rule foreach_ofold) (use found(2) in \<open>simp_all add: access_rule_field_eq\<close>)
    have "access_rule_of (node_val n) = Option.bind (ofold rule_item (tlv_items (node_val m)) access_rule_new)
        (\<lambda>r. if ar_certificateHash r = None then None else Some r)"
      by (simp add: access_rule_of_def found(3) access_rule_of_items)
    with True found(1) show ?thesis
      by (cases "ofold rule_item (tlv_items (node_val m)) access_rule_new")
        (simp_all add: access_rule_entry_def fields node_item_eq)
  qed (use True in \<open>simp_all add: access_rule_entry_def access_rule_of_def node_item_eq\<close>)
qed (simp add: access_rule_entry_def node_item_eq)

lemma parse_access_rules_eq:
  "slice_small p len \<Longrightarrow>
    es8p_metadata_parse_access_rules p len = opt_res (access_rules_of (slice_bytes p len))"
  unfolding es8p_metadata_parse_access_rules_def access_rules_of_def
  by (rule foreach_ofold) (simp_all add: access_rule_entry_eq)

lemma metadata_field_eq:
  assumes "node_small n" "length (md_iccid p) = 21" "n_tag n = 0x5A \<Longrightarrow> node_val n \<noteq> []"
  shows "metadata_field n p = opt_res (metadata_item (node_item n) p)"
proof -
  have "n_length n \<noteq> 0" if "n_tag n = 0x5A"
    using assms(3) [OF that] by (auto simp: node_val_def slice_bytes_def)
  moreover have "cbind (opt_res x) (\<lambda>l. Ret (f l)) = opt_res (map_option f x)"
    for x and f :: "es8p_metadata_access_rule list \<Rightarrow> es8p_metadata"
    by (cases x) simp_all
  ultimately show ?thesis
    using assms(1,2)
    by (simp add: metadata_field_def metadata_item_def node_item_eq Let_def dup_eqs bcd_into_eq
        parse_access_rules_eq)
qed

lemma metadata_item_iccid:
  "metadata_item x p = Some p' \<Longrightarrow> length (md_iccid p) = 21 \<Longrightarrow> length (md_iccid p') = 21"
  by (cases x) (auto simp: metadata_item_def split: if_splits)

theorem es8p_metadata_parse_eq:
  assumes "length b64 < 0x40000000" "metadata_safe b64"
  shows "es8p_metadata_parse b64 = opt_res (metadata_spec b64)"
proof -
  obtain b n where b: "b64_decode_dup b64 = Ret (b, n)" "slice_small b n" "slice_bytes b n = b64_plain b64"
    using b64_decode_dup_eq [OF assms(1)] by blast
  show ?thesis
    unfolding es8p_metadata_parse_def metadata_spec_def b(1) cbind.simps prod.case b(3) [symmetric]
  proof (rule cbind_find_val [OF b(2)])
    fix m assume m: "node_small m" "tlv_val 0xBF25 (slice_bytes b n) = Some (node_val m)"
    with assms(2) have safe: "no_empty_iccid (node_val m)" by (simp add: metadata_safe_def b(3))
    show "tlv_foreach (n_value m) (n_length m) metadata_field metadata_new =
        opt_res (ofold metadata_item (tlv_items (node_val m)) metadata_new)"
      unfolding node_val_def
    proof (rule foreach_ofold_inv [where I = "\<lambda>p. length (md_iccid p) = 21"])
      fix k and p :: es8p_metadata
      assume k: "node_small k" "node_item k \<in> set (tlv_items (slice_bytes (n_value m) (n_length m)))"
        "length (md_iccid p) = 21"
      with safe show "metadata_field k p = opt_res (metadata_item (node_item k) p)"
        by (intro metadata_field_eq) (auto simp: no_empty_iccid_def list_all_iff node_val_def node_item_eq)
    qed (use m(1) in \<open>auto simp: metadata_new_def dest: metadata_item_iccid\<close>)
  qed
qed

end
