(* ===== verification/Es10a.thy ===== *)
theory Es10a
  imports Es10x
begin

text \<open>\<open>euicc/es10a.c\<close>: the configured SM-DP+ and SM-DS addresses.\<close>

record es10a_euicc_configured_addresses =
  defaultDpAddress :: "cstr option"
  rootDsAddress :: "cstr option"

definition configured_addresses_zero :: es10a_euicc_configured_addresses where
  "configured_addresses_zero = \<lparr>defaultDpAddress = None, rootDsAddress = None\<rparr>"

definition parse_configured_addresses :: "cptr \<Rightarrow> u32 \<Rightarrow> es10a_euicc_configured_addresses cres" where
  "parse_configured_addresses respbuf resplen =
     cbind (euicc_derutil_unpack_find_tag 0xBF3C respbuf resplen) (\<lambda>n_Response.
     cbind (ctry (euicc_derutil_unpack_find_tag 0x80 (n_value n_Response) (n_length n_Response))
         (\<lambda>tmpnode. cbind (str_dup (n_value tmpnode) (n_length tmpnode)) (\<lambda>s. Ret (Some s))) (Ret None))
       (\<lambda>dp.
     cbind (ctry (euicc_derutil_unpack_find_tag 0x81 (n_value n_Response) (n_length n_Response))
         (\<lambda>tmpnode. cbind (str_dup (n_value tmpnode) (n_length tmpnode)) (\<lambda>s. Ret (Some s))) (Ret None))
       (\<lambda>ds. Ret \<lparr>defaultDpAddress = dp, rootDsAddress = ds\<rparr>)))"

definition es10a_get_euicc_configured_addresses ::
  "'d euicc_apdu_interface \<Rightarrow> 'd st \<Rightarrow> (es10a_euicc_configured_addresses cres \<times> 'd st) option" where
  "es10a_get_euicc_configured_addresses iface st =
     es10x_request iface (n_empty 0xBF3C) parse_configured_addresses st"

definition es10a_set_default_dp_address ::
  "'d euicc_apdu_interface \<Rightarrow> cstr \<Rightarrow> 'd st \<Rightarrow> (u32 cres \<times> 'd st) option" where
  "es10a_set_default_dp_address iface smdp st =
     es10x_request iface (n_cons 0xBF3F [n_leaf 0x80 smdp (strlen smdp)]) (parse_result 0xBF3F) st"

text \<open>\<open>NULL\<close> is passed over; otherwise the struct is zeroed.\<close>

definition es10a_euicc_configured_addresses_free ::
  "es10a_euicc_configured_addresses option \<Rightarrow> es10a_euicc_configured_addresses option" where
  "es10a_euicc_configured_addresses_free address = map_option (\<lambda>_. configured_addresses_zero) address"

subsection \<open>What the parser computes\<close>

definition addresses_spec :: "byte list \<Rightarrow> es10a_euicc_configured_addresses option" where
  "addresses_spec resp = do { r \<leftarrow> tlv_val 0xBF3C resp;
     Some \<lparr>defaultDpAddress = map_option cstr_of (tlv_val 0x80 r),
       rootDsAddress = map_option cstr_of (tlv_val 0x81 r)\<rparr> }"

lemma optional_string:
  assumes "slice_small p len"
  shows "ctry (euicc_derutil_unpack_find_tag tag p len)
      (\<lambda>n. cbind (str_dup (n_value n) (n_length n)) (\<lambda>s. Ret (Some s))) (Ret None) =
    Ret (map_option cstr_of (tlv_val tag (slice_bytes p len)))"
  by (subst ctry_find_val [OF assms, where g = "\<lambda>v. Some (Some (cstr_of v))" and h = "Some None"])
    (simp_all add: dup_eqs split: option.splits)

interpretation addresses: es10_parser parse_configured_addresses "\<lambda>_. True" addresses_spec
proof
  fix p len assume s: "slice_small p len"
  show "parse_configured_addresses p len = opt_res (addresses_spec (slice_bytes p len))"
    unfolding parse_configured_addresses_def addresses_spec_def
    by (rule cbind_find_val [OF s]) (simp add: optional_string node_val_def)
qed

end
