(* ===== verification/Es10b_Bpp.thy ===== *)
theory Es10b_Bpp
  imports Es10x
begin

text \<open>
  \<open>euicc/es10b.c\<close>, loading a bound profile package: the package is cut into the pieces SGP.22 prescribes,
  each piece is one \<open>es10x_command\<close>, and an answer that is not empty is a ProfileInstallationResult.

  These functions fill \<open>*result\<close> also when they fail, so they return \<open>Ret (ok, result)\<close>, with \<open>ok\<close> for
  \<open>fret == 0\<close>; \<open>Fail\<close> does not occur.
\<close>

subsection \<open>Data\<close>

datatype es10b_bpp_command_id =
  ES10B_BPP_COMMAND_ID_INITIALISE_SECURE_CHANNEL | ES10B_BPP_COMMAND_ID_CONFIGURE_ISDP
| ES10B_BPP_COMMAND_ID_STORE_METADATA | ES10B_BPP_COMMAND_ID_STORE_METADATA2
| ES10B_BPP_COMMAND_ID_REPLACE_SESSION_KEYS | ES10B_BPP_COMMAND_ID_LOAD_PROFILE_ELEMENTS
| ES10B_BPP_COMMAND_ID_UNDEFINED

text \<open>The two names for 13 in the source are one constructor.\<close>

datatype es10b_error_reason =
  ES10B_ERROR_REASON_INCORRECT_INPUT_VALUES | ES10B_ERROR_REASON_INVALID_SIGNATURE
| ES10B_ERROR_REASON_INVALID_TRANSACTION_ID | ES10B_ERROR_REASON_UNSUPPORTED_CRT_VALUES
| ES10B_ERROR_REASON_UNSUPPORTED_REMOTE_OPERATION_TYPE | ES10B_ERROR_REASON_UNSUPPORTED_PROFILE_CLASS
| ES10B_ERROR_REASON_SCP03T_STRUCTURE_ERROR | ES10B_ERROR_REASON_SCP03T_SECURITY_ERROR
| ES10B_ERROR_REASON_INSTALL_FAILED_DUE_TO_ICCID_ALREADY_EXISTS_ON_EUICC
| ES10B_ERROR_REASON_INSTALL_FAILED_DUE_TO_INSUFFICIENT_MEMORY_FOR_PROFILE
| ES10B_ERROR_REASON_INSTALL_FAILED_DUE_TO_INTERRUPTION
| ES10B_ERROR_REASON_INSTALL_FAILED_DUE_TO_PE_PROCESSING_ERROR
| ES10B_ERROR_REASON_INSTALL_FAILED_DUE_TO_DATA_MISMATCH
| ES10B_ERROR_REASON_TEST_PROFILE_INSTALL_FAILED_DUE_TO_INVALID_NAA_KEY
| ES10B_ERROR_REASON_PPR_NOT_ALLOWED | ES10B_ERROR_REASON_INSTALL_FAILED_DUE_TO_UNKNOWN_ERROR
| ES10B_ERROR_REASON_UNDEFINED

definition bpp_command_id_of :: "u64 \<Rightarrow> es10b_bpp_command_id" where
  "bpp_command_id_of tmpint =
     (if tmpint = 0 then ES10B_BPP_COMMAND_ID_INITIALISE_SECURE_CHANNEL
      else if tmpint = 1 then ES10B_BPP_COMMAND_ID_CONFIGURE_ISDP
      else if tmpint = 2 then ES10B_BPP_COMMAND_ID_STORE_METADATA
      else if tmpint = 3 then ES10B_BPP_COMMAND_ID_STORE_METADATA2
      else if tmpint = 4 then ES10B_BPP_COMMAND_ID_REPLACE_SESSION_KEYS
      else if tmpint = 5 then ES10B_BPP_COMMAND_ID_LOAD_PROFILE_ELEMENTS
      else ES10B_BPP_COMMAND_ID_UNDEFINED)"

definition error_reason_of :: "u64 \<Rightarrow> es10b_error_reason" where
  "error_reason_of tmpint =
     (if tmpint = 1 then ES10B_ERROR_REASON_INCORRECT_INPUT_VALUES
      else if tmpint = 2 then ES10B_ERROR_REASON_INVALID_SIGNATURE
      else if tmpint = 3 then ES10B_ERROR_REASON_INVALID_TRANSACTION_ID
      else if tmpint = 4 then ES10B_ERROR_REASON_UNSUPPORTED_CRT_VALUES
      else if tmpint = 5 then ES10B_ERROR_REASON_UNSUPPORTED_REMOTE_OPERATION_TYPE
      else if tmpint = 6 then ES10B_ERROR_REASON_UNSUPPORTED_PROFILE_CLASS
      else if tmpint = 7 then ES10B_ERROR_REASON_SCP03T_STRUCTURE_ERROR
      else if tmpint = 8 then ES10B_ERROR_REASON_SCP03T_SECURITY_ERROR
      else if tmpint = 9 then ES10B_ERROR_REASON_INSTALL_FAILED_DUE_TO_ICCID_ALREADY_EXISTS_ON_EUICC
      else if tmpint = 10 then ES10B_ERROR_REASON_INSTALL_FAILED_DUE_TO_INSUFFICIENT_MEMORY_FOR_PROFILE
      else if tmpint = 11 then ES10B_ERROR_REASON_INSTALL_FAILED_DUE_TO_INTERRUPTION
      else if tmpint = 12 then ES10B_ERROR_REASON_INSTALL_FAILED_DUE_TO_PE_PROCESSING_ERROR
      else if tmpint = 13 then ES10B_ERROR_REASON_INSTALL_FAILED_DUE_TO_DATA_MISMATCH
      else if tmpint = 14 then ES10B_ERROR_REASON_TEST_PROFILE_INSTALL_FAILED_DUE_TO_INVALID_NAA_KEY
      else if tmpint = 15 then ES10B_ERROR_REASON_PPR_NOT_ALLOWED
      else if tmpint = 127 then ES10B_ERROR_REASON_INSTALL_FAILED_DUE_TO_UNKNOWN_ERROR
      else ES10B_ERROR_REASON_UNDEFINED)"

record es10b_load_bound_profile_package_result =
  lr_seqNumber :: u64
  lr_iccid :: "cstr option"
  lr_bppCommandId :: es10b_bpp_command_id
  lr_errorReason :: es10b_error_reason

definition bpp_result_init :: es10b_load_bound_profile_package_result where
  "bpp_result_init = \<lparr>lr_seqNumber = 0, lr_iccid = None,
     lr_bppCommandId = ES10B_BPP_COMMAND_ID_UNDEFINED, lr_errorReason = ES10B_ERROR_REASON_UNDEFINED\<rparr>"

type_synonym bpp_outcome = "(bool \<times> es10b_load_bound_profile_package_result) cres"

subsection \<open>\<open>es10b_load_bound_profile_package_tx\<close>\<close>

text \<open>The nodes \<open>n_notificationMetadata\<close> and \<open>n_finalResult\<close>; each search that fails is a \<open>goto err\<close>.\<close>

definition installation_result_nodes :: "cptr \<Rightarrow> u32 \<Rightarrow> (der_node \<times> der_node) cres" where
  "installation_result_nodes respbuf resplen =
     cbind (euicc_derutil_unpack_find_tag 0xBF37 respbuf resplen) (\<lambda>tmpnode.
     cbind (euicc_derutil_unpack_find_tag 0xBF27 (n_value tmpnode) (n_length tmpnode)) (\<lambda>tmpnode.
     cbind (euicc_derutil_unpack_find_tag 0xBF2F (n_value tmpnode) (n_length tmpnode)) (\<lambda>n_notificationMetadata.
     cbind (euicc_derutil_unpack_find_tag 0xA2 (n_value tmpnode) (n_length tmpnode)) (\<lambda>tmpnode.
     cbind (euicc_derutil_unpack_first (n_value tmpnode) (n_length tmpnode)) (\<lambda>n_finalResult.
     Ret (n_notificationMetadata, n_finalResult))))))"

definition error_result_field ::
  "der_node \<Rightarrow> es10b_load_bound_profile_package_result \<Rightarrow> es10b_load_bound_profile_package_result cres" where
  "error_result_field n result =
     (if n_tag n = 0x80 then
        cbind (euicc_derutil_convert_bin2long (n_value n) (n_length n)) (\<lambda>tmpint.
        Ret (result\<lparr>lr_bppCommandId := bpp_command_id_of tmpint\<rparr>))
      else if n_tag n = 0x81 then
        cbind (euicc_derutil_convert_bin2long (n_value n) (n_length n)) (\<lambda>tmpint.
        Ret (result\<lparr>lr_errorReason := error_reason_of tmpint\<rparr>))
      else Ret result)"

definition parse_installation_result ::
  "cptr \<Rightarrow> u32 \<Rightarrow> es10b_load_bound_profile_package_result \<Rightarrow> bpp_outcome" where
  "parse_installation_result respbuf resplen result =
     (if resplen > 0 then
        ctry (installation_result_nodes respbuf resplen) (\<lambda>(meta, final).
          cbind (ctry (euicc_derutil_unpack_find_tag 0x80 (n_value meta) (n_length meta))
              (\<lambda>n. cbind (euicc_derutil_convert_bin2long (n_value n) (n_length n)) (\<lambda>v.
                Ret (result\<lparr>lr_seqNumber := v\<rparr>))) (Ret result)) (\<lambda>result.
          cbind (ctry (euicc_derutil_unpack_find_tag 0x5A (n_value meta) (n_length meta))
              (\<lambda>n. cbind (bcd_dup (n_value n) (n_length n)) (\<lambda>s. Ret (result\<lparr>lr_iccid := s\<rparr>)))
              (Ret result)) (\<lambda>result.
          if n_tag final = 0xA0 then Ret (True, result)
          else if n_tag final = 0xA1 then
            cbind (tlv_foreach (n_value final) (n_length final) error_result_field result) (\<lambda>result.
            Ret (False, result))
          else Ret (False, result))))
          (Ret (False, result))
      else Ret (True, result))"

definition es10b_load_bound_profile_package_tx ::
  "'d euicc_apdu_interface \<Rightarrow> cptr \<Rightarrow> u32 \<Rightarrow> 'd st \<Rightarrow> (bpp_outcome \<times> 'd st) option" where
  "es10b_load_bound_profile_package_tx iface reqbuf reqbuf_len st =
     Option.bind (es10x_command iface (ReqMem reqbuf) reqbuf_len st) (\<lambda>(r, st).
     Some (ctry r (\<lambda>(respbuf, resplen). parse_installation_result respbuf resplen bpp_result_init)
       (Ret (False, bpp_result_init)), st))"

subsection \<open>\<open>es10b_load_bound_profile_package_r\<close>\<close>

text \<open>\<open>if (tx(...) < 0) goto err;\<close> and \<open>if (find(...) < 0) goto err;\<close>\<close>

definition bpp_then ::
  "(bpp_outcome \<times> 'd st) option \<Rightarrow>
     (es10b_load_bound_profile_package_result \<Rightarrow> 'd st \<Rightarrow> (bpp_outcome \<times> 'd st) option) \<Rightarrow>
     (bpp_outcome \<times> 'd st) option" where
  "bpp_then m k = Option.bind m (\<lambda>(r, st). case r of
       Ret (ok, result) \<Rightarrow> if ok then k result st else Some (r, st)
     | Fail \<Rightarrow> Some (Fail, st)
     | UB \<Rightarrow> Some (UB, st))"

definition bpp_node ::
  "der_node cres \<Rightarrow> es10b_load_bound_profile_package_result \<Rightarrow> 'd st \<Rightarrow>
     (der_node \<Rightarrow> (bpp_outcome \<times> 'd st) option) \<Rightarrow> (bpp_outcome \<times> 'd st) option" where
  "bpp_node found result st k = (case found of
       Ret n \<Rightarrow> k n | Fail \<Rightarrow> Some (Ret (False, result), st) | UB \<Rightarrow> Some (UB, st))"

text \<open>The two \<open>while (euicc_derutil_unpack_next(&tmpchildnode, ...) == 0)\<close> loops.\<close>

function bpp_children ::
  "'d euicc_apdu_interface \<Rightarrow> cptr \<Rightarrow> u32 \<Rightarrow> der_node \<Rightarrow> es10b_load_bound_profile_package_result \<Rightarrow> 'd st \<Rightarrow>
     (bpp_outcome \<times> 'd st) option" where
  "bpp_children iface buffer len n result st =
     (case euicc_derutil_unpack_next n buffer len of
        UB \<Rightarrow> Some (UB, st)
      | Fail \<Rightarrow> Some (Ret (True, result), st)
      | Ret n' \<Rightarrow>
          bpp_then (es10b_load_bound_profile_package_tx iface (n_self_ptr n') (n_self_length n') st)
            (\<lambda>result st. bpp_children iface buffer len n' result st))"
  by pat_completeness auto
termination
  by (relation "measure (\<lambda>(iface, buffer, len, n, result, st). node_left n)")
    (auto dest: unpack_next_progress)

declare bpp_children.simps [simp del]

definition es10b_load_bound_profile_package_r ::
  "'d euicc_apdu_interface \<Rightarrow> es10b_load_bound_profile_package_result \<Rightarrow> cstr \<Rightarrow> 'd st \<Rightarrow>
     (bpp_outcome \<times> 'd st) option" where
  "es10b_load_bound_profile_package_r iface result b64_BoundProfilePackage st =
     (case b64_decode_dup b64_BoundProfilePackage of
        UB \<Rightarrow> Some (UB, st)
      | Fail \<Rightarrow> Some (Ret (False, result), st)
      | Ret (bpp, bpp_len) \<Rightarrow>
     bpp_node (euicc_derutil_unpack_find_tag 0xBF36 bpp bpp_len) result st (\<lambda>n_BPP.
     let find = (\<lambda>tag. euicc_derutil_unpack_find_tag tag (n_value n_BPP) (n_length n_BPP));
         tx = es10b_load_bound_profile_package_tx iface;
         children = (\<lambda>n. bpp_children iface (n_value n) (n_length n) (node_start (n_value n))) in
     bpp_node (find 0xBF23) result st (\<lambda>tmpnode.
     bpp_then (tx (n_self_ptr n_BPP)
       (of_nat (length (n_self_ptr n_BPP) - length (n_self_ptr tmpnode)) + n_self_length tmpnode) st)
       (\<lambda>result st.
     bpp_node (find 0xA0) result st (\<lambda>tmpnode.
     bpp_then (tx (n_self_ptr tmpnode) (n_self_length tmpnode) st) (\<lambda>result st.
     bpp_node (find 0xA1) result st (\<lambda>tmpnode.
     bpp_then (tx (n_self_ptr tmpnode) (of_nat (length (n_self_ptr tmpnode) - length (n_value tmpnode))) st)
       (\<lambda>result st.
     bpp_then (children tmpnode result st) (\<lambda>result st.
     bpp_then (case find 0xA2 of
         Ret tmpnode \<Rightarrow> tx (n_self_ptr tmpnode) (n_self_length tmpnode) st
       | Fail \<Rightarrow> Some (Ret (True, result), st)
       | UB \<Rightarrow> Some (UB, st)) (\<lambda>result st.
     bpp_node (find 0xA3) result st (\<lambda>tmpnode.
     bpp_then (tx (n_self_ptr tmpnode) (of_nat (length (n_self_ptr tmpnode) - length (n_value tmpnode))) st)
       (\<lambda>result st.
     children tmpnode result st))))))))))))"

end
