(* ===== verification/Tostr.thy ===== *)
theory Tostr
  imports Es10c Es10b_Notification Es10b_Bpp
begin

text \<open>
  \<open>euicc/tostr.c\<close>: the names of the enumeration values; \<open>None\<close> is \<open>NULL\<close>. The values of the model's
  datatypes are the named ones, so the fallback \<open>"(no_str_available)"\<close> is not reached.
\<close>

fun euicc_profilestate2str :: "es10c_profile_state \<Rightarrow> cstr option" where
  "euicc_profilestate2str ES10C_PROFILE_STATE_NULL = None"
| "euicc_profilestate2str ES10C_PROFILE_STATE_DISABLED = Some (cstr ''disabled'')"
| "euicc_profilestate2str ES10C_PROFILE_STATE_ENABLED = Some (cstr ''enabled'')"
| "euicc_profilestate2str ES10C_PROFILE_STATE_UNDEFINED = Some (cstr ''unknown'')"

fun euicc_profileclass2str :: "es10c_profile_class \<Rightarrow> cstr option" where
  "euicc_profileclass2str ES10C_PROFILE_CLASS_NULL = None"
| "euicc_profileclass2str ES10C_PROFILE_CLASS_TEST = Some (cstr ''test'')"
| "euicc_profileclass2str ES10C_PROFILE_CLASS_PROVISIONING = Some (cstr ''provisioning'')"
| "euicc_profileclass2str ES10C_PROFILE_CLASS_OPERATIONAL = Some (cstr ''operational'')"
| "euicc_profileclass2str ES10C_PROFILE_CLASS_UNDEFINED = Some (cstr ''unknown'')"

fun euicc_icontype2str :: "es10c_icon_type \<Rightarrow> cstr option" where
  "euicc_icontype2str ES10C_ICON_TYPE_NULL = None"
| "euicc_icontype2str ES10C_ICON_TYPE_JPEG = Some (cstr ''jpeg'')"
| "euicc_icontype2str ES10C_ICON_TYPE_PNG = Some (cstr ''png'')"
| "euicc_icontype2str ES10C_ICON_TYPE_UNDEFINED = Some (cstr ''unknown'')"

fun euicc_profilemanagementoperation2str :: "es10b_profile_management_operation \<Rightarrow> cstr option" where
  "euicc_profilemanagementoperation2str ES10B_PROFILE_MANAGEMENT_OPERATION_NULL = None"
| "euicc_profilemanagementoperation2str ES10B_PROFILE_MANAGEMENT_OPERATION_INSTALL = Some (cstr ''install'')"
| "euicc_profilemanagementoperation2str ES10B_PROFILE_MANAGEMENT_OPERATION_ENABLE = Some (cstr ''enable'')"
| "euicc_profilemanagementoperation2str ES10B_PROFILE_MANAGEMENT_OPERATION_DISABLE = Some (cstr ''disable'')"
| "euicc_profilemanagementoperation2str ES10B_PROFILE_MANAGEMENT_OPERATION_DELETE = Some (cstr ''delete'')"
| "euicc_profilemanagementoperation2str ES10B_PROFILE_MANAGEMENT_OPERATION_UNDEFINED = Some (cstr ''unknown'')"

fun euicc_bppcommandid2str :: "es10b_bpp_command_id \<Rightarrow> cstr" where
  "euicc_bppcommandid2str ES10B_BPP_COMMAND_ID_INITIALISE_SECURE_CHANNEL = cstr ''initialise_secure_channel''"
| "euicc_bppcommandid2str ES10B_BPP_COMMAND_ID_CONFIGURE_ISDP = cstr ''configure_isdp''"
| "euicc_bppcommandid2str ES10B_BPP_COMMAND_ID_STORE_METADATA = cstr ''store_metadata''"
| "euicc_bppcommandid2str ES10B_BPP_COMMAND_ID_STORE_METADATA2 = cstr ''store_metadata2''"
| "euicc_bppcommandid2str ES10B_BPP_COMMAND_ID_REPLACE_SESSION_KEYS = cstr ''replace_session_keys''"
| "euicc_bppcommandid2str ES10B_BPP_COMMAND_ID_LOAD_PROFILE_ELEMENTS = cstr ''load_profile_elements''"
| "euicc_bppcommandid2str ES10B_BPP_COMMAND_ID_UNDEFINED = cstr ''unknown''"

fun euicc_errorreason2str :: "es10b_error_reason \<Rightarrow> cstr" where
  "euicc_errorreason2str ES10B_ERROR_REASON_INCORRECT_INPUT_VALUES = cstr ''incorrect_input_values''"
| "euicc_errorreason2str ES10B_ERROR_REASON_INVALID_SIGNATURE = cstr ''invalid_signature''"
| "euicc_errorreason2str ES10B_ERROR_REASON_INVALID_TRANSACTION_ID = cstr ''invalid_transaction_id''"
| "euicc_errorreason2str ES10B_ERROR_REASON_UNSUPPORTED_CRT_VALUES = cstr ''unsupported_crt_values''"
| "euicc_errorreason2str ES10B_ERROR_REASON_UNSUPPORTED_REMOTE_OPERATION_TYPE =
     cstr ''unsupported_remote_operation_type''"
| "euicc_errorreason2str ES10B_ERROR_REASON_UNSUPPORTED_PROFILE_CLASS = cstr ''unsupported_profile_class''"
| "euicc_errorreason2str ES10B_ERROR_REASON_SCP03T_STRUCTURE_ERROR = cstr ''scp03t_structure_error''"
| "euicc_errorreason2str ES10B_ERROR_REASON_SCP03T_SECURITY_ERROR = cstr ''scp03t_security_error''"
| "euicc_errorreason2str ES10B_ERROR_REASON_INSTALL_FAILED_DUE_TO_ICCID_ALREADY_EXISTS_ON_EUICC =
     cstr ''install_failed_due_to_iccid_already_exists_on_euicc''"
| "euicc_errorreason2str ES10B_ERROR_REASON_INSTALL_FAILED_DUE_TO_INSUFFICIENT_MEMORY_FOR_PROFILE =
     cstr ''install_failed_due_to_insufficient_memory_for_profile''"
| "euicc_errorreason2str ES10B_ERROR_REASON_INSTALL_FAILED_DUE_TO_INTERRUPTION =
     cstr ''install_failed_due_to_interruption''"
| "euicc_errorreason2str ES10B_ERROR_REASON_INSTALL_FAILED_DUE_TO_PE_PROCESSING_ERROR =
     cstr ''install_failed_due_to_pe_processing_error''"
| "euicc_errorreason2str ES10B_ERROR_REASON_INSTALL_FAILED_DUE_TO_DATA_MISMATCH =
     cstr ''install_failed_due_to_data_mismatch''"
| "euicc_errorreason2str ES10B_ERROR_REASON_TEST_PROFILE_INSTALL_FAILED_DUE_TO_INVALID_NAA_KEY =
     cstr ''test_profile_install_failed_due_to_invalid_naa_key''"
| "euicc_errorreason2str ES10B_ERROR_REASON_PPR_NOT_ALLOWED = cstr ''ppr_not_allowed''"
| "euicc_errorreason2str ES10B_ERROR_REASON_INSTALL_FAILED_DUE_TO_UNKNOWN_ERROR =
     cstr ''install_failed_due_to_unknown_error''"
| "euicc_errorreason2str ES10B_ERROR_REASON_UNDEFINED = cstr ''unknown''"

end
