(* ===== verification/Es10c_Props.thy ===== *)
theory Es10c_Props
  imports Es10_Answers Es10c_Ex Es8p Es10a Tostr
begin

text \<open>
  The properties of the local management functions (\<open>euicc/es10a.c\<close>, \<open>es10c.c\<close>, \<open>es10c_ex.c\<close>) and of the
  metadata parser (\<open>es8p.c\<close>). \<open>card_gives iface ctx req d resp d'\<close> says that the card, sent the request
  \<open>req\<close>, gives the answer \<open>resp\<close>, with the driver going from \<open>d\<close> to \<open>d'\<close>.
\<close>

text \<open>
  C25. \<open>es10c_get_profiles_info\<close> sends the request \<open>BF2D00\<close> and returns the profiles of the card's answer:
  it fails exactly when the answer has no \<open>BF2D\<close> with an \<open>A0\<close> inside, it never accesses memory out of
  bounds as long as no ICCID in the answer is empty, and it changes nothing of the context but the APDU
  buffers.
\<close>

theorem es10c_get_profiles_info_returns:
  assumes "small_answers iface" "wf_ctx ctx" "es10x_mss ctx \<noteq> 0"
    and "card_gives iface ctx (tlv 0xBF2D []) d resp d'" "length resp < 0x40000000" "profiles_safe resp"
  shows "\<exists>ctx'. es10c_get_profiles_info iface (ctx, d) = Some (opt_res (profiles_spec resp), ctx', d') \<and>
    same_session ctx ctx'"
  unfolding es10c_get_profiles_info_def
  using assms by (intro profiles.request_spec) (simp_all add: length_tlv_le)

text \<open>Profiles as a card encodes them; the strings in C form have no NUL.\<close>

record profile =
  pr_iccid :: "byte list"
  pr_aid :: "byte list"
  pr_state :: byte
  pr_nickname :: "byte list"
  pr_provider :: "byte list"
  pr_name :: "byte list"
  pr_class :: byte

definition profile_content :: "profile \<Rightarrow> byte list" where
  "profile_content p = (tlv 0x5A (pr_iccid p) @ tlv 0x4F (pr_aid p) @ tlv 0x9F70 [pr_state p] @
     tlv 0x90 (pr_nickname p) @ tlv 0x91 (pr_provider p) @ tlv 0x92 (pr_name p) @ tlv 0x95 [pr_class p])"

abbreviation profile_enc :: "profile \<Rightarrow> byte list" where
  "profile_enc p \<equiv> tlv 0xE3 (profile_content p)"

definition profiles_enc :: "profile list \<Rightarrow> byte list" where
  "profiles_enc ps = tlv 0xBF2D (tlv 0xA0 (concat (map (\<lambda>p. profile_enc p) ps)))"

definition profile_fits :: "profile \<Rightarrow> bool" where
  "profile_fits p \<longleftrightarrow> 0 < length (pr_iccid p) \<and> length (pr_iccid p) \<le> 10 \<and> length (pr_aid p) \<le> 16 \<and>
     length (pr_nickname p) \<le> 64 \<and> length (pr_provider p) \<le> 32 \<and> length (pr_name p) \<le> 64 \<and>
     0 \<notin> set (pr_nickname p) \<and> 0 \<notin> set (pr_provider p) \<and> 0 \<notin> set (pr_name p)"

text \<open>What the caller reads from the entry of the list.\<close>

definition shows_profile :: "es10c_profile_info_list \<Rightarrow> profile \<Rightarrow> bool" where
  "shows_profile e p \<longleftrightarrow> cstr_of (pi_iccid e) = bcd_of (pr_iccid p) \<and> cstr_of (pi_isdpAid e) = hex_of (pr_aid p) \<and>
     pi_profileState e = profile_state_of (ucast (pr_state p)) \<and>
     pi_profileNickname e = Some (pr_nickname p) \<and> pi_serviceProviderName e = Some (pr_provider p) \<and>
     pi_profileName e = Some (pr_name p) \<and> pi_profileClass e = profile_class_of (ucast (pr_class p)) \<and>
     pi_iconType e = ES10C_ICON_TYPE_NULL \<and> pi_icon e = None"

lemma cstr_of_id: "0 \<notin> set s \<Longrightarrow> cstr_of s = s"
  by (induction s) (simp_all add: cstr_of_def)

lemma length_profile_content:
  assumes "profile_fits p"
  shows "length (profile_content p) < 256"
  using assms length_tlv(1) [of "0x5A" "pr_iccid p"] length_tlv(1) [of "0x4F" "pr_aid p"]
    length_tlv(1) [of "0x9F70" "[pr_state p]"] length_tlv(1) [of "0x90" "pr_nickname p"]
    length_tlv(1) [of "0x91" "pr_provider p"] length_tlv(1) [of "0x92" "pr_name p"]
    length_tlv(1) [of "0x95" "[pr_class p]"]
  by (simp add: profile_content_def profile_fits_def)

lemma profile_items:
  assumes "profile_fits p"
  shows "tlv_items (profile_content p) = map (\<lambda>(t, v). (t, v, tlv t v))
    [(0x5A, pr_iccid p), (0x4F, pr_aid p), (0x9F70, [pr_state p]), (0x90, pr_nickname p),
     (0x91, pr_provider p), (0x92, pr_name p), (0x95, [pr_class p])]"
  using assms by (simp add: profile_content_def profile_fits_def tag_wf_def)

lemma profile_of_shows:
  assumes "profile_fits p"
  shows "shows_profile (profile_of (profile_content p)) p"
  using assms
  by (simp add: profile_of_def profile_items profile_item_def profile_info_new_def shows_profile_def
      profile_fits_def cstr_put_hex cstr_put_bcd cstr_of_id be_value64_byte)

lemma profiles_enc_spec:
  assumes "list_all profile_fits ps" "length (profiles_enc ps) < 0x40000000"
  shows "\<exists>es. profiles_spec (profiles_enc ps) = Some es \<and> list_all2 shows_profile es ps"
    "profiles_safe (profiles_enc ps)"
proof -
  define l where "l = concat (map (\<lambda>p. profile_enc p) ps)"
  have len: "length l < 4294967296" "length (tlv 0xA0 l) < 4294967296"
    using assms(2) length_tlv(2) [of l "0xA0"] length_tlv(2) [of "tlv 0xA0 l" "0xBF2D"]
    by (simp_all add: profiles_enc_def l_def)
  have items: "tlv_items l = map (\<lambda>p. (0xE3, profile_content p, profile_enc p)) ps"
    unfolding l_def
    by (rule tlv_items_concat)
      (use assms(1) in \<open>auto simp: tag_wf_def list_all_iff dest!: length_profile_content bspec\<close>)
  have vals: "tlv_val 0xBF2D (profiles_enc ps) = Some (tlv 0xA0 l)" "tlv_val 0xA0 (tlv 0xA0 l) = Some l"
    using len by (simp_all add: profiles_enc_def tag_wf_def flip: l_def)
  have "profiles_spec (profiles_enc ps) = Some (map (\<lambda>p. profile_of (profile_content p)) ps)"
    by (simp add: profiles_spec_def vals profiles_of_def vals_with_def items comp_def)
  moreover have "list_all2 shows_profile (map (\<lambda>p. profile_of (profile_content p)) ps) ps"
    using assms(1) by (simp add: list_all2_conv_all_nth list_all_length profile_of_shows)
  ultimately show "\<exists>es. profiles_spec (profiles_enc ps) = Some es \<and> list_all2 shows_profile es ps" by blast
  have "no_empty_iccid (profile_content p)" if "p \<in> set ps" for p
    using that assms(1) by (auto simp: no_empty_iccid_def list_all_iff profile_items profile_fits_def)
  then show "profiles_safe (profiles_enc ps)"
    by (auto simp: profiles_safe_def vals items list_all_iff)
qed

text \<open>
  Round trip of the list of profiles: when the card's answer encodes any number of profiles with
  fields of the sizes SGP.22 allows, \<open>es10c_get_profiles_info\<close> returns one entry per profile, in order,
  with the ICCID as digits, the AID in hexadecimal, and state, class and the three names as they are
  on the card.
\<close>

theorem es10c_get_profiles_info_roundtrip:
  assumes "small_answers iface" "wf_ctx ctx" "es10x_mss ctx \<noteq> 0"
    and "card_gives iface ctx (tlv 0xBF2D []) d (profiles_enc ps) d'"
    and "list_all profile_fits ps" "length (profiles_enc ps) < 0x40000000"
  shows "\<exists>es ctx'. es10c_get_profiles_info iface (ctx, d) = Some (Ret es, ctx', d') \<and>
    list_all2 shows_profile es ps \<and> same_session ctx ctx'"
proof -
  obtain es where es: "profiles_spec (profiles_enc ps) = Some es" "list_all2 shows_profile es ps"
    using profiles_enc_spec(1) [OF assms(5,6)] by blast
  have "\<exists>ctx'. es10c_get_profiles_info iface (ctx, d) =
      Some (opt_res (profiles_spec (profiles_enc ps)), ctx', d') \<and> same_session ctx ctx'"
    unfolding es10c_get_profiles_info_def
    using assms profiles_enc_spec(2) [OF assms(5,6)]
    by (intro profiles.request_spec) (simp_all add: length_tlv_le)
  with es show ?thesis by auto
qed

definition demo_profile :: profile where
  "demo_profile = \<lparr>pr_iccid = [0x98, 0x10], pr_aid = [0xA0, 0x00], pr_state = 1, pr_nickname = [0x41],
     pr_provider = [0x42], pr_name = [], pr_class = 2\<rparr>"

lemma demo_profile_facts:
  "list_all profile_fits [demo_profile, demo_profile]"
  "length (profiles_enc [demo_profile, demo_profile]) < 60000"
  by (simp_all add: demo_profile_def profile_fits_def profiles_enc_def profile_content_def tlv_def tag_bytes_def
      len_bytes_def)

theorem es10c_get_profiles_info_roundtrip_witness:
  "\<exists>es ctx'. es10c_get_profiles_info script_card
      (demo_ctx, [profiles_enc [demo_profile, demo_profile] @ [0x90, 0]]) = Some (Ret es, ctx', []) \<and>
    list_all2 shows_profile es [demo_profile, demo_profile]"
proof -
  have "card_gives script_card demo_ctx (tlv 0xBF2D []) [profiles_enc [demo_profile, demo_profile] @ [0x90, 0]]
      (profiles_enc [demo_profile, demo_profile]) []"
    by (rule demo_gives) (use demo_profile_facts(2) in simp_all)
  from es10c_get_profiles_info_roundtrip [OF script_card_small demo_ctx_wf this demo_profile_facts(1)]
    demo_profile_facts(2)
  show ?thesis by auto
qed

theorem es10c_get_profiles_info_returns_witness:
  "\<exists>ctx'. es10c_get_profiles_info script_card (demo_ctx, [tlv 0xBF2D (tlv 0x81 []) @ [0x90, 0]]) =
     Some (Fail, ctx', []) \<and> same_session demo_ctx ctx'"
proof -
  let ?resp = "tlv 0xBF2D (tlv 0x81 [])"
  have len: "length ?resp \<le> 14" by (intro length_tlv_le) (simp add: length_tlv_le)
  have gives: "card_gives script_card demo_ctx (tlv 0xBF2D []) [?resp @ [0x90, 0]] ?resp []"
    by (rule demo_gives) (use len in simp_all)
  have "tlv_val 0xBF2D ?resp = Some (tlv 0x81 [])"
    using length_tlv(1) [of "0x81" "[]"] by (simp add: tag_wf_def)
  then have "profiles_spec ?resp = None" "profiles_safe ?resp"
    by (simp_all add: profiles_spec_def profiles_safe_def tlv_val_other tag_wf_def)
  with es10c_get_profiles_info_returns [OF script_card_small demo_ctx_wf gives] len show ?thesis by simp
qed

text \<open>The request of an operation on a profile; \<open>flag\<close> is the refresh flag, where the operation has one.\<close>

definition profile_request :: "u16 \<Rightarrow> byte option \<Rightarrow> u16 \<times> byte list \<Rightarrow> byte list" where
  "profile_request op_tag flag = (\<lambda>(tag, bs). tlv op_tag (case flag of
     None \<Rightarrow> tlv tag bs | Some b \<Rightarrow> tlv 0xA0 (tlv tag bs) @ tlv 0x81 [b]))"

text \<open>
  What \<open>run\<close> of an operation on the profile named \<open>ident\<close> has to be: nothing is sent when \<open>ident\<close> is
  neither an AID nor an ICCID; otherwise the request names the profile, and the card's result is returned.
\<close>

definition profile_op_ok ::
  "'d euicc_apdu_interface \<Rightarrow> euicc_ctx \<Rightarrow> 'd \<Rightarrow> cstr \<Rightarrow> u16 \<Rightarrow> byte option \<Rightarrow>
     (u32 cres \<times> 'd st) option \<Rightarrow> bool" where
  "profile_op_ok iface ctx d ident op_tag flag run \<longleftrightarrow> (case profile_id ident of
     None \<Rightarrow> run = Some (Fail, ctx, d)
   | Some i \<Rightarrow> (\<forall>resp d'. card_gives iface ctx (profile_request op_tag flag i) d resp d' \<longrightarrow>
       length resp < 0x40000000 \<longrightarrow>
       (\<exists>ctx'. run = Some (opt_res (result_spec op_tag resp), ctx', d') \<and> same_session ctx ctx')))"

lemma profile_op_tree:
  fixes op_tag tag rf
  assumes "length bs \<le> 16" "take (length bs) ident = bs"
  defines "t \<equiv> profile_op_request op_tag (tag, ident, of_nat (length bs)) rf"
  shows "pack_ok t" "length (der_enc t) \<le> 255"
    "der_enc t = profile_request op_tag
      (if rf AND 0x80 = 0 then None else Some (if rf AND 0x7F = 0 then 0 else 0xFF)) (tag, bs)"
proof -
  have "length bs \<le> length ident" using arg_cong [OF assms(2), of length] by simp
  with assms(1) show "pack_ok t" by (simp add: t_def profile_op_request_def slice_ok_def Let_def)
  have "slice_bytes ident (of_nat (length bs)) = bs" using assms(1,2) by (simp add: slice_bytes_def)
  then show enc: "der_enc t = profile_request op_tag
      (if rf AND 0x80 = 0 then None else Some (if rf AND 0x7F = 0 then 0 else 0xFF)) (tag, bs)"
    by (simp add: t_def profile_op_request_def profile_request_def Let_def slice_bytes_def)
  show "length (der_enc t) \<le> 255"
    unfolding enc using assms(1) length_tlv(1) [of tag bs] length_tlv(1) [of "0xA0" "tlv tag bs"]
      length_tlv(1) [of "0x81" "[0]"] length_tlv(1) [of "0x81" "[0xFF]"]
    by (auto simp: profile_request_def intro!: length_tlv_le)
qed

lemma profile_op_run:
  assumes "small_answers iface" "wf_ctx ctx" "es10x_mss ctx \<noteq> 0" "length ident < 2147483648"
  shows "profile_op_ok iface ctx d ident op_tag
    (if rf AND 0x80 = 0 then None else Some (if rf AND 0x7F = 0 then 0 else 0xFF))
    (es10c_enable_disable_delete_profile iface op_tag ident rf (ctx, d))"
proof (cases "profile_id ident")
  case None
  with profile_identifier_eq [OF assms(4)] show ?thesis
    by (simp add: profile_op_ok_def es10c_enable_disable_delete_profile_def)
next
  case (Some i)
  then obtain tag bs idb where i: "profile_id ident = Some (tag, bs)" "i = (tag, bs)"
    and p: "profile_identifier ident = Ret (tag, idb, of_nat (length bs))"
      "take (length bs) idb = bs" "length bs \<le> 16"
    using profile_identifier_eq [OF assms(4)] by (cases i) fastforce
  show ?thesis
    unfolding profile_op_ok_def es10c_enable_disable_delete_profile_def p(1) i(1) option.case cres.case
      profile_op_tree(3) [OF p(3,2), symmetric]
    using result_request [OF assms(1-3) profile_op_tree(1,2) [OF p(3,2)]] by simp
qed

text \<open>
  C32. Enabling, disabling and deleting a profile: an identifier of 32 characters is an AID in
  hexadecimal, any other an ICCID in digits; a string that is neither is refused with nothing sent.
  Otherwise the card gets \<open>BF31\<close>, \<open>BF32\<close> or \<open>BF33\<close> with the identifier (the first two with the refresh
  flag 00 or FF), and the number in the card's answer is returned.
\<close>

theorem es10c_profile_operations:
  assumes "small_answers iface" "wf_ctx ctx" "es10x_mss ctx \<noteq> 0" "length ident < 2147483648"
  shows "profile_op_ok iface ctx d ident 0xBF31 (Some (if rf = 0 then 0 else 0xFF))
      (es10c_enable_profile iface ident rf (ctx, d)) \<and>
    profile_op_ok iface ctx d ident 0xBF32 (Some (if rf = 0 then 0 else 0xFF))
      (es10c_disable_profile iface ident rf (ctx, d)) \<and>
    profile_op_ok iface ctx d ident 0xBF33 None (es10c_delete_profile iface ident (ctx, d))"
  using profile_op_run [OF assms, of d "0xBF31" "if rf = 0 then 0x80 else 0xFF"]
    profile_op_run [OF assms, of d "0xBF32" "if rf = 0 then 0x80 else 0xFF"]
    profile_op_run [OF assms, of d "0xBF33" 0]
  by (auto simp: es10c_enable_profile_def es10c_disable_profile_def es10c_delete_profile_def split: if_splits)

lemma demo_profile_id: "profile_id [0x38, 0x39] = Some (0x5A, 0x98 # replicate 9 0xFF)"
  by code_simp

theorem es10c_profile_operations_witness:
  "(\<exists>ctx'. es10c_enable_profile script_card [0x38, 0x39] 1 (demo_ctx, [tlv 0xBF31 (tlv 0x80 [3]) @ [0x90, 0]]) =
      Some (Ret 3, ctx', [])) \<and>
    es10c_delete_profile script_card [0x38, 0x58] (demo_ctx, []) = Some (Fail, demo_ctx, [])"
proof -
  note ops = es10c_profile_operations [OF script_card_small demo_ctx_wf]
  let ?resp = "tlv 0xBF31 (tlv 0x80 [3])"
  have len: "length ?resp < 65534"
    using length_tlv(1) [of "0xBF31" "tlv 0x80 [3]"] length_tlv(1) [of "0x80" "[3]"] by simp
  have small: "length (tlv 0x5A (0x98 # replicate 9 0xFF)) \<le> 17" "length (tlv 0x81 [0xFF]) \<le> 8"
    by (rule length_tlv_le, simp)+
  then have "length (tlv 0xA0 (tlv 0x5A (0x98 # replicate 9 0xFF))) \<le> 24" by (intro length_tlv_le) simp
  with small have "card_gives script_card demo_ctx (profile_request 0xBF31 (Some 0xFF) (0x5A, 0x98 # replicate 9 0xFF))
      [?resp @ [0x90, 0]] ?resp []"
    unfolding profile_request_def prod.case option.case by (intro demo_gives len) simp
  with ops [of "[0x38, 0x39]" "[?resp @ [0x90, 0]]" 1] len result_spec_byte [of "0xBF31" 3]
  have "\<exists>ctx'. es10c_enable_profile script_card [0x38, 0x39] 1 (demo_ctx, [?resp @ [0x90, 0]]) =
      Some (Ret 3, ctx', [])"
    by (fastforce simp: profile_op_ok_def demo_profile_id tag_wf_def)
  moreover have "profile_id [0x38, 0x58] = None" by code_simp
  with ops [of "[0x38, 0x58]" "[]"]
  have "es10c_delete_profile script_card [0x38, 0x58] (demo_ctx, []) = Some (Fail, demo_ctx, [])"
    by (simp add: profile_op_ok_def)
  ultimately show ?thesis by blast
qed

text \<open>The ten bytes of an ICCID as \<open>es10c_set_nickname\<close> sends them.\<close>

definition iccid10 :: "cstr \<Rightarrow> byte list option" where
  "iccid10 s = Option.bind (iccid_bytes s) (\<lambda>bs. if length bs \<le> 10 then Some bs else None)"

lemma iccid10_eq:
  assumes "length s < 2147483648"
  shows "case iccid10 s of None \<Rightarrow> euicc_hexutil_gsmbcd2bin (replicate 10 0) 10 s 10 = Fail
    | Some bs \<Rightarrow> euicc_hexutil_gsmbcd2bin (replicate 10 0) 10 s 10 = Ret (10, bs) \<and> length bs = 10"
proof (cases "unhex (swap_pairs (bcd_pad s))")
  case None
  with assms show ?thesis by (simp add: iccid10_def iccid_bytes_def euicc_hexutil_gsmbcd2bin_eq)
next
  case (Some bs)
  then have "length (bcd_pad s) div 2 = length bs" using length_unhex [OF Some] by simp
  with Some assms show ?thesis
    by (auto simp: iccid10_def iccid_bytes_def euicc_hexutil_gsmbcd2bin_eq Let_def max_def)
qed

definition nickname_request :: "byte list \<Rightarrow> cstr \<Rightarrow> byte list" where
  "nickname_request bs nick = tlv 0xBF29 (tlv 0x5A bs @ tlv 0x90 nick)"

lemma length_nickname_request:
  assumes "length bs = 10" "length nick < 2147483648"
  shows "length (nickname_request bs nick) \<le> 255 \<longleftrightarrow> length nick \<le> 236"
    "length (nickname_request bs nick) < 4294967296"
proof -
  let ?c = "tlv 0x5A bs @ tlv 0x90 nick"
  have iccid: "length (tlv 0x5A bs) = 12" using assms(1) by (simp add: length_tlv_exact)
  show "length (nickname_request bs nick) < 4294967296"
    using assms(2) iccid length_tlv(1) [of "0x90" nick] length_tlv(1) [of "0xBF29" ?c]
    by (simp add: nickname_request_def)
  show "length (nickname_request bs nick) \<le> 255 \<longleftrightarrow> length nick \<le> 236"
  proof (cases "length ?c < 256 \<and> length nick < 256")
    case True
    then show ?thesis using iccid by (auto simp: nickname_request_def length_tlv_exact split: if_splits)
  next
    case False
    then have "255 < length (nickname_request bs nick)"
      using length_tlv(2) [of ?c "0xBF29"] length_tlv(2) [of nick "0x90"] by (auto simp: nickname_request_def)
    moreover have "length ?c < 256" if "length nick \<le> 236"
      using that iccid by (simp add: length_tlv_exact)
    ultimately show ?thesis using False by fastforce
  qed
qed

text \<open>
  Setting the nickname of a profile: an ICCID that is not at most twenty digits is refused, and so is a
  nickname of more than 236 bytes, which does not fit the request buffer of 255 bytes, with nothing
  sent in both cases; otherwise the card gets \<open>BF29\<close> with the ICCID padded to ten bytes and the
  nickname, and its result is returned.
\<close>

theorem es10c_set_nickname_returns:
  assumes "small_answers iface" "wf_ctx ctx" "es10x_mss ctx \<noteq> 0"
    and "length iccid < 2147483648" "length nick < 2147483648"
  shows "case iccid10 iccid of
      None \<Rightarrow> es10c_set_nickname iface iccid nick (ctx, d) = Some (Fail, ctx, d)
    | Some bs \<Rightarrow>
        if 236 < length nick then es10c_set_nickname iface iccid nick (ctx, d) = Some (Fail, ctx, d)
        else (\<forall>resp d'. card_gives iface ctx (nickname_request bs nick) d resp d' \<longrightarrow> length resp < 0x40000000 \<longrightarrow>
          (\<exists>ctx'. es10c_set_nickname iface iccid nick (ctx, d) = Some (opt_res (result_spec 0xBF29 resp), ctx', d') \<and>
             same_session ctx ctx'))"
proof (cases "iccid10 iccid")
  case None
  with iccid10_eq [OF assms(4)] show ?thesis by (simp add: es10c_set_nickname_def)
next
  case (Some bs)
  with iccid10_eq [OF assms(4)] have bs: "euicc_hexutil_gsmbcd2bin (replicate 10 0) 10 iccid 10 = Ret (10, bs)"
    "length bs = 10" by simp_all
  let ?t = "n_cons 0xBF29 [n_leaf 0x5A bs 10, n_leaf 0x90 nick (strlen nick)]"
  have "slice_bytes bs 10 = bs" "slice_bytes nick (strlen nick) = nick"
    using bs(2) assms(5) by (simp_all add: slice_bytes_def strlen_def)
  then have enc: "der_enc ?t = nickname_request bs nick" by (simp add: nickname_request_def)
  have ok: "pack_ok ?t" using bs(2) assms(5) by (simp add: slice_ok_def strlen_def)
  have run: "es10c_set_nickname iface iccid nick (ctx, d) = es10x_request iface ?t (parse_result 0xBF29) (ctx, d)"
    by (simp add: es10c_set_nickname_def bs(1))
  show ?thesis
    using request_too_long [OF assms(2) ok, of iface "parse_result 0xBF29" d]
      result_request [OF assms(1-3) ok] length_nickname_request [OF bs(2) assms(5)]
    unfolding Some option.case run enc by (cases "length nick \<le> 236") auto
qed

lemma demo_iccid10: "iccid10 [0x38, 0x39] = Some (0x98 # replicate 9 0xFF)"
  by code_simp

theorem es10c_set_nickname_returns_witness:
  "(\<exists>ctx'. es10c_set_nickname script_card [0x38, 0x39] [0x41, 0x42]
      (demo_ctx, [tlv 0xBF29 (tlv 0x80 [1]) @ [0x90, 0]]) = Some (Ret 1, ctx', [])) \<and>
    es10c_set_nickname script_card [0x38, 0x39] (replicate 237 0x41) (demo_ctx, []) = Some (Fail, demo_ctx, [])"
proof -
  note nick = es10c_set_nickname_returns [OF script_card_small demo_ctx_wf]
  let ?resp = "tlv 0xBF29 (tlv 0x80 [1])"
  have len: "length ?resp < 65534"
    using length_tlv(1) [of "0xBF29" "tlv 0x80 [1]"] length_tlv(1) [of "0x80" "[1]"] by simp
  have "card_gives script_card demo_ctx (nickname_request (0x98 # replicate 9 0xFF) [0x41, 0x42]) [?resp @ [0x90, 0]] ?resp []"
    unfolding nickname_request_def by (intro demo_gives len) (simp add: length_tlv_exact)
  with nick [of "[0x38, 0x39]" "[0x41, 0x42]" "[?resp @ [0x90, 0]]"] len result_spec_byte [of "0xBF29" 1]
  have "\<exists>ctx'. es10c_set_nickname script_card [0x38, 0x39] [0x41, 0x42] (demo_ctx, [?resp @ [0x90, 0]]) =
      Some (Ret 1, ctx', [])"
    by (fastforce simp: demo_iccid10 tag_wf_def)
  moreover have "es10c_set_nickname script_card [0x38, 0x39] (replicate 237 0x41) (demo_ctx, []) = Some (Fail, demo_ctx, [])"
    using nick [of "[0x38, 0x39]" "replicate 237 0x41" "[]"] by (simp add: demo_iccid10)
  ultimately show ?thesis by blast
qed

text \<open>
  \<open>es10c_get_eid\<close> asks for the tag \<open>5A\<close> (\<open>BF3E035C015A\<close>) and returns the EID of the card's answer in
  hexadecimal; it fails exactly when the answer has no \<open>BF3E\<close> with a \<open>5A\<close> inside.
\<close>

theorem es10c_get_eid_returns:
  assumes "small_answers iface" "wf_ctx ctx" "es10x_mss ctx \<noteq> 0"
    and "card_gives iface ctx [0xBF, 0x3E, 0x03, 0x5C, 0x01, 0x5A] d resp d'" "length resp < 0x40000000"
  shows "\<exists>ctx'. es10c_get_eid iface (ctx, d) = Some (opt_res (eid_spec resp), ctx', d') \<and>
    same_session ctx ctx'"
proof -
  let ?t = "n_cons 0xBF3E [n_leaf 0x5C [0x5A] 1]"
  have "der_enc ?t = [0xBF, 0x3E, 0x03, 0x5C, 0x01, 0x5A]" "pack_ok ?t"
    by (simp_all add: slice_bytes_def tlv_short tag_bytes_def slice_ok_def)
  with assms show ?thesis
    unfolding es10c_get_eid_def by (intro eid.request_spec) simp_all
qed

theorem es10c_get_eid_returns_witness:
  "\<exists>ctx'. es10c_get_eid script_card (demo_ctx, [tlv 0xBF3E (tlv 0x5A [0x89, 0x04]) @ [0x90, 0]]) =
     Some (Ret [0x38, 0x39, 0x30, 0x34], ctx', [])"
proof -
  let ?resp = "tlv 0xBF3E (tlv 0x5A [0x89, 0x04])"
  have len: "length ?resp < 65534" by (simp add: length_tlv_exact)
  have "card_gives script_card demo_ctx [0xBF, 0x3E, 0x03, 0x5C, 0x01, 0x5A] [?resp @ [0x90, 0]] ?resp []"
    by (rule script_gives) (use len in simp_all)
  moreover have "hex_of [0x89, 0x04] = [0x38, 0x39, 0x30, 0x34]" by code_simp
  then have "eid_spec ?resp = Some [0x38, 0x39, 0x30, 0x34]"
    by (simp add: eid_spec_def length_tlv_exact tag_wf_def)
  ultimately show ?thesis
    using es10c_get_eid_returns [OF script_card_small demo_ctx_wf, of "[?resp @ [0x90, 0]]" ?resp "[]"] len
    by auto
qed

text \<open>
  \<open>es10c_ex_get_euiccinfo2\<close> returns the information of the card's answer to \<open>BF2200\<close>: the version
  numbers, the capabilities whose bit is set, by name, both lists of key identifiers with as many
  entries as the card has (and the terminating \<open>NULL\<close>), and it never accesses memory out of bounds as
  long as the first byte of each bit string is between -23 and 8.
\<close>

theorem es10c_ex_get_euiccinfo2_returns:
  assumes "small_answers iface" "wf_ctx ctx" "es10x_mss ctx \<noteq> 0"
    and "card_gives iface ctx (tlv 0xBF22 []) d resp d'" "length resp < 0x40000000" "euiccinfo2_safe resp"
  shows "\<exists>ctx'. es10c_ex_get_euiccinfo2 iface (ctx, d) = Some (opt_res (euiccinfo2_spec resp), ctx', d') \<and>
    same_session ctx ctx'"
  unfolding es10c_ex_get_euiccinfo2_def
  using assms by (intro euiccinfo2.request_spec) (simp_all add: length_tlv_le)

theorem es10c_ex_get_euiccinfo2_returns_witness:
  "\<exists>info ctx'. es10c_ex_get_euiccinfo2 script_card
      (demo_ctx, [tlv 0xBF22 (tlv 0x82 [2, 10, 0] @ tlv 0xA9 (tlv 0x04 [0xF5])) @ [0x90, 0]]) = Some (Ret info, ctx', []) \<and>
    ei_svn info = Some (cstr ''2.10.0'') \<and> ei_euiccCiPKIdListForVerification info = Some [Some (cstr ''f5''), None]"
proof -
  let ?resp = "tlv 0xBF22 (tlv 0x82 [2, 10, 0] @ tlv 0xA9 (tlv 0x04 [0xF5]))"
  have len: "length ?resp < 65534" by (simp add: length_tlv_exact)
  have gives: "card_gives script_card demo_ctx (tlv 0xBF22 []) [?resp @ [0x90, 0]] ?resp []"
    by (rule demo_gives) (use len in simp_all)
  have val: "tlv_val 0xBF22 ?resp = Some (tlv 0x82 [2, 10, 0] @ tlv 0xA9 (tlv 0x04 [0xF5]))"
    by (simp add: length_tlv_exact tag_wf_def)
  have items: "tlv_items (tlv 0x82 [2, 10, 0] @ tlv 0xA9 (tlv 0x04 [0xF5])) =
      [(0x82, [2, 10, 0], tlv 0x82 [2, 10, 0]), (0xA9, tlv 0x04 [0xF5], tlv 0xA9 (tlv 0x04 [0xF5]))]"
    "tlv_items (tlv 0x04 [0xF5]) = [(0x04, [0xF5], tlv 0x04 [0xF5])]"
    by (simp_all add: length_tlv_exact tag_wf_def)
  have strs: "version_str [2, 10, 0] None = Some (cstr ''2.10.0'')" "hex_of [0xF5] = cstr ''f5''"
    by code_simp+
  have safe: "euiccinfo2_safe ?resp" by (simp add: euiccinfo2_safe_def val items)
  have "euiccinfo2_spec ?resp = Some (euiccinfo2_zero\<lparr>ei_svn := Some (cstr ''2.10.0''),
      ei_euiccCiPKIdListForVerification := Some [Some (cstr ''f5''), None]\<rparr>)"
    by (simp add: euiccinfo2_spec_def val items euiccinfo2_item_def pkids_of_def strs euiccinfo2_zero_def del: hex_of.simps)
  with es10c_ex_get_euiccinfo2_returns [OF script_card_small demo_ctx_wf gives _ safe] len show ?thesis by auto
qed

text \<open>
  \<open>es8p_metadata_parse\<close> returns the metadata in the base64 string of the server, in bounds for every
  string in which no ICCID is empty. It accepts access rules exactly when each REF-AR-DO has one
  REF-DO, with one certificate hash and at most one package name, and it fails otherwise.
\<close>

theorem es8p_metadata_parse_returns:
  assumes "length b64 < 0x40000000" "metadata_safe b64"
  shows "es8p_metadata_parse b64 = opt_res (metadata_spec b64)"
  using assms by (rule es8p_metadata_parse_eq)

theorem es8p_metadata_parse_returns_witness:
  "es8p_metadata_parse (cstr ''vyUPkQFBv3YJ4gfhBcEBq8oA'') =
      Ret (metadata_new\<lparr>md_serviceProviderName := Some [0x41],
        md_accessRules := [\<lparr>ar_certificateHash = Some (cstr ''ab''), ar_packageName = Some []\<rparr>]\<rparr>) \<and>
    es8p_metadata_parse (cstr ''vyUFv3YC4gA='') = Fail"
proof -
  have m: "metadata_safe (cstr ''vyUPkQFBv3YJ4gfhBcEBq8oA'')" "metadata_safe (cstr ''vyUFv3YC4gA='')"
    "metadata_spec (cstr ''vyUPkQFBv3YJ4gfhBcEBq8oA'') = Some (metadata_new\<lparr>md_serviceProviderName := Some [0x41],
      md_accessRules := [\<lparr>ar_certificateHash = Some (cstr ''ab''), ar_packageName = Some []\<rparr>]\<rparr>)"
    "metadata_spec (cstr ''vyUFv3YC4gA='') = None"
    by code_simp+
  show ?thesis
    using es8p_metadata_parse_returns [of "cstr ''vyUPkQFBv3YJ4gfhBcEBq8oA''"]
      es8p_metadata_parse_returns [of "cstr ''vyUFv3YC4gA=''"]
    by (simp only: m) (simp add: cstr_def)
qed

lemma inj_listed: "(\<And>x. x \<in> set xs) \<Longrightarrow> distinct (map f xs) \<Longrightarrow> inj f"
  by (auto simp: distinct_map inj_on_def)

text \<open>
  The names of \<open>tostr.c\<close>: within each enumeration no two values share a name, and the only value
  without one is the value \<open>NULL\<close> of the four enumerations that have it.
\<close>

theorem tostr_names_distinct:
  "inj euicc_profilestate2str \<and> inj euicc_profileclass2str \<and> inj euicc_icontype2str \<and>
    inj euicc_profilemanagementoperation2str \<and> inj euicc_bppcommandid2str \<and> inj euicc_errorreason2str"
proof (intro conjI)
  show "inj euicc_profilestate2str"
  proof (rule inj_listed)
    show "x \<in> set [ES10C_PROFILE_STATE_NULL, ES10C_PROFILE_STATE_DISABLED, ES10C_PROFILE_STATE_ENABLED,
      ES10C_PROFILE_STATE_UNDEFINED]" for x
      by (cases x) simp_all
  qed code_simp
  show "inj euicc_profileclass2str"
  proof (rule inj_listed)
    show "x \<in> set [ES10C_PROFILE_CLASS_NULL, ES10C_PROFILE_CLASS_TEST, ES10C_PROFILE_CLASS_PROVISIONING,
      ES10C_PROFILE_CLASS_OPERATIONAL, ES10C_PROFILE_CLASS_UNDEFINED]" for x
      by (cases x) simp_all
  qed code_simp
  show "inj euicc_icontype2str"
  proof (rule inj_listed)
    show "x \<in> set [ES10C_ICON_TYPE_NULL, ES10C_ICON_TYPE_JPEG, ES10C_ICON_TYPE_PNG, ES10C_ICON_TYPE_UNDEFINED]" for x
      by (cases x) simp_all
  qed code_simp
  show "inj euicc_profilemanagementoperation2str"
  proof (rule inj_listed)
    show "x \<in> set [ES10B_PROFILE_MANAGEMENT_OPERATION_NULL, ES10B_PROFILE_MANAGEMENT_OPERATION_INSTALL,
      ES10B_PROFILE_MANAGEMENT_OPERATION_ENABLE, ES10B_PROFILE_MANAGEMENT_OPERATION_DISABLE,
      ES10B_PROFILE_MANAGEMENT_OPERATION_DELETE, ES10B_PROFILE_MANAGEMENT_OPERATION_UNDEFINED]" for x
      by (cases x) simp_all
  qed code_simp
  show "inj euicc_bppcommandid2str"
  proof (rule inj_listed)
    show "x \<in> set [ES10B_BPP_COMMAND_ID_INITIALISE_SECURE_CHANNEL, ES10B_BPP_COMMAND_ID_CONFIGURE_ISDP,
      ES10B_BPP_COMMAND_ID_STORE_METADATA, ES10B_BPP_COMMAND_ID_STORE_METADATA2,
      ES10B_BPP_COMMAND_ID_REPLACE_SESSION_KEYS, ES10B_BPP_COMMAND_ID_LOAD_PROFILE_ELEMENTS,
      ES10B_BPP_COMMAND_ID_UNDEFINED]" for x
      by (cases x) simp_all
  qed code_simp
  show "inj euicc_errorreason2str"
  proof (rule inj_listed)
    show "x \<in> set [ES10B_ERROR_REASON_INCORRECT_INPUT_VALUES, ES10B_ERROR_REASON_INVALID_SIGNATURE,
      ES10B_ERROR_REASON_INVALID_TRANSACTION_ID, ES10B_ERROR_REASON_UNSUPPORTED_CRT_VALUES,
      ES10B_ERROR_REASON_UNSUPPORTED_REMOTE_OPERATION_TYPE, ES10B_ERROR_REASON_UNSUPPORTED_PROFILE_CLASS,
      ES10B_ERROR_REASON_SCP03T_STRUCTURE_ERROR, ES10B_ERROR_REASON_SCP03T_SECURITY_ERROR,
      ES10B_ERROR_REASON_INSTALL_FAILED_DUE_TO_ICCID_ALREADY_EXISTS_ON_EUICC,
      ES10B_ERROR_REASON_INSTALL_FAILED_DUE_TO_INSUFFICIENT_MEMORY_FOR_PROFILE,
      ES10B_ERROR_REASON_INSTALL_FAILED_DUE_TO_INTERRUPTION,
      ES10B_ERROR_REASON_INSTALL_FAILED_DUE_TO_PE_PROCESSING_ERROR,
      ES10B_ERROR_REASON_INSTALL_FAILED_DUE_TO_DATA_MISMATCH,
      ES10B_ERROR_REASON_TEST_PROFILE_INSTALL_FAILED_DUE_TO_INVALID_NAA_KEY,
      ES10B_ERROR_REASON_PPR_NOT_ALLOWED, ES10B_ERROR_REASON_INSTALL_FAILED_DUE_TO_UNKNOWN_ERROR,
      ES10B_ERROR_REASON_UNDEFINED]" for x
      by (cases x) simp_all
  qed code_simp
qed

end
