(* ===== verification/Bpp_Plan.thy ===== *)
theory Bpp_Plan
  imports Es10b_Bpp Es10_Answers
begin

text \<open>
  Which blocks of a bound profile package \<open>es10b_load_bound_profile_package_r\<close> sends, as a function of the
  package's bytes, and that sending them one by one is what the function does.
\<close>

subsection \<open>A command depends on the bytes of its request only\<close>

lemma memcpy_prefix:
  assumes "take n p = take n p'" "k \<le> n"
  shows "memcpy dst off p k = memcpy dst off p' k"
proof -
  have t: "take k p = take k p'" using arg_cong [OF assms(1), of "take k"] assms(2) by (simp add: min_def)
  have "k \<le> length p \<longleftrightarrow> k \<le> length p'"
    using arg_cong [OF t, of length] by auto
  with t show ?thesis by (simp add: memcpy_def)
qed

lemma command_loop_prefix_Some:
  assumes "es10x_command_loop iface cb seq (ReqMem p) n u st = Some y" "take (unat n) p = take (unat n) p'"
  shows "es10x_command_loop iface cb seq (ReqMem p') n u st = Some y"
proof -
  have "\<forall>p p'. ReqMem p = src \<longrightarrow> take (unat n) p = take (unat n) p' \<longrightarrow>
      es10x_command_loop iface cb seq (ReqMem p') n u st = Some y"
    if "es10x_command_loop iface cb seq src n u st = Some y" for src
  proof (rule es10x_command_loop.raw_induct [OF _ that, where P = "\<lambda>iface cb seq src n u st y.
        \<forall>p p'. ReqMem p = src \<longrightarrow> take (unat n) p = take (unat n) p' \<longrightarrow>
          es10x_command_loop iface cb seq (ReqMem p') n u st = Some y"], intro allI impI)
    fix loop iface cb seq src and n :: u32 and u :: 'a and st :: "'b st" and y p p'
    assume IH: "\<And>iface cb seq src n u st y. loop iface cb seq src n u st = Some y \<Longrightarrow>
        \<forall>p p'. ReqMem p = src \<longrightarrow> take (unat n) p = take (unat n) p' \<longrightarrow>
          es10x_command_loop iface cb seq (ReqMem p') n u st = Some y"
      and y: "(if n = 0 then Some (Ret u, st) else
        let ctx = fst st; more = n > ucast (es10x_mss ctx);
            rlen = (if more then es10x_mss ctx else ucast n);
            built = (if more then es10x_command_buildrequest_continue ctx (of_nat seq) src rlen
                     else es10x_command_buildrequest_last ctx (of_nat seq) src rlen)
        in case built of Fail \<Rightarrow> Some (Fail, st) | UB \<Rightarrow> Some (UB, st)
           | Ret (ret, ctx) \<Rightarrow>
               Option.bind (es10x_transmit_iter iface ret cb u (ctx, snd st)) (\<lambda>(r, st).
               case r of Fail \<Rightarrow> Some (Fail, st) | UB \<Rightarrow> Some (UB, st)
               | Ret u \<Rightarrow> loop iface cb (seq + 1) (req_advance (unat rlen) src) (n - ucast rlen) u st))
          = Some y"
      and src: "ReqMem p = src" and pre: "take (unat n) p = take (unat n) p'"
    define more where "more = (n > ucast (es10x_mss (fst st)))"
    define rlen where "rlen = (if more then es10x_mss (fst st) else ucast n)"
    have rlen: "unat rlen \<le> unat n"
      using unsigned_less [of "es10x_mss (fst st)", where ?'a = nat]
      by (auto simp: rlen_def more_def word_less_nat_alt unsigned_ucast_eq take_bit_eq_mod)
    have step: "take (unat (n - ucast rlen)) (drop (unat rlen) p) = take (unat (n - ucast rlen)) (drop (unat rlen) p')"
    proof -
      have "unat (n - ucast rlen) = unat n - unat rlen"
        using rlen unsigned_less [of rlen, where ?'a = nat] by (subst unat_sub) (simp_all add: word_le_nat_alt unsigned_ucast_eq take_bit_eq_mod)
      then show ?thesis using arg_cong [OF pre, of "drop (unat rlen)"] rlen by (simp add: drop_take)
    qed
    let ?built = "\<lambda>src. if more then es10x_command_buildrequest_continue (fst st) (of_nat seq) src rlen
        else es10x_command_buildrequest_last (fst st) (of_nat seq) src rlen"
    have built: "?built (ReqMem p') = ?built (ReqMem p)"
      using memcpy_prefix [OF pre rlen]
      by (simp add: es10x_command_buildrequest_continue_def es10x_command_buildrequest_last_def
          es10x_command_buildrequest_def euicc_apdu_lc_def lc_def Let_def)
    have nxt: "loop iface cb (seq + 1) (req_advance (unat rlen) (ReqMem p)) (n - ucast rlen) u1 st1 = Some y \<Longrightarrow>
        es10x_command_loop iface cb (seq + 1) (req_advance (unat rlen) (ReqMem p')) (n - ucast rlen) u1 st1 = Some y"
      for u1 st1
      using IH [of iface cb "seq + 1" "ReqMem (drop (unat rlen) p)" "n - ucast rlen" u1 st1 y] step by simp
    define B where "B = ?built (ReqMem p)"
    have y1: "(if n = 0 then Some (Ret u, st) else case B of Fail \<Rightarrow> Some (Fail, st) | UB \<Rightarrow> Some (UB, st)
        | Ret (ret, ctx) \<Rightarrow> Option.bind (es10x_transmit_iter iface ret cb u (ctx, snd st)) (\<lambda>(r, st).
            case r of Fail \<Rightarrow> Some (Fail, st) | UB \<Rightarrow> Some (UB, st)
            | Ret u \<Rightarrow> loop iface cb (seq + 1) (req_advance (unat rlen) (ReqMem p)) (n - ucast rlen) u st)) = Some y"
      using y unfolding Let_def src [symmetric] more_def [symmetric] rlen_def [symmetric] B_def .
    have unf: "es10x_command_loop iface cb seq (ReqMem p') n u st = (if n = 0 then Some (Ret u, st) else
        case ?built (ReqMem p') of Fail \<Rightarrow> Some (Fail, st) | UB \<Rightarrow> Some (UB, st)
        | Ret (ret, ctx) \<Rightarrow> Option.bind (es10x_transmit_iter iface ret cb u (ctx, snd st)) (\<lambda>(r, st).
            case r of Fail \<Rightarrow> Some (Fail, st) | UB \<Rightarrow> Some (UB, st)
            | Ret u \<Rightarrow> es10x_command_loop iface cb (seq + 1) (req_advance (unat rlen) (ReqMem p')) (n - ucast rlen) u st))"
      unfolding more_def rlen_def by (subst es10x_command_loop.simps) (simp only: Let_def)
    note unf = unf [unfolded built, folded B_def]
    show "es10x_command_loop iface cb seq (ReqMem p') n u st = Some y"
    proof (cases "n = 0 \<or> B = Fail \<or> B = UB")
      case True
      with y1 show ?thesis by (auto simp: unf)
    next
      case False
      then obtain k ctx1 where B: "B = Ret (k, ctx1)" "n \<noteq> 0" by (cases B) auto
      with y1 obtain r2 st2 where it: "es10x_transmit_iter iface k cb u (ctx1, snd st) = Some (r2, st2)"
        by (auto simp: Option.bind_eq_Some_conv)
      with y1 B nxt show ?thesis by (cases r2) (auto simp: unf)
    qed
  qed
  with assms show ?thesis by blast
qed

theorem es10x_command_prefix:
  assumes "take (unat n) p = take (unat n) p'"
  shows "es10x_command iface (ReqMem p) n st = es10x_command iface (ReqMem p') n st"
proof -
  have "es10x_command_loop iface cb seq (ReqMem p) n u st = es10x_command_loop iface cb seq (ReqMem p') n u st"
    for cb seq and u :: userdata_es10x_command
    using command_loop_prefix_Some [of iface cb seq p n u st _ p'] assms
      command_loop_prefix_Some [of iface cb seq p' n u st _ p]
    by (metis not_Some_eq)
  then show ?thesis by (simp add: es10x_command_def es10x_command_iter_def)
qed

subsection \<open>Where the elements lie\<close>

text \<open>The nodes a loop over a buffer visits after the node \<open>n\<close>.\<close>

function nodes_from :: "cptr \<Rightarrow> u32 \<Rightarrow> der_node \<Rightarrow> der_node list" where
  "nodes_from buffer len n =
     (case euicc_derutil_unpack_next n buffer len of
        Ret n' \<Rightarrow> n' # nodes_from buffer len n'
      | Fail \<Rightarrow> [] | UB \<Rightarrow> [])"
  by pat_completeness auto
termination
  by (relation "measure (\<lambda>(buffer, len, n). node_left n)") (auto dest: unpack_next_progress)

declare nodes_from.simps [simp del]

abbreviation nodes :: "cptr \<Rightarrow> u32 \<Rightarrow> der_node list" where
  "nodes buffer len \<equiv> nodes_from buffer len (node_start buffer)"

text \<open>Nodes that lie one after the other from \<open>p\<close> on, each with its content behind its header.\<close>

fun nodes_at :: "cptr \<Rightarrow> der_node list \<Rightarrow> bool" where
  "nodes_at p [] \<longleftrightarrow> True"
| "nodes_at p (n # ns) \<longleftrightarrow> n_self_ptr n = p \<and> node_ok n \<and>
     n_value n = drop (unat (n_self_length n) - unat (n_length n)) p \<and>
     nodes_at (drop (unat (n_self_length n)) p) ns"

lemma unpack_first_value:
  assumes "slice_ok p r" "euicc_derutil_unpack_first p r = Ret n"
  shows "n_value n = drop (unat (n_self_length n) - unat (n_length n)) p"
proof -
  define bs junk where "bs = slice_bytes p r" and "junk = drop (unat r) p"
  have p: "p = bs @ junk" and len: "length bs = unat r"
    using assms(1) by (simp_all add: bs_def junk_def slice_bytes_def slice_ok_def)
  have small: "length bs < 4294967296"
    using unsigned_less [of r, where ?'a = nat] by (simp add: len)
  have "euicc_derutil_unpack_first (bs @ junk) (of_nat (length bs)) = Ret n"
    using assms(2) by (simp add: len flip: p)
  then obtain tag r1 l r2 where d: "tlv_tag bs = Some (tag, r1)" "tlv_len r1 = Some (l, r2)" "\<not> length r2 < unat l"
    and n: "n_value n = r2 @ junk" "n_length n = l" "n_self_length n = of_nat (length bs - length r2) + l"
    unfolding unpack_first_append [OF small] by (auto split: option.splits if_splits)
  obtain h where h: "bs = h @ r2"
    using d(1,2) tlv_tag_length tlv_len_length by (metis append.assoc)
  have "unat (of_nat (length bs - length r2) + l) = length h + unat l"
    using small d(3) by (subst unat_plus_u32) (auto simp: h)
  then show ?thesis by (simp add: n p h)
qed

lemma nodes_next:
  assumes "slice_ok buffer len" "node_within buffer len n" "euicc_derutil_unpack_next n buffer len = Ret n'"
  shows "node_ok n'" "node_within buffer len n'" "n_self_ptr n' = drop (unat (n_self_length n)) (n_self_ptr n)"
    "n_value n' = drop (unat (n_self_length n') - unat (n_length n')) (n_self_ptr n')"
    "tlv_items (node_todo buffer len n) = node_item n' # tlv_items (node_todo buffer len n')"
proof -
  let ?bs = "node_todo buffer len n"
  obtain d where d: "tlv_decode ?bs = Some d"
    using unpack_next_eq [OF assms(1,2)] assms(3) by (cases "tlv_decode ?bs") auto
  obtain tag val rest where t: "d = (tag, val, rest)" by (cases d)
  from unpack_next_eq [OF assms(1,2)] d t assms(3)
  have n': "node_ok n'" "node_within buffer len n'" "node_todo buffer len n' = rest"
    "node_item n' = (tag, val, take (length ?bs - length rest) ?bs)" by auto
  then show "node_ok n'" "node_within buffer len n'" by simp_all
  show "tlv_items ?bs = node_item n' # tlv_items (node_todo buffer len n')"
    by (simp add: tlv_items.simps [of ?bs] d t n'(3,4))
  from assms(3) show "n_self_ptr n' = drop (unat (n_self_length n)) (n_self_ptr n)"
    by (auto simp: euicc_derutil_unpack_next_def Let_def dest: unpack_first_progress split: if_splits)
  obtain p r where p: "euicc_derutil_unpack_first p r = Ret n'" "slice_ok p r"
    using unpack_next_within [OF assms(1,2)] assms(3) by auto
  from unpack_first_value [OF p(2,1)] unpack_first_progress [OF p(1)]
  show "n_value n' = drop (unat (n_self_length n') - unat (n_length n')) (n_self_ptr n')" by simp
qed

lemma unpack_next_defined:
  assumes "slice_ok buffer len" "node_within buffer len n"
  shows "euicc_derutil_unpack_next n buffer len \<noteq> UB"
    "euicc_derutil_unpack_next n buffer len = Fail \<Longrightarrow> tlv_items (node_todo buffer len n) = []"
  using unpack_next_eq [OF assms]
  by (auto simp: tlv_items.simps [of "node_todo buffer len n"] split: option.splits)

lemma nodes_from_at:
  assumes "slice_ok buffer len" "node_within buffer len n"
  shows "nodes_at (drop (unat (n_self_length n)) (n_self_ptr n)) (nodes_from buffer len n) \<and>
    map node_item (nodes_from buffer len n) = tlv_items (node_todo buffer len n)"
  using assms
proof (induction buffer len n rule: nodes_from.induct)
  case (1 buffer len n)
  show ?case
  proof (cases "euicc_derutil_unpack_next n buffer len")
    case (Ret n')
    note nx = nodes_next [OF "1.prems" Ret]
    from "1.IH" [OF Ret "1.prems"(1) nx(2)] nx show ?thesis
      by (simp add: nodes_from.simps [of buffer len n] Ret)
  qed (use "1.prems" unpack_next_defined [OF "1.prems"] in \<open>auto simp: nodes_from.simps [of buffer len n]\<close>)
qed

lemma nodes_eq:
  assumes "slice_ok buffer len"
  shows "nodes_at buffer (nodes buffer len)"
    "map node_item (nodes buffer len) = tlv_items (slice_bytes buffer len)"
proof -
  have "n_self_length (node_start buffer) = 0" "n_self_ptr (node_start buffer) = buffer"
    by (simp_all add: node_start_def)
  with nodes_from_at [OF assms node_start_within]
  show "nodes_at buffer (nodes buffer len)"
    "map node_item (nodes buffer len) = tlv_items (slice_bytes buffer len)" by simp_all
qed

lemma find_nodes_from:
  assumes "slice_ok buffer len" "node_within buffer len n"
  shows "find_alias_tags_from tags buffer len n =
    opt_res (List.find (\<lambda>m. n_tag m \<in> set tags) (nodes_from buffer len n))"
  using assms
proof (induction tags buffer len n rule: find_alias_tags_from.induct)
  case (1 tags buffer len n)
  show ?case
  proof (cases "euicc_derutil_unpack_next n buffer len")
    case (Ret n')
    with 1 nodes_next(2) [OF "1.prems" Ret] show ?thesis
      by (simp add: find_alias_tags_from.simps [of tags buffer len n] nodes_from.simps [of buffer len n])
  qed (use unpack_next_defined [OF "1.prems"] in
      \<open>simp_all add: find_alias_tags_from.simps [of tags buffer len n] nodes_from.simps [of buffer len n]\<close>)
qed

lemma find_tag_nodes:
  "slice_ok buffer len \<Longrightarrow> euicc_derutil_unpack_find_tag tag buffer len =
    opt_res (List.find (\<lambda>m. n_tag m = tag) (nodes buffer len))"
  using find_nodes_from [of buffer len "node_start buffer" "[tag]"]
  by (simp add: euicc_derutil_unpack_find_tag_def euicc_derutil_unpack_find_alias_tags_def)

text \<open>The bytes from the start of the nodes to the end of node \<open>m\<close>.\<close>

lemma nodes_at_append:
  "nodes_at p (ns @ m # ms) \<Longrightarrow> n_self_ptr m = drop (length (concat (map node_enc ns))) p \<and>
    take (length (concat (map node_enc ns))) p = concat (map node_enc ns) \<and> node_ok m \<and>
    n_value m = drop (unat (n_self_length m) - unat (n_length m)) (n_self_ptr m)"
proof (induction ns arbitrary: p)
  case (Cons n ns)
  then have ok: "slice_ok p (n_self_length n)" and enc: "node_enc n = take (unat (n_self_length n)) p"
    using node_ok_self [of n] by (auto simp: node_enc_def slice_bytes_def)
  then have "length (node_enc n) = unat (n_self_length n)" by (simp add: slice_ok_def)
  with Cons enc show ?case by (auto simp: take_add add.commute)
qed simp

subsection \<open>The blocks of a package\<close>

text \<open>The header of an element: its encoding without its content.\<close>

definition tlv_header :: "item \<Rightarrow> byte list" where
  "tlv_header = (\<lambda>(t, v, e). take (length e - length v) e)"

definition item_enc :: "item \<Rightarrow> byte list" where
  "item_enc = (\<lambda>(t, v, e). e)"

definition item_val :: "item \<Rightarrow> byte list" where
  "item_val = (\<lambda>(t, v, e). v)"

text \<open>The bytes up to the end of the first element with a tag.\<close>

definition tlv_upto :: "u16 \<Rightarrow> byte list \<Rightarrow> byte list option" where
  "tlv_upto tag bs = map_option (\<lambda>x. concat (map item_enc (takeWhile (\<lambda>(t, _, _). t \<noteq> tag) (tlv_items bs))) @ item_enc x)
     (tlv_find [tag] bs)"

text \<open>
  The blocks: the header of the package up to the end of \<open>BF23\<close>; \<open>A0\<close>; the header of \<open>A1\<close> and each of
  its elements; \<open>A2\<close>, if it is there; the header of \<open>A3\<close> and each of its elements. The plan ends early,
  and is not complete, where an element that must be there is missing.
\<close>

definition bpp_sequence :: "item \<Rightarrow> byte list list" where
  "bpp_sequence x = tlv_header x # map item_enc (tlv_items (item_val x))"

definition bpp_plan :: "byte list \<Rightarrow> byte list list \<times> bool" where
  "bpp_plan bpp =
     (case tlv_find [0xBF36] bpp of None \<Rightarrow> ([], False) | Some x \<Rightarrow>
      let v = item_val x; b2 = (case tlv_find [0xA2] v of None \<Rightarrow> [] | Some y \<Rightarrow> [item_enc y]) in
      case tlv_upto 0xBF23 v of None \<Rightarrow> ([], False) | Some b \<Rightarrow>
      case tlv_find [0xA0] v of None \<Rightarrow> ([tlv_header x @ b], False) | Some x0 \<Rightarrow>
      case tlv_find [0xA1] v of None \<Rightarrow> ([tlv_header x @ b, item_enc x0], False) | Some x1 \<Rightarrow>
      case tlv_find [0xA3] v of None \<Rightarrow> ([tlv_header x @ b, item_enc x0] @ bpp_sequence x1 @ b2, False) | Some x3 \<Rightarrow>
      ([tlv_header x @ b, item_enc x0] @ bpp_sequence x1 @ b2 @ bpp_sequence x3, True))"

text \<open>Sending blocks one by one until one fails.\<close>

fun bpp_send ::
  "'d euicc_apdu_interface \<Rightarrow> byte list list \<Rightarrow> es10b_load_bound_profile_package_result \<Rightarrow> 'd st \<Rightarrow>
     (bpp_outcome \<times> 'd st) option" where
  "bpp_send iface [] result st = Some (Ret (True, result), st)"
| "bpp_send iface (b # bs) result st =
     bpp_then (es10b_load_bound_profile_package_tx iface b (of_nat (length b)) st) (bpp_send iface bs)"

lemma bpp_then_assoc: "bpp_then (bpp_then m f) g = bpp_then m (\<lambda>r st. bpp_then (f r st) g)"
  by (auto simp: bpp_then_def Option.bind_assoc intro!: Option.bind_cong split: cres.splits)

lemma bpp_then_True [simp]: "bpp_then (Some (Ret (True, result), st)) k = k result st"
  by (simp add: bpp_then_def)

lemma bpp_then_unit: "bpp_then m (\<lambda>r st. Some (Ret (True, r), st)) = m"
  by (cases m) (auto simp: bpp_then_def split: cres.splits)

lemma bpp_send_append: "bpp_send iface (xs @ ys) result st = bpp_then (bpp_send iface xs result st) (bpp_send iface ys)"
proof (induction xs arbitrary: result st)
  case (Cons x xs)
  then have "bpp_send iface (xs @ ys) = (\<lambda>r st. bpp_then (bpp_send iface xs r st) (bpp_send iface ys))"
    by (intro ext)
  then show ?case by (simp add: bpp_then_assoc)
qed simp

subsection \<open>The code sends the plan\<close>

lemma tx_prefix:
  assumes "k \<le> length p" "k < 4294967296"
  shows "es10b_load_bound_profile_package_tx iface p (of_nat k) st =
    es10b_load_bound_profile_package_tx iface (take k p) (of_nat (length (take k p))) st"
proof -
  have "es10x_command iface (ReqMem p) (of_nat k) st = es10x_command iface (ReqMem (take k p)) (of_nat k) st"
    by (rule es10x_command_prefix) (use assms in simp)
  moreover have "length (take k p) = k" using assms(1) by simp
  ultimately show ?thesis by (simp only: es10b_load_bound_profile_package_tx_def)
qed

lemma tx_node:
  assumes "node_ok n"
  shows "es10b_load_bound_profile_package_tx iface (n_self_ptr n) (n_self_length n) st =
    es10b_load_bound_profile_package_tx iface (node_enc n) (of_nat (length (node_enc n))) st"
  using node_ok_self [OF assms] tx_prefix [of "unat (n_self_length n)" "n_self_ptr n" iface st]
    unsigned_less [of "n_self_length n", where ?'a = nat]
  by (simp add: node_enc_def slice_bytes_def slice_ok_def)

text \<open>A node whose content lies behind its header.\<close>

definition node_laid :: "der_node \<Rightarrow> bool" where
  "node_laid n \<longleftrightarrow> node_ok n \<and> n_value n = drop (unat (n_self_length n) - unat (n_length n)) (n_self_ptr n)"

lemma node_laid_header:
  assumes "node_laid n"
  shows "length (n_self_ptr n) - length (n_value n) = length (tlv_header (node_item n))"
    "tlv_header (node_item n) = take (length (n_self_ptr n) - length (n_value n)) (n_self_ptr n)"
    "length (tlv_header (node_item n)) \<le> length (n_self_ptr n)"
    "length (tlv_header (node_item n)) < 4294967296"
proof -
  have ok: "unat (n_self_length n) \<le> length (n_self_ptr n)" "unat (n_length n) + 2 \<le> unat (n_self_length n)"
    and len: "length (node_enc n) = unat (n_self_length n)" "length (node_val n) = unat (n_length n)"
    using assms unfolding node_laid_def node_ok_def by (auto simp: slice_ok_def node_enc_def node_val_def)
  have diff: "length (n_self_ptr n) - length (n_value n) = unat (n_self_length n) - unat (n_length n)"
    using assms ok by (simp add: node_laid_def)
  moreover have head: "tlv_header (node_item n) = take (unat (n_self_length n) - unat (n_length n)) (n_self_ptr n)"
    using ok by (simp add: node_item_eq tlv_header_def len) (simp add: node_enc_def slice_bytes_def min_def)
  ultimately show "length (n_self_ptr n) - length (n_value n) = length (tlv_header (node_item n))"
    "tlv_header (node_item n) = take (length (n_self_ptr n) - length (n_value n)) (n_self_ptr n)"
    using ok by simp_all
  show "length (tlv_header (node_item n)) \<le> length (n_self_ptr n)" by (simp add: head)
  show "length (tlv_header (node_item n)) < 4294967296"
    using unsigned_less [of "n_self_length n", where ?'a = nat] by (simp add: head)
qed

lemma tx_header:
  assumes "node_laid n"
  shows "es10b_load_bound_profile_package_tx iface (n_self_ptr n)
      (of_nat (length (n_self_ptr n) - length (n_value n))) st =
    es10b_load_bound_profile_package_tx iface (tlv_header (node_item n)) (of_nat (length (tlv_header (node_item n)))) st"
proof -
  define h where "h = tlv_header (node_item n)"
  have h: "length (n_self_ptr n) - length (n_value n) = length h" "take (length h) (n_self_ptr n) = h"
    "length h \<le> length (n_self_ptr n)" "length h < 4294967296"
    using node_laid_header [OF assms] by (simp_all add: h_def)
  then show ?thesis using tx_prefix [OF h(3,4), of iface st] by (simp only: h(1,2) flip: h_def)
qed

lemma children_nodes:
  assumes "slice_ok buffer len" "node_within buffer len n"
  shows "bpp_children iface buffer len n result st = bpp_send iface (map node_enc (nodes_from buffer len n)) result st"
  using assms
proof (induction buffer len n arbitrary: result st rule: nodes_from.induct)
  case (1 buffer len n)
  show ?case
  proof (cases "euicc_derutil_unpack_next n buffer len")
    case (Ret n')
    note nx = nodes_next [OF "1.prems" Ret]
    have "bpp_children iface buffer len n' = bpp_send iface (map node_enc (nodes_from buffer len n'))"
      using "1.IH" [OF Ret "1.prems"(1) nx(2)] by (intro ext)
    then show ?thesis
      by (simp add: bpp_children.simps [of iface buffer len n] nodes_from.simps [of buffer len n] Ret tx_node [OF nx(1)])
  qed (use unpack_next_defined [OF "1.prems"] in
      \<open>simp_all add: bpp_children.simps [of iface buffer len n] nodes_from.simps [of buffer len n]\<close>)
qed

lemma tlv_items_total: "length (concat (map item_enc (tlv_items bs))) \<le> length bs"
proof (induction bs rule: tlv_items.induct)
  case (1 bs)
  show ?case
  proof (cases "tlv_decode bs")
    case None
    then show ?thesis by (simp add: tlv_items.simps [of bs])
  next
    case (Some d)
    obtain tag val rest where d: "d = (tag, val, rest)" by (cases d)
    with Some have "length rest < length bs" using tlv_decode_shorter by blast
    with "1.IH" [OF Some d [symmetric] refl] Some d show ?thesis by (simp add: tlv_items.simps [of bs] item_enc_def)
  qed
qed

lemma find_split: "List.find P xs = Some x \<Longrightarrow> \<exists>zs. xs = takeWhile (\<lambda>y. \<not> P y) xs @ x # zs"
  by (induction xs) (auto split: if_splits)

lemma find_map: "List.find P (map f xs) = map_option f (List.find (\<lambda>x. P (f x)) xs)"
  by (induction xs) simp_all

lemma item_enc_node: "item_enc (node_item n) = node_enc n" "item_val (node_item n) = node_val n"
  by (simp_all add: item_enc_def item_val_def node_item_eq)

lemma find_tag_cases:
  assumes "slice_ok p len"
  obtains (none) "euicc_derutil_unpack_find_tag tag p len = Fail" "tlv_find [tag] (slice_bytes p len) = None"
      "tlv_upto tag (slice_bytes p len) = None"
    | (found) m k where "euicc_derutil_unpack_find_tag tag p len = Ret m"
      "tlv_find [tag] (slice_bytes p len) = Some (node_item m)" "node_laid m" "n_self_ptr m = drop k p"
      "k + unat (n_self_length m) \<le> unat len"
      "tlv_upto tag (slice_bytes p len) = Some (take (k + unat (n_self_length m)) p)"
proof -
  let ?ns = "nodes p len" and ?P = "\<lambda>m. n_tag m = tag"
  note ns = nodes_eq [OF assms]
  have items: "tlv_find [tag] (slice_bytes p len) = map_option node_item (List.find ?P ?ns)"
    by (simp add: tlv_find_def find_map flip: ns(2)) (simp add: node_item_def)
  show thesis
  proof (cases "List.find ?P ?ns")
    case None
    then show ?thesis using none by (simp add: find_tag_nodes [OF assms] items tlv_upto_def)
  next
    case (Some m)
    define ys where "ys = takeWhile (\<lambda>y. \<not> ?P y) ?ns"
    obtain zs where split: "?ns = ys @ m # zs" using find_split [OF Some] by (auto simp: ys_def)
    define k where "k = length (concat (map node_enc ys))"
    have m: "n_self_ptr m = drop k p" "take k p = concat (map node_enc ys)" "node_laid m"
      using nodes_at_append [of p ys m zs] ns(1) by (simp_all add: split k_def node_laid_def)
    have enc: "node_enc m = take (unat (n_self_length m)) (drop k p)" "length (node_enc m) = unat (n_self_length m)"
      using m(1,3) node_ok_self [of m] by (simp_all add: node_laid_def node_enc_def slice_bytes_def slice_ok_def)
    have "map item_enc (tlv_items (slice_bytes p len)) = map node_enc ys @ node_enc m # map node_enc zs"
      by (simp add: item_enc_node split flip: ns(2))
    with tlv_items_total [of "slice_bytes p len"] assms enc(2) have bound: "k + unat (n_self_length m) \<le> unat len"
      by (simp add: k_def)
    have "map item_enc (takeWhile (\<lambda>(t, _, _). t \<noteq> tag) (tlv_items (slice_bytes p len))) = map node_enc ys"
      by (simp add: takeWhile_map comp_def ys_def item_enc_node flip: ns(2)) (simp add: node_item_def item_enc_node)
    then have "tlv_upto tag (slice_bytes p len) = Some (take (k + unat (n_self_length m)) p)"
      by (simp add: tlv_upto_def items Some item_enc_node enc(1) take_add flip: m(2))
    with found m bound Some show ?thesis by (simp add: find_tag_nodes [OF assms] items)
  qed
qed

lemma tx_first:
  assumes B: "node_laid B" and m: "n_self_ptr m = drop k (n_value B)"
    and bound: "k + unat (n_self_length m) \<le> unat (n_length B)"
  defines "b \<equiv> tlv_header (node_item B) @ take (k + unat (n_self_length m)) (n_value B)"
  shows "es10b_load_bound_profile_package_tx iface (n_self_ptr B)
      (of_nat (length (n_self_ptr B) - length (n_self_ptr m)) + n_self_length m) st =
    es10b_load_bound_profile_package_tx iface b (of_nat (length b)) st"
proof -
  define h where "h = unat (n_self_length B) - unat (n_length B)"
  define K where "K = h + (k + unat (n_self_length m))"
  have ok: "unat (n_self_length B) \<le> length (n_self_ptr B)" "unat (n_length B) + 2 \<le> unat (n_self_length B)"
    and v: "n_value B = drop h (n_self_ptr B)"
    using B unfolding node_laid_def node_ok_def by (auto simp: slice_ok_def h_def)
  have K: "K \<le> length (n_self_ptr B)" "K < 4294967296"
    using ok bound unsigned_less [of "n_self_length B", where ?'a = nat] by (simp_all add: K_def h_def)
  have "length (n_self_ptr B) - length (n_self_ptr m) = h + k"
    using ok bound m by (simp add: v h_def)
  then have len: "of_nat (length (n_self_ptr B) - length (n_self_ptr m)) + n_self_length m = of_nat K"
    by (simp add: K_def)
  have "tlv_header (node_item B) = take h (n_self_ptr B)"
    using node_laid_header(2) [OF B] ok by (simp add: v h_def)
  then have b: "take K (n_self_ptr B) = b" by (simp add: b_def K_def v take_add)
  show ?thesis using tx_prefix [OF K, of iface st] by (simp only: len b)
qed

lemma node_laid_slice: "node_laid n \<Longrightarrow> slice_ok (n_value n) (n_length n)"
  unfolding node_laid_def by blast

lemma children_items:
  assumes "node_laid n"
  shows "bpp_children iface (n_value n) (n_length n) (node_start (n_value n)) =
    bpp_send iface (map item_enc (tlv_items (node_val n)))"
proof (intro ext)
  note ok = node_laid_slice [OF assms]
  have "map item_enc (tlv_items (node_val n)) = map node_enc (nodes (n_value n) (n_length n))"
    by (simp add: node_val_def item_enc_node flip: nodes_eq(2) [OF ok])
  then show "bpp_children iface (n_value n) (n_length n) (node_start (n_value n)) result st =
      bpp_send iface (map item_enc (tlv_items (node_val n))) result st" for result st
    by (simp add: children_nodes [OF ok node_start_within])
qed

text \<open>The end of the plan: success, or the failure to find an element.\<close>

definition bpp_end :: "bool \<Rightarrow> es10b_load_bound_profile_package_result \<Rightarrow> 'd st \<Rightarrow> (bpp_outcome \<times> 'd st) option" where
  "bpp_end complete result st = Some (Ret (complete, result), st)"

lemma bpp_send_fun:
  "bpp_send iface [] = (\<lambda>r st. Some (Ret (True, r), st))"
  "bpp_send iface (b # bs) = (\<lambda>r st.
     bpp_then (es10b_load_bound_profile_package_tx iface b (of_nat (length b)) st) (bpp_send iface bs))"
  "bpp_send iface (xs @ ys) = (\<lambda>r st. bpp_then (bpp_send iface xs r st) (bpp_send iface ys))"
  by (intro ext, simp add: bpp_send_append)+

lemma bpp_end_True: "bpp_then m (bpp_end True) = m"
  unfolding bpp_end_def [abs_def] by (rule bpp_then_unit)

lemmas bpp_simps = bpp_send_fun bpp_then_assoc bpp_node_def bpp_plan_def bpp_sequence_def Let_def item_enc_node
  bpp_end_def [abs_def] bpp_then_unit

lemma node_laid_ok: "node_laid n \<Longrightarrow> node_ok n"
  by (simp add: node_laid_def)

lemma find_in_node:
  assumes "node_laid B"
  obtains (none) "euicc_derutil_unpack_find_tag tag (n_value B) (n_length B) = Fail"
      "tlv_find [tag] (node_val B) = None" "tlv_upto tag (node_val B) = None"
    | (found) m k where "euicc_derutil_unpack_find_tag tag (n_value B) (n_length B) = Ret m"
      "tlv_find [tag] (node_val B) = Some (node_item m)" "node_laid m" "n_self_ptr m = drop k (n_value B)"
      "k + unat (n_self_length m) \<le> unat (n_length B)"
      "tlv_upto tag (node_val B) = Some (take (k + unat (n_self_length m)) (n_value B))"
proof (cases rule: find_tag_cases [OF node_laid_slice [OF assms], of tag, folded node_val_def, case_names no yes])
  case no
  then show ?thesis by (rule none)
next
  case (yes m k)
  then show ?thesis by (rule found)
qed

theorem load_sends_plan:
  assumes "length b64 < 0x40000000"
  defines "plan \<equiv> bpp_plan (b64_plain b64)"
  shows "es10b_load_bound_profile_package_r iface result b64 st =
    bpp_then (bpp_send iface (fst plan) result st) (bpp_end (snd plan))"
proof -
  obtain b n where b: "b64_decode_dup b64 = Ret (b, n)" "slice_small b n" "slice_bytes b n = b64_plain b64"
    using b64_decode_dup_eq [OF assms(1)] by blast
  note load = es10b_load_bound_profile_package_r_def plan_def b(1) b(3) [symmetric]
  have okb: "slice_ok b n" using b(2) by simp
  show ?thesis
  proof (cases rule: find_tag_cases [OF okb, of "0xBF36", case_names none found])
    case none
    then show ?thesis by (simp add: load bpp_simps)
  next
    case (found B kB)
    note B = found
    show ?thesis
    proof (cases rule: find_in_node [OF B(3), of "0xBF23", case_names none found])
      case none
      with B(1,2) show ?thesis by (simp add: load bpp_simps)
    next
      case (found M kM)
      note M = found(1,2,6) tx_first [OF B(3) found(4,5)]
      show ?thesis
      proof (cases rule: find_in_node [OF B(3), of "0xA0", case_names none found])
        case none
        show ?thesis by (simp add: load bpp_simps none(1,2) B(1,2) M)
      next
        case (found N0 k0)
        note N0 = found(1,2) tx_node [OF node_laid_ok [OF found(3)]]
        show ?thesis
        proof (cases rule: find_in_node [OF B(3), of "0xA1", case_names none found])
          case none
          show ?thesis by (simp add: load bpp_simps none(1,2) B(1,2) M N0)
        next
          case (found N1 k1)
          note N1 = found(1,2) tx_header [OF found(3)] children_items [OF found(3)]
          consider (no) "euicc_derutil_unpack_find_tag 0xA2 (n_value B) (n_length B) = Fail"
              "tlv_find [0xA2] (node_val B) = None"
            | (yes) N2 where "euicc_derutil_unpack_find_tag 0xA2 (n_value B) (n_length B) = Ret N2"
              "tlv_find [0xA2] (node_val B) = Some (node_item N2)" "node_ok N2"
            by (cases rule: find_in_node [OF B(3), of "0xA2"]) (auto simp: node_laid_ok)
          then show ?thesis
          proof cases
            case no
            show ?thesis
            proof (cases rule: find_in_node [OF B(3), of "0xA3", case_names none found])
              case none
              show ?thesis by (simp add: load bpp_simps none(1,2) no B(1,2) M N0 N1)
            next
              case (found N3 k3)
              show ?thesis
                by (simp add: load bpp_simps found(1,2) no B(1,2) M N0 N1 tx_header [OF found(3)] children_items [OF found(3)])
            qed
          next
            case (yes N2)
            note N2 = yes(1,2) tx_node [OF yes(3)]
            show ?thesis
            proof (cases rule: find_in_node [OF B(3), of "0xA3", case_names none found])
              case none
              show ?thesis by (simp add: load bpp_simps none(1,2) B(1,2) M N0 N1 N2)
            next
              case (found N3 k3)
              show ?thesis
                by (simp add: load bpp_simps found(1,2) B(1,2) M N0 N1 N2 tx_header [OF found(3)] children_items [OF found(3)])
            qed
          qed
        qed
      qed
    qed
  qed
qed

end
