(* ===== verification/Bpp_Props.thy ===== *)
theory Bpp_Props
  imports Bpp_Plan
begin

text \<open>
  The properties of loading a bound profile package (\<open>euicc/es10b.c\<close>): which blocks are sent, that they make
  up the package, and what the answers of the card lead to.
\<close>

subsection \<open>The blocks sent\<close>

text \<open>
  C5. \<open>es10b_load_bound_profile_package_r\<close> sends the blocks of \<open>bpp_plan\<close>, one \<open>es10x_command\<close> each, in
  order, until one fails; it succeeds when all were sent and no element that must be there is missing.
  This holds for every string up to a gigabyte, whatever card and context: the nested searches, the
  pointer arithmetic for the first block and the two loops compute the plan exactly, in bounds.
\<close>

theorem load_bound_profile_package_sends_plan:
  assumes "length b64 < 0x40000000"
  shows "es10b_load_bound_profile_package_r iface result b64 st =
    bpp_then (bpp_send iface (fst (bpp_plan (b64_plain b64))) result st) (bpp_end (snd (bpp_plan (b64_plain b64))))"
  using assms by (rule load_sends_plan)

theorem load_bound_profile_package_sends_plan_witness:
  "es10b_load_bound_profile_package_r script_card bpp_result_init (cstr ''vzYJvyMAoAChAKMA'') (demo_ctx, []) =
    bpp_send script_card [[0xBF, 0x36, 0x09, 0xBF, 0x23, 0x00], [0xA0, 0x00], [0xA1, 0x00], [0xA3, 0x00]]
      bpp_result_init (demo_ctx, []) \<and>
   es10b_load_bound_profile_package_r script_card bpp_result_init (cstr ''vzYFvyMAoAA='') (demo_ctx, []) =
    bpp_then (bpp_send script_card [[0xBF, 0x36, 0x05, 0xBF, 0x23, 0x00], [0xA0, 0x00]]
      bpp_result_init (demo_ctx, [])) (bpp_end False)"
proof -
  have p: "bpp_plan (b64_plain (cstr ''vzYJvyMAoAChAKMA'')) =
      ([[0xBF, 0x36, 0x09, 0xBF, 0x23, 0x00], [0xA0, 0x00], [0xA1, 0x00], [0xA3, 0x00]], True)"
    "bpp_plan (b64_plain (cstr ''vzYFvyMAoAA='')) = ([[0xBF, 0x36, 0x05, 0xBF, 0x23, 0x00], [0xA0, 0x00]], False)"
    by code_simp+
  have len: "length (cstr ''vzYJvyMAoAChAKMA'') < 0x40000000" "length (cstr ''vzYFvyMAoAA='') < 0x40000000"
    by (simp_all add: cstr_def)
  note run = load_bound_profile_package_sends_plan [of _ script_card bpp_result_init "(demo_ctx, [])"]
  from run [OF len(1)] run [OF len(2)] show ?thesis by (simp only: p fst_conv snd_conv bpp_end_True)
qed

text \<open>A package as SGP.22 lays it out; \<open>keys\<close> is the optional \<open>A2\<close>.\<close>

definition bpp_content :: "byte list \<Rightarrow> byte list \<Rightarrow> byte list list \<Rightarrow> byte list option \<Rightarrow> byte list list \<Rightarrow> byte list" where
  "bpp_content secure isdp metadata keys elements =
     tlv 0xBF23 secure @ tlv 0xA0 isdp @ tlv 0xA1 (concat (map (\<lambda>x. tlv 0x88 x) metadata)) @
     (case keys of None \<Rightarrow> [] | Some k \<Rightarrow> tlv 0xA2 k) @ tlv 0xA3 (concat (map (\<lambda>x. tlv 0x86 x) elements))"

text \<open>Tag and length of an element with the given content.\<close>

definition header_of :: "u16 \<Rightarrow> byte list \<Rightarrow> byte list" where
  "header_of tag v = tag_bytes tag @ len_bytes (of_nat (length v))"

definition bpp_blocks :: "byte list \<Rightarrow> byte list \<Rightarrow> byte list list \<Rightarrow> byte list option \<Rightarrow> byte list list \<Rightarrow> byte list list" where
  "bpp_blocks secure isdp metadata keys elements =
     [header_of 0xBF36 (bpp_content secure isdp metadata keys elements) @ tlv 0xBF23 secure, tlv 0xA0 isdp,
      header_of 0xA1 (concat (map (\<lambda>x. tlv 0x88 x) metadata))] @ map (\<lambda>x. tlv 0x88 x) metadata @
     (case keys of None \<Rightarrow> [] | Some k \<Rightarrow> [tlv 0xA2 k]) @
     [header_of 0xA3 (concat (map (\<lambda>x. tlv 0x86 x) elements))] @ map (\<lambda>x. tlv 0x86 x) elements"

lemma tlv_header_tlv: "tlv_header (t, v, tlv t v) = header_of t v"
  by (simp add: tlv_header_def tlv_def header_of_def)

lemma bpp_blocks_concat: "concat (bpp_blocks secure isdp metadata keys elements) =
    tlv 0xBF36 (bpp_content secure isdp metadata keys elements)"
proof -
  have "header_of t v @ v = tlv t v" for t v by (simp add: header_of_def tlv_def)
  then show ?thesis
    by (simp add: bpp_blocks_def bpp_content_def tlv_def header_of_def split: option.split)
qed

lemma length_concat_tlv: "x \<in> set xs \<Longrightarrow> length x < length (concat (map (\<lambda>x. tlv t x) xs))"
proof -
  assume "x \<in> set xs"
  then have "length (tlv t x) \<le> length (concat (map (\<lambda>x. tlv t x) xs))"
    by (auto simp: length_concat comp_def intro!: member_le_sum_list)
  with length_tlv(2) [of x t] show ?thesis by simp
qed

lemma bpp_plan_blocks:
  assumes "length (bpp_content secure isdp metadata keys elements) < 0x40000000"
  shows "bpp_plan (tlv 0xBF36 (bpp_content secure isdp metadata keys elements)) =
    (bpp_blocks secure isdp metadata keys elements, True)"
proof -
  let ?m = "concat (map (\<lambda>x. tlv 0x88 x) metadata)" and ?e = "concat (map (\<lambda>x. tlv 0x86 x) elements)"
  let ?k = "case keys of None \<Rightarrow> [] | Some k \<Rightarrow> tlv 0xA2 k"
  define v where "v = bpp_content secure isdp metadata keys elements"
  have len: "length secure < 4294967296" "length isdp < 4294967296" "length ?m < 4294967296" "length ?e < 4294967296"
    using assms length_tlv(2) [of secure "0xBF23"] length_tlv(2) [of isdp "0xA0"] length_tlv(2) [of ?m "0xA1"]
      length_tlv(2) [of ?e "0xA3"]
    by (auto simp: bpp_content_def simp del: length_concat)
  have lk: "length k < 4294967296" if "keys = Some k" for k
    using assms that length_tlv(2) [of k "0xA2"] by (simp add: bpp_content_def del: length_concat)
  have items: "tlv_items v = [(0xBF23, secure, tlv 0xBF23 secure), (0xA0, isdp, tlv 0xA0 isdp), (0xA1, ?m, tlv 0xA1 ?m)] @
      (case keys of None \<Rightarrow> [] | Some k \<Rightarrow> [(0xA2, k, tlv 0xA2 k)]) @ [(0xA3, ?e, tlv 0xA3 ?e)]"
    using len lk by (cases keys) (simp_all add: v_def bpp_content_def tag_wf_def)
  have seq: "tlv_items ?m = map (\<lambda>x. (0x88, x, tlv 0x88 x)) metadata"
    "tlv_items ?e = map (\<lambda>x. (0x86, x, tlv 0x86 x)) elements"
    using len(3,4) by (auto intro!: tlv_items_concat simp: tag_wf_def simp del: length_concat
        dest!: length_concat_tlv [of _ metadata "0x88"] length_concat_tlv [of _ elements "0x86"])
  have find: "tlv_find [0xBF36] (tlv 0xBF36 v) = Some (0xBF36, v, tlv 0xBF36 v)"
    "tlv_upto 0xBF23 v = Some (tlv 0xBF23 secure)" "tlv_find [0xA0] v = Some (0xA0, isdp, tlv 0xA0 isdp)"
    "tlv_find [0xA1] v = Some (0xA1, ?m, tlv 0xA1 ?m)" "tlv_find [0xA3] v = Some (0xA3, ?e, tlv 0xA3 ?e)"
    "tlv_find [0xA2] v = map_option (\<lambda>k. (0xA2, k, tlv 0xA2 k)) keys"
    using assms by (simp_all add: tlv_find_def tlv_upto_def items item_enc_def tag_wf_def flip: v_def split: option.split)
  have seqs: "bpp_sequence (0xA1, ?m, tlv 0xA1 ?m) = header_of 0xA1 ?m # map (\<lambda>x. tlv 0x88 x) metadata"
    "bpp_sequence (0xA3, ?e, tlv 0xA3 ?e) = header_of 0xA3 ?e # map (\<lambda>x. tlv 0x86 x) elements"
    by (simp_all add: bpp_sequence_def item_val_def seq tlv_header_tlv comp_def item_enc_def)
  show ?thesis
    unfolding v_def [symmetric]
    by (simp add: bpp_plan_def find Let_def item_val_def seqs item_enc_def tlv_header_tlv bpp_blocks_def
        flip: v_def split: option.split)
qed

text \<open>
  C6. A package laid out as SGP.22 says is sent completely: the blocks are the header with \<open>BF23\<close>, \<open>A0\<close>, the
  header of \<open>A1\<close>, one block per metadata element, \<open>A2\<close> if it is there, the header of \<open>A3\<close> and one block per
  profile element, and put together they are the package, with nothing lost, doubled or reordered.
\<close>

theorem load_bound_profile_package_complete:
  fixes secure isdp metadata keys elements
  defines "bpp \<equiv> tlv 0xBF36 (bpp_content secure isdp metadata keys elements)"
    and "blocks \<equiv> bpp_blocks secure isdp metadata keys elements"
  assumes "length (b64_enc bpp) < 0x40000000"
  shows "es10b_load_bound_profile_package_r iface result (b64_enc bpp) st = bpp_send iface blocks result st \<and>
    concat blocks = bpp"
proof -
  have "length bpp \<le> length (b64_enc bpp)"
    using length_b64_enc [of bpp] by (simp add: euicc_base64_encode_len_def)
  with assms(3) length_tlv(2) [of "bpp_content secure isdp metadata keys elements" "0xBF36"]
  have "bpp_plan bpp = (blocks, True)" unfolding bpp_def blocks_def by (intro bpp_plan_blocks) simp
  with load_sends_plan [OF assms(3), of iface result st] have
    "es10b_load_bound_profile_package_r iface result (b64_enc bpp) st = bpp_send iface blocks result st"
    by (simp add: b64_plain_enc bpp_end_True)
  moreover have "concat blocks = bpp" unfolding blocks_def bpp_def by (rule bpp_blocks_concat)
  ultimately show ?thesis by simp
qed

theorem load_bound_profile_package_complete_witness:
  "es10b_load_bound_profile_package_r script_card bpp_result_init
      (b64_enc (tlv 0xBF36 (bpp_content [1] [2] [[3], [4]] (Some [5]) [[6], [7]]))) (demo_ctx, []) =
    bpp_send script_card (bpp_blocks [1] [2] [[3], [4]] (Some [5]) [[6], [7]]) bpp_result_init (demo_ctx, [])"
proof -
  let ?bpp = "tlv 0xBF36 (bpp_content [1] [2] [[3], [4]] (Some [5]) [[6], [7]])"
  have "length ?bpp = 29" by (simp add: bpp_content_def length_tlv_exact)
  then have "length (b64_enc ?bpp) < 0x40000000"
    using length_b64_enc [of ?bpp] by (simp add: euicc_base64_encode_len_def)
  with load_bound_profile_package_complete [of "[1]" "[2]" "[[3], [4]]" "Some [5]" "[[6], [7]]"] show ?thesis by blast
qed

subsection \<open>The result\<close>

text \<open>What an answer to a block means.\<close>

definition error_item :: "item \<Rightarrow> es10b_load_bound_profile_package_result \<Rightarrow> es10b_load_bound_profile_package_result" where
  "error_item = (\<lambda>(t, v, e) r.
     if t = 0x80 then r\<lparr>lr_bppCommandId := bpp_command_id_of (be_value64 v)\<rparr>
     else if t = 0x81 then r\<lparr>lr_errorReason := error_reason_of (be_value64 v)\<rparr> else r)"

definition installation_nodes :: "byte list \<Rightarrow> (byte list \<times> item) option" where
  "installation_nodes resp = do { a \<leftarrow> tlv_val 0xBF37 resp; b \<leftarrow> tlv_val 0xBF27 a; m \<leftarrow> tlv_val 0xBF2F b;
     f \<leftarrow> tlv_val 0xA2 b; (case tlv_items f of [] \<Rightarrow> None | x # _ \<Rightarrow> Some (m, x)) }"

definition installation_meta :: "byte list \<Rightarrow> es10b_load_bound_profile_package_result" where
  "installation_meta m = bpp_result_init\<lparr>
     lr_seqNumber := (case tlv_val 0x80 m of None \<Rightarrow> 0 | Some v \<Rightarrow> be_value64 v),
     lr_iccid := map_option bcd_of (tlv_val 0x5A m)\<rparr>"

definition installation_spec :: "byte list \<Rightarrow> bool \<times> es10b_load_bound_profile_package_result" where
  "installation_spec resp =
     (if resp = [] then (True, bpp_result_init)
      else case installation_nodes resp of None \<Rightarrow> (False, bpp_result_init)
      | Some (m, (t, v, e)) \<Rightarrow>
          (t = 0xA0, if t = 0xA1 then fold error_item (tlv_items v) (installation_meta m) else installation_meta m))"

definition installation_safe :: "byte list \<Rightarrow> bool" where
  "installation_safe resp \<longleftrightarrow>
     (case installation_nodes resp of None \<Rightarrow> True | Some (m, _) \<Rightarrow> tlv_val 0x5A m \<noteq> Some [])"

lemma unpack_first_item:
  assumes "slice_small p len"
  shows "case tlv_items (slice_bytes p len) of [] \<Rightarrow> euicc_derutil_unpack_first p len = Fail
    | x # _ \<Rightarrow> \<exists>n. euicc_derutil_unpack_first p len = Ret n \<and> node_small n \<and> node_item n = x"
proof -
  have ok: "slice_ok p len" using assms by simp
  have start: "euicc_derutil_unpack_next (node_start p) p len = euicc_derutil_unpack_first p len"
    by (simp add: euicc_derutil_unpack_next_def node_start_def)
  show ?thesis
  proof (cases "euicc_derutil_unpack_first p len")
    case (Ret n)
    note n = nodes_next [OF ok node_start_within, of n, unfolded start, OF Ret]
    then have "node_small n" by (intro node_item_small [OF assms]) simp_all
    with n(5) Ret show ?thesis by simp
  qed (use unpack_next_defined [OF ok node_start_within] start in simp_all)
qed

lemma first_rel:
  assumes "val_node t v n"
  shows "res_rel (\<lambda>x m. node_small m \<and> node_item m = x) (case tlv_items v of [] \<Rightarrow> None | x # _ \<Rightarrow> Some x)
    (euicc_derutil_unpack_first (n_value n) (n_length n))"
  using assms unpack_first_item [of "n_value n" "n_length n"]
  by (auto simp: val_node_def node_val_def res_rel_def split: list.splits)

lemma installation_nodes_rel:
  assumes "slice_small p len"
  shows "res_rel (\<lambda>(m, x) (meta, final). node_small meta \<and> node_small final \<and> node_val meta = m \<and> node_item final = x)
    (installation_nodes (slice_bytes p len)) (installation_result_nodes p len)"
  unfolding installation_nodes_def installation_result_nodes_def
proof (intro res_rel_bind [OF find_tag_rel [OF assms]] res_rel_bind [OF find_in_rel], assumption+)
  fix b m f B M F
  assume nodes: "val_node 0xBF2F m M" "val_node 0xA2 f F"
  have "res_rel (\<lambda>(m, x) (meta, final). node_small meta \<and> node_small final \<and> node_val meta = m \<and> node_item final = x)
    (Option.bind (case tlv_items f of [] \<Rightarrow> None | x # _ \<Rightarrow> Some x) (\<lambda>x. Some (m, x)))
    (cbind (euicc_derutil_unpack_first (n_value F) (n_length F)) (\<lambda>x. Ret (M, x)))"
    by (rule res_rel_bind [OF first_rel [OF nodes(2)]]) (use nodes(1) in \<open>simp add: val_node_def\<close>)
  then show "res_rel (\<lambda>(m, x) (meta, final). node_small meta \<and> node_small final \<and> node_val meta = m \<and> node_item final = x)
    (case tlv_items f of [] \<Rightarrow> None | x # _ \<Rightarrow> Some (m, x))
    (cbind (euicc_derutil_unpack_first (n_value F) (n_length F)) (\<lambda>x. Ret (M, x)))"
    by (cases "tlv_items f") simp_all
qed

lemma parse_installation_eq:
  assumes "slice_small p len" "installation_safe (slice_bytes p len)"
  shows "parse_installation_result p len bpp_result_init = Ret (installation_spec (slice_bytes p len))"
proof (cases "installation_nodes (slice_bytes p len)")
  case None
  have "len > 0 \<longleftrightarrow> slice_bytes p len \<noteq> []"
    using assms(1) length_slice_bytes [of p len] by (auto simp: slice_small_def word_less_nat_alt simp flip: length_greater_0_conv)
  with None installation_nodes_rel [OF assms(1)] show ?thesis
    by (simp add: parse_installation_result_def installation_spec_def res_rel_def)
next
  case (Some mx)
  obtain m t v e where mx: "mx = (m, t, v, e)" by (metis prod.exhaust)
  obtain meta final where nodes: "installation_result_nodes p len = Ret (meta, final)"
    "node_small meta" "node_small final" "node_val meta = m" "node_item final = (t, v, e)"
    using installation_nodes_rel [OF assms(1)] Some mx by (auto simp: res_rel_def)
  have final: "n_tag final = t" "node_val final = v" using nodes(5) by (simp_all add: node_item_eq)
  have sm: "slice_small (n_value meta) (n_length meta)" "slice_small (n_value final) (n_length final)"
    using nodes(2,3) by simp_all
  have seq: "ctry (euicc_derutil_unpack_find_tag 0x80 (n_value meta) (n_length meta))
      (\<lambda>n. cbind (euicc_derutil_convert_bin2long (n_value n) (n_length n)) (\<lambda>v. Ret (r\<lparr>lr_seqNumber := v\<rparr>))) (Ret r) =
    Ret (case tlv_val 0x80 m of None \<Rightarrow> r | Some v \<Rightarrow> r\<lparr>lr_seqNumber := be_value64 v\<rparr>)"
    for r :: es10b_load_bound_profile_package_result
    by (subst ctry_find_val [OF sm(1), where g = "\<lambda>v. Some (r\<lparr>lr_seqNumber := be_value64 v\<rparr>)" and h = "Some r"])
      (simp_all add: dup_eqs flip: nodes(4) split: option.splits)
  have iccid: "ctry (euicc_derutil_unpack_find_tag 0x5A (n_value meta) (n_length meta))
      (\<lambda>n. cbind (bcd_dup (n_value n) (n_length n)) (\<lambda>s. Ret (r\<lparr>lr_iccid := s\<rparr>))) (Ret r) =
    Ret (case tlv_val 0x5A m of None \<Rightarrow> r | Some v \<Rightarrow> r\<lparr>lr_iccid := Some (bcd_of v)\<rparr>)"
    for r :: es10b_load_bound_profile_package_result
  proof (subst ctry_find_val [OF sm(1), where g = "\<lambda>v. Some (r\<lparr>lr_iccid := Some (bcd_of v)\<rparr>)" and h = "Some r"])
    fix n assume n: "node_small n" "tlv_val 0x5A (slice_bytes (n_value meta) (n_length meta)) = Some (node_val n)"
    with assms(2) Some mx nodes(4) have "node_val n \<noteq> []" by (auto simp: installation_safe_def node_val_def)
    then have "n_length n \<noteq> 0" by (auto simp: node_val_def slice_bytes_def)
    with n(1) show "cbind (bcd_dup (n_value n) (n_length n)) (\<lambda>s. Ret (r\<lparr>lr_iccid := s\<rparr>)) =
        opt_res (Some (r\<lparr>lr_iccid := Some (bcd_of (node_val n))\<rparr>))"
      by (simp add: bcd_dup_eq node_val_def)
  qed (simp_all add: node_val_def flip: nodes(4) split: option.splits)
  have errs: "tlv_foreach (n_value final) (n_length final) error_result_field r = Ret (fold error_item (tlv_items v) r)" for r
    unfolding final(2) [symmetric] node_val_def
    by (rule foreach_fold [OF sm(2)]) (simp add: error_result_field_def error_item_def node_item_eq dup_eqs)
  have "slice_bytes p len \<noteq> []"
    using Some by (auto simp: installation_nodes_def tlv_val_def tlv_find_def)
  moreover from this have "len > 0" by (cases "len = 0") (auto simp: slice_bytes_def word_neq_0_conv)
  moreover have meta: "(case tlv_val 0x5A m of
        None \<Rightarrow> (case tlv_val 0x80 m of None \<Rightarrow> bpp_result_init | Some v \<Rightarrow> bpp_result_init\<lparr>lr_seqNumber := be_value64 v\<rparr>)
      | Some w \<Rightarrow> (case tlv_val 0x80 m of None \<Rightarrow> bpp_result_init | Some v \<Rightarrow> bpp_result_init\<lparr>lr_seqNumber := be_value64 v\<rparr>)
          \<lparr>lr_iccid := Some (bcd_of w)\<rparr>) = installation_meta m"
    by (simp add: installation_meta_def bpp_result_init_def split: option.split)
  ultimately show ?thesis
    using Some mx nodes(1) final(1) by (simp add: parse_installation_result_def installation_spec_def seq iccid errs)
qed

lemma tx_returns:
  assumes "small_answers iface" "wf_ctx ctx" "es10x_mss ctx \<noteq> 0" "length b < 4294967296"
    and "card_gives iface ctx b d resp d'" "length resp < 0x40000000" "installation_safe resp"
  shows "\<exists>ctx'. es10b_load_bound_profile_package_tx iface b (of_nat (length b)) (ctx, d) =
    Some (Ret (installation_spec resp), ctx', d') \<and> same_session ctx ctx'"
proof -
  have src: "src_request ctx (ReqMem b) b" by (simp add: src_request_def)
  obtain ctx' where run: "es10x_command iface (ReqMem b) (of_nat (length b)) (ctx, d) =
      Some (Ret (resp, of_nat (length resp)), ctx', d')"
    using es10x_command_gives [OF assms(1-4) src, of resp] assms(5,6) by auto
  with parse_installation_eq [OF slice_small_whole [OF assms(6)]] assms(6,7) es10x_command_session [OF run assms(2)]
  show ?thesis by (simp add: es10b_load_bound_profile_package_tx_def)
qed

text \<open>The card takes the blocks one after the other and answers each with no data.\<close>

fun takes_blocks :: "'d euicc_apdu_interface \<Rightarrow> euicc_ctx \<Rightarrow> byte list list \<Rightarrow> 'd \<Rightarrow> 'd \<Rightarrow> bool" where
  "takes_blocks iface ctx [] d d' \<longleftrightarrow> d = d'"
| "takes_blocks iface ctx (b # bs) d d' \<longleftrightarrow> (\<exists>d1. card_gives iface ctx b d [] d1 \<and> takes_blocks iface ctx bs d1 d')"

lemma installation_empty: "installation_safe []" "installation_spec [] = (True, bpp_result_init)"
  by (simp_all add: installation_safe_def installation_spec_def installation_nodes_def tlv_val_def tlv_find_def)

lemma send_blocks:
  assumes "small_answers iface" "wf_ctx ctx" "es10x_mss ctx \<noteq> 0" "\<forall>x \<in> set (pre @ [b]). length x < 4294967296"
    and "takes_blocks iface ctx pre d d1"
    and "card_gives iface ctx b d1 resp d'" "length resp < 0x40000000" "installation_safe resp"
  shows "\<exists>ctx'. bpp_send iface (pre @ [b]) r (ctx, d) = Some (Ret (installation_spec resp), ctx', d') \<and>
    same_session ctx ctx'"
  using assms(2-6)
proof (induction pre arbitrary: ctx d r)
  case Nil
  obtain ok res where ires: "installation_spec resp = (ok, res)" by (cases "installation_spec resp")
  from Nil tx_returns [OF assms(1) Nil.prems(1,2) _ Nil.prems(5) assms(7,8)] ires show ?case
    by (auto simp: bpp_then_def)
next
  case (Cons x pre)
  from Cons.prems(4) obtain d2 where x: "card_gives iface ctx x d [] d2" "takes_blocks iface ctx pre d2 d1" by auto
  from tx_returns [OF assms(1) Cons.prems(1,2) _ x(1)] Cons.prems(3) installation_empty obtain ctx1 where
    tx: "es10b_load_bound_profile_package_tx iface x (of_nat (length x)) (ctx, d) =
      Some (Ret (True, bpp_result_init), ctx1, d2)" and s1: "same_session ctx ctx1" by auto
  note cg = card_gives_session [OF s1, of iface]
  have tb: "takes_blocks iface ctx1 bs e e' = takes_blocks iface ctx bs e e'" for bs e e'
    by (induction bs arbitrary: e) (simp_all add: cg)
  have "es10x_mss ctx1 \<noteq> 0" using s1 Cons.prems(2) by (simp add: same_session_def)
  with Cons.IH [of ctx1 d2 bpp_result_init] same_session_wf [OF s1 Cons.prems(1)] Cons.prems(3,5) x(2)
  obtain ctx' where "bpp_send iface (pre @ [b]) bpp_result_init (ctx1, d2) = Some (Ret (installation_spec resp), ctx', d')"
    "same_session ctx1 ctx'" by (auto simp: cg tb)
  with tx same_session_trans [OF s1] show ?case by auto
qed


subsection \<open>The sizes of the blocks\<close>

lemma item_lengths:
  assumes "x \<in> set (tlv_items bs)"
  shows "length (item_val x) \<le> length (item_enc x)" "length (item_enc x) \<le> length bs" "length (tlv_header x) \<le> length bs"
proof -
  show "length (item_val x) \<le> length (item_enc x)"
    using assms tlv_items_val_length by (auto simp: item_val_def item_enc_def split: prod.splits)
  show "length (item_enc x) \<le> length bs" using assms tlv_items_enc_length by (auto simp: item_enc_def split: prod.splits)
  then show "length (tlv_header x) \<le> length bs"
    by (auto simp: item_enc_def tlv_header_def split: prod.splits)
qed

lemma bpp_sequence_lengths:
  assumes "x \<in> set (tlv_items bs)" "b \<in> set (bpp_sequence x)"
  shows "length b \<le> length bs"
  using assms item_lengths [OF assms(1)] item_lengths(2) [of _ "item_val x"]
  by (fastforce simp: bpp_sequence_def)

lemma tlv_upto_length: "tlv_upto tag bs = Some b \<Longrightarrow> length b \<le> 2 * length bs"
proof -
  assume "tlv_upto tag bs = Some b"
  then obtain x where x: "tlv_find [tag] bs = Some x"
    and b: "b = concat (map item_enc (takeWhile (\<lambda>(t, _, _). t \<noteq> tag) (tlv_items bs))) @ item_enc x"
    by (auto simp: tlv_upto_def)
  let ?p = "\<lambda>(t :: u16, _ :: byte list, _ :: byte list). t \<noteq> tag"
  have "concat (map item_enc (tlv_items bs)) =
      concat (map item_enc (takeWhile ?p (tlv_items bs))) @ concat (map item_enc (dropWhile ?p (tlv_items bs)))"
    by (simp flip: concat_append map_append)
  then have "length (concat (map item_enc (takeWhile ?p (tlv_items bs)))) \<le> length (concat (map item_enc (tlv_items bs)))"
    by (metis length_append le_add1)
  with tlv_items_total [of bs] item_lengths(2) [OF tlv_find_in [OF x]] show ?thesis by (simp add: b)
qed

lemma bpp_plan_lengths:
  assumes "b \<in> set (fst (bpp_plan bs))"
  shows "length b \<le> 3 * length bs"
proof (cases "tlv_find [0xBF36] bs")
  case None
  with assms show ?thesis by (simp add: bpp_plan_def)
next
  case (Some x)
  note x = item_lengths [OF tlv_find_in [OF Some]]
  have v: "length (item_val x) \<le> length bs" using x by simp
  have enc: "length (item_enc y) \<le> length bs" if "tlv_find [tag] (item_val x) = Some y" for tag y
    using item_lengths(2) [OF tlv_find_in [OF that]] v by simp
  have sq: "length c \<le> length bs" if "tlv_find [tag] (item_val x) = Some y" "c \<in> set (bpp_sequence y)" for tag y c
    using bpp_sequence_lengths [OF tlv_find_in [OF that(1)] that(2)] v by simp
  have first: "length (tlv_header x @ c) \<le> 3 * length bs" if "tlv_upto tag (item_val x) = Some c" for tag c
    using tlv_upto_length [OF that] v x(3) by simp
  have "length b \<le> length bs \<or> (\<exists>c. b = tlv_header x @ c \<and> tlv_upto 0xBF23 (item_val x) = Some c)"
    using assms Some by (auto simp: bpp_plan_def Let_def intro: enc sq split: option.splits if_splits)
  then show ?thesis using first by auto
qed

subsection \<open>What loading returns\<close>

lemma bpp_then_stop:
  "m = Some (Ret (False, res), st) \<Longrightarrow> bpp_then m k = Some (Ret (False, res), st)"
  by (simp add: bpp_then_def)

text \<open>
  C7. Loading ends at the first answer that decides it. Let the card take the blocks \<open>pre\<close> of the plan with
  empty answers and answer the next block \<open>b\<close> with \<open>resp\<close>, a notification result as \<open>installation_spec\<close> reads
  it: an error in it (whatever blocks are left in \<open>rest\<close>), or a success when \<open>b\<close> is the last block of a
  complete plan. Then the function returns that verdict with the sequence number, ICCID, command and reason
  of the answer, and not one block is sent after \<open>b\<close>.
\<close>

theorem load_bound_profile_package_result:
  assumes "small_answers iface" "wf_ctx ctx" "es10x_mss ctx \<noteq> 0" "length b64 < 0x40000000"
    and plan: "fst (bpp_plan (b64_plain b64)) = pre @ b # rest"
    and card: "takes_blocks iface ctx pre d d1" "card_gives iface ctx b d1 resp d'"
    and answer: "length resp < 0x40000000" "installation_safe resp" "installation_spec resp = (ok, res)"
    and last: "ok \<longrightarrow> rest = [] \<and> snd (bpp_plan (b64_plain b64))"
  shows "\<exists>ctx'. es10b_load_bound_profile_package_r iface result b64 (ctx, d) = Some (Ret (ok, res), ctx', d') \<and>
    same_session ctx ctx'"
proof -
  have "length x < 4294967296" if "x \<in> set (pre @ [b])" for x
    using bpp_plan_lengths [of x "b64_plain b64"] that plan length_b64_plain [of b64] assms(4) by auto
  with send_blocks [OF assms(1-3) _ card answer(1,2)] answer(3) obtain ctx' where
    send: "bpp_send iface (pre @ [b]) result (ctx, d) = Some (Ret (ok, res), ctx', d')" and s: "same_session ctx ctx'"
    by auto
  have "bpp_send iface (pre @ b # rest) result (ctx, d) =
      bpp_then (bpp_send iface (pre @ [b]) result (ctx, d)) (bpp_send iface rest)"
    using bpp_send_append [of iface "pre @ [b]" rest result "(ctx, d)"] by simp
  with send last load_sends_plan [OF assms(4), of iface result "(ctx, d)"] s show ?thesis
    by (cases ok) (auto simp: plan bpp_end_True bpp_then_stop)
qed

theorem load_bound_profile_package_result_witness:
  "\<exists>ctx'. es10b_load_bound_profile_package_r script_card bpp_result_init (cstr ''vzYJvyMAoAChAKMA'')
      (demo_ctx, [[0x90, 0x00],
        [0xBF, 0x37, 0x17, 0xBF, 0x27, 0x14, 0xBF, 0x2F, 0x07, 0x80, 0x01, 0x05, 0x5A, 0x02, 0x98, 0x10,
         0xA2, 0x08, 0xA1, 0x06, 0x80, 0x01, 0x02, 0x81, 0x01, 0x05, 0x90, 0x00], [0x90, 0x00]]) =
    Some (Ret (False, \<lparr>lr_seqNumber = 5, lr_iccid = Some (cstr ''8901''),
      lr_bppCommandId = bpp_command_id_of 2, lr_errorReason = error_reason_of 5\<rparr>), ctx', [[0x90, 0x00]]) \<and>
    same_session demo_ctx ctx'"
proof -
  let ?resp = "[0xBF, 0x37, 0x17, 0xBF, 0x27, 0x14, 0xBF, 0x2F, 0x07, 0x80, 0x01, 0x05, 0x5A, 0x02, 0x98, 0x10,
    0xA2, 0x08, 0xA1, 0x06, 0x80, 0x01, 0x02, 0x81, 0x01, 0x05] :: byte list"
  have plan: "fst (bpp_plan (b64_plain (cstr ''vzYJvyMAoAChAKMA''))) =
      [[0xBF, 0x36, 0x09, 0xBF, 0x23, 0x00]] @ [0xA0, 0x00] # [[0xA1, 0x00], [0xA3, 0x00]]" by code_simp
  have spec: "installation_spec ?resp = (False, \<lparr>lr_seqNumber = 5, lr_iccid = Some (cstr ''8901''),
      lr_bppCommandId = bpp_command_id_of 2, lr_errorReason = error_reason_of 5\<rparr>)" by code_simp
  have safe: "installation_safe ?resp" by code_simp
  have "takes_blocks script_card demo_ctx [[0xBF, 0x36, 0x09, 0xBF, 0x23, 0x00]]
      [[0x90, 0x00], ?resp @ [0x90, 0x00], [0x90, 0x00]] [?resp @ [0x90, 0x00], [0x90, 0x00]]"
    using script_gives [of "[0xBF, 0x36, 0x09, 0xBF, 0x23, 0x00]" "[]"] by simp
  moreover have "card_gives script_card demo_ctx [0xA0, 0x00] [?resp @ [0x90, 0x00], [0x90, 0x00]] ?resp [[0x90, 0x00]]"
    by (rule script_gives) simp_all
  ultimately show ?thesis
    by (intro load_bound_profile_package_result [OF script_card_small demo_ctx_wf _ plan _ _ _ safe spec])
      (simp_all add: cstr_def)
qed

end
