(* ===== verification/Utils.thy ===== *)
theory Utils
  imports Prelude
begin

text \<open>
  \<open>utils/lpac/utils.c\<close>: environment variables, truth values, and strings, with the functions of the C library it
  and the applets use. The environment is a parameter: a map from names to values. Warnings and the printing
  of JSON are left out.
\<close>

subsection \<open>The C library\<close>

definition isspace :: "byte \<Rightarrow> bool" where
  "isspace c \<longleftrightarrow> c = 0x20 \<or> (0x09 \<le> c \<and> c \<le> 0x0D)"

definition isdigit :: "byte \<Rightarrow> bool" where
  "isdigit c \<longleftrightarrow> 0x30 \<le> c \<and> c \<le> 0x39"

definition to_lower :: "byte \<Rightarrow> byte" where
  "to_lower c = (if 0x41 \<le> c \<and> c \<le> 0x5A then c + 0x20 else c)"

text \<open>\<open>strcasecmp(a, b) == 0\<close>, \<open>strncasecmp(a, b, n) == 0\<close> and \<open>strncmp(a, b, n) == 0\<close>\<close>

definition strcasecmp_eq :: "cstr \<Rightarrow> cstr \<Rightarrow> bool" where
  "strcasecmp_eq a b \<longleftrightarrow> map to_lower a = map to_lower b"

definition strncasecmp_eq :: "cstr \<Rightarrow> cstr \<Rightarrow> nat \<Rightarrow> bool" where
  "strncasecmp_eq a b n \<longleftrightarrow> strcasecmp_eq (take n a) (take n b)"

definition strncmp_eq :: "cstr \<Rightarrow> cstr \<Rightarrow> nat \<Rightarrow> bool" where
  "strncmp_eq a b n \<longleftrightarrow> take n a = take n b"

text \<open>\<open>strtol\<close> and \<open>strtoul\<close> at base ten: blanks, a sign, digits.\<close>

definition dec_value :: "cstr \<Rightarrow> nat" where
  "dec_value = foldl (\<lambda>v c. 10 * v + unat (c - 0x30)) 0"

definition dec_parts :: "cstr \<Rightarrow> bool \<times> cstr" where
  "dec_parts s =
     (let s = dropWhile isspace s;
          signed = s \<noteq> [] \<and> (hd s = of_char CHR ''-'' \<or> hd s = of_char CHR ''+'')
      in (signed \<and> hd s = of_char CHR ''-'', takeWhile isdigit (if signed then tl s else s)))"

text \<open>The value and whether \<open>errno\<close> is set to \<open>ERANGE\<close>; without digits \<open>strtoul\<close> has \<open>*endptr == nptr\<close>, here \<open>None\<close>.\<close>

definition strtol :: "cstr \<Rightarrow> int \<times> bool" where
  "strtol s =
     (let (neg, ds) = dec_parts s; v = (if neg then - int (dec_value ds) else int (dec_value ds)) in
      if v < - (2 ^ 63) then (- (2 ^ 63), True)
      else if v > 2 ^ 63 - 1 then (2 ^ 63 - 1, True)
      else (v, False))"

definition strtoul :: "cstr \<Rightarrow> (u64 \<times> bool) option" where
  "strtoul s =
     (let (neg, ds) = dec_parts s; v = dec_value ds in
      if ds = [] then None
      else if v > 2 ^ 64 - 1 then Some (- 1, True)
      else Some (if neg then - of_nat v else of_nat v, False))"

text \<open>\<open>%u\<close> of \<open>printf\<close>, and \<open>%d\<close> for a number that is not negative\<close>

fun fmt_u :: "nat \<Rightarrow> cstr" where
  "fmt_u n = (if n < 10 then [0x30 + of_nat n] else fmt_u (n div 10) @ [0x30 + of_nat (n mod 10)])"

declare fmt_u.simps [simp del]

subsection \<open>The code\<close>

type_synonym env = "cstr \<Rightarrow> cstr option"

definition str_to_bool :: "cstr \<Rightarrow> bool option" where
  "str_to_bool v =
     (if strcasecmp_eq v (cstr ''1'') \<or> strcasecmp_eq v (cstr ''y'') \<or> strcasecmp_eq v (cstr ''on'') \<or>
         strcasecmp_eq v (cstr ''yes'') \<or> strcasecmp_eq v (cstr ''true'') then Some True
      else if strcasecmp_eq v (cstr ''0'') \<or> strcasecmp_eq v (cstr ''n'') \<or> strcasecmp_eq v (cstr ''off'') \<or>
         strcasecmp_eq v (cstr ''no'') \<or> strcasecmp_eq v (cstr ''false'') then Some False
      else None)"

definition getenv_str_or_default :: "env \<Rightarrow> cstr \<Rightarrow> cstr \<Rightarrow> cstr" where
  "getenv_str_or_default env name default_value =
     (case env name of None \<Rightarrow> default_value | Some v \<Rightarrow> if length v = 0 then default_value else v)"

definition getenv_bool_or_default :: "env \<Rightarrow> cstr \<Rightarrow> bool \<Rightarrow> bool" where
  "getenv_bool_or_default env name default_value =
     (case env name of
        None \<Rightarrow> default_value
      | Some v \<Rightarrow>
          if length v = 0 then default_value
          else case str_to_bool v of Some b \<Rightarrow> b | None \<Rightarrow> default_value)"

text \<open>The value, and whether \<open>strtol\<close> set \<open>ERANGE\<close>.\<close>

definition getenv_long_or_default :: "env \<Rightarrow> cstr \<Rightarrow> int \<Rightarrow> int \<times> bool" where
  "getenv_long_or_default env name default_value =
     (case env name of
        None \<Rightarrow> (default_value, False)
      | Some v \<Rightarrow> if length v = 0 then (default_value, False) else strtol v)"

text \<open>The conversion of a \<open>long\<close> to \<open>int\<close> keeps the low 32 bits.\<close>

definition getenv_int_or_default :: "env \<Rightarrow> cstr \<Rightarrow> int \<Rightarrow> int" where
  "getenv_int_or_default env name default_value =
     sint (word_of_int (fst (getenv_long_or_default env name default_value)) :: u32)"

definition set_deprecated_env_name :: "cstr \<Rightarrow> cstr \<Rightarrow> env \<Rightarrow> env" where
  "set_deprecated_env_name name deprecated_name env =
     (case env name of
        Some v \<Rightarrow> env
      | None \<Rightarrow> (case env deprecated_name of None \<Rightarrow> env | Some v \<Rightarrow> env(name \<mapsto> v)))"

definition ends_with :: "cstr option \<Rightarrow> cstr option \<Rightarrow> bool" where
  "ends_with str suf =
     (case (str, suf) of
        (Some s, Some t) \<Rightarrow> length s \<ge> length t \<and> take (length t) (drop (length s - length t) s) = t
      | _ \<Rightarrow> False)"

definition remove_suffix :: "cstr option \<Rightarrow> cstr option \<Rightarrow> cstr option" where
  "remove_suffix str suf =
     (case (str, suf) of
        (Some s, Some t) \<Rightarrow>
          if length s < length t then None
          else let pos = length s - length t in if drop pos s = t then Some (take pos s) else None
      | _ \<Rightarrow> None)"

text \<open>The arrays end with \<open>NULL\<close>; what follows it is not looked at.\<close>

definition array_len :: "cstr option list \<Rightarrow> nat" where
  "array_len xs = length (takeWhile (\<lambda>x. x \<noteq> None) xs)"

definition merge_array_of_str :: "cstr option list \<Rightarrow> cstr option list \<Rightarrow> cstr option list cres" where
  "merge_array_of_str left right =
     (if None \<notin> set left \<or> None \<notin> set right then UB
      else Ret (take (array_len left) left @ take (array_len right) right @ [None]))"

definition path_concat :: "cstr option \<Rightarrow> cstr option \<Rightarrow> cstr option" where
  "path_concat a b =
     (case (a, b) of
        (Some a, Some b) \<Rightarrow>
          (let fullpath_len = length a + 1 + length b + 1 in
           Some (take (fullpath_len - 1) (a @ cstr ''/'' @ b)))
      | _ \<Rightarrow> None)"

record timespec =
  tv_sec :: int
  tv_nsec :: int

definition get_duration :: "timespec \<Rightarrow> timespec \<Rightarrow> timespec" where
  "get_duration t0 t1 =
     (let borrow = tv_nsec t1 < tv_nsec t0 in
      \<lparr>tv_sec = tv_sec t1 - tv_sec t0 - (if borrow then 1 else 0),
       tv_nsec = tv_nsec t1 - tv_nsec t0 + (if borrow then 1000000000 else 0)\<rparr>)"

subsection \<open>Lemmas\<close>

lemma ends_with_suffix: "ends_with (Some s) (Some t) \<longleftrightarrow> (\<exists>p. s = p @ t)"
proof
  assume "ends_with (Some s) (Some t)"
  then have "s = take (length s - length t) s @ t" by (simp add: ends_with_def) (metis append_take_drop_id)
  then show "\<exists>p. s = p @ t" ..
qed (auto simp: ends_with_def)

lemma remove_suffix_Some: "remove_suffix (Some s) (Some t) = Some p \<longleftrightarrow> s = p @ t"
  by (auto simp: remove_suffix_def Let_def) (metis append_take_drop_id)

lemma merge_array_of_str_lists:
  "merge_array_of_str (map Some xs @ [None]) (map Some ys @ [None]) = Ret (map Some (xs @ ys) @ [None])"
proof -
  have "takeWhile (\<lambda>x. x \<noteq> None) (map Some zs @ [None]) = map Some zs" for zs :: "cstr list"
    by (induction zs) auto
  then show ?thesis by (simp add: merge_array_of_str_def array_len_def)
qed

lemma path_concat_Some: "path_concat (Some a) (Some b) = Some (a @ cstr ''/'' @ b)"
  by (simp add: path_concat_def)

definition nanoseconds :: "timespec \<Rightarrow> int" where
  "nanoseconds t = 1000000000 * tv_sec t + tv_nsec t"

lemma get_duration_exact:
  assumes "0 \<le> tv_nsec t0" "tv_nsec t0 < 1000000000" "0 \<le> tv_nsec t1" "tv_nsec t1 < 1000000000"
  shows "nanoseconds (get_duration t0 t1) = nanoseconds t1 - nanoseconds t0"
    "0 \<le> tv_nsec (get_duration t0 t1)" "tv_nsec (get_duration t0 t1) < 1000000000"
  using assms by (auto simp: nanoseconds_def get_duration_def Let_def algebra_simps)

lemma strtol_range: "- (2 ^ 63) \<le> fst (strtol s)" "fst (strtol s) < 2 ^ 63"
  by (simp_all add: strtol_def Let_def split: prod.split)

text \<open>The deprecated name is used exactly when the new one is not set.\<close>

lemma deprecated_name:
  "name \<noteq> old \<Longrightarrow> set_deprecated_env_name name old env name = (case env name of Some v \<Rightarrow> Some v | None \<Rightarrow> env old)"
  by (auto simp: set_deprecated_env_name_def split: option.splits)

end
