(* ===== verification/Es10b_Download.thy ===== *)
theory Es10b_Download
  imports Es10x Sha256
begin

text \<open>
  \<open>euicc/es10b.c\<close>, the profile download: challenge and information for the server, authentication of the
  server, preparation of the download, loading the bound profile package and cancelling the session.
  The functions with suffix \<open>_r\<close> take and return the data; the ones without keep it in
  \<open>ctx->http._internal\<close> (\<open>http_internal\<close>).
\<close>

subsection \<open>Challenge and information\<close>

definition parse_euicc_challenge :: "cptr \<Rightarrow> u32 \<Rightarrow> cstr cres" where
  "parse_euicc_challenge respbuf resplen =
     cbind (euicc_derutil_unpack_find_tag 0xBF2E respbuf resplen) (\<lambda>tmpnode.
     cbind (euicc_derutil_unpack_find_tag 0x80 (n_value tmpnode) (n_length tmpnode)) (\<lambda>tmpnode.
     b64_dup (n_value tmpnode) (n_length tmpnode)))"

definition es10b_get_euicc_challenge_r ::
  "'d euicc_apdu_interface \<Rightarrow> 'd st \<Rightarrow> (cstr cres \<times> 'd st) option" where
  "es10b_get_euicc_challenge_r iface st = es10x_request iface (n_empty 0xBF2E) parse_euicc_challenge st"

text \<open>The whole element with a tag, in base64.\<close>

definition parse_b64_element :: "u16 \<Rightarrow> cptr \<Rightarrow> u32 \<Rightarrow> cstr cres" where
  "parse_b64_element tag respbuf resplen =
     cbind (euicc_derutil_unpack_find_tag tag respbuf resplen) (\<lambda>tmpnode.
     b64_dup (n_self_ptr tmpnode) (n_self_length tmpnode))"

definition es10b_get_euicc_info_r ::
  "'d euicc_apdu_interface \<Rightarrow> 'd st \<Rightarrow> (cstr cres \<times> 'd st) option" where
  "es10b_get_euicc_info_r iface st = es10x_request iface (n_empty 0xBF20) (parse_b64_element 0xBF20) st"

subsection \<open>\<open>es10b_prepare_download_r\<close>\<close>

definition sha256_ctx_zero :: sha256_ctx where
  "sha256_ctx_zero = \<lparr>s_data = replicate 64 0, s_datalen = 0, s_bitlen = 0, s_state = replicate 8 0\<rparr>"

text \<open>The hash of the confirmation code: \<open>SHA256(SHA256(code) | transactionId)\<close>.\<close>

definition hash_confirmation_code :: "cstr \<Rightarrow> cptr \<Rightarrow> u32 \<Rightarrow> byte list cres" where
  "hash_confirmation_code confirmationCode transactionId len =
     cbind (euicc_sha256_update (euicc_sha256_init sha256_ctx_zero) confirmationCode
       (unat (strlen confirmationCode))) (\<lambda>c.
     cbind (euicc_sha256_final c) (\<lambda>(c, hashCC).
     cbind (euicc_sha256_update (euicc_sha256_init sha256_ctx_zero) hashCC 32) (\<lambda>c.
     cbind (euicc_sha256_update c transactionId (unat len)) (\<lambda>c.
     cbind (euicc_sha256_final c) (\<lambda>(c, hashCC). Ret hashCC)))))"

definition prepare_download_request :: "es10b_prepare_download_param \<Rightarrow> cstr option \<Rightarrow> der_tree cres" where
  "prepare_download_request param confirmationCode =
     cbind (b64_decode_dup (b64_smdpSigned2 param)) (\<lambda>(smdpSigned2, smdpSigned2_len).
     cbind (b64_decode_dup (b64_smdpSignature2 param)) (\<lambda>(smdpSignature2, smdpSignature2_len).
     cbind (b64_decode_dup (b64_smdpCertificate param)) (\<lambda>(smdpCertificate, smdpCertificate_len).
     cbind (euicc_derutil_unpack_find_tag 0x30 smdpSigned2 smdpSigned2_len) (\<lambda>n_smdpSigned2.
     cbind (euicc_derutil_unpack_find_tag 0x5F37 smdpSignature2 smdpSignature2_len) (\<lambda>n_smdpSignature2.
     cbind (euicc_derutil_unpack_find_tag 0x30 smdpCertificate smdpCertificate_len) (\<lambda>n_smdpCertificate.
     cbind (euicc_derutil_unpack_find_tag 0x80 (n_value n_smdpSigned2) (n_length n_smdpSigned2))
       (\<lambda>n_transactionId.
     cbind (euicc_derutil_unpack_find_tag 0x01 (n_value n_smdpSigned2) (n_length n_smdpSigned2))
       (\<lambda>n_ccRequiredFlag.
     cbind (euicc_derutil_convert_bin2long (n_value n_ccRequiredFlag) (n_length n_ccRequiredFlag)) (\<lambda>flag.
     if flag \<noteq> 0 then
       (case confirmationCode of
          None \<Rightarrow> Fail
        | Some code \<Rightarrow>
            if strlen code = 0 then Fail
            else cbind (hash_confirmation_code code (n_value n_transactionId) (n_length n_transactionId))
              (\<lambda>hashCC.
              Ret (n_cons 0xBF21 [n_found n_smdpSigned2, n_found n_smdpSignature2, n_leaf 0x04 hashCC 32,
                n_found n_smdpCertificate])))
     else Ret (n_cons 0xBF21 [n_found n_smdpSigned2, n_found n_smdpSignature2, n_found n_smdpCertificate]))))))))))"

definition es10b_prepare_download_r ::
  "'d euicc_apdu_interface \<Rightarrow> es10b_prepare_download_param \<Rightarrow> cstr option \<Rightarrow> 'd st \<Rightarrow>
     (cstr cres \<times> 'd st) option" where
  "es10b_prepare_download_r iface param confirmationCode st =
     (case prepare_download_request param confirmationCode of
        Fail \<Rightarrow> Some (Fail, st)
      | UB \<Rightarrow> Some (UB, st)
      | Ret n_request \<Rightarrow> es10x_request_alloc iface n_request b64_dup st)"

subsection \<open>\<open>es10b_authenticate_server_r\<close>\<close>

text \<open>
  The IMEI for the request: \<open>imei0\<close> is what the uninitialised array \<open>uint8_t imei[8]\<close> holds. The result
  is the array, and the number of bytes of the element \<open>imei\<close> if there is one.
\<close>

definition device_imei :: "byte list \<Rightarrow> cstr option \<Rightarrow> (byte list \<times> u32 option) cres" where
  "device_imei imei0 user_imei =
     (case user_imei of
        Some s \<Rightarrow> cbind (euicc_hexutil_gsmbcd2bin imei0 8 s 0) (\<lambda>(imei_len, imei).
          Ret (imei, Some (of_nat imei_len)))
      | None \<Rightarrow> cbind (memcpy imei0 0 [0x35, 0x29, 0x06, 0x11] 4) (\<lambda>imei. Ret (imei, None)))"

definition device_info :: "byte list \<Rightarrow> u32 option \<Rightarrow> der_tree" where
  "device_info imei imei_len =
     n_cons 0xA1 ([n_leaf 0x80 imei 4, n_empty 0xA1] @
       (case imei_len of None \<Rightarrow> [] | Some len \<Rightarrow> [n_leaf 0x82 imei len]))"

definition ctx_params1 :: "cstr option \<Rightarrow> der_tree \<Rightarrow> der_tree" where
  "ctx_params1 matchingId n_deviceInfo =
     n_cons 0xA0 ((case matchingId of None \<Rightarrow> [] | Some m \<Rightarrow> [n_leaf 0x80 m (strlen m)]) @ [n_deviceInfo])"

text \<open>The request, and the transaction identifier the server chose.\<close>

definition authenticate_server_request ::
  "byte list \<Rightarrow> es10b_authenticate_server_param \<Rightarrow> cstr option \<Rightarrow> cstr option \<Rightarrow>
     (der_tree \<times> byte list \<times> u32) cres" where
  "authenticate_server_request imei0 param matchingId user_imei =
     cbind (b64_decode_dup (b64_serverSigned1 param)) (\<lambda>(serverSigned1, serverSigned1_len).
     cbind (b64_decode_dup (b64_serverSignature1 param)) (\<lambda>(serverSignature1, serverSignature1_len).
     cbind (b64_decode_dup (b64_euiccCiPKIdToBeUsed param)) (\<lambda>(euiccCiPKIdToBeUsed, euiccCiPKIdToBeUsed_len).
     cbind (b64_decode_dup (b64_serverCertificate param)) (\<lambda>(serverCertificate, serverCertificate_len).
     cbind (euicc_derutil_unpack_find_tag 0x30 serverSigned1 serverSigned1_len) (\<lambda>n_serverSigned1.
     cbind (euicc_derutil_unpack_find_tag 0x80 (n_value n_serverSigned1) (n_length n_serverSigned1))
       (\<lambda>n_transactionId.
     cbind (euicc_derutil_unpack_find_tag 0x5F37 serverSignature1 serverSignature1_len) (\<lambda>n_serverSignature1.
     cbind (euicc_derutil_unpack_find_tag 0x04 euiccCiPKIdToBeUsed euiccCiPKIdToBeUsed_len)
       (\<lambda>n_euiccCiPKIdToBeUsed.
     cbind (euicc_derutil_unpack_find_tag 0x30 serverCertificate serverCertificate_len) (\<lambda>n_serverCertificate.
     cbind (memcpy (replicate (unat (n_length n_transactionId)) 0) 0 (n_value n_transactionId)
       (unat (n_length n_transactionId))) (\<lambda>transaction_id.
     cbind (device_imei imei0 user_imei) (\<lambda>(imei, imei_len).
     Ret (n_cons 0xBF38 [n_found n_serverSigned1, n_found n_serverSignature1, n_found n_euiccCiPKIdToBeUsed,
         n_found n_serverCertificate, ctx_params1 matchingId (device_info imei imei_len)],
       transaction_id, n_length n_transactionId))))))))))))"

definition es10b_authenticate_server_r ::
  "'d euicc_apdu_interface \<Rightarrow> byte list \<Rightarrow> es10b_authenticate_server_param \<Rightarrow> cstr option \<Rightarrow> cstr option \<Rightarrow>
     'd st \<Rightarrow> ((byte list \<times> u32 \<times> cstr) cres \<times> 'd st) option" where
  "es10b_authenticate_server_r iface imei0 param matchingId user_imei st =
     (case authenticate_server_request imei0 param matchingId user_imei of
        Fail \<Rightarrow> Some (Fail, st)
      | UB \<Rightarrow> Some (UB, st)
      | Ret (n_request, transaction_id, transaction_id_len) \<Rightarrow>
          es10x_request_alloc iface n_request (\<lambda>respbuf resplen.
            cbind (b64_dup respbuf resplen) (\<lambda>b64. Ret (transaction_id, transaction_id_len, b64))) st)"

subsection \<open>\<open>es10b_cancel_session_r\<close>\<close>

datatype es10b_cancel_session_reason =
  ES10B_CANCEL_SESSION_REASON_ENDUSERREJECTION | ES10B_CANCEL_SESSION_REASON_POSTPONED
| ES10B_CANCEL_SESSION_REASON_TIMEOUT | ES10B_CANCEL_SESSION_REASON_PPRNOTALLOWED
| ES10B_CANCEL_SESSION_REASON_METADATAMISMATCH | ES10B_CANCEL_SESSION_REASON_LOADBPPEXECUTIONERROR
| ES10B_CANCEL_SESSION_REASON_UNDEFINED

fun cancel_reason_value :: "es10b_cancel_session_reason \<Rightarrow> u64" where
  "cancel_reason_value ES10B_CANCEL_SESSION_REASON_ENDUSERREJECTION = 0"
| "cancel_reason_value ES10B_CANCEL_SESSION_REASON_POSTPONED = 1"
| "cancel_reason_value ES10B_CANCEL_SESSION_REASON_TIMEOUT = 2"
| "cancel_reason_value ES10B_CANCEL_SESSION_REASON_PPRNOTALLOWED = 3"
| "cancel_reason_value ES10B_CANCEL_SESSION_REASON_METADATAMISMATCH = 4"
| "cancel_reason_value ES10B_CANCEL_SESSION_REASON_LOADBPPEXECUTIONERROR = 5"
| "cancel_reason_value ES10B_CANCEL_SESSION_REASON_UNDEFINED = 127"

record es10b_cancel_session_param =
  cs_transactionId :: cptr
  cs_transactionIdLen :: byte
  cs_reason :: es10b_cancel_session_reason

text \<open>\<open>reason_buf\<close> has the size of the enumeration, four bytes.\<close>

definition es10b_cancel_session_r ::
  "'d euicc_apdu_interface \<Rightarrow> es10b_cancel_session_param \<Rightarrow> 'd st \<Rightarrow> (cstr cres \<times> 'd st) option" where
  "es10b_cancel_session_r iface param st =
     (case euicc_derutil_convert_long2bin (replicate 4 0) 4 (cancel_reason_value (cs_reason param)) of
        Fail \<Rightarrow> Some (Fail, st)
      | UB \<Rightarrow> Some (UB, st)
      | Ret (reason_buf, reason_buf_len) \<Rightarrow>
          es10x_request iface
            (n_cons 0xBF41 [n_leaf 0x80 (cs_transactionId param) (ucast (cs_transactionIdLen param)),
              n_leaf 0x81 reason_buf reason_buf_len])
            (parse_b64_element 0xBF41) st)"

end
