(* ===== verification/Es10b_Session.thy ===== *)
theory Es10b_Session
  imports Es10b_Download Es10b_Bpp
begin

text \<open>
  \<open>euicc/es10b.c\<close>, the functions on the download session: each takes its input from
  \<open>ctx->http._internal\<close>, where \<open>es9p.c\<close> puts what the server answered, and leaves its output there for
  the next step.
\<close>

subsection \<open>The code\<close>

definition upd_http :: "(euicc_http_internal \<Rightarrow> euicc_http_internal) \<Rightarrow> 'd st \<Rightarrow> 'd st" where
  "upd_http f st = ((fst st)\<lparr>http_internal := f (http_internal (fst st))\<rparr>, snd st)"

definition es10b_prepare_download ::
  "'d euicc_apdu_interface \<Rightarrow> cstr option \<Rightarrow> 'd st \<Rightarrow> (unit cres \<times> 'd st) option" where
  "es10b_prepare_download iface confirmationCode st =
     (let h = http_internal (fst st) in
      if b64_prepare_download_response h \<noteq> None then Some (Fail, st)
      else case prepare_download_param h of
        None \<Rightarrow> Some (Fail, st)
      | Some param \<Rightarrow>
          Option.bind (es10b_prepare_download_r iface param confirmationCode st) (\<lambda>(r, st).
          case r of
            Fail \<Rightarrow> Some (Fail, upd_http (\<lambda>h. h\<lparr>b64_prepare_download_response := None\<rparr>) st)
          | UB \<Rightarrow> Some (UB, st)
          | Ret b64 \<Rightarrow> Some (Ret (), upd_http (\<lambda>h. h\<lparr>b64_prepare_download_response := Some b64,
              prepare_download_param := None\<rparr>) st)))"

definition es10b_load_bound_profile_package ::
  "'d euicc_apdu_interface \<Rightarrow> es10b_load_bound_profile_package_result \<Rightarrow> 'd st \<Rightarrow>
     (bpp_outcome \<times> 'd st) option" where
  "es10b_load_bound_profile_package iface result st =
     (case b64_bound_profile_package (http_internal (fst st)) of
        None \<Rightarrow> Some (Ret (False, result), st)
      | Some b64 \<Rightarrow>
          bpp_then (es10b_load_bound_profile_package_r iface result b64 st) (\<lambda>result st.
          Some (Ret (True, result), upd_http (\<lambda>h. h\<lparr>b64_bound_profile_package := None\<rparr>) st)))"

text \<open>\<open>err:\<close> both strings are freed and set to \<open>NULL\<close>.\<close>

definition challenge_and_info_err :: "'d st \<Rightarrow> 'd st" where
  "challenge_and_info_err st = upd_http (\<lambda>h. h\<lparr>b64_euicc_challenge := None, b64_euicc_info_1 := None\<rparr>) st"

definition es10b_get_euicc_challenge_and_info ::
  "'d euicc_apdu_interface \<Rightarrow> 'd st \<Rightarrow> (unit cres \<times> 'd st) option" where
  "es10b_get_euicc_challenge_and_info iface st =
     (let h = http_internal (fst st) in
      if b64_euicc_challenge h \<noteq> None then Some (Fail, st)
      else if b64_euicc_info_1 h \<noteq> None then Some (Fail, st)
      else Option.bind (es10b_get_euicc_challenge_r iface st) (\<lambda>(r, st).
        case r of
          Fail \<Rightarrow> Some (Fail, challenge_and_info_err st)
        | UB \<Rightarrow> Some (UB, st)
        | Ret challenge \<Rightarrow>
            let st = upd_http (\<lambda>h. h\<lparr>b64_euicc_challenge := Some challenge\<rparr>) st in
            Option.bind (es10b_get_euicc_info_r iface st) (\<lambda>(r, st).
            case r of
              Fail \<Rightarrow> Some (Fail, challenge_and_info_err st)
            | UB \<Rightarrow> Some (UB, st)
            | Ret info \<Rightarrow> Some (Ret (), upd_http (\<lambda>h. h\<lparr>b64_euicc_info_1 := Some info\<rparr>) st))))"

text \<open>
  \<open>es10b_authenticate_server_r\<close> writes the transaction identifier straight into the context, and resets
  it there when it fails. \<open>imei0\<close> stands for the content of its uninitialised array.
\<close>

definition es10b_authenticate_server ::
  "'d euicc_apdu_interface \<Rightarrow> byte list \<Rightarrow> cstr option \<Rightarrow> cstr option \<Rightarrow> 'd st \<Rightarrow>
     (unit cres \<times> 'd st) option" where
  "es10b_authenticate_server iface imei0 matchingId imei st =
     (let h = http_internal (fst st) in
      if b64_authenticate_server_response h \<noteq> None then Some (Fail, st)
      else case authenticate_server_param h of
        None \<Rightarrow> Some (Fail, st)
      | Some param \<Rightarrow>
          Option.bind (es10b_authenticate_server_r iface imei0 param matchingId imei st) (\<lambda>(r, st).
          case r of
            Fail \<Rightarrow> Some (Fail, upd_http (\<lambda>h. h\<lparr>transaction_id_bin := None, transaction_id_bin_len := 0,
              b64_authenticate_server_response := None\<rparr>) st)
          | UB \<Rightarrow> Some (UB, st)
          | Ret (tid, tid_len, b64) \<Rightarrow> Some (Ret (), upd_http (\<lambda>h. h\<lparr>transaction_id_bin := Some tid,
              transaction_id_bin_len := tid_len, b64_authenticate_server_response := Some b64,
              authenticate_server_param := None\<rparr>) st)))"

definition es10b_cancel_session ::
  "'d euicc_apdu_interface \<Rightarrow> es10b_cancel_session_reason \<Rightarrow> 'd st \<Rightarrow> (unit cres \<times> 'd st) option" where
  "es10b_cancel_session iface reason st =
     (let h = http_internal (fst st) in
      case transaction_id_bin h of
        None \<Rightarrow> Some (Fail, st)
      | Some tid \<Rightarrow>
          if transaction_id_bin_len h = 0 then Some (Fail, st)
          else if b64_cancel_session_response h \<noteq> None then Some (Fail, st)
          else Option.bind (es10b_cancel_session_r iface \<lparr>cs_transactionId = tid,
              cs_transactionIdLen = ucast (transaction_id_bin_len h), cs_reason = reason\<rparr> st) (\<lambda>(r, st).
            case r of
              Fail \<Rightarrow> Some (Fail, upd_http (\<lambda>h. h\<lparr>b64_cancel_session_response := None\<rparr>) st)
            | UB \<Rightarrow> Some (UB, st)
            | Ret b64 \<Rightarrow> Some (Ret (), upd_http (\<lambda>h. h\<lparr>b64_cancel_session_response := Some b64\<rparr>) st)))"

end
