(* ===== verification/Es9p.thy ===== *)
theory Es9p
  imports Es10b_Session
begin

text \<open>
  \<open>euicc/es9p.c\<close> and \<open>euicc/es9p_errors.c\<close>: the requests to the download server. A request is a JSON object
  posted over HTTP; the answer is a JSON object whose idata go to the session (\<open>ctx->http._internal\<close>), and
  whose status goes to \<open>ctx->http.status\<close>.

  Two parts are not code of the repository and are parameters: the HTTP driver (\<open>euicc_http_interface\<close>,
  loaded at run time) and the JSON library cJSON (the record \<open>cjson\<close>, one field per function the code
  calls, over a type \<open>'j\<close> of JSON values).
\<close>

subsection \<open>The parameters\<close>

text \<open>
  \<open>transmit\<close>: the address, the body and its length, the headers; \<open>None\<close> for a negative result, else the
  status code, the memory of the answer and its length.
\<close>

record 'h euicc_http_interface =
  http_transmit :: "cstr \<Rightarrow> cstr \<Rightarrow> u32 \<Rightarrow> cstr list \<Rightarrow> 'h \<Rightarrow> (u32 \<times> cptr \<times> u32) option \<times> 'h"

text \<open>
  \<open>cJSON_GetObjectItem\<close> gives \<open>None\<close> for a missing item; \<open>cJSON_HasObjectItem\<close> says whether it does not.
  \<open>cJSON_String\<close> is the \<open>valuestring\<close> of a value for which \<open>cJSON_IsString\<close> holds. \<open>cJSON_Print\<close> is the text of an
  object made with \<open>cJSON_CreateObject\<close> and one \<open>cJSON_AddStringOrNullToObject\<close> per entry.
\<close>

record 'j cjson =
  cJSON_Parse :: "cstr \<Rightarrow> 'j option"
  cJSON_IsObject :: "'j \<Rightarrow> bool"
  cJSON_GetObjectItem :: "'j \<Rightarrow> cstr \<Rightarrow> 'j option"
  cJSON_String :: "'j \<Rightarrow> cstr option"
  cJSON_IsArray :: "'j \<Rightarrow> bool"
  cJSON_GetArraySize :: "'j \<Rightarrow> nat"
  cJSON_GetArrayItem :: "'j \<Rightarrow> nat \<Rightarrow> 'j option"
  cJSON_Print :: "(cstr \<times> cstr option) list \<Rightarrow> cstr"

subsection \<open>Error messages\<close>

definition es9p_errors :: "(cstr \<times> cstr \<times> cstr) list" where
  "es9p_errors =
    [(cstr ''8.1'', cstr ''4.8'', cstr ''eUICC does not have sufficient space for this Profile''),
     (cstr ''8.1'', cstr ''6.1'', cstr ''eUICC signature is invalid or serverChallenge is invalid''),
     (cstr ''8.1.1'', cstr ''2.2'', cstr ''Indicates that the EID is missing in the context of this order (SM-DS address provided or MatchingID value is empty)''),
     (cstr ''8.1.1'', cstr ''3.1'', cstr ''Indicates that a different EID is already associated with this ICCID''),
     (cstr ''8.1.1'', cstr ''3.8'', cstr ''EID doesn't match the expected value''),
     (cstr ''8.1.2'', cstr ''6.1'', cstr ''EUM Certificate is invalid''),
     (cstr ''8.1.2'', cstr ''6.3'', cstr ''EUM Certificate has expired''),
     (cstr ''8.1.3'', cstr ''6.1'', cstr ''eUICC Certificate is invalid''),
     (cstr ''8.1.3'', cstr ''6.3'', cstr ''eUICC Certificate has expired''),
     (cstr ''8.2'', cstr ''1.2'', cstr ''Profile has not yet been released''),
     (cstr ''8.2'', cstr ''3.7'', cstr ''BPP is not available for a new binding''),
     (cstr ''8.2.1'', cstr ''1.2'', cstr ''Indicates that the function caller is not allowed to perform this function on the target Profile''),
     (cstr ''8.2.1'', cstr ''3.1'', cstr ''Indicates that a different EID is associated with this ICCID''),
     (cstr ''8.2.1'', cstr ''3.3'', cstr ''Indicates that the Profile identified by the provided ICCID is not available''),
     (cstr ''8.2.1'', cstr ''3.5'', cstr ''Indicates that the target Profile cannot be released''),
     (cstr ''8.2.1'', cstr ''3.9'', cstr ''Indicates that the Profile Type identified by this Profile Type is unknown to the SM-DP+''),
     (cstr ''8.2.5'', cstr ''1.2'', cstr ''Indicates that the function caller is not allowed to perform this function on the Profile Type''),
     (cstr ''8.2.5'', cstr ''3.7'', cstr ''No more Profile available for the requested Profile Type''),
     (cstr ''8.2.5'', cstr ''3.8'', cstr ''Indicates that the Profile Type identified by this Profile Type is not aligned with the Profile Type of Profile identified by the ICCID''),
     (cstr ''8.2.5'', cstr ''3.9'', cstr ''Indicates that the Profile Type identified by this Profile Type is unknown to the SM-DP+''),
     (cstr ''8.2.5'', cstr ''4.3'', cstr ''No eligible Profile for this eUICC/Device''),
     (cstr ''8.2.6'', cstr ''3.1'', cstr ''Indicates that a different MatchingID is associated with this ICCID''),
     (cstr ''8.2.6'', cstr ''3.3'', cstr ''Conflicting MatchingID value''),
     (cstr ''8.2.6'', cstr ''3.8'', cstr ''MatchingID (AC_Token or EventID) is refused''),
     (cstr ''8.2.7'', cstr ''2.2'', cstr ''Confirmation Code is missing''),
     (cstr ''8.2.7'', cstr ''3.8'', cstr ''Confirmation Code is refused''),
     (cstr ''8.2.7'', cstr ''6.4'', cstr ''The maximum number of retries for the Confirmation Code has been exceeded''),
     (cstr ''8.8'', cstr ''3.1'', cstr ''The provided SM-DP+ OID is invalid''),
     (cstr ''8.8.1'', cstr ''3.8'', cstr ''Invalid SM-DP+ Address''),
     (cstr ''8.8.2'', cstr ''3.1'', cstr ''None of the proposed Public Key Identifiers is supported by the SM-DP+''),
     (cstr ''8.8.3'', cstr ''3.1'', cstr ''The Specification Version Number indicated by the eUICC is not supported by the SM-DP+''),
     (cstr ''8.8.4'', cstr ''3.7'', cstr ''The SM-DP+ has no CERT.DPauth.ECDSA signed by one of the CI Public Key supported by the eUICC''),
     (cstr ''8.8.5'', cstr ''4.1'', cstr ''The Download order has expired''),
     (cstr ''8.8.5'', cstr ''6.4'', cstr ''The maximum number of retries for the Profile download order has been exceeded''),
     (cstr ''8.9'', cstr ''4.2'', cstr ''Root SM-DS has raised an error''),
     (cstr ''8.9'', cstr ''5.1'', cstr ''Root SM-DS was unavailable''),
     (cstr ''8.9.1'', cstr ''3.8'', cstr ''Invalid SM-DS Address''),
     (cstr ''8.9.2'', cstr ''3.1'', cstr ''None of the proposed Public Key Identifiers is supported by the SM-DS''),
     (cstr ''8.9.3'', cstr ''3.1'', cstr ''The Specification Version Number indicated by the eUICC is not supported by the SM-DS''),
     (cstr ''8.9.4'', cstr ''3.7'', cstr ''The SM-DS has no CERT.DS.ECDSA signed by one of the GSMA CI Public Key supported by the eUICC''),
     (cstr ''8.9.5'', cstr ''3.3'', cstr ''The Event Record already exist in the SM-DS (EventID duplicated)''),
     (cstr ''8.9.5'', cstr ''3.9'', cstr ''No Event identified by the Event ID for the EID exists''),
     (cstr ''8.10.1'', cstr ''3.9'', cstr ''The RSP session identified by the TransactionID is unknown''),
     (cstr ''8.11.1'', cstr ''3.9'', cstr ''Unknown CI Public Key. The CI used by the EUM Certificate is not a trusted root.'')]"

definition es9p_error_message :: "cstr \<Rightarrow> cstr \<Rightarrow> cstr option" where
  "es9p_error_message subject_code reason_code =
     map_option (\<lambda>(_, _, description). description)
       (List.find (\<lambda>(s, r, _). s = subject_code \<and> r = reason_code) es9p_errors)"

subsection \<open>C strings in arrays\<close>

definition strncpy :: "cbuf \<Rightarrow> cstr \<Rightarrow> nat \<Rightarrow> cbuf cres" where
  "strncpy dst src n =
     (if n \<le> length dst then Ret (take n (src @ replicate (n - length src) 0) @ drop n dst) else UB)"

text \<open>\<open>snprintf(dst, n, ...)\<close> of a text, with room for at least the NUL.\<close>

definition snprintf :: "cbuf \<Rightarrow> nat \<Rightarrow> cstr \<Rightarrow> cbuf cres" where
  "snprintf dst n text =
     (let s = take (n - 1) text in
      if 0 < n \<and> n \<le> length dst then Ret (s @ 0 # drop (Suc (length s)) dst) else UB)"

text \<open>An array read as a string.\<close>

definition array_str :: "cbuf \<Rightarrow> cstr cres" where
  "array_str b = (if 0 \<in> set b then Ret (cstr_of b) else UB)"

text \<open>The digits of \<open>%d\<close>.\<close>

fun dec_digits :: "nat \<Rightarrow> cstr" where
  "dec_digits n = (if n < 10 then [of_nat (48 + n)] else dec_digits (n div 10) @ [of_nat (48 + n mod 10)])"

definition dec_int :: "int \<Rightarrow> cstr" where
  "dec_int i = (if i < 0 then 0x2D # dec_digits (nat (- i)) else dec_digits (nat i))"

subsection \<open>\<open>es9p_base64_trim\<close>\<close>

definition is_blank :: "byte \<Rightarrow> bool" where
  "is_blank c \<longleftrightarrow> c = 0x0A \<or> c = 0x0D \<or> c = 0x20 \<or> c = 0x09"

text \<open>\<open>i\<close> is the index of \<open>p\<close>; the \<open>memmove\<close> closes the gap of one byte.\<close>

function trim_from :: "nat \<Rightarrow> cstr \<Rightarrow> cstr" where
  "trim_from i s =
     (if i < length s then
        if is_blank (s ! i) then trim_from i (take i s @ drop (Suc i) s) else trim_from (Suc i) s
      else s)"
  by pat_completeness auto
termination
  by (relation "measure (\<lambda>(i, s). 2 * length s - i)") auto

declare trim_from.simps [simp del]

definition es9p_base64_trim :: "cstr \<Rightarrow> cstr" where
  "es9p_base64_trim str = trim_from 0 str"

subsection \<open>\<open>es9p_trans_ex\<close>\<close>

type_synonym 'h hst = "euicc_ctx \<times> 'h"

definition lpa_header :: "cstr list" where
  "lpa_header = [cstr ''User-Agent: gsma-rsp-lpad'', cstr ''X-Admin-Protocol: gsma/rsp/v2.2.2'',
     cstr ''Content-Type: application/json'']"

text \<open>
  The answer is copied into a string of its own: \<open>malloc(rlen + 1)\<close>, whose size wraps. The interface and the
  server's address may be \<open>NULL\<close>; the code checks the first only.
\<close>

definition es9p_trans_ex ::
  "'h euicc_http_interface option \<Rightarrow> cstr option \<Rightarrow> cstr \<Rightarrow> cstr \<Rightarrow> 'h \<Rightarrow> (u32 \<times> cstr) cres \<times> 'h" where
  "es9p_trans_ex http url url_postfix str_tx h =
     (case http of
        None \<Rightarrow> (Fail, h)
      | Some iface \<Rightarrow>
          (case url of
             None \<Rightarrow> (UB, h)
           | Some u \<Rightarrow>
               (case http_transmit iface (cstr ''https://'' @ u @ url_postfix) str_tx (strlen str_tx) lpa_header h of
                  (None, h) \<Rightarrow> (Fail, h)
                | (Some (rcode, rbuf, rlen), h) \<Rightarrow>
                    (cbind (memcpy (replicate (unat (rlen + 1)) 0) 0 rbuf (unat rlen)) (\<lambda>str_rx.
                     cbind (cstore str_rx (unat rlen) 0) (\<lambda>str_rx.
                     Ret (rcode, cstr_of str_rx))), h))))"

subsection \<open>\<open>es9p_trans_json\<close>\<close>

text \<open>The four \<open>strncpy\<close> (or, for a status code, \<open>snprintf\<close>) calls that set the status.\<close>

definition put_status :: "cstr \<Rightarrow> cstr \<Rightarrow> euicc_http_status \<Rightarrow> euicc_http_status cres" where
  "put_status identifier message s =
     cbind (strncpy (reasonCode s) (cstr ''0.0.0'') 9) (\<lambda>rc.
     cbind (strncpy (subjectCode s) (cstr ''0.0.0'') 9) (\<lambda>sc.
     cbind (strncpy (subjectIdentifier s) identifier 129) (\<lambda>si.
     cbind (strncpy (status_message s) message 129) (\<lambda>m.
     Ret (s\<lparr>reasonCode := rc, subjectCode := sc, subjectIdentifier := si, status_message := m\<rparr>)))))"

definition put_status_rcode :: "u32 \<Rightarrow> euicc_http_status \<Rightarrow> euicc_http_status cres" where
  "put_status_rcode rcode s =
     cbind (strncpy (reasonCode s) (cstr ''0.0.0'') 9) (\<lambda>rc.
     cbind (strncpy (subjectCode s) (cstr ''0.0.0'') 9) (\<lambda>sc.
     cbind (snprintf (subjectIdentifier s) 129 (dec_int (sint rcode))) (\<lambda>si.
     cbind (strncpy (status_message s) (cstr ''HTTP status code error'') 129) (\<lambda>m.
     Ret (s\<lparr>reasonCode := rc, subjectCode := sc, subjectIdentifier := si, status_message := m\<rparr>)))))"

text \<open>\<open>if (cJSON_HasObjectItem(o, k) && cJSON_IsString(cJSON_GetObjectItem(o, k))) snprintf(dst, sizeof(dst), "%s", ...)\<close>\<close>

definition json_str :: "'j cjson \<Rightarrow> 'j \<Rightarrow> cstr \<Rightarrow> cstr option" where
  "json_str J obj k = Option.bind (cJSON_GetObjectItem J obj k) (cJSON_String J)"

definition copy_json_str :: "'j cjson \<Rightarrow> 'j \<Rightarrow> cstr \<Rightarrow> nat \<Rightarrow> cbuf \<Rightarrow> cbuf cres" where
  "copy_json_str J obj k n dst = (case json_str J obj k of None \<Rightarrow> Ret dst | Some v \<Rightarrow> snprintf dst n v)"

definition status_code_data :: "'j cjson \<Rightarrow> 'j \<Rightarrow> euicc_http_status \<Rightarrow> euicc_http_status cres" where
  "status_code_data J statusCodeData s =
     cbind (copy_json_str J statusCodeData (cstr ''reasonCode'') 9 (reasonCode s)) (\<lambda>rc.
     cbind (copy_json_str J statusCodeData (cstr ''subjectCode'') 9 (subjectCode s)) (\<lambda>sc.
     cbind (copy_json_str J statusCodeData (cstr ''subjectIdentifier'') 129 (subjectIdentifier s)) (\<lambda>si.
     cbind (case json_str J statusCodeData (cstr ''message'') of
              Some v \<Rightarrow> snprintf (status_message s) 129 v
            | None \<Rightarrow>
                cbind (array_str sc) (\<lambda>subject. cbind (array_str rc) (\<lambda>reason.
                case es9p_error_message subject reason of
                  Some message \<Rightarrow> snprintf (status_message s) 129 message
                | None \<Rightarrow> snprintf (status_message s) 129
                    (cstr ''subject-code: '' @ subject @ cstr '', reason-code: '' @ reason)))) (\<lambda>m.
     Ret (s\<lparr>reasonCode := rc, subjectCode := sc, subjectIdentifier := si, status_message := m\<rparr>)))))"

text \<open>
  What the loop over \<open>okey\<close> stores through \<open>optr\<close>: a copy of a string, or, where \<open>oobj\<close> allows it, of
  any other value. The first missing or refused field ends it; the ones before it have been stored.
\<close>

datatype 'j jval = JStr cstr | JObj 'j

fun json_outputs :: "'j cjson \<Rightarrow> 'j \<Rightarrow> (cstr \<times> bool) list \<Rightarrow> bool \<times> 'j jval list" where
  "json_outputs J root [] = (True, [])"
| "json_outputs J root ((k, oobj) # ks) =
     (case cJSON_GetObjectItem J root k of
        None \<Rightarrow> (False, [])
      | Some obj \<Rightarrow>
          (case cJSON_String J obj of
             Some s \<Rightarrow> map_prod id ((#) (JStr s)) (json_outputs J root ks)
           | None \<Rightarrow> if \<not> oobj then (False, [])
               else map_prod id ((#) (JObj obj)) (json_outputs J root ks)))"

text \<open>The answer of the server. \<open>okey\<close> is \<open>NULL\<close> where no field of the answer is wanted.\<close>

definition trans_reply ::
  "'j cjson \<Rightarrow> (cstr \<times> bool) list option \<Rightarrow> u32 \<Rightarrow> cstr \<Rightarrow> euicc_http_status \<Rightarrow>
     ((bool \<times> 'j jval list) \<times> euicc_http_status) cres" where
  "trans_reply J okey rcode rbuf s =
     (let err = (\<lambda>identifier message. cbind (put_status identifier message s) (\<lambda>s. Ret ((False, []), s))) in
      if rcode div 100 \<noteq> 2 then cbind (put_status_rcode rcode s) (\<lambda>s. Ret ((False, []), s))
      else case okey of
        None \<Rightarrow> Ret ((True, []), s)
      | Some keys \<Rightarrow>
          (case cJSON_Parse J rbuf of
             None \<Rightarrow> err (cstr ''root'') (cstr ''Not JSON'')
           | Some rjroot \<Rightarrow>
               if \<not> cJSON_IsObject J rjroot then err (cstr ''root'') (cstr ''Not Object'')
               else case cJSON_GetObjectItem J rjroot (cstr ''header'') of
                 None \<Rightarrow> err (cstr ''header'') (cstr ''Critical object missing'')
               | Some rjheader \<Rightarrow>
                   (case cJSON_GetObjectItem J rjheader (cstr ''functionExecutionStatus'') of
                      None \<Rightarrow> err (cstr ''functionExecutionStatus'') (cstr ''Critical object missing'')
                    | Some rjfunctionExecutionStatus \<Rightarrow>
                        cbind (case cJSON_GetObjectItem J rjfunctionExecutionStatus (cstr ''statusCodeData'') of
                                 None \<Rightarrow> Ret s
                               | Some statusCodeData \<Rightarrow> status_code_data J statusCodeData s) (\<lambda>s.
                        Ret (json_outputs J rjroot keys, s)))))"

text \<open>The entries of \<open>idata\<close> carry their \<open>ikey\<close>. The result is whether the call succeeded, with what it stored.\<close>

definition es9p_trans_json ::
  "'j cjson \<Rightarrow> 'h euicc_http_interface option \<Rightarrow> cstr option \<Rightarrow> cstr \<Rightarrow> (cstr \<times> cstr option) list \<Rightarrow>
     (cstr \<times> bool) list option \<Rightarrow> 'h hst \<Rightarrow> (bool \<times> 'j jval list) cres \<times> 'h hst" where
  "es9p_trans_json J http smdp api idata okey = (\<lambda>(ctx, h).
     case put_status (cstr ''unknown'') (cstr ''unknown'') (http_status ctx) of
       Fail \<Rightarrow> (Fail, ctx, h) | UB \<Rightarrow> (UB, ctx, h)
     | Ret s \<Rightarrow>
         (case es9p_trans_ex http smdp api (cJSON_Print J idata) h of (r, h) \<Rightarrow>
          (case (case r of
                   UB \<Rightarrow> UB
                 | Fail \<Rightarrow> cbind (put_status (cstr ''unknown'') (cstr ''HTTP transport failed'') s)
                     (\<lambda>s. Ret ((False, []), s))
                 | Ret (rcode, rbuf) \<Rightarrow> trans_reply J okey rcode rbuf s) of
             Ret (out, s) \<Rightarrow> (Ret out, ctx\<lparr>http_status := s\<rparr>, h)
           | Fail \<Rightarrow> (Fail, ctx, h) | UB \<Rightarrow> (UB, ctx, h))))"

subsection \<open>The functions of the server\<close>

text \<open>
  A function \<open>_r\<close> gives whether it succeeded together with what it wrote through its pointers. A value that
  is not a string, stored through a \<open>char **\<close> and used as one, is undefined behaviour; so is the converse.
\<close>

definition es9p_initiate_authentication_r ::
  "'j cjson \<Rightarrow> 'h euicc_http_interface option \<Rightarrow> cstr option \<Rightarrow> cstr option \<Rightarrow> cstr option \<Rightarrow> 'h hst \<Rightarrow>
     (cstr option \<times> es10b_authenticate_server_param option) cres \<times> 'h hst" where
  "es9p_initiate_authentication_r J http address b64_challenge b64_info_1 st =
     (case es9p_trans_json J http address (cstr ''/gsma/rsp2/es9plus/initiateAuthentication'')
        [(cstr ''smdpAddress'', address), (cstr ''euiccChallenge'', b64_challenge), (cstr ''euiccInfo1'', b64_info_1)]
        (Some [(cstr ''transactionId'', False), (cstr ''serverSigned1'', False), (cstr ''serverSignature1'', False),
          (cstr ''euiccCiPKIdToBeUsed'', False), (cstr ''serverCertificate'', False)]) st of
        (Ret (False, outs), st) \<Rightarrow>
          (Ret (case outs of JStr t # _ \<Rightarrow> Some t | _ \<Rightarrow> None, None), st)
      | (Ret (True, [JStr t, JStr signed1, JStr signature1, JStr ciPKId, JStr certificate]), st) \<Rightarrow>
          (Ret (Some t, Some \<lparr>b64_serverSigned1 = es9p_base64_trim signed1,
             b64_serverSignature1 = es9p_base64_trim signature1,
             b64_euiccCiPKIdToBeUsed = es9p_base64_trim ciPKId,
             b64_serverCertificate = es9p_base64_trim certificate\<rparr>), st)
      | (_, st) \<Rightarrow> (UB, st))"

definition es9p_get_bound_profile_package_r ::
  "'j cjson \<Rightarrow> 'h euicc_http_interface option \<Rightarrow> cstr option \<Rightarrow> cstr option \<Rightarrow> cstr option \<Rightarrow> 'h hst \<Rightarrow>
     cstr option cres \<times> 'h hst" where
  "es9p_get_bound_profile_package_r J http address transaction_id b64_response st =
     (case es9p_trans_json J http address (cstr ''/gsma/rsp2/es9plus/getBoundProfilePackage'')
        [(cstr ''transactionId'', transaction_id), (cstr ''prepareDownloadResponse'', b64_response)]
        (Some [(cstr ''boundProfilePackage'', False)]) st of
        (Ret (False, outs), st) \<Rightarrow> (Ret None, st)
      | (Ret (True, [JStr bpp]), st) \<Rightarrow> (Ret (Some (es9p_base64_trim bpp)), st)
      | (_, st) \<Rightarrow> (UB, st))"

definition es9p_authenticate_client_r ::
  "'j cjson \<Rightarrow> 'h euicc_http_interface option \<Rightarrow> cstr option \<Rightarrow> cstr option \<Rightarrow> cstr option \<Rightarrow> 'h hst \<Rightarrow>
     es10b_prepare_download_param option cres \<times> 'h hst" where
  "es9p_authenticate_client_r J http address transaction_id b64_response st =
     (case es9p_trans_json J http address (cstr ''/gsma/rsp2/es9plus/authenticateClient'')
        [(cstr ''transactionId'', transaction_id), (cstr ''authenticateServerResponse'', b64_response)]
        (Some [(cstr ''profileMetadata'', False), (cstr ''smdpSigned2'', False), (cstr ''smdpSignature2'', False),
          (cstr ''smdpCertificate'', False)]) st of
        (Ret (False, outs), st) \<Rightarrow> (Ret None, st)
      | (Ret (True, [JStr metadata, JStr signed2, JStr signature2, JStr certificate]), st) \<Rightarrow>
          (Ret (Some \<lparr>b64_profileMetadata = Some (es9p_base64_trim metadata),
             b64_smdpSigned2 = es9p_base64_trim signed2, b64_smdpSignature2 = es9p_base64_trim signature2,
             b64_smdpCertificate = es9p_base64_trim certificate\<rparr>), st)
      | (_, st) \<Rightarrow> (UB, st))"

definition es9p_cancel_session_r ::
  "'j cjson \<Rightarrow> 'h euicc_http_interface option \<Rightarrow> cstr option \<Rightarrow> cstr option \<Rightarrow> cstr option \<Rightarrow> 'h hst \<Rightarrow>
     bool cres \<times> 'h hst" where
  "es9p_cancel_session_r J http address transaction_id b64_response st =
     (case es9p_trans_json J http address (cstr ''/gsma/rsp2/es9plus/cancelSession'')
        [(cstr ''transactionId'', transaction_id), (cstr ''cancelSessionResponse'', b64_response)] None st of
        (Ret (ok, outs), st) \<Rightarrow> (Ret ok, st)
      | (_, st) \<Rightarrow> (UB, st))"

text \<open>The loop over the event entries; \<open>n\<close> of them are left.\<close>

fun smdp_addresses :: "'j cjson \<Rightarrow> 'j \<Rightarrow> nat \<Rightarrow> nat \<Rightarrow> cstr list option" where
  "smdp_addresses J entries i 0 = Some []"
| "smdp_addresses J entries i (Suc n) =
     (case Option.bind (cJSON_GetArrayItem J entries i) (\<lambda>event. json_str J event (cstr ''rspServerAddress'')) of
        None \<Rightarrow> None
      | Some a \<Rightarrow> map_option ((#) a) (smdp_addresses J entries (Suc i) n))"

text \<open>A string under \<open>eventEntries\<close> is stored as such, and then read as a JSON value.\<close>

definition es11_authenticate_client_r ::
  "'j cjson \<Rightarrow> 'h euicc_http_interface option \<Rightarrow> cstr option \<Rightarrow> cstr option \<Rightarrow> cstr option \<Rightarrow> 'h hst \<Rightarrow>
     cstr list cres \<times> 'h hst" where
  "es11_authenticate_client_r J http address transaction_id b64_response st =
     (case es9p_trans_json J http address (cstr ''/gsma/rsp2/es9plus/authenticateClient'')
        [(cstr ''transactionId'', transaction_id), (cstr ''authenticateServerResponse'', b64_response)]
        (Some [(cstr ''eventEntries'', True)]) st of
        (Ret (False, outs), st) \<Rightarrow> (Fail, st)
      | (Ret (True, [JObj entries]), st) \<Rightarrow>
          if \<not> cJSON_IsArray J entries then (Fail, st)
          else (case smdp_addresses J entries 0 (cJSON_GetArraySize J entries) of
             None \<Rightarrow> (Fail, st) | Some l \<Rightarrow> (Ret l, st))
      | (_, st) \<Rightarrow> (UB, st))"

subsection \<open>The functions on the session\<close>

definition es9p_initiate_authentication ::
  "'j cjson \<Rightarrow> 'h euicc_http_interface option \<Rightarrow> 'h hst \<Rightarrow> unit cres \<times> 'h hst" where
  "es9p_initiate_authentication J http st =
     (let h = http_internal (fst st) in
      if authenticate_server_param h \<noteq> None then (Fail, st)
      else if b64_euicc_challenge h = None then (Fail, st)
      else if b64_euicc_info_1 h = None then (Fail, st)
      else case es9p_initiate_authentication_r J http (server_address (fst st)) (b64_euicc_challenge h) (b64_euicc_info_1 h) st of
        (Ret (t, param), st) \<Rightarrow>
          let st = (case t of None \<Rightarrow> st | Some t \<Rightarrow> upd_http (\<lambda>h. h\<lparr>transaction_id_http := Some t\<rparr>) st) in
          (case param of
             None \<Rightarrow> (Fail, upd_http (\<lambda>h. h\<lparr>authenticate_server_param := None\<rparr>) st)
           | Some p \<Rightarrow> (Ret (), upd_http (\<lambda>h. h\<lparr>authenticate_server_param := Some p,
               b64_euicc_challenge := None, b64_euicc_info_1 := None\<rparr>) st))
      | (_, st) \<Rightarrow> (UB, st))"

definition es9p_get_bound_profile_package ::
  "'j cjson \<Rightarrow> 'h euicc_http_interface option \<Rightarrow> 'h hst \<Rightarrow> unit cres \<times> 'h hst" where
  "es9p_get_bound_profile_package J http st =
     (let h = http_internal (fst st) in
      if b64_bound_profile_package h \<noteq> None then (Fail, st)
      else if b64_prepare_download_response h = None then (Fail, st)
      else case es9p_get_bound_profile_package_r J http (server_address (fst st)) (transaction_id_http h)
          (b64_prepare_download_response h) st of
        (Ret None, st) \<Rightarrow> (Fail, upd_http (\<lambda>h. h\<lparr>b64_bound_profile_package := None\<rparr>) st)
      | (Ret (Some bpp), st) \<Rightarrow> (Ret (), upd_http (\<lambda>h. h\<lparr>b64_bound_profile_package := Some bpp,
          b64_prepare_download_response := None\<rparr>) st)
      | (_, st) \<Rightarrow> (UB, st))"

definition es9p_authenticate_client ::
  "'j cjson \<Rightarrow> 'h euicc_http_interface option \<Rightarrow> 'h hst \<Rightarrow> unit cres \<times> 'h hst" where
  "es9p_authenticate_client J http st =
     (let h = http_internal (fst st) in
      if prepare_download_param h \<noteq> None then (Fail, st)
      else if b64_authenticate_server_response h = None then (Fail, st)
      else case es9p_authenticate_client_r J http (server_address (fst st)) (transaction_id_http h)
          (b64_authenticate_server_response h) st of
        (Ret None, st) \<Rightarrow> (Fail, upd_http (\<lambda>h. h\<lparr>prepare_download_param := None\<rparr>) st)
      | (Ret (Some p), st) \<Rightarrow> (Ret (), upd_http (\<lambda>h. h\<lparr>prepare_download_param := Some p,
          b64_authenticate_server_response := None\<rparr>) st)
      | (_, st) \<Rightarrow> (UB, st))"

definition es9p_cancel_session ::
  "'j cjson \<Rightarrow> 'h euicc_http_interface option \<Rightarrow> 'h hst \<Rightarrow> unit cres \<times> 'h hst" where
  "es9p_cancel_session J http st =
     (let h = http_internal (fst st) in
      if b64_cancel_session_response h = None then (Fail, st)
      else case es9p_cancel_session_r J http (server_address (fst st)) (transaction_id_http h)
          (b64_cancel_session_response h) st of
        (Ret ok, st) \<Rightarrow> if \<not> ok then (Fail, st)
          else (Ret (), upd_http (\<lambda>h. h\<lparr>b64_cancel_session_response := None\<rparr>) st)
      | (_, st) \<Rightarrow> (UB, st))"

definition es11_authenticate_client ::
  "'j cjson \<Rightarrow> 'h euicc_http_interface option \<Rightarrow> 'h hst \<Rightarrow> cstr list cres \<times> 'h hst" where
  "es11_authenticate_client J http st =
     (let h = http_internal (fst st) in
      if b64_authenticate_server_response h = None then (Fail, st)
      else case es11_authenticate_client_r J http (server_address (fst st)) (transaction_id_http h)
          (b64_authenticate_server_response h) st of
        (Ret l, st) \<Rightarrow> (Ret l, upd_http (\<lambda>h. h\<lparr>b64_authenticate_server_response := None\<rparr>) st)
      | (r, st) \<Rightarrow> (r, st))"

definition es9p_handle_notification ::
  "'j cjson \<Rightarrow> 'h euicc_http_interface option \<Rightarrow> cstr option \<Rightarrow> 'h hst \<Rightarrow> unit cres \<times> 'h hst" where
  "es9p_handle_notification J http b64_PendingNotification st =
     (case es9p_trans_json J http (server_address (fst st)) (cstr ''/gsma/rsp2/es9plus/handleNotification'')
        [(cstr ''pendingNotification'', b64_PendingNotification)] None st of
        (Ret (ok, outs), st) \<Rightarrow> (if ok then Ret () else Fail, st)
      | (_, st) \<Rightarrow> (UB, st))"

end
