(* ===== verification/Session.thy ===== *)
theory Session
  imports Es9p
begin

text \<open>
  The download session as a state machine. The functions of \<open>es10b.c\<close> (to the card) and \<open>es9p.c\<close> (to the
  server) share \<open>ctx->http._internal\<close>: each checks that its inputs are there and its outputs are not, and
  leaves the session for the next. \<open>session_step\<close> says what each may do to the session; it is shown that the
  code does nothing else, and what holds of every session that any sequence of calls can lead to.
\<close>

subsection \<open>The abstract session\<close>

datatype session_op = GetChallenge | Initiate | AuthServer | AuthClient | PrepareDownload | GetPackage
  | LoadPackage | CancelCard | CancelServer | SmdsClient | Cleanup

text \<open>\<open>session_step op ok h h'\<close>: the call \<open>op\<close> ends, with success or not, and takes the session from \<open>h\<close> to \<open>h'\<close>.\<close>

inductive session_step :: "session_op \<Rightarrow> bool \<Rightarrow> euicc_http_internal \<Rightarrow> euicc_http_internal \<Rightarrow> bool" where
  unchanged: "session_step op False h h"
| challenge: "b64_euicc_challenge h = None \<Longrightarrow> b64_euicc_info_1 h = None \<Longrightarrow>
    session_step GetChallenge True h (h\<lparr>b64_euicc_challenge := Some c, b64_euicc_info_1 := Some info\<rparr>)"
| initiate: "authenticate_server_param h = None \<Longrightarrow> b64_euicc_challenge h \<noteq> None \<Longrightarrow> b64_euicc_info_1 h \<noteq> None \<Longrightarrow>
    session_step Initiate True h (h\<lparr>transaction_id_http := Some t, authenticate_server_param := Some p,
      b64_euicc_challenge := None, b64_euicc_info_1 := None\<rparr>)"
| initiate_partly: "authenticate_server_param h = None \<Longrightarrow> b64_euicc_challenge h \<noteq> None \<Longrightarrow> b64_euicc_info_1 h \<noteq> None \<Longrightarrow>
    session_step Initiate False h (h\<lparr>transaction_id_http := Some t\<rparr>)"
| auth_server: "b64_authenticate_server_response h = None \<Longrightarrow> authenticate_server_param h \<noteq> None \<Longrightarrow> length tid = unat n \<Longrightarrow>
    session_step AuthServer True h (h\<lparr>transaction_id_bin := Some tid, transaction_id_bin_len := n,
      b64_authenticate_server_response := Some b, authenticate_server_param := None\<rparr>)"
| auth_server_fails: "b64_authenticate_server_response h = None \<Longrightarrow> authenticate_server_param h \<noteq> None \<Longrightarrow>
    session_step AuthServer False h (h\<lparr>transaction_id_bin := None, transaction_id_bin_len := 0\<rparr>)"
| auth_client: "prepare_download_param h = None \<Longrightarrow> b64_authenticate_server_response h \<noteq> None \<Longrightarrow>
    session_step AuthClient True h (h\<lparr>prepare_download_param := Some q, b64_authenticate_server_response := None\<rparr>)"
| prepare: "b64_prepare_download_response h = None \<Longrightarrow> prepare_download_param h \<noteq> None \<Longrightarrow>
    session_step PrepareDownload True h (h\<lparr>b64_prepare_download_response := Some b, prepare_download_param := None\<rparr>)"
| get_package: "b64_bound_profile_package h = None \<Longrightarrow> b64_prepare_download_response h \<noteq> None \<Longrightarrow>
    session_step GetPackage True h (h\<lparr>b64_bound_profile_package := Some b, b64_prepare_download_response := None\<rparr>)"
| load_package: "b64_bound_profile_package h \<noteq> None \<Longrightarrow> session_step LoadPackage True h (h\<lparr>b64_bound_profile_package := None\<rparr>)"
| cancel_card: "transaction_id_bin h \<noteq> None \<Longrightarrow> transaction_id_bin_len h \<noteq> 0 \<Longrightarrow> b64_cancel_session_response h = None \<Longrightarrow>
    session_step CancelCard True h (h\<lparr>b64_cancel_session_response := Some b\<rparr>)"
| cancel_server: "b64_cancel_session_response h \<noteq> None \<Longrightarrow>
    session_step CancelServer True h (h\<lparr>b64_cancel_session_response := None\<rparr>)"
| smds_client: "b64_authenticate_server_response h \<noteq> None \<Longrightarrow>
    session_step SmdsClient True h (h\<lparr>b64_authenticate_server_response := None\<rparr>)"
| cleanup: "session_step Cleanup True h http_internal_zero"

text \<open>
  What every session satisfies: challenge and information are there together; the length of the transaction
  identifier is that of its bytes; whatever comes after the first answer of the server comes with the server's
  transaction identifier, and the card's answer to the authentication with the binary one.
\<close>

fun tid_ok :: "byte list option \<Rightarrow> u32 \<Rightarrow> bool" where
  "tid_ok None n \<longleftrightarrow> n = 0"
| "tid_ok (Some t) n \<longleftrightarrow> length t = unat n"

definition session_inv :: "euicc_http_internal \<Rightarrow> bool" where
  "session_inv h \<longleftrightarrow>
     (b64_euicc_challenge h = None \<longleftrightarrow> b64_euicc_info_1 h = None) \<and>
     tid_ok (transaction_id_bin h) (transaction_id_bin_len h) \<and>
     (authenticate_server_param h \<noteq> None \<or> b64_authenticate_server_response h \<noteq> None \<or> prepare_download_param h \<noteq> None \<or>
      b64_prepare_download_response h \<noteq> None \<or> b64_bound_profile_package h \<noteq> None \<or> transaction_id_bin h \<noteq> None \<or>
      b64_cancel_session_response h \<noteq> None \<longrightarrow> transaction_id_http h \<noteq> None) \<and>
     (b64_authenticate_server_response h \<noteq> None \<longrightarrow> transaction_id_bin h \<noteq> None)"

lemma session_inv_zero: "session_inv http_internal_zero"
  by (simp add: session_inv_def http_internal_zero_def)

lemma session_step_inv: "session_step op ok h h' \<Longrightarrow> session_inv h \<Longrightarrow> session_inv h'"
  by (induction rule: session_step.induct) (simp_all add: session_inv_def http_internal_zero_def del: not_None_eq)

subsection \<open>The context during a call to the card\<close>

definition keeps :: "euicc_ctx \<Rightarrow> ('a \<times> 'd st) option \<Rightarrow> bool" where
  "keeps ctx m \<longleftrightarrow> (\<forall>r ctx' d'. m = Some (r, ctx', d') \<longrightarrow> same_session ctx ctx')"

lemma keeps_Some [simp]: "keeps ctx (Some (r, ctx, d))"
  by (simp add: keeps_def)

lemma put_length_bytes_keeps: "put_length_bytes k len b w = Ret (w', b') \<Longrightarrow> length b' = length b"
  by (induction k arbitrary: b w) (auto simp: cbind_eq_Ret cstore_def split: if_splits)

lemma copy_single_keeps: "euicc_derutil_pack_copydata_single_node n c b = Ret (n', b') \<Longrightarrow> length b' = length b"
  by (auto simp: euicc_derutil_pack_copydata_single_node_def put_tag_def put_length_def Let_def cbind_eq_Ret cstore_def memcpy_def
      dest!: put_length_bytes_keeps split: if_splits prod.splits)

lemma copy_keeps: "euicc_derutil_pack_iterate_copydata ts b = Ret (ts', b') \<Longrightarrow> length b' = length b"
proof (induction ts b arbitrary: ts' b' rule: euicc_derutil_pack_iterate_copydata.induct)
  case (2 n c rest b)
  then show ?case by (fastforce simp: cbind_eq_Ret dest: copy_single_keeps)
qed simp

lemma pack_keeps: "euicc_derutil_pack b len t = Ret (b', n) \<Longrightarrow> length b' = length b"
  by (auto simp: euicc_derutil_pack_def euicc_derutil_pack_finish_def cbind_eq_Ret split: prod.splits if_splits dest: copy_keeps)

lemma request_keeps:
  assumes "wf_ctx ctx"
  shows "keeps ctx (es10x_request iface req parse (ctx, d))"
proof (cases "euicc_derutil_pack (apdu_body ctx) 255 req")
  case (Ret bn)
  obtain body n where bn: "bn = (body, n)" by (cases bn)
  have s: "same_session ctx (ctx\<lparr>apdu_body := body\<rparr>)"
    using pack_keeps [OF Ret [unfolded bn]] by (simp add: same_session_def)
  show ?thesis
    unfolding keeps_def es10x_request_def
    using Ret bn same_session_trans [OF s] es10x_command_session same_session_wf [OF s assms]
    by (fastforce simp: Option.bind_eq_Some_conv)
qed (simp_all add: es10x_request_def)

lemma request_alloc_keeps:
  assumes "wf_ctx ctx"
  shows "keeps ctx (es10x_request_alloc iface req parse (ctx, d))"
  using es10x_command_session [OF _ assms]
  by (fastforce simp: keeps_def es10x_request_alloc_def Option.bind_eq_Some_conv split: cres.splits)

lemma tx_keeps: "wf_ctx ctx \<Longrightarrow> keeps ctx (es10b_load_bound_profile_package_tx iface b n (ctx, d))"
  using es10x_command_session
  by (fastforce simp: keeps_def es10b_load_bound_profile_package_tx_def Option.bind_eq_Some_conv)

lemma keeps_then:
  assumes "wf_ctx ctx" "keeps ctx m" "\<And>result ctx' d'. wf_ctx ctx' \<Longrightarrow> keeps ctx' (k result (ctx', d'))"
  shows "keeps ctx (bpp_then m k)"
proof -
  have "same_session ctx ctx'" if "bpp_then m k = Some (r, ctx', d')" for r ctx' d'
  proof -
    from that obtain r1 ctx1 d1 where m: "m = Some (r1, ctx1, d1)" by (auto simp: bpp_then_def Option.bind_eq_Some_conv)
    with assms(2) have s1: "same_session ctx ctx1" by (simp add: keeps_def)
    have "same_session ctx1 ctx'" if "k b (ctx1, d1) = Some (r, ctx', d')" for b
      using that assms(3) [OF same_session_wf [OF s1 assms(1)]] unfolding keeps_def by blast
    with that m s1 show ?thesis
      by (auto simp: bpp_then_def intro: same_session_trans split: cres.splits if_splits)
  qed
  then show ?thesis by (simp add: keeps_def)
qed

lemma keeps_node: "(\<And>n. keeps ctx (k n)) \<Longrightarrow> keeps ctx (bpp_node found result (ctx, d) k)"
  by (simp add: bpp_node_def split: cres.split)

lemma children_keeps: "wf_ctx ctx \<Longrightarrow> keeps ctx (bpp_children iface b len n result (ctx, d))"
proof (induction iface b len n result "(ctx, d)" arbitrary: ctx d rule: bpp_children.induct)
  case (1 iface b len n result ctx d)
  show ?case
  proof (cases "euicc_derutil_unpack_next n b len")
    case (Ret n')
    with 1 show ?thesis
      by (subst bpp_children.simps) (auto intro!: keeps_then tx_keeps)
  qed (simp_all add: bpp_children.simps)
qed

lemma load_keeps:
  assumes "wf_ctx ctx"
  shows "keeps ctx (es10b_load_bound_profile_package_r iface result b64 (ctx, d))"
proof -
  have a2: "keeps ctx (case found of Ret n \<Rightarrow> es10b_load_bound_profile_package_tx iface (n_self_ptr n) (n_self_length n) (ctx, d)
      | Fail \<Rightarrow> Some (Ret (True, result), ctx, d) | UB \<Rightarrow> Some (UB, ctx, d))" if "wf_ctx ctx" for ctx d found result
    by (auto intro: tx_keeps [OF that] split: cres.split)
  show ?thesis
    unfolding es10b_load_bound_profile_package_r_def Let_def
    using assms
    by (auto split: cres.split intro!: keeps_node keeps_then tx_keeps children_keeps a2)
qed

subsection \<open>The code makes these steps\<close>

text \<open>
  One call of the session functions, with a card (driver state \<open>'d\<close>) and a server (driver state \<open>'h\<close>). A
  call with undefined behaviour, or one that never returns, is no call here.
\<close>

type_synonym ('d, 'h) session = "euicc_ctx \<times> 'd \<times> 'h"

inductive session_call ::
  "'d euicc_apdu_interface \<Rightarrow> 'j cjson \<Rightarrow> 'h euicc_http_interface option \<Rightarrow> session_op \<Rightarrow> bool \<Rightarrow>
     ('d, 'h) session \<Rightarrow> ('d, 'h) session \<Rightarrow> bool" for iface J http where
  call_challenge: "es10b_get_euicc_challenge_and_info iface (ctx, d) = Some (r, ctx', d') \<Longrightarrow> r \<noteq> UB \<Longrightarrow>
    session_call iface J http GetChallenge (r = Ret ()) (ctx, d, h) (ctx', d', h)"
| call_initiate: "es9p_initiate_authentication J http (ctx, h) = (r, ctx', h') \<Longrightarrow> r \<noteq> UB \<Longrightarrow>
    session_call iface J http Initiate (r = Ret ()) (ctx, d, h) (ctx', d, h')"
| call_auth_server: "es10b_authenticate_server iface imei0 matchingId imei (ctx, d) = Some (r, ctx', d') \<Longrightarrow> r \<noteq> UB \<Longrightarrow>
    session_call iface J http AuthServer (r = Ret ()) (ctx, d, h) (ctx', d', h)"
| call_auth_client: "es9p_authenticate_client J http (ctx, h) = (r, ctx', h') \<Longrightarrow> r \<noteq> UB \<Longrightarrow>
    session_call iface J http AuthClient (r = Ret ()) (ctx, d, h) (ctx', d, h')"
| call_prepare: "es10b_prepare_download iface code (ctx, d) = Some (r, ctx', d') \<Longrightarrow> r \<noteq> UB \<Longrightarrow>
    session_call iface J http PrepareDownload (r = Ret ()) (ctx, d, h) (ctx', d', h)"
| call_get_package: "es9p_get_bound_profile_package J http (ctx, h) = (r, ctx', h') \<Longrightarrow> r \<noteq> UB \<Longrightarrow>
    session_call iface J http GetPackage (r = Ret ()) (ctx, d, h) (ctx', d, h')"
| call_load: "es10b_load_bound_profile_package iface result (ctx, d) = Some (r, ctx', d') \<Longrightarrow> r \<noteq> UB \<Longrightarrow>
    session_call iface J http LoadPackage (\<exists>res. r = Ret (True, res)) (ctx, d, h) (ctx', d', h)"
| call_cancel_card: "es10b_cancel_session iface reason (ctx, d) = Some (r, ctx', d') \<Longrightarrow> r \<noteq> UB \<Longrightarrow>
    session_call iface J http CancelCard (r = Ret ()) (ctx, d, h) (ctx', d', h)"
| call_cancel_server: "es9p_cancel_session J http (ctx, h) = (r, ctx', h') \<Longrightarrow> r \<noteq> UB \<Longrightarrow>
    session_call iface J http CancelServer (r = Ret ()) (ctx, d, h) (ctx', d, h')"
| call_smds_client: "es11_authenticate_client J http (ctx, h) = (r, ctx', h') \<Longrightarrow> r \<noteq> UB \<Longrightarrow>
    session_call iface J http SmdsClient (r \<noteq> Fail) (ctx, d, h) (ctx', d, h')"
| call_cleanup: "session_call iface J http Cleanup True (ctx, d, h) (euicc_http_cleanup ctx, d, h)"

text \<open>What a call leaves: the abstract step, and buffers of the right size.\<close>

definition steps_to :: "session_op \<Rightarrow> bool \<Rightarrow> euicc_ctx \<Rightarrow> euicc_ctx \<Rightarrow> bool" where
  "steps_to op ok ctx ctx' \<longleftrightarrow> session_step op ok (http_internal ctx) (http_internal ctx') \<and> wf_ctx ctx'"

lemma steps_to_same: "wf_ctx ctx \<Longrightarrow> http_internal ctx' = http_internal ctx \<Longrightarrow> wf_ctx ctx' \<Longrightarrow> steps_to op False ctx ctx'"
  by (simp add: steps_to_def session_step.unchanged)

lemma steps_to_upd:
  assumes "wf_ctx ctx" "same_session ctx ctx'" "session_step op ok (http_internal ctx) (f (http_internal ctx))"
  shows "steps_to op ok ctx (ctx'\<lparr>http_internal := f (http_internal ctx')\<rparr>)"
  using assms same_session_wf [OF assms(2,1)] by (simp add: steps_to_def same_session_def wf_ctx_def)

lemma slot_same [simp]:
  "b64_prepare_download_response h = None \<Longrightarrow> h\<lparr>b64_prepare_download_response := None\<rparr> = h"
  "b64_cancel_session_response h = None \<Longrightarrow> h\<lparr>b64_cancel_session_response := None\<rparr> = h"
  "b64_bound_profile_package h = None \<Longrightarrow> h\<lparr>b64_bound_profile_package := None\<rparr> = h"
  "prepare_download_param h = None \<Longrightarrow> h\<lparr>prepare_download_param := None\<rparr> = h"
  "authenticate_server_param h = None \<Longrightarrow> h\<lparr>authenticate_server_param := None\<rparr> = h"
  "b64_euicc_challenge h = None \<Longrightarrow> b64_euicc_info_1 h = None \<Longrightarrow> h\<lparr>b64_euicc_challenge := None, b64_euicc_info_1 := None\<rparr> = h"
  by (cases h; simp)+

lemma card_call_steps:
  assumes wf: "wf_ctx ctx" and keep: "keeps ctx m"
    and run: "Option.bind m (\<lambda>(r, st). case r of Fail \<Rightarrow> Some (Fail, upd_http f st) | UB \<Rightarrow> Some (UB, st)
      | Ret x \<Rightarrow> Some (Ret (), upd_http (g x) st)) = Some (r, ctx', d')" "r \<noteq> UB"
    and fail: "session_step op False (http_internal ctx) (f (http_internal ctx))"
    and ok: "\<And>x ctx1 d1. m = Some (Ret x, ctx1, d1) \<Longrightarrow> session_step op True (http_internal ctx) (g x (http_internal ctx))"
  shows "steps_to op (r = Ret ()) ctx ctx'"
proof -
  from run(1) obtain r1 ctx1 d1 where m: "m = Some (r1, ctx1, d1)" by (auto simp: Option.bind_eq_Some_conv)
  with keep have s: "same_session ctx ctx1" by (simp add: keeps_def)
  show ?thesis
  proof (cases r1)
    case (Ret x)
    with steps_to_upd [OF wf s, of op True "g x"] ok m run show ?thesis by (auto simp: upd_http_def)
  next
    case Fail
    with steps_to_upd [OF wf s, of op False f] fail m run show ?thesis by (auto simp: upd_http_def)
  qed (use m run in simp)
qed

lemma prepare_steps:
  assumes "es10b_prepare_download iface code (ctx, d) = Some (r, ctx', d')" "r \<noteq> UB" "wf_ctx ctx"
  shows "steps_to PrepareDownload (r = Ret ()) ctx ctx'"
proof -
  have keep: "keeps ctx (es10b_prepare_download_r iface param code (ctx, d))" for param
    by (simp add: es10b_prepare_download_r_def request_alloc_keeps [OF assms(3)] split: cres.split)
  show ?thesis
  proof (cases "b64_prepare_download_response (http_internal ctx)"; cases "prepare_download_param (http_internal ctx)")
    fix param assume h: "b64_prepare_download_response (http_internal ctx) = None" "prepare_download_param (http_internal ctx) = Some param"
    with assms(1) show ?thesis
      by (intro card_call_steps [OF assms(3) keep [of param] _ assms(2)])
        (auto simp: es10b_prepare_download_def Let_def intro: session_step.intros)
  qed (use assms in \<open>auto simp: es10b_prepare_download_def Let_def steps_to_same\<close>)
qed

lemma cancel_steps:
  assumes "es10b_cancel_session iface reason (ctx, d) = Some (r, ctx', d')" "r \<noteq> UB" "wf_ctx ctx"
  shows "steps_to CancelCard (r = Ret ()) ctx ctx'"
proof -
  have keep: "keeps ctx (es10b_cancel_session_r iface param (ctx, d))" for param
    by (auto simp: es10b_cancel_session_r_def request_keeps [OF assms(3)] split: cres.split)
  show ?thesis
  proof (cases "transaction_id_bin (http_internal ctx)"; cases "b64_cancel_session_response (http_internal ctx)";
      cases "transaction_id_bin_len (http_internal ctx) = 0")
    fix tid assume h: "transaction_id_bin (http_internal ctx) = Some tid" "b64_cancel_session_response (http_internal ctx) = None"
      "transaction_id_bin_len (http_internal ctx) \<noteq> 0"
    with assms(1) show ?thesis
      by (intro card_call_steps [OF assms(3) keep _ assms(2)])
        (auto simp: es10b_cancel_session_def Let_def intro: session_step.intros)
  qed (use assms in \<open>auto simp: es10b_cancel_session_def Let_def steps_to_same\<close>)
qed

lemma auth_request_tid:
  "authenticate_server_request imei0 param m imei = Ret (t, tid, n) \<Longrightarrow> length tid = unat n"
  by (auto simp: authenticate_server_request_def cbind_eq_Ret memcpy_def split: if_splits)

lemma auth_server_tid:
  "es10b_authenticate_server_r iface imei0 param m imei st = Some (Ret (tid, n, b), st') \<Longrightarrow> length tid = unat n"
  by (auto simp: es10b_authenticate_server_r_def es10x_request_alloc_def Option.bind_eq_Some_conv cbind_eq_Ret
      split: cres.splits) (rule auth_request_tid)

lemma auth_server_steps:
  assumes "es10b_authenticate_server iface imei0 m imei (ctx, d) = Some (r, ctx', d')" "r \<noteq> UB" "wf_ctx ctx"
  shows "steps_to AuthServer (r = Ret ()) ctx ctx'"
proof -
  have keep: "keeps ctx (es10b_authenticate_server_r iface imei0 param m imei (ctx, d))" for param
    by (auto simp: es10b_authenticate_server_r_def request_alloc_keeps [OF assms(3)] split: cres.split)
  show ?thesis
  proof (cases "b64_authenticate_server_response (http_internal ctx)"; cases "authenticate_server_param (http_internal ctx)")
    fix param assume h: "b64_authenticate_server_response (http_internal ctx) = None" "authenticate_server_param (http_internal ctx) = Some param"
    have eq: "(http_internal ctx)\<lparr>transaction_id_bin := None, transaction_id_bin_len := 0, b64_authenticate_server_response := None\<rparr> =
        (http_internal ctx)\<lparr>transaction_id_bin := None, transaction_id_bin_len := 0\<rparr>"
      using h(1) by (cases "http_internal ctx") simp
    have fail: "session_step AuthServer False (http_internal ctx) ((http_internal ctx)\<lparr>transaction_id_bin := None,
        transaction_id_bin_len := 0, b64_authenticate_server_response := None\<rparr>)"
      unfolding eq using session_step.auth_server_fails [of "http_internal ctx"] h by simp
    have ok: "session_step AuthServer True (http_internal ctx) ((http_internal ctx)\<lparr>transaction_id_bin := Some tid,
        transaction_id_bin_len := n, b64_authenticate_server_response := Some b, authenticate_server_param := None\<rparr>)"
      if "es10b_authenticate_server_r iface imei0 param m imei (ctx, d) = Some (Ret (tid, n, b), st')" for tid n b st'
      using session_step.auth_server [of "http_internal ctx" tid n b] h auth_server_tid [OF that] by simp
    from assms(1) h show ?thesis
      by (intro card_call_steps [OF assms(3) keep [of param], where d' = d' and f = "\<lambda>h. h\<lparr>transaction_id_bin := None,
          transaction_id_bin_len := 0, b64_authenticate_server_response := None\<rparr>" and g = "\<lambda>(tid, n, b) h. h\<lparr>transaction_id_bin := Some tid,
          transaction_id_bin_len := n, b64_authenticate_server_response := Some b, authenticate_server_param := None\<rparr>", OF _ assms(2) fail])
        (auto simp: es10b_authenticate_server_def Let_def Option.bind_eq_Some_conv intro: ok split: cres.splits)
  qed (use assms in \<open>auto simp: es10b_authenticate_server_def Let_def steps_to_same\<close>)
qed

lemma load_steps:
  assumes "es10b_load_bound_profile_package iface result (ctx, d) = Some (r, ctx', d')" "r \<noteq> UB" "wf_ctx ctx"
  shows "steps_to LoadPackage (\<exists>res. r = Ret (True, res)) ctx ctx'"
proof (cases "b64_bound_profile_package (http_internal ctx)")
  case None
  with assms show ?thesis by (auto simp: es10b_load_bound_profile_package_def steps_to_same)
next
  case (Some b64)
  with assms(1) obtain r1 ctx1 d1 where run: "es10b_load_bound_profile_package_r iface result b64 (ctx, d) = Some (r1, ctx1, d1)"
    by (auto simp: es10b_load_bound_profile_package_def bpp_then_def Option.bind_eq_Some_conv)
  with load_keeps [OF assms(3), of iface result b64 d] have s: "same_session ctx ctx1" by (simp add: keeps_def)
  have same: "http_internal ctx1 = http_internal ctx" "wf_ctx ctx1"
    using s same_session_wf [OF s assms(3)] by (simp_all add: same_session_def)
  from assms(1,2) Some run show ?thesis
    using steps_to_upd [OF assms(3) s, of LoadPackage True "\<lambda>h. h\<lparr>b64_bound_profile_package := None\<rparr>"]
      session_step.load_package [of "http_internal ctx"] steps_to_same [OF assms(3) same]
    by (cases r1) (auto simp: es10b_load_bound_profile_package_def bpp_then_def upd_http_def split: if_splits)
qed

lemma challenge_steps:
  assumes "es10b_get_euicc_challenge_and_info iface (ctx, d) = Some (r, ctx', d')" "r \<noteq> UB" "wf_ctx ctx"
  shows "steps_to GetChallenge (r = Ret ()) ctx ctx'"
proof (cases "b64_euicc_challenge (http_internal ctx) = None \<and> b64_euicc_info_1 (http_internal ctx) = None")
  case False
  with assms show ?thesis by (auto simp: es10b_get_euicc_challenge_and_info_def Let_def steps_to_same split: if_splits)
next
  case True
  note h = True
  from assms(1) h obtain r1 ctx1 d1 where run1: "es10b_get_euicc_challenge_r iface (ctx, d) = Some (r1, ctx1, d1)"
    by (auto simp: es10b_get_euicc_challenge_and_info_def Let_def Option.bind_eq_Some_conv)
  then have s1: "same_session ctx ctx1"
    using request_keeps [OF assms(3), of iface] unfolding keeps_def es10b_get_euicc_challenge_r_def by blast
  have same1: "http_internal ctx1 = http_internal ctx" "wf_ctx ctx1"
    using s1 same_session_wf [OF s1 assms(3)] by (simp_all add: same_session_def)
  show ?thesis
  proof (cases r1)
    case (Ret c)
    define ctx2 where "ctx2 = ctx1\<lparr>http_internal := (http_internal ctx1)\<lparr>b64_euicc_challenge := Some c\<rparr>\<rparr>"
    have wf2: "wf_ctx ctx2" using same1(2) by (simp add: ctx2_def wf_ctx_def)
    from assms(1) h run1 Ret obtain r3 ctx3 d3 where run3: "es10b_get_euicc_info_r iface (ctx2, d1) = Some (r3, ctx3, d3)"
      by (auto simp: es10b_get_euicc_challenge_and_info_def Let_def Option.bind_eq_Some_conv upd_http_def ctx2_def)
    then have s3: "same_session ctx2 ctx3"
      using request_keeps [OF wf2, of iface] unfolding keeps_def es10b_get_euicc_info_r_def by blast
    have same3: "http_internal ctx3 = (http_internal ctx)\<lparr>b64_euicc_challenge := Some c\<rparr>" "wf_ctx ctx3"
      using s3 same_session_wf [OF s3 wf2] same1 by (simp_all add: same_session_def ctx2_def)
    have undo_eq: "(http_internal ctx)\<lparr>b64_euicc_challenge := None, b64_euicc_info_1 := None\<rparr> = http_internal ctx" using h by simp
    from assms(1,2) h run1 Ret run3 same3 session_step.challenge [of "http_internal ctx"] session_step.unchanged [of _ "http_internal ctx"]
    show ?thesis
      by (cases r3) (auto simp: es10b_get_euicc_challenge_and_info_def Let_def upd_http_def challenge_and_info_err_def steps_to_def
          wf_ctx_def undo_eq simp flip: ctx2_def)
  next
    case Fail
    with assms(1) h run1 same1 steps_to_same [OF assms(3), of ctx'] show ?thesis
      by (auto simp: es10b_get_euicc_challenge_and_info_def Let_def challenge_and_info_err_def upd_http_def wf_ctx_def)
  qed (use assms(1,2) h run1 in \<open>simp add: es10b_get_euicc_challenge_and_info_def Let_def\<close>)
qed

text \<open>The calls to the server leave all of the context but the status and the session alone.\<close>

lemma trans_frame:
  "es9p_trans_json J http smdp api idata okey (ctx, h) = (r, ctx', h') \<Longrightarrow> \<exists>s. ctx' = ctx\<lparr>http_status := s\<rparr>"
  by (auto simp: es9p_trans_json_def split: cres.splits prod.splits)
    (rule exI [of _ "http_status ctx"], cases ctx, simp)+

lemma steps_to_status:
  assumes "wf_ctx ctx"
  shows "steps_to op False ctx (ctx\<lparr>http_status := s\<rparr>)"
    and "session_step op ok (http_internal ctx) (f (http_internal ctx)) \<Longrightarrow>
      steps_to op ok ctx (ctx\<lparr>http_status := s, http_internal := f (http_internal ctx)\<rparr>)"
  using assms by (simp_all add: steps_to_def wf_ctx_def session_step.unchanged)

lemmas server_call_defs = es9p_initiate_authentication_def es9p_initiate_authentication_r_def
  es9p_get_bound_profile_package_def es9p_get_bound_profile_package_r_def es9p_authenticate_client_def
  es9p_authenticate_client_r_def es9p_cancel_session_def es9p_cancel_session_r_def
  es11_authenticate_client_def es11_authenticate_client_r_def

lemmas server_call_splits = if_splits prod.splits cres.splits bool.splits list.splits jval.splits option.splits

lemma get_package_steps:
  assumes "es9p_get_bound_profile_package J http (ctx, h) = (r, ctx', h')" "r \<noteq> UB" "wf_ctx ctx"
  shows "steps_to GetPackage (r = Ret ()) ctx ctx'"
  using assms
  by (auto simp: server_call_defs Let_def upd_http_def steps_to_def wf_ctx_def session_step.intros dest!: trans_frame
      split: server_call_splits)

lemma auth_client_steps:
  assumes "es9p_authenticate_client J http (ctx, h) = (r, ctx', h')" "r \<noteq> UB" "wf_ctx ctx"
  shows "steps_to AuthClient (r = Ret ()) ctx ctx'"
  using assms
  by (auto simp: server_call_defs Let_def upd_http_def steps_to_def wf_ctx_def session_step.intros dest!: trans_frame
      split: server_call_splits)

lemma cancel_server_steps:
  assumes "es9p_cancel_session J http (ctx, h) = (r, ctx', h')" "r \<noteq> UB" "wf_ctx ctx"
  shows "steps_to CancelServer (r = Ret ()) ctx ctx'"
  using assms
  by (auto simp: server_call_defs Let_def upd_http_def steps_to_def wf_ctx_def session_step.intros dest!: trans_frame
      split: server_call_splits)

lemma smds_client_steps:
  assumes "es11_authenticate_client J http (ctx, h) = (r, ctx', h')" "r \<noteq> UB" "wf_ctx ctx"
  shows "steps_to SmdsClient (r \<noteq> Fail) ctx ctx'"
  using assms
  by (auto simp: server_call_defs Let_def upd_http_def steps_to_def wf_ctx_def session_step.intros dest!: trans_frame
      split: server_call_splits)

lemma initiate_steps:
  assumes "es9p_initiate_authentication J http (ctx, h) = (r, ctx', h')" "r \<noteq> UB" "wf_ctx ctx"
  shows "steps_to Initiate (r = Ret ()) ctx ctx'"
proof (cases "authenticate_server_param (http_internal ctx) = None \<and> b64_euicc_challenge (http_internal ctx) \<noteq> None \<and>
    b64_euicc_info_1 (http_internal ctx) \<noteq> None")
  case False
  with assms show ?thesis by (auto simp: es9p_initiate_authentication_def Let_def steps_to_same split: if_splits)
next
  case True
  note h = True
  have eq: "(http_internal ctx)\<lparr>transaction_id_http := t, authenticate_server_param := None\<rparr> = (http_internal ctx)\<lparr>transaction_id_http := t\<rparr>" for t
    using h by (cases "http_internal ctx") simp
  show ?thesis
    using assms h session_step.initiate [of "http_internal ctx"] session_step.initiate_partly [of "http_internal ctx"]
    by (auto simp: server_call_defs Let_def upd_http_def steps_to_def wf_ctx_def eq session_step.unchanged dest!: trans_frame
        split: server_call_splits)
qed

subsection \<open>Every session\<close>

lemma session_call_steps:
  assumes "session_call iface J http op ok (ctx, d, h) (ctx', d', h')" "wf_ctx ctx"
  shows "session_step op ok (http_internal ctx) (http_internal ctx') \<and> wf_ctx ctx'"
proof -
  from assms have "steps_to op ok ctx ctx'"
  proof (cases rule: session_call.cases)
    case call_cleanup
    with assms(2) show ?thesis by (simp add: steps_to_def euicc_http_cleanup_def wf_ctx_def session_step.cleanup)
  qed (auto intro: challenge_steps initiate_steps auth_server_steps auth_client_steps prepare_steps get_package_steps
      load_steps cancel_steps cancel_server_steps smds_client_steps)
  then show ?thesis by (simp add: steps_to_def)
qed

text \<open>The sessions a program can lead to, starting with the cleaned-up one.\<close>

inductive session_reach ::
  "'d euicc_apdu_interface \<Rightarrow> 'j cjson \<Rightarrow> 'h euicc_http_interface option \<Rightarrow> ('d, 'h) session \<Rightarrow> bool" for iface J http where
  start: "wf_ctx ctx \<Longrightarrow> session_reach iface J http (euicc_http_cleanup ctx, d, h)"
| call: "session_reach iface J http st \<Longrightarrow> session_call iface J http op ok st st' \<Longrightarrow> session_reach iface J http st'"

lemma session_reach_inv:
  "session_reach iface J http st \<Longrightarrow> wf_ctx (fst st) \<and> session_inv (http_internal (fst st))"
proof (induction rule: session_reach.induct)
  case (start ctx d h)
  then show ?case by (simp add: euicc_http_cleanup_def wf_ctx_def session_inv_zero)
next
  case (call st op ok st')
  obtain ctx d h ctx' d' h' where st: "st = (ctx, d, h)" "st' = (ctx', d', h')" by (metis prod_cases3)
  have "session_step op ok (http_internal ctx) (http_internal ctx') \<and> wf_ctx ctx'"
    using call by (intro session_call_steps [of iface J http op ok ctx d h ctx' d' h']) (simp_all add: st)
  with call.IH st session_step_inv show ?case by auto
qed

end
