(* ===== verification/Applet_Download.thy ===== *)
theory Applet_Download
  imports Utils Session Es10a Es8p
begin

text \<open>
  \<open>src/applet/profile/download.c\<close>: the command \<open>profile download\<close>, which parses the activation code and drives
  the download session from the first exchange to the installed profile, or cancels it. The options come from
  \<open>getopt\<close>; what is printed is left out, but for the name of the function an error is reported under.
\<close>

subsection \<open>Options and activation code\<close>

record download_options =
  smdp :: "cstr option"
  matchingId :: "cstr option"
  imei :: "cstr option"
  confirmation_code :: "cstr option"
  activation_code :: "cstr option"
  interactive_preview :: bool

definition no_options :: download_options where
  "no_options = \<lparr>smdp = None, matchingId = None, imei = None, confirmation_code = None, activation_code = None,
     interactive_preview = False\<rparr>"

text \<open>One option of \<open>getopt\<close> with its argument; \<open>None\<close> for the usage message.\<close>

definition download_option :: "byte \<Rightarrow> cstr \<Rightarrow> download_options \<Rightarrow> download_options option" where
  "download_option opt optarg o1 =
     (if opt = of_char CHR ''s'' then Some (o1\<lparr>smdp := Some optarg\<rparr>)
      else if opt = of_char CHR ''m'' then Some (o1\<lparr>matchingId := Some optarg\<rparr>)
      else if opt = of_char CHR ''i'' then Some (o1\<lparr>imei := Some optarg\<rparr>)
      else if opt = of_char CHR ''c'' then Some (o1\<lparr>confirmation_code := Some optarg\<rparr>)
      else if opt = of_char CHR ''a'' then
        Some (o1\<lparr>activation_code := Some (if strncasecmp_eq optarg (cstr ''LPA:'') 4 then drop 4 optarg else optarg)\<rparr>)
      else if opt = of_char CHR ''p'' then Some (o1\<lparr>interactive_preview := True\<rparr>)
      else if opt = of_char CHR ''h'' \<or> opt = of_char CHR ''?'' then None
      else Some o1)"

fun download_options_of :: "(byte \<times> cstr) list \<Rightarrow> download_options \<Rightarrow> download_options option" where
  "download_options_of [] o1 = Some o1"
| "download_options_of ((opt, optarg) # rest) o1 =
     Option.bind (download_option opt optarg o1) (download_options_of rest)"

definition isalnum :: "byte \<Rightarrow> bool" where
  "isalnum c \<longleftrightarrow> (0x30 \<le> c \<and> c \<le> 0x39) \<or> (0x41 \<le> c \<and> c \<le> 0x5A) \<or> (0x61 \<le> c \<and> c \<le> 0x7A)"

definition is_strict_matching_id :: "cstr \<Rightarrow> bool" where
  "is_strict_matching_id token \<longleftrightarrow> list_all (\<lambda>c. isalnum c \<or> c = of_char CHR ''-'') token"

text \<open>\<open>strsep(&s, "$")\<close> on a string that is not \<open>NULL\<close>: the token, and what \<open>s\<close> is afterwards.\<close>

fun strsep :: "cstr \<Rightarrow> cstr \<times> cstr option" where
  "strsep [] = ([], None)"
| "strsep (c # s) = (if c = of_char CHR ''$'' then ([], Some s) else map_prod ((#) c) id (strsep s))"

text \<open>An error to report: the name of the function.\<close>

type_synonym dl_error = cstr

definition activation_token :: "nat \<Rightarrow> cstr \<Rightarrow> download_options \<Rightarrow> dl_error + download_options" where
  "activation_token index token o1 =
     (if index = 0 then
        if \<not> strncmp_eq token (cstr ''1'') (length token) then Inl (cstr ''activation_code'') else Inr o1
      else if index = 1 then Inr (o1\<lparr>smdp := Some token\<rparr>)
      else if index = 2 then
        if \<not> is_strict_matching_id token then Inl (cstr ''matching_id'') else Inr (o1\<lparr>matchingId := Some token\<rparr>)
      else if index = 4 then
        if strncmp_eq token (cstr ''1'') (length token) \<and> confirmation_code o1 = None
        then Inl (cstr ''confirmation_code'') else Inr o1
      else Inr o1)"

lemma strsep_shorter: "strsep s = (t, Some s') \<Longrightarrow> length s' < length s"
  by (induction s arbitrary: t) (auto simp: map_prod_def split: if_splits prod.splits)

function activation_loop :: "nat \<Rightarrow> cstr option \<Rightarrow> download_options \<Rightarrow> dl_error + download_options" where
  "activation_loop index None o1 = Inr o1"
| "activation_loop index (Some s) o1 =
     (case strsep s of (token, rest) \<Rightarrow>
      (case activation_token index token o1 of Inl e \<Rightarrow> Inl e | Inr o2 \<Rightarrow> activation_loop (index + 1) rest o2))"
  by pat_completeness auto
termination
  by (relation "measure (\<lambda>(i, s, o1). case s of None \<Rightarrow> 0 | Some s \<Rightarrow> Suc (length s))")
    (auto split: option.split dest: strsep_shorter [OF sym])

subsection \<open>The session of a download\<close>

text \<open>
  What the body of \<open>applet_main\<close> leads to: success, or \<open>goto err\<close> with an error to report (\<open>None\<close> at a
  \<open>CANCELPOINT\<close>, which sets none).
\<close>

datatype dl_end = Installed | Stopped "dl_error option"

type_synonym ('d, 'h) dl_result = "(dl_end cres \<times> ('d, 'h) session) option"

text \<open>\<open>CANCELPOINT(); if (f(...)) goto err;\<close>; \<open>cancelled\<close> is what the flag, which a signal may set at any time, reads as.\<close>

definition dl_step ::
  "bool \<Rightarrow> dl_error \<Rightarrow> (('d, 'h) session \<Rightarrow> (unit cres \<times> ('d, 'h) session) option) \<Rightarrow>
     (('d, 'h) session \<Rightarrow> ('d, 'h) dl_result) \<Rightarrow> ('d, 'h) session \<Rightarrow> ('d, 'h) dl_result" where
  "dl_step cancelled name f k st =
     (if cancelled then Some (Ret (Stopped None), st)
      else Option.bind (f st) (\<lambda>(r, st). case r of
          Ret _ \<Rightarrow> k st
        | Fail \<Rightarrow> Some (Ret (Stopped (Some name)), st)
        | UB \<Rightarrow> Some (UB, st)))"

definition to_card :: "('d st \<Rightarrow> ('a cres \<times> 'd st) option) \<Rightarrow> ('d, 'h) session \<Rightarrow> ('a cres \<times> ('d, 'h) session) option" where
  "to_card f = (\<lambda>(ctx, d, h). map_option (\<lambda>(r, ctx, d). (r, ctx, d, h)) (f (ctx, d)))"

definition to_server :: "('h hst \<Rightarrow> 'a cres \<times> 'h hst) \<Rightarrow> ('d, 'h) session \<Rightarrow> ('a cres \<times> ('d, 'h) session) option" where
  "to_server f = (\<lambda>(ctx, d, h). Some (case f (ctx, h) of (r, ctx, h) \<Rightarrow> (r, ctx, d, h)))"

definition load_step ::
  "'d euicc_apdu_interface \<Rightarrow> 'd st \<Rightarrow> (unit cres \<times> 'd st) option" where
  "load_step iface st =
     map_option (\<lambda>(r, st). (cbind r (\<lambda>(ok, result). if ok then Ret () else Fail), st))
       (es10b_load_bound_profile_package iface bpp_result_init st)"

text \<open>
  The preview: the metadata is parsed where it is there (\<open>prepare_download_param\<close> is dereferenced unchecked), and
  an answer other than \<open>y\<close> or \<open>Y\<close> (\<open>getchar\<close>, also at the end of the input) sets the flag. The result is whether it did.
\<close>

definition preview ::
  "bool \<Rightarrow> bool \<Rightarrow> int \<Rightarrow> (bool \<Rightarrow> ('d, 'h) session \<Rightarrow> ('d, 'h) dl_result) \<Rightarrow> ('d, 'h) session \<Rightarrow> ('d, 'h) dl_result" where
  "preview cancelled interactive answer k st =
     (case prepare_download_param (http_internal (fst st)) of
        None \<Rightarrow> Some (UB, st)
      | Some p \<Rightarrow>
          (case b64_profileMetadata p of
             None \<Rightarrow> k False st
           | Some m \<Rightarrow>
               if cancelled then Some (Ret (Stopped None), st)
               else case es8p_metadata_parse m of
                 Fail \<Rightarrow> Some (Ret (Stopped (Some (cstr ''es8p_metadata_parse''))), st)
               | UB \<Rightarrow> Some (UB, st)
               | Ret metadata \<Rightarrow>
                   k (interactive \<and> answer \<noteq> of_char CHR ''y'' \<and> answer \<noteq> of_char CHR ''Y'') st))"

text \<open>\<open>cancelled i\<close>: what the \<open>i\<close>-th \<open>CANCELPOINT\<close> reads of the signal handler.\<close>

definition download_steps ::
  "'d euicc_apdu_interface \<Rightarrow> 'j cjson \<Rightarrow> 'h euicc_http_interface option \<Rightarrow> (nat \<Rightarrow> bool) \<Rightarrow> byte list \<Rightarrow> int \<Rightarrow>
     download_options \<Rightarrow> ('d, 'h) session \<Rightarrow> ('d, 'h) dl_result" where
  "download_steps iface J http cancelled imei0 answer o1 =
     dl_step (cancelled 0) (cstr ''es10b_get_euicc_challenge_and_info'') (to_card (es10b_get_euicc_challenge_and_info iface))
    (dl_step (cancelled 1) (cstr ''es9p_initiate_authentication'') (to_server (es9p_initiate_authentication J http))
    (dl_step (cancelled 2) (cstr ''es10b_authenticate_server'')
      (to_card (es10b_authenticate_server iface imei0 (matchingId o1) (imei o1)))
    (dl_step (cancelled 3) (cstr ''es9p_authenticate_client'') (to_server (es9p_authenticate_client J http))
    (preview (cancelled 4) (interactive_preview o1) answer (\<lambda>refused.
     dl_step (cancelled 5 \<or> refused) (cstr ''es10b_prepare_download'') (to_card (es10b_prepare_download iface (confirmation_code o1)))
    (dl_step (cancelled 6 \<or> refused) (cstr ''es9p_get_bound_profile_package'') (to_server (es9p_get_bound_profile_package J http))
    (dl_step (cancelled 7 \<or> refused) (cstr ''es10b_load_bound_profile_package'') (to_card (load_step iface))
    (\<lambda>st. Some (Ret Installed, st)))))))))"

text \<open>The server: the one given, or the default address of the card.\<close>

definition download_smdp ::
  "'d euicc_apdu_interface \<Rightarrow> download_options \<Rightarrow> ('d, 'h) session \<Rightarrow> (cstr option cres \<times> ('d, 'h) session) option" where
  "download_smdp iface o1 st =
     (case smdp o1 of
        Some s \<Rightarrow> Some (Ret (Some s), st)
      | None \<Rightarrow> map_option (\<lambda>(r, st). (cbind r (\<lambda>a. Ret (defaultDpAddress a)), st))
          (to_card (es10a_get_euicc_configured_addresses iface) st))"

definition set_server :: "cstr option \<Rightarrow> ('d, 'h) session \<Rightarrow> ('d, 'h) session" where
  "set_server a = (\<lambda>(ctx, d, h). (ctx\<lparr>server_address := a\<rparr>, d, h))"

definition download_body ::
  "'d euicc_apdu_interface \<Rightarrow> 'j cjson \<Rightarrow> 'h euicc_http_interface option \<Rightarrow> (nat \<Rightarrow> bool) \<Rightarrow> byte list \<Rightarrow> int \<Rightarrow>
     download_options \<Rightarrow> ('d, 'h) session \<Rightarrow> ('d, 'h) dl_result" where
  "download_body iface J http cancelled imei0 answer o1 st =
     (case activation_loop 0 (activation_code o1) o1 of
        Inl e \<Rightarrow> Some (Ret (Stopped (Some e)), st)
      | Inr o2 \<Rightarrow>
          Option.bind (download_smdp iface o2 st) (\<lambda>(r, st). case r of
              Fail \<Rightarrow> Some (Ret (Stopped (Some (cstr ''es10a_get_euicc_configured_addresses''))), st)
            | UB \<Rightarrow> Some (UB, st)
            | Ret s \<Rightarrow>
                if s = None \<or> s = Some [] then Some (Ret (Stopped (Some (cstr ''smdp''))), st)
                else download_steps iface J http cancelled imei0 answer o2 (set_server s st)))"

definition http_cleanup :: "('d, 'h) session \<Rightarrow> ('d, 'h) session" where
  "http_cleanup = (\<lambda>(ctx, d, h). (euicc_http_cleanup ctx, d, h))"

text \<open>
  \<open>err:\<close> cancels with both partners, whatever they answer; \<open>exit:\<close> cleans up. The result is the exit code with the
  error reported; at a \<open>CANCELPOINT\<close>, and when the flag is set by then, that is \<open>cancelled\<close>.
\<close>

definition download_main ::
  "'d euicc_apdu_interface \<Rightarrow> 'j cjson \<Rightarrow> 'h euicc_http_interface option \<Rightarrow> (nat \<Rightarrow> bool) \<Rightarrow> byte list \<Rightarrow> int \<Rightarrow>
     download_options \<Rightarrow> ('d, 'h) session \<Rightarrow> ((int \<times> dl_error option) cres \<times> ('d, 'h) session) option" where
  "download_main iface J http cancelled imei0 answer o1 st =
     Option.bind (download_body iface J http cancelled imei0 answer o1 st) (\<lambda>(r, st).
     case r of
       UB \<Rightarrow> Some (UB, st)
     | Fail \<Rightarrow> Some (UB, st)
     | Ret Installed \<Rightarrow> Some (Ret (0, None), http_cleanup st)
     | Ret (Stopped e) \<Rightarrow>
         Option.bind (to_card (es10b_cancel_session iface ES10B_CANCEL_SESSION_REASON_ENDUSERREJECTION) st) (\<lambda>(r, st).
         if r = UB then Some (UB, st)
         else Option.bind (to_server (es9p_cancel_session J http) st) (\<lambda>(r, st).
         if r = UB then Some (UB, st)
         else Some (Ret (-1, if e = None \<or> cancelled 8 then Some (cstr ''cancelled'') else e), http_cleanup st))))"

text \<open>\<open>applet_main\<close>: the options, then the download; the usage message leaves the session as it is.\<close>

definition applet_main ::
  "'d euicc_apdu_interface \<Rightarrow> 'j cjson \<Rightarrow> 'h euicc_http_interface option \<Rightarrow> (nat \<Rightarrow> bool) \<Rightarrow> byte list \<Rightarrow> int \<Rightarrow>
     (byte \<times> cstr) list \<Rightarrow> ('d, 'h) session \<Rightarrow> ((int \<times> dl_error option) cres \<times> ('d, 'h) session) option" where
  "applet_main iface J http cancelled imei0 answer args st =
     (case download_options_of args no_options of
        None \<Rightarrow> Some (Ret (-1, None), st)
      | Some o1 \<Rightarrow> download_main iface J http cancelled imei0 answer o1 st)"

subsection \<open>The calls a download makes\<close>

text \<open>
  \<open>drives ops e st st'\<close>: the calls \<open>ops\<close> succeed one after the other and the profile is installed, or they stop
  before one, or at one that fails.
\<close>

inductive drives ::
  "'d euicc_apdu_interface \<Rightarrow> 'j cjson \<Rightarrow> 'h euicc_http_interface option \<Rightarrow> session_op list \<Rightarrow> dl_end \<Rightarrow>
     ('d, 'h) session \<Rightarrow> ('d, 'h) session \<Rightarrow> bool" for iface J http where
  complete: "drives iface J http [] Installed st st"
| stop: "drives iface J http ops (Stopped e) st st"
| failing: "session_call iface J http op False st st' \<Longrightarrow> drives iface J http (op # ops) (Stopped e) st st'"
| continue: "session_call iface J http op True st st1 \<Longrightarrow> drives iface J http ops e st1 st' \<Longrightarrow>
    drives iface J http (op # ops) e st st'"

definition download_ops :: "session_op list" where
  "download_ops = [GetChallenge, Initiate, AuthServer, AuthClient, PrepareDownload, GetPackage, LoadPackage]"

lemma dl_step_drives:
  assumes "dl_step c name f k st = Some (Ret e, st')"
    and call: "\<And>r st1. f st = Some (r, st1) \<Longrightarrow> r \<noteq> UB \<Longrightarrow> session_call iface J http op (r = Ret ()) st st1"
    and k: "\<And>st1. k st1 = Some (Ret e, st') \<Longrightarrow> drives iface J http ops e st1 st'"
  shows "drives iface J http (op # ops) e st st'"
proof (cases c)
  case True
  with assms(1) show ?thesis by (auto simp: dl_step_def intro: drives.stop)
next
  case False
  with assms(1) obtain r st1 where f: "f st = Some (r, st1)" by (auto simp: dl_step_def Option.bind_eq_Some_conv)
  show ?thesis
  proof (cases r)
    case (Ret u)
    with False assms(1) f have "k st1 = Some (Ret e, st')" by (simp add: dl_step_def)
    from drives.continue [OF _ k [OF this]] call [OF f] Ret show ?thesis by simp
  next
    case Fail
    with False assms(1) f call [OF f] show ?thesis by (auto simp: dl_step_def intro: drives.failing)
  qed (use False assms(1) f in \<open>simp add: dl_step_def\<close>)
qed

lemma preview_drives:
  assumes "preview c interactive answer k st = Some (Ret e, st')"
    and "\<And>refused. k refused st = Some (Ret e, st') \<Longrightarrow> drives iface J http ops e st st'"
  shows "drives iface J http ops e st st'"
  using assms by (auto simp: preview_def intro: drives.stop split: option.splits if_splits cres.splits)

lemma to_card_call:
  assumes "to_card f st = Some (r, st')" "\<And>ctx d h ctx' d'. f (ctx, d) = Some (r, ctx', d') \<Longrightarrow> P (ctx, d, h) (ctx', d', h)"
  shows "P st st'"
  using assms by (cases st) (auto simp: to_card_def)

lemma to_server_call:
  assumes "to_server f st = Some (r, st')" "\<And>ctx d h ctx' h'. f (ctx, h) = (r, ctx', h') \<Longrightarrow> P (ctx, d, h) (ctx', d, h')"
  shows "P st st'"
  using assms by (cases st) (auto simp: to_server_def split: prod.splits)

lemma load_call:
  assumes "load_step iface (ctx, d) = Some (r, ctx', d')" "r \<noteq> UB"
  shows "session_call iface J http LoadPackage (r = Ret ()) (ctx, d, h) (ctx', d', h)"
proof -
  from assms(1) obtain r0 where run: "es10b_load_bound_profile_package iface bpp_result_init (ctx, d) = Some (r0, ctx', d')"
    and r: "r = cbind r0 (\<lambda>(ok, result). if ok then Ret () else Fail)" by (auto simp: load_step_def)
  from assms(2) r have "r0 \<noteq> UB" by auto
  from session_call.call_load [OF run this]
  have "session_call iface J http LoadPackage (\<exists>res. r0 = Ret (True, res)) (ctx, d, h) (ctx', d', h)" .
  moreover have "(\<exists>res. r0 = Ret (True, res)) \<longleftrightarrow> r = Ret ()" using r by (cases r0) (auto split: if_splits)
  ultimately show ?thesis by simp
qed

lemma download_steps_drives:
  assumes "download_steps iface J http cancelled imei0 answer o1 st = Some (Ret e, st')"
  shows "drives iface J http download_ops e st st'"
  using assms unfolding download_steps_def download_ops_def
  by (elim dl_step_drives preview_drives)
    (auto elim!: to_card_call to_server_call intro: session_call.intros load_call drives.complete)

lemma cancel_card_call:
  "to_card (es10b_cancel_session iface reason) st = Some (r, st') \<Longrightarrow> r \<noteq> UB \<Longrightarrow>
    session_call iface J http CancelCard (r = Ret ()) st st'"
  by (erule to_card_call) (rule session_call.call_cancel_card)

lemma cancel_server_call:
  "to_server (es9p_cancel_session J http) st = Some (r, st') \<Longrightarrow> r \<noteq> UB \<Longrightarrow>
    session_call iface J http CancelServer (r = Ret ()) st st'"
  by (erule to_server_call) (rule session_call.call_cancel_server)

end
