(* ===== verification/Applet_Command.thy ===== *)
theory Applet_Command
  imports Utils Applet_Download Es10b_Notification Es10c
begin

text \<open>
  The command line: initialisation (\<open>src/lpac.c\<close>), the choice of an applet (\<open>src/applet.c\<close>) and the applets that make
  one call (\<open>profile enable\<close>, \<open>disable\<close>, \<open>delete\<close>, \<open>nickname\<close>, \<open>chip purge\<close>, \<open>defaultsmdp\<close>) or one short session
  (\<open>profile discovery\<close>). \<open>argv\<close> is the list of the arguments with the name of the applet first. Of the output only
  what an applet reports at its end is kept.
\<close>

subsection \<open>Results of applets\<close>

text \<open>\<open>Plain\<close>: a text that is not JSON, such as the usage message.\<close>

datatype report = Plain | Success | Error cstr "cstr option"

type_synonym applet_end = "int \<times> report"

type_synonym 'd applet_result = "(applet_end cres \<times> 'd st) option"

text \<open>\<open>if (ret) { reason by ret; jprint_error; return -1; } jprint_success; return 0\<close>\<close>

definition ret_int :: "u32 cres \<Rightarrow> int" where
  "ret_int r = (case r of Ret n \<Rightarrow> sint n | _ \<Rightarrow> -1)"

definition end_by_ret :: "cstr \<Rightarrow> (int \<Rightarrow> cstr option) \<Rightarrow> (u32 cres \<times> 'd st) option \<Rightarrow> 'd applet_result" where
  "end_by_ret name reason call =
     map_option (\<lambda>(r, st).
       (if r = UB then UB
        else if ret_int r \<noteq> 0 then Ret (-1, Error name (reason (ret_int r)))
        else Ret (0, Success), st)) call"

subsection \<open>The applets that make one call\<close>

definition enable_reason :: "int \<Rightarrow> cstr option" where
  "enable_reason ret = Some (
     if ret = 1 then cstr ''iccid or aid not found''
     else if ret = 2 then cstr ''profile not in disabled state''
     else if ret = 3 then cstr ''disallowed by policy''
     else if ret = 4 then cstr ''wrong profile reenabling''
     else if ret = -1 then cstr ''internal error, maybe illegal iccid/aid coding''
     else cstr ''unknown'')"

text \<open>\<open>str_to_bool(argv[2]) == true\<close>, where there is such an argument\<close>

definition refreshflag_of :: "cstr list \<Rightarrow> byte" where
  "refreshflag_of argv = (if length argv > 2 \<and> str_to_bool (argv ! 2) = Some True then 1 else 0)"

definition applet_profile_enable :: "'d euicc_apdu_interface \<Rightarrow> cstr list \<Rightarrow> 'd st \<Rightarrow> 'd applet_result" where
  "applet_profile_enable iface argv st =
     (if length argv < 2 then Some (Ret (-1, Plain), st)
      else end_by_ret (cstr ''es10c_enable_profile'') enable_reason
        (es10c_enable_profile iface (argv ! 1) (refreshflag_of argv) st))"

definition disable_reason :: "int \<Rightarrow> cstr option" where
  "disable_reason ret = Some (
     if ret = 1 then cstr ''iccid or aid not found''
     else if ret = 2 then cstr ''profile not in enabled state''
     else if ret = 3 then cstr ''disallowed by policy''
     else if ret = -1 then cstr ''internal error, maybe illegal iccid/aid coding''
     else cstr ''unknown'')"

definition applet_profile_disable :: "'d euicc_apdu_interface \<Rightarrow> cstr list \<Rightarrow> 'd st \<Rightarrow> 'd applet_result" where
  "applet_profile_disable iface argv st =
     (if length argv < 2 then Some (Ret (-1, Plain), st)
      else end_by_ret (cstr ''es10c_disable_profile'') disable_reason
        (es10c_disable_profile iface (argv ! 1) (refreshflag_of argv) st))"

definition delete_reason :: "int \<Rightarrow> cstr option" where
  "delete_reason ret = Some (
     if ret = 1 then cstr ''iccid or aid not found''
     else if ret = 2 then cstr ''profile not in disabled state''
     else if ret = 3 then cstr ''disallowed by policy''
     else if ret = -1 then cstr ''internal error, maybe illegal iccid/aid coding''
     else cstr ''unknown'')"

definition applet_profile_delete :: "'d euicc_apdu_interface \<Rightarrow> cstr list \<Rightarrow> 'd st \<Rightarrow> 'd applet_result" where
  "applet_profile_delete iface argv st =
     (if length argv < 2 then Some (Ret (-1, Plain), st)
      else end_by_ret (cstr ''es10c_delete_profile'') delete_reason (es10c_delete_profile iface (argv ! 1) st))"

definition nickname_reason :: "int \<Rightarrow> cstr option" where
  "nickname_reason ret = Some (if ret = 1 then cstr ''iccid not found'' else cstr ''unknown'')"

definition applet_profile_nickname :: "'d euicc_apdu_interface \<Rightarrow> cstr list \<Rightarrow> 'd st \<Rightarrow> 'd applet_result" where
  "applet_profile_nickname iface argv st =
     (if length argv < 2 then Some (Ret (-1, Plain), st)
      else end_by_ret (cstr ''es10c_set_nickname'') nickname_reason
        (es10c_set_nickname iface (argv ! 1) (if length argv > 2 then argv ! 2 else []) st))"

definition purge_reason :: "int \<Rightarrow> cstr option" where
  "purge_reason ret = Some (if ret = 1 then cstr ''nothing to delete'' else cstr ''unknown'')"

text \<open>Any word but \<open>yes\<close> ends the applet, with a text and no report in JSON.\<close>

definition applet_chip_purge :: "'d euicc_apdu_interface \<Rightarrow> cstr list \<Rightarrow> 'd st \<Rightarrow> 'd applet_result" where
  "applet_chip_purge iface argv st =
     (if length argv < 2 then Some (Ret (-1, Plain), st)
      else if argv ! 1 \<noteq> cstr ''yes'' then Some (Ret (-1, Plain), st)
      else end_by_ret (cstr ''es10c_euicc_memory_reset'') purge_reason (es10c_euicc_memory_reset iface st))"

definition applet_chip_defaultsmdp :: "'d euicc_apdu_interface \<Rightarrow> cstr list \<Rightarrow> 'd st \<Rightarrow> 'd applet_result" where
  "applet_chip_defaultsmdp iface argv st =
     (if length argv < 2 then Some (Ret (-1, Plain), st)
      else end_by_ret (cstr ''es10a_set_default_dp_address'') (\<lambda>_. None)
        (es10a_set_default_dp_address iface (argv ! 1) st))"

subsection \<open>\<open>profile discovery\<close>\<close>

record discovery_options =
  smds :: "cstr option"
  ds_imei :: "cstr option"

definition discovery_option :: "byte \<Rightarrow> cstr \<Rightarrow> discovery_options \<Rightarrow> discovery_options option" where
  "discovery_option opt optarg o1 =
     (if opt = of_char CHR ''s'' then Some (o1\<lparr>smds := Some optarg\<rparr>)
      else if opt = of_char CHR ''i'' then Some (o1\<lparr>ds_imei := Some optarg\<rparr>)
      else if opt = of_char CHR ''h'' \<or> opt = of_char CHR ''?'' then None
      else Some o1)"

fun discovery_options_of :: "(byte \<times> cstr) list \<Rightarrow> discovery_options \<Rightarrow> discovery_options option" where
  "discovery_options_of [] o1 = Some o1"
| "discovery_options_of ((opt, optarg) # rest) o1 =
     Option.bind (discovery_option opt optarg o1) (discovery_options_of rest)"

text \<open>The calls of a discovery, each after the success of the one before; the result is the list of servers.\<close>

definition discovery_steps ::
  "'d euicc_apdu_interface \<Rightarrow> 'j cjson \<Rightarrow> 'h euicc_http_interface option \<Rightarrow> byte list \<Rightarrow> cstr option \<Rightarrow>
     ('d, 'h) session \<Rightarrow> ((cstr + cstr list) cres \<times> ('d, 'h) session) option" where
  "discovery_steps iface J http imei0 imei1 st =
     Option.bind (to_card (es10b_get_euicc_challenge_and_info iface) st) (\<lambda>(r, st). case r of
       Fail \<Rightarrow> Some (Ret (Inl (cstr ''es10b_get_euicc_challenge_and_info'')), st)
     | UB \<Rightarrow> Some (UB, st)
     | Ret _ \<Rightarrow>
     Option.bind (to_server (es9p_initiate_authentication J http) st) (\<lambda>(r, st). case r of
       Fail \<Rightarrow> Some (Ret (Inl (cstr ''es9p_initiate_authentication'')), st)
     | UB \<Rightarrow> Some (UB, st)
     | Ret _ \<Rightarrow>
     Option.bind (to_card (es10b_authenticate_server iface imei0 None imei1) st) (\<lambda>(r, st). case r of
       Fail \<Rightarrow> Some (Ret (Inl (cstr ''es10b_authenticate_server'')), st)
     | UB \<Rightarrow> Some (UB, st)
     | Ret _ \<Rightarrow>
     Option.bind (to_server (es11_authenticate_client J http) st) (\<lambda>(r, st). case r of
       Fail \<Rightarrow> Some (Ret (Inl (cstr ''es11_authenticate_client'')), st)
     | UB \<Rightarrow> Some (UB, st)
     | Ret smdp_list \<Rightarrow> Some (Ret (Inr smdp_list), st)))))"

definition discovery_main ::
  "'d euicc_apdu_interface \<Rightarrow> 'j cjson \<Rightarrow> 'h euicc_http_interface option \<Rightarrow> byte list \<Rightarrow> (byte \<times> cstr) list \<Rightarrow>
     ('d, 'h) session \<Rightarrow> ((int \<times> (cstr + cstr list) option) cres \<times> ('d, 'h) session) option" where
  "discovery_main iface J http imei0 args st =
     (case discovery_options_of args \<lparr>smds = None, ds_imei = None\<rparr> of
        None \<Rightarrow> Some (Ret (-1, None), st)
      | Some o1 \<Rightarrow>
          Option.bind
            (discovery_steps iface J http imei0 (ds_imei o1)
              (set_server (case smds o1 of None \<Rightarrow> Some (cstr ''lpa.ds.gsma.com'') | Some s \<Rightarrow> Some s) st))
            (\<lambda>(r, st). case r of
               Ret (Inr l) \<Rightarrow> Some (Ret (0, Some (Inr l)), http_cleanup st)
             | Ret (Inl e) \<Rightarrow> Some (Ret (-1, Some (Inl e)), http_cleanup st)
             | _ \<Rightarrow> Some (UB, st)))"

subsection \<open>The choice of an applet\<close>

record 'm applet_entry_t =
  ae_name :: cstr
  ae_main :: 'm

text \<open>The first entry with the name; \<open>None\<close> for the usage message, else the applet with its arguments.\<close>

fun applet_find :: "cstr \<Rightarrow> 'm applet_entry_t list \<Rightarrow> 'm option" where
  "applet_find name [] = None"
| "applet_find name (entry # entries) = (if name = ae_name entry then Some (ae_main entry) else applet_find name entries)"

definition applet_entry :: "cstr list \<Rightarrow> 'm applet_entry_t list \<Rightarrow> ('m \<times> cstr list) option" where
  "applet_entry argv entries =
     (if length argv < 2 then None
      else map_option (\<lambda>main. (main, tl argv)) (applet_find (argv ! 1) entries))"

subsection \<open>\<open>lpac.c\<close>\<close>

definition setup_isdr_aid :: "env \<Rightarrow> (byte list \<times> byte) option cres" where
  "setup_isdr_aid env =
     (let val = getenv_str_or_default env (cstr ''LPAC_CUSTOM_ISD_R_AID'') (cstr ''A0000005591010FFFFFFFF8900000100'');
          n = length val
      in if n mod 2 \<noteq> 0 \<or> n < 2 \<or> n > 32 then Ret None
         else let aid_len = (of_nat n :: byte) div 2 in
           case euicc_hexutil_hex2bin_r (replicate (unat aid_len) 0) (ucast aid_len) val (of_nat n) of
             UB \<Rightarrow> UB
           | Fail \<Rightarrow> Ret None
           | Ret (bytes, a) \<Rightarrow> Ret (if bytes > 0 then Some (a, aid_len) else None))"

text \<open>\<open>stale\<close>: whether \<open>errno\<close> is \<open>ERANGE\<close> before, which the function does not reset.\<close>

definition setup_es10x_mss :: "env \<Rightarrow> bool \<Rightarrow> byte option" where
  "setup_es10x_mss env stale =
     (let (val, range) = getenv_long_or_default env (cstr ''LPAC_CUSTOM_ES10X_MSS'') 0 in
      if val = 0 then Some 0
      else if stale \<or> range \<or> val < 6 \<or> val > 255 then None
      else Some (word_of_int val))"

text \<open>\<open>log_fps\<close>: whether there is a \<open>stderr\<close>; what is logged is left out.\<close>

definition main_init_euicc ::
  "'d euicc_apdu_interface \<Rightarrow> env \<Rightarrow> bool \<Rightarrow> bool \<Rightarrow> 'd st \<Rightarrow> (report option \<times> bool) cres \<times> 'd st" where
  "main_init_euicc iface env stale log_fps st =
     (let (ctx, d) = st; fail = (\<lambda>detail. Ret (Some (Error (cstr ''euicc_init'') detail), False)) in
      case setup_isdr_aid env of
        UB \<Rightarrow> (UB, st)
      | Fail \<Rightarrow> (UB, st)
      | Ret None \<Rightarrow> (fail (Some (cstr ''invalid custom ISD-R applet id given'')), st)
      | Ret (Some (a, n)) \<Rightarrow>
          let ctx = ctx\<lparr>aid := Some a, aid_len := n\<rparr> in
          case setup_es10x_mss env stale of
            None \<Rightarrow> (fail (Some (cstr ''invalid custom ES10x MSS given'')), (ctx\<lparr>es10x_mss := 0\<rparr>, d))
          | Some mss \<Rightarrow>
              let ctx = ctx\<lparr>es10x_mss := mss\<rparr> in
              if \<not> log_fps then (fail (Some (cstr ''invalid log file given'')), (ctx, d))
              else case euicc_init iface (ctx, d) of
                (Ret _, st) \<Rightarrow> (Ret (None, True), st)
              | (Fail, st) \<Rightarrow> (fail None, st)
              | (UB, st) \<Rightarrow> (UB, st))"

definition main_fini_euicc :: "'d euicc_apdu_interface \<Rightarrow> bool \<Rightarrow> 'd st \<Rightarrow> 'd st" where
  "main_fini_euicc iface euicc_ctx_inited st = (if \<not> euicc_ctx_inited then st else euicc_fini iface st)"

text \<open>
  A run of \<open>lpac_main\<close> with an applet of the card (\<open>chip\<close>, \<open>profile\<close> or \<open>notification\<close>): initialisation, the applet, and
  \<open>main_fini_euicc\<close>. The applet is a parameter, as the one \<open>applet_entry\<close> finds.
\<close>

definition card_applet ::
  "'d euicc_apdu_interface \<Rightarrow> env \<Rightarrow> bool \<Rightarrow> bool \<Rightarrow> ('d st \<Rightarrow> 'd applet_result) option \<Rightarrow> 'd st \<Rightarrow> 'd applet_result" where
  "card_applet iface env stale log_fps main st =
     (case main_init_euicc iface env stale log_fps st of
        (Ret (Some e, inited), st) \<Rightarrow> Some (Ret (-1, e), main_fini_euicc iface inited st)
      | (Ret (None, inited), st) \<Rightarrow>
          (case main of
             None \<Rightarrow> Some (Ret (-1, Plain), main_fini_euicc iface inited st)
           | Some f \<Rightarrow> map_option (\<lambda>(r, st). (r, if r = UB then st else main_fini_euicc iface inited st)) (f st))
      | (_, st) \<Rightarrow> Some (UB, st))"

end
