(* ===== verification/Applet_Notification.thy ===== *)
theory Applet_Notification
  imports Applet_Command
begin

text \<open>
  The applets \<open>notification process\<close>, \<open>remove\<close>, \<open>dump\<close> and \<open>replay\<close> with \<open>notification_common.c\<close>: what the card has to
  tell the server is read from the card, delivered, and removed.
\<close>

subsection \<open>\<open>notification_common.c\<close>\<close>

text \<open>The loop over the trailing blanks, from the position before \<open>n\<close>.\<close>

fun strip_end :: "cstr \<Rightarrow> nat \<Rightarrow> cstr" where
  "strip_end s 0 = s"
| "strip_end s (Suc n) = (if isspace (s ! n) then strip_end (take n s) n else s)"

definition notification_strstrip :: "cstr option \<Rightarrow> cstr option" where
  "notification_strstrip input =
     (case input of
        None \<Rightarrow> None
      | Some s \<Rightarrow> (let s = dropWhile isspace s in if s = [] then Some s else Some (strip_end s (length s))))"

text \<open>
  A line of a dump, as the JSON object it is printed from and parsed into; \<open>pendingNotification\<close> and the address
  are missing from the object where they are \<open>NULL\<close>.
\<close>

record notification_line =
  nl_type :: "cstr option"
  nl_eid :: "cstr option"
  nl_seqNumber :: "u32 option"
  nl_notificationAddress :: "cstr option"
  nl_pendingNotification :: "cstr option"

definition build_notification :: "cstr \<Rightarrow> u32 \<Rightarrow> es10b_pending_notification \<Rightarrow> notification_line" where
  "build_notification eid seqNumber notification =
     \<lparr>nl_type = Some (cstr ''notification''), nl_eid = Some eid, nl_seqNumber = Some seqNumber,
      nl_notificationAddress = notification_strstrip (pn_notificationAddress notification),
      nl_pendingNotification = pn_b64_PendingNotification notification\<rparr>"

text \<open>What a line is parsed into; \<open>None\<close> is a field of the caller's structure that was never written.\<close>

record parsed_line =
  pl_seqNumber :: u32
  pl_notificationAddress :: "cstr option"
  pl_pendingNotification :: "cstr option"

text \<open>The result and the structure, which is filled up to the field that is bad.\<close>

definition parse_notification :: "notification_line \<Rightarrow> cstr \<Rightarrow> parsed_line \<Rightarrow> bool \<times> parsed_line" where
  "parse_notification jroot eid p =
     (if nl_type jroot \<noteq> Some (cstr ''notification'') then (False, p)
      else if nl_eid jroot \<noteq> Some eid then (False, p)
      else case nl_seqNumber jroot of None \<Rightarrow> (False, p) | Some seqNumber \<Rightarrow>
        let p = p\<lparr>pl_seqNumber := seqNumber\<rparr> in
        if nl_notificationAddress jroot = None then (False, p)
        else let p = p\<lparr>pl_notificationAddress := notification_strstrip (nl_notificationAddress jroot)\<rparr> in
        if nl_pendingNotification jroot = None then (False, p)
        else (True, p\<lparr>pl_pendingNotification := nl_pendingNotification jroot\<rparr>))"

subsection \<open>\<open>process.c\<close>\<close>

type_synonym ('d, 'h) session_result = "(report cres \<times> ('d, 'h) session) option"

definition remove_reason :: "int \<Rightarrow> cstr option" where
  "remove_reason ret = Some (if ret = 1 then cstr ''seqNumber not found'' else cstr ''unknown'')"

text \<open>\<open>_delete_single\<close> of \<open>remove.c\<close>, and the end of \<open>_process_single\<close>: \<open>Success\<close> for 0, else the error reported.\<close>

definition delete_single ::
  "'d euicc_apdu_interface \<Rightarrow> u32 \<Rightarrow> ('d, 'h) session \<Rightarrow> ('d, 'h) session_result" where
  "delete_single iface seqNumber st =
     map_option (\<lambda>(r, st).
       (if r = UB then UB
        else Ret (if ret_int r \<noteq> 0 then Error (cstr ''es10b_remove_notification_from_list'') (remove_reason (ret_int r)) else Success),
        st))
       (to_card (es10b_remove_notification_from_list iface (ucast seqNumber)) st)"

definition process_single ::
  "'d euicc_apdu_interface \<Rightarrow> 'j cjson \<Rightarrow> 'h euicc_http_interface option \<Rightarrow> bool \<Rightarrow> u32 \<Rightarrow> ('d, 'h) session \<Rightarrow>
     ('d, 'h) session_result" where
  "process_single iface J http autoremove seqNumber st =
     Option.bind (to_card (es10b_retrieve_notifications_list iface (ucast seqNumber)) st) (\<lambda>(r, st).
     case r of
       UB \<Rightarrow> Some (UB, st)
     | Fail \<Rightarrow> Some (Ret (Error (cstr ''es10b_retrieve_notifications_list'') None), st)
     | Ret notification \<Rightarrow>
         Option.bind
           (to_server (es9p_handle_notification J http (pn_b64_PendingNotification notification))
             (set_server (notification_strstrip (pn_notificationAddress notification)) st))
           (\<lambda>(r, st). case r of
              UB \<Rightarrow> Some (UB, st)
            | Fail \<Rightarrow> Some (Ret (Error (cstr ''es9p_handle_notification'') (Some (cstr_of (status_message (http_status (fst st)))))), st)
            | Ret _ \<Rightarrow> if \<not> autoremove then Some (Ret Success, st) else delete_single iface seqNumber st))"

text \<open>The loop over the notifications, which the first error ends.\<close>

fun each_notification ::
  "(u32 \<Rightarrow> ('d, 'h) session \<Rightarrow> ('d, 'h) session_result) \<Rightarrow> u32 list \<Rightarrow> ('d, 'h) session \<Rightarrow> ('d, 'h) session_result" where
  "each_notification f [] st = Some (Ret Success, st)"
| "each_notification f (k # ks) st =
     Option.bind (f k st) (\<lambda>(r, st). if r = Ret Success then each_notification f ks st else Some (r, st))"

text \<open>The operands that are numbers: no conversion and overflow are passed over, the rest is cut to 32 bits.\<close>

definition seq_operands :: "cstr list \<Rightarrow> u32 list" where
  "seq_operands args = map (\<lambda>(v, range). ucast v) (filter (\<lambda>(v, range). \<not> range) (List.map_filter strtoul args))"

text \<open>The loop over the list of the card or the operands, up to the \<open>return\<close>.\<close>

definition notification_run ::
  "'d euicc_apdu_interface \<Rightarrow> (u32 \<Rightarrow> ('d, 'h) session \<Rightarrow> ('d, 'h) session_result) \<Rightarrow> bool \<Rightarrow> cstr list \<Rightarrow>
     ('d, 'h) session \<Rightarrow> (applet_end cres \<times> ('d, 'h) session) option" where
  "notification_run iface single all args st =
     (let finish = map_option (\<lambda>(r, st). (cbind r (\<lambda>rep. Ret (if rep = Success then 0 else -1, rep)), st)) in
      if all then
        Option.bind (to_card (es10b_list_notification iface) st) (\<lambda>(r, st). case r of
          UB \<Rightarrow> Some (UB, st)
        | Fail \<Rightarrow> Some (Ret (-1, Error (cstr ''es10b_list_notification'') None), st)
        | Ret notifications \<Rightarrow> finish (each_notification single (map (ucast \<circ> nm_seqNumber) notifications) st))
      else finish (each_notification single (seq_operands args) st))"

text \<open>
  Then the variables are released. In \<open>_cleanup_... struct es10b_notification_metadata_list *notifications, *rptr\<close> the attribute is part of both
  declarations: the list from \<open>rptr\<close> on is freed, and then the whole list. That is defined only where \<open>rptr\<close> is \<open>NULL\<close>, at the
  end of the loop. When the list could not be read \<open>rptr\<close> was never written, and when the loop was left by \<open>break\<close> a part of the list is
  freed twice.
\<close>

definition notification_main ::
  "'d euicc_apdu_interface \<Rightarrow> (u32 \<Rightarrow> ('d, 'h) session \<Rightarrow> ('d, 'h) session_result) \<Rightarrow> bool \<Rightarrow> cstr list \<Rightarrow>
     ('d, 'h) session \<Rightarrow> (applet_end cres \<times> ('d, 'h) session) option" where
  "notification_main iface single all args st =
     map_option (\<lambda>(r, st). (cbind r (\<lambda>(code, rep).
       if all \<and> code \<noteq> 0 then UB else Ret (code, rep)), st))
       (notification_run iface single all args st)"

record notification_options =
  no_all :: bool
  no_autoremove :: bool

fun notification_options_of :: "byte list \<Rightarrow> notification_options \<Rightarrow> notification_options option" where
  "notification_options_of [] o1 = Some o1"
| "notification_options_of (opt # rest) o1 =
     (if opt = of_char CHR ''a'' then notification_options_of rest (o1\<lparr>no_all := True\<rparr>)
      else if opt = of_char CHR ''r'' then notification_options_of rest (o1\<lparr>no_autoremove := True\<rparr>)
      else if opt = of_char CHR ''h'' \<or> opt = of_char CHR ''?'' then None
      else notification_options_of rest o1)"

definition applet_notification_process ::
  "'d euicc_apdu_interface \<Rightarrow> 'j cjson \<Rightarrow> 'h euicc_http_interface option \<Rightarrow> byte list \<Rightarrow> cstr list \<Rightarrow>
     ('d, 'h) session \<Rightarrow> (applet_end cres \<times> ('d, 'h) session) option" where
  "applet_notification_process iface J http opts args st =
     (case notification_options_of opts \<lparr>no_all = False, no_autoremove = False\<rparr> of
        None \<Rightarrow> Some (Ret (-1, Plain), st)
      | Some o1 \<Rightarrow> notification_main iface (process_single iface J http (no_autoremove o1)) (no_all o1) args st)"

subsection \<open>\<open>remove.c\<close>\<close>

text \<open>\<open>getopt\<close> gives \<open>?\<close> for the option \<open>-r\<close>, which is not in the list of this applet.\<close>

definition applet_notification_remove ::
  "'d euicc_apdu_interface \<Rightarrow> byte list \<Rightarrow> cstr list \<Rightarrow>
     ('d, 'h) session \<Rightarrow> (applet_end cres \<times> ('d, 'h) session) option" where
  "applet_notification_remove iface opts args st =
     (case notification_options_of (map (\<lambda>opt. if opt = of_char CHR ''r'' then of_char CHR ''?'' else opt) opts)
         \<lparr>no_all = False, no_autoremove = False\<rparr> of
        None \<Rightarrow> Some (Ret (-1, Plain), st)
      | Some o1 \<Rightarrow> notification_main iface (delete_single iface) (no_all o1) args st)"

subsection \<open>\<open>dump.c\<close>\<close>

text \<open>The lines printed so far are \<open>out\<close>; the result is whether all could be retrieved.\<close>

fun dump_loop ::
  "'d euicc_apdu_interface \<Rightarrow> cstr \<Rightarrow> u32 list \<Rightarrow> notification_line list \<Rightarrow> 'd st \<Rightarrow>
     ((bool \<times> notification_line list) cres \<times> 'd st) option" where
  "dump_loop iface eid [] out st = Some (Ret (True, out), st)"
| "dump_loop iface eid (k # ks) out st =
     Option.bind (es10b_retrieve_notifications_list iface (ucast k) st) (\<lambda>(r, st). case r of
       UB \<Rightarrow> Some (UB, st)
     | Fail \<Rightarrow> Some (Ret (False, out), st)
     | Ret notification \<Rightarrow> dump_loop iface eid ks (out @ [build_notification eid k notification]) st)"

text \<open>The two variables of the list are released as in \<open>notification_main\<close>.\<close>

definition applet_notification_dump ::
  "'d euicc_apdu_interface \<Rightarrow> bool \<Rightarrow> cstr list \<Rightarrow> 'd st \<Rightarrow> ((int \<times> notification_line list) cres \<times> 'd st) option" where
  "applet_notification_dump iface all args st =
     (let loop = (\<lambda>eid ks st. map_option (\<lambda>(r, st). (cbind r (\<lambda>(ok, out). if all \<and> \<not> ok then UB else Ret (if ok then 0 else -1, out)), st))
        (dump_loop iface eid ks [] st))
      in Option.bind (es10c_get_eid iface st) (\<lambda>(r, st). case r of
           UB \<Rightarrow> Some (UB, st)
         | Fail \<Rightarrow> Some (Ret (-1, []), st)
         | Ret eid \<Rightarrow>
             if all then
               Option.bind (es10b_list_notification iface st) (\<lambda>(r, st). case r of
                 UB \<Rightarrow> Some (UB, st)
               | Fail \<Rightarrow> Some (UB, st)
               | Ret notifications \<Rightarrow> loop eid (map (ucast \<circ> nm_seqNumber) notifications) st)
             else loop eid (seq_operands args) st))"

subsection \<open>\<open>replay.c\<close>\<close>

text \<open>Reading a field of the structure that was never written is undefined.\<close>

definition replay_handle ::
  "'j cjson \<Rightarrow> 'h euicc_http_interface option \<Rightarrow> parsed_line \<Rightarrow> ('d, 'h) session \<Rightarrow> (unit cres \<times> ('d, 'h) session) option" where
  "replay_handle J http p st =
     (case (pl_notificationAddress p, pl_pendingNotification p) of
        (Some address, Some pending) \<Rightarrow> to_server (es9p_handle_notification J http (Some pending)) (set_server (Some address) st)
      | _ \<Rightarrow> Some (UB, st))"

text \<open>The lines of the input; \<open>None\<close> is one that is not JSON.\<close>

fun replay_loop ::
  "'j cjson \<Rightarrow> 'h euicc_http_interface option \<Rightarrow> cstr \<Rightarrow> notification_line option list \<Rightarrow> parsed_line \<Rightarrow> ('d, 'h) session \<Rightarrow>
     ('d, 'h) session_result" where
  "replay_loop J http eid [] p st = Some (Ret Success, st)"
| "replay_loop J http eid (None # lines) p st = Some (Ret (Error (cstr ''cJSON_ParseWithLength'') None), st)"
| "replay_loop J http eid (Some jroot # lines) p st =
     (let (ok, p) = parse_notification jroot eid p in
      if ok then Some (Ret (Error (cstr ''parse_notification'') None), st)
      else Option.bind (replay_handle J http p st) (\<lambda>(r, st). case r of
          UB \<Rightarrow> Some (UB, st)
        | Fail \<Rightarrow> Some (Ret (Error (cstr ''handle_notification'') None), st)
        | Ret _ \<Rightarrow> replay_loop J http eid lines p st))"

text \<open>\<open>tty\<close>: whether the input is a terminal\<close>

definition applet_notification_replay ::
  "'d euicc_apdu_interface \<Rightarrow> 'j cjson \<Rightarrow> 'h euicc_http_interface option \<Rightarrow> bool \<Rightarrow> notification_line option list \<Rightarrow>
     ('d, 'h) session \<Rightarrow> (applet_end cres \<times> ('d, 'h) session) option" where
  "applet_notification_replay iface J http tty lines st =
     (if tty then Some (Ret (-1, Error (cstr ''This applet must be run with input redirection from a file or pipe.'') None), st)
      else Option.bind (to_card (es10c_get_eid iface) st) (\<lambda>(r, st). case r of
          UB \<Rightarrow> Some (UB, st)
        | Fail \<Rightarrow> Some (Ret (-1, Error (cstr ''es10c_get_eid'') None), st)
        | Ret eid \<Rightarrow>
            map_option (\<lambda>(r, st). (cbind r (\<lambda>rep. Ret (if rep = Success then 0 else -1, rep)), st))
              (replay_loop J http eid lines
                \<lparr>pl_seqNumber = 0, pl_notificationAddress = None, pl_pendingNotification = None\<rparr> st)))"

end
