(* ===== verification/Download_Props.thy ===== *)
theory Download_Props
  imports Es10b_Session Es10_Answers
begin

text \<open>
  The card side of the profile download (\<open>euicc/es10b.c\<close>): which requests \<open>es10b_prepare_download\<close> and
  \<open>es10b_authenticate_server\<close> build from what the server sent, byte for byte, and what they leave in the
  session.
\<close>

subsection \<open>The hash of the confirmation code\<close>

lemma length_sha256_blocks: "length st = 8 \<Longrightarrow> length (sha256_blocks st bs) = 8"
proof (induction st bs rule: sha256_blocks.induct)
  case (1 st bs)
  have "length (sha256_block st xs) = 8" for xs by (simp add: sha256_block_def Let_def split: prod.split)
  with 1 show ?case by (simp add: sha256_blocks.simps [of st bs])
qed

lemma sha256_length [simp]: "length (sha256 bs) = 32"
  using length_sha256_blocks [of sha256_h0 "sha256_pad bs"]
  by (simp add: sha256_def sha256_hash_bytes_def length_concat comp_def sum_list_triv sha256_h0_def)

lemma sha256_start: "sha256_absorbed [] (euicc_sha256_init sha256_ctx_zero)"
  by (rule sha256_absorbed_init) (simp add: sha256_ctx_zero_def)

lemma hash_confirmation_code_eq:
  assumes "length code < 4294967296" "slice_ok tid len"
  shows "hash_confirmation_code code tid len = Ret (sha256 (sha256 code @ slice_bytes tid len))"
proof -
  obtain c1 where c1: "euicc_sha256_update (euicc_sha256_init sha256_ctx_zero) code (length code) = Ret c1"
    "sha256_absorbed code c1" using sha256_absorbed_update [OF sha256_start, of "length code" code] by auto
  obtain c2 where c2: "euicc_sha256_final c1 = Ret (c2, sha256 code)" using sha256_absorbed_final [OF c1(2)] ..
  obtain c3 where c3: "euicc_sha256_update (euicc_sha256_init sha256_ctx_zero) (sha256 code) 32 = Ret c3"
    "sha256_absorbed (sha256 code) c3" using sha256_absorbed_update [OF sha256_start, of 32 "sha256 code"] by auto
  obtain c4 where c4: "euicc_sha256_update c3 tid (unat len) = Ret c4"
    "sha256_absorbed (sha256 code @ slice_bytes tid len) c4"
    using sha256_absorbed_update [OF c3(2), of "unat len" tid] assms(2) by (auto simp: slice_ok_def slice_bytes_def)
  obtain c5 where "euicc_sha256_final c4 = Ret (c5, sha256 (sha256 code @ slice_bytes tid len))"
    using sha256_absorbed_final [OF c4(2)] ..
  with c1(1) c2 c3(1) c4(1) assms(1) show ?thesis by (simp add: hash_confirmation_code_def strlen_def)
qed

subsection \<open>Preparing the download\<close>

text \<open>
  The request: the server's signed data, its signature, the hash of the confirmation code if the server
  asks for one, and the server's certificate.
\<close>

definition code_hash :: "byte list \<Rightarrow> byte list \<Rightarrow> cstr option \<Rightarrow> byte list option" where
  "code_hash ccRequired transactionId code =
     (if be_value64 ccRequired = 0 then Some []
      else case code of None \<Rightarrow> None
        | Some c \<Rightarrow> if c = [] then None else Some (tlv 0x04 (sha256 (sha256 c @ transactionId))))"

definition prepare_download_spec :: "es10b_prepare_download_param \<Rightarrow> cstr option \<Rightarrow> byte list option" where
  "prepare_download_spec param code = do {
     signed2 \<leftarrow> tlv_val 0x30 (b64_plain (b64_smdpSigned2 param));
     signature2 \<leftarrow> tlv_val 0x5F37 (b64_plain (b64_smdpSignature2 param));
     certificate \<leftarrow> tlv_val 0x30 (b64_plain (b64_smdpCertificate param));
     transactionId \<leftarrow> tlv_val 0x80 signed2;
     ccRequired \<leftarrow> tlv_val 0x01 signed2;
     hash \<leftarrow> code_hash ccRequired transactionId code;
     Some (tlv 0xBF21 (tlv 0x30 signed2 @ tlv 0x5F37 signature2 @ hash @ tlv 0x30 certificate)) }"

definition prepare_small :: "es10b_prepare_download_param \<Rightarrow> cstr option \<Rightarrow> bool" where
  "prepare_small param code \<longleftrightarrow> length (b64_smdpSigned2 param) < 0x40000000 \<and>
     length (b64_smdpSignature2 param) < 0x40000000 \<and> length (b64_smdpCertificate param) < 0x40000000 \<and>
     (\<forall>c. code = Some c \<longrightarrow> length c < 4294967296)"

text \<open>A request tree stands for the bytes it packs to.\<close>

definition packs :: "byte list \<Rightarrow> der_tree \<Rightarrow> bool" where
  "packs bs t \<longleftrightarrow> pack_ok t \<and> der_enc t = bs \<and> length bs < 4294967296"

lemma val_node_facts:
  assumes "val_node tag v n"
  shows "slice_ok (n_value n) (n_length n)" "slice_bytes (n_value n) (n_length n) = v" "n_tag n = tag"
    "node_val n = v" "length v < 0x40000000"
  using assms node_small_lengths [of n] slice_small_length [of "n_value n" "n_length n"]
  by (auto simp: val_node_def node_val_def)

lemma strlen_0 [simp]: "length c < 4294967296 \<Longrightarrow> strlen c = 0 \<longleftrightarrow> c = []"
  using unat_of_nat_u32 [of "length c"] unsigned_eq_0_iff [of "strlen c", where ?'a = nat] by (simp add: strlen_def)

lemma length_tlvs:
  "length x < 0x40000000 \<Longrightarrow> length y < 0x40000000 \<Longrightarrow> length z < 0x40000000 \<Longrightarrow> length h \<le> 0x1000 \<Longrightarrow>
    length (tlv t (tlv tx x @ tlv ty y @ h @ tlv tz z)) < 4294967296"
  using length_tlv(1) [of t "tlv tx x @ tlv ty y @ h @ tlv tz z"] length_tlv(1) [of tx x] length_tlv(1) [of ty y]
    length_tlv(1) [of tz z] by simp

lemma prepare_tree_rel:
  assumes nodes: "val_node 0x30 x nx" "val_node 0x5F37 y ny" "val_node 0x30 z nz" "val_node 0x80 t nt" "val_node 0x01 f nf"
    and code: "\<And>c. code = Some c \<Longrightarrow> length c < 4294967296"
  shows "res_rel packs (Option.bind (code_hash f t code) (\<lambda>h. Some (tlv 0xBF21 (tlv 0x30 x @ tlv 0x5F37 y @ h @ tlv 0x30 z))))
    (cbind (euicc_derutil_convert_bin2long (n_value nf) (n_length nf)) (\<lambda>flag.
     if flag \<noteq> 0 then
       (case code of
          None \<Rightarrow> Fail
        | Some code \<Rightarrow>
            if strlen code = 0 then Fail
            else cbind (hash_confirmation_code code (n_value nt) (n_length nt)) (\<lambda>hashCC.
              Ret (n_cons 0xBF21 [n_found nx, n_found ny, n_leaf 0x04 hashCC 32, n_found nz])))
     else Ret (n_cons 0xBF21 [n_found nx, n_found ny, n_found nz])))"
proof -
  note facts = val_node_facts [OF nodes(1)] val_node_facts [OF nodes(2)] val_node_facts [OF nodes(3)]
    val_node_facts [OF nodes(4)] val_node_facts [OF nodes(5)]
  have "slice_ok (sha256 bs) 32" "slice_bytes (sha256 bs) 32 = sha256 bs" for bs
    by (simp_all add: slice_ok_def slice_bytes_def)
  moreover have "length (tlv 0x04 (sha256 bs)) \<le> 0x1000" for bs by (intro length_tlv_le) simp
  ultimately show ?thesis
    using facts code
    by (auto simp: code_hash_def bin2long_eq hash_confirmation_code_eq packs_def length_tlvs length_tlvs [where h = "[]", simplified]
        split: option.splits)
qed

lemma prepare_request_rel:
  assumes "prepare_small param code"
  shows "res_rel packs (prepare_download_spec param code) (prepare_download_request param code)"
proof -
  have len: "length (b64_smdpSigned2 param) < 0x40000000" "length (b64_smdpSignature2 param) < 0x40000000"
    "length (b64_smdpCertificate param) < 0x40000000" "\<And>c. code = Some c \<Longrightarrow> length c < 4294967296"
    using assms by (auto simp: prepare_small_def)
  have spec: "prepare_download_spec param code =
      Option.bind (Some (b64_plain (b64_smdpSigned2 param))) (\<lambda>p.
      Option.bind (Some (b64_plain (b64_smdpSignature2 param))) (\<lambda>q.
      Option.bind (Some (b64_plain (b64_smdpCertificate param))) (\<lambda>r.
      Option.bind (tlv_val 0x30 p) (\<lambda>x. Option.bind (tlv_val 0x5F37 q) (\<lambda>y. Option.bind (tlv_val 0x30 r) (\<lambda>z.
      Option.bind (tlv_val 0x80 x) (\<lambda>t. Option.bind (tlv_val 0x01 x) (\<lambda>f. Option.bind (code_hash f t code) (\<lambda>h.
      Some (tlv 0xBF21 (tlv 0x30 x @ tlv 0x5F37 y @ h @ tlv 0x30 z)))))))))))"
    by (simp add: prepare_download_spec_def)
  show ?thesis
    unfolding spec prepare_download_request_def
    by (rule res_rel_bind [OF decode_rel [OF len(1)]], clarify, rule res_rel_bind [OF decode_rel [OF len(2)]], clarify,
        rule res_rel_bind [OF decode_rel [OF len(3)]], clarify, (rule res_rel_bind [OF find_slice_rel], assumption)+,
        (rule res_rel_bind [OF find_in_rel], assumption)+, rule prepare_tree_rel [OF _ _ _ _ _ len(4)], assumption+)
qed

interpretation whole: es10_parser b64_dup "\<lambda>_. True" "\<lambda>resp. Some (b64_enc resp)"
  by unfold_locales (simp add: b64_dup_eq)

lemma upd_http_same: "f (http_internal ctx) = http_internal ctx \<Longrightarrow> upd_http f (ctx, d) = (ctx, d)"
  by (simp add: upd_http_def)

text \<open>
  C28. Preparing the download. With the data of the server in the session and no answer there yet,
  \<open>es10b_prepare_download\<close> sends exactly the request \<open>prepare_download_spec\<close> describes: the elements the server
  signed, repacked unchanged, and, if the server requires a confirmation code, the hash
  \<open>SHA256(SHA256(code) | transactionId)\<close> between signature and certificate. What the card answers goes to
  the session in base64 and the server's data is used up. Where an element is missing, or a code is required
  and none (or an empty one) is given, it fails without any exchange and leaves the session as it was.
\<close>

theorem es10b_prepare_download_step:
  assumes "small_answers iface" "wf_ctx ctx" "es10x_mss ctx \<noteq> 0"
    and "prepare_download_param (http_internal ctx) = Some param" "b64_prepare_download_response (http_internal ctx) = None"
    and "prepare_small param code"
  shows "case prepare_download_spec param code of
      None \<Rightarrow> es10b_prepare_download iface code (ctx, d) = Some (Fail, ctx, d)
    | Some req \<Rightarrow> \<forall>resp d'. card_gives iface ctx req d resp d' \<and> length resp < 0x40000000 \<longrightarrow>
        (\<exists>ctx'. es10b_prepare_download iface code (ctx, d) =
            Some (Ret (), upd_http (\<lambda>h. h\<lparr>b64_prepare_download_response := Some (b64_enc resp),
              prepare_download_param := None\<rparr>) (ctx', d')) \<and> same_session ctx ctx')"
proof (cases rule: res_rel_cases [OF prepare_request_rel [OF assms(6)], case_names none some])
  case none
  then show ?thesis
    using assms(4,5) by (simp add: es10b_prepare_download_def es10b_prepare_download_r_def upd_http_same)
next
  case (some req t)
  have "\<exists>ctx'. es10b_prepare_download iface code (ctx, d) =
            Some (Ret (), upd_http (\<lambda>h. h\<lparr>b64_prepare_download_response := Some (b64_enc resp),
              prepare_download_param := None\<rparr>) (ctx', d')) \<and> same_session ctx ctx'"
    if "card_gives iface ctx req d resp d'" "length resp < 0x40000000" for resp d'
    using whole.request_alloc_spec [OF assms(1-3), of t d resp d'] that some assms(4,5)
    by (auto simp: packs_def es10b_prepare_download_def es10b_prepare_download_r_def)
  with some(1) show ?thesis by simp
qed

definition demo_prepare :: es10b_prepare_download_param where
  "demo_prepare = \<lparr>b64_profileMetadata = None, b64_smdpSigned2 = b64_enc (tlv 0x30 (tlv 0x80 [1, 2] @ tlv 0x01 [0xFF])),
     b64_smdpSignature2 = b64_enc (tlv 0x5F37 [3]), b64_smdpCertificate = b64_enc (tlv 0x30 [4])\<rparr>"

definition with_http :: "euicc_http_internal \<Rightarrow> euicc_ctx" where
  "with_http h = demo_ctx\<lparr>http_internal := h\<rparr>"

lemma with_http_simps [simp]:
  "http_internal (with_http h) = h" "wf_ctx (with_http h)" "es10x_mss (with_http h) \<noteq> 0"
  "card_gives iface (with_http h) = card_gives iface demo_ctx"
  using demo_ctx_wf by (simp_all add: with_http_def wf_ctx_def card_gives_def fun_eq_iff)

lemma length_b64_enc_small: "length bs < 100 \<Longrightarrow> length (b64_enc bs) < 0x40000000"
  using length_b64_enc [of bs] by (simp add: euicc_base64_encode_len_def)

lemma demo_prepare_spec:
  "prepare_small demo_prepare (Some (cstr ''1234''))"
  "prepare_download_spec demo_prepare (Some (cstr ''1234'')) = Some (tlv 0xBF21 (tlv 0x30 (tlv 0x80 [1, 2] @ tlv 0x01 [0xFF]) @
     tlv 0x5F37 [3] @ tlv 0x04 (sha256 (sha256 (cstr ''1234'') @ [1, 2])) @ tlv 0x30 [4]))"
  "prepare_download_spec demo_prepare None = None"
proof -
  have "be_value64 [0xFF] = 0xFF" by code_simp
  then show "prepare_download_spec demo_prepare (Some (cstr ''1234'')) = Some (tlv 0xBF21 (tlv 0x30 (tlv 0x80 [1, 2] @ tlv 0x01 [0xFF]) @
     tlv 0x5F37 [3] @ tlv 0x04 (sha256 (sha256 (cstr ''1234'') @ [1, 2])) @ tlv 0x30 [4]))"
    "prepare_download_spec demo_prepare None = None"
    by (simp_all add: prepare_download_spec_def demo_prepare_def b64_plain_enc code_hash_def tag_wf_def length_tlv_exact
        tlv_val_other cstr_def)
  show "prepare_small demo_prepare (Some (cstr ''1234''))"
    by (simp add: prepare_small_def demo_prepare_def length_b64_enc_small length_tlv_exact cstr_def)
qed

theorem es10b_prepare_download_step_witness:
  "\<exists>ctx'. es10b_prepare_download script_card (Some (cstr ''1234''))
      (with_http (http_internal_zero\<lparr>prepare_download_param := Some demo_prepare\<rparr>), [[0xBF, 0x21, 0x00, 0x90, 0x00]]) =
    Some (Ret (), upd_http (\<lambda>h. h\<lparr>b64_prepare_download_response := Some (b64_enc [0xBF, 0x21, 0x00]),
      prepare_download_param := None\<rparr>) (ctx', []))"
proof -
  let ?ctx = "with_http (http_internal_zero\<lparr>prepare_download_param := Some demo_prepare\<rparr>)"
  let ?req = "tlv 0xBF21 (tlv 0x30 (tlv 0x80 [1, 2] @ tlv 0x01 [0xFF]) @
     tlv 0x5F37 [3] @ tlv 0x04 (sha256 (sha256 (cstr ''1234'') @ [1, 2])) @ tlv 0x30 [4])"
  have "card_gives script_card ?ctx ?req [[0xBF, 0x21, 0x00] @ [0x90, 0x00]] [0xBF, 0x21, 0x00] []"
    unfolding with_http_simps by (rule script_gives) (simp_all add: length_tlv_exact)
  with es10b_prepare_download_step [OF script_card_small, of ?ctx demo_prepare "Some (cstr ''1234'')" "[[0xBF, 0x21, 0x00, 0x90, 0x00]]"]
  show ?thesis
    by (simp add: demo_prepare_spec http_internal_zero_def) (drule spec [of _ "[0xBF, 0x21, 0x00]"], drule spec [of _ "[]"], auto)
qed

subsection \<open>Authenticating the server\<close>

text \<open>
  What the request says of the device: the type allocation code, the first four bytes of the IMEI array, and
  the IMEI. The array is not initialised: where the IMEI has fewer than four bytes, the code is filled up with
  what was in memory (\<open>imei0\<close>).
\<close>

definition imei_spec :: "byte list \<Rightarrow> cstr option \<Rightarrow> (byte list \<times> byte list) option" where
  "imei_spec imei0 imei =
     (case imei of None \<Rightarrow> Some ([0x35, 0x29, 0x06, 0x11], [])
      | Some s \<Rightarrow> (case unhex (swap_pairs (bcd_pad s)) of None \<Rightarrow> None
        | Some bs \<Rightarrow> if 8 < length bs then None else Some (take 4 (bs @ drop (length bs) imei0), tlv 0x82 bs)))"

definition authenticate_server_spec ::
  "byte list \<Rightarrow> es10b_authenticate_server_param \<Rightarrow> cstr option \<Rightarrow> cstr option \<Rightarrow> (byte list \<times> byte list) option" where
  "authenticate_server_spec imei0 param matchingId imei = do {
     signed1 \<leftarrow> tlv_val 0x30 (b64_plain (b64_serverSigned1 param));
     transactionId \<leftarrow> tlv_val 0x80 signed1;
     signature1 \<leftarrow> tlv_val 0x5F37 (b64_plain (b64_serverSignature1 param));
     ciPKId \<leftarrow> tlv_val 0x04 (b64_plain (b64_euiccCiPKIdToBeUsed param));
     certificate \<leftarrow> tlv_val 0x30 (b64_plain (b64_serverCertificate param));
     (tac, imei) \<leftarrow> imei_spec imei0 imei;
     Some (tlv 0xBF38 (tlv 0x30 signed1 @ tlv 0x5F37 signature1 @ tlv 0x04 ciPKId @ tlv 0x30 certificate @
       tlv 0xA0 ((case matchingId of None \<Rightarrow> [] | Some m \<Rightarrow> tlv 0x80 m) @
         tlv 0xA1 (tlv 0x80 tac @ tlv 0xA1 [] @ imei))), transactionId) }"

definition authenticate_small :: "es10b_authenticate_server_param \<Rightarrow> cstr option \<Rightarrow> cstr option \<Rightarrow> bool" where
  "authenticate_small param matchingId imei \<longleftrightarrow>
     length (b64_serverSigned1 param) < 0x30000000 \<and> length (b64_serverSignature1 param) < 0x30000000 \<and>
     length (b64_euiccCiPKIdToBeUsed param) < 0x30000000 \<and> length (b64_serverCertificate param) < 0x30000000 \<and>
     (\<forall>m. matchingId = Some m \<longrightarrow> length m < 0x30000000) \<and> (\<forall>s. imei = Some s \<longrightarrow> length s < 0x30000000)"

lemma imei_rel:
  assumes "length imei0 = 8" "\<And>s. imei = Some s \<Longrightarrow> length s < 0x30000000"
  shows "res_rel (\<lambda>(tac, enc) (arr, len). packs (tlv 0xA1 (tlv 0x80 tac @ tlv 0xA1 [] @ enc)) (device_info arr len) \<and>
      length tac = 4 \<and> length enc \<le> 15)
    (imei_spec imei0 imei) (device_imei imei0 imei)"
proof (cases imei)
  case None
  have "memcpy imei0 0 [0x35, 0x29, 0x06, 0x11] 4 = Ret ([0x35, 0x29, 0x06, 0x11] @ drop 4 imei0)"
    using assms(1) by (simp add: memcpy_def)
  with None assms(1) show ?thesis
    by (auto simp: imei_spec_def device_imei_def device_info_def packs_def slice_ok_def slice_bytes_def length_tlv_exact)
next
  case (Some s)
  have len: "length s < 4294967295" "unat (8 :: u32) \<le> length imei0" using assms Some by auto
  show ?thesis
  proof (cases "unhex (swap_pairs (bcd_pad s))")
    case None
    with Some show ?thesis by (simp add: imei_spec_def device_imei_def euicc_hexutil_gsmbcd2bin_eq [OF len])
  next
    case (Some bs)
    then have "length (bcd_pad s) div 2 = length bs" using length_unhex [OF Some] by simp
    with Some \<open>imei = Some s\<close> assms(1) show ?thesis
      by (auto simp: imei_spec_def device_imei_def euicc_hexutil_gsmbcd2bin_eq [OF len] device_info_def packs_def
          slice_ok_def slice_bytes_def length_tlv_exact Let_def)
  qed
qed

lemma ctx_params_rel:
  assumes "packs (tlv 0xA1 c) n" "length c \<le> 100" "\<And>m. matchingId = Some m \<Longrightarrow> length m < 0x30000000"
  shows "packs (tlv 0xA0 ((case matchingId of None \<Rightarrow> [] | Some m \<Rightarrow> tlv 0x80 m) @ tlv 0xA1 c)) (ctx_params1 matchingId n)"
    "length (tlv 0xA0 ((case matchingId of None \<Rightarrow> [] | Some m \<Rightarrow> tlv 0x80 m) @ tlv 0xA1 c)) < 0x30000080"
proof -
  have "length m < 0x30000000 \<Longrightarrow> length (tlv 0x80 m) < 0x30000007" for m using length_tlv(1) [of "0x80" m] by simp
  moreover have "length (tlv 0xA1 c) \<le> 107" by (intro length_tlv_le) (use assms(2) in simp)
  ultimately show l: "length (tlv 0xA0 ((case matchingId of None \<Rightarrow> [] | Some m \<Rightarrow> tlv 0x80 m) @ tlv 0xA1 c)) < 0x30000080"
    using assms(3) length_tlv(1) [of "0xA0" "(case matchingId of None \<Rightarrow> [] | Some m \<Rightarrow> tlv 0x80 m) @ tlv 0xA1 c"]
    by (cases matchingId) fastforce+
  with assms(1,3) show "packs (tlv 0xA0 ((case matchingId of None \<Rightarrow> [] | Some m \<Rightarrow> tlv 0x80 m) @ tlv 0xA1 c)) (ctx_params1 matchingId n)"
    by (cases matchingId) (auto simp: packs_def ctx_params1_def slice_ok_def slice_bytes_def strlen_def)
qed

lemma tid_copy:
  assumes "val_node tag t n"
  shows "memcpy (replicate (unat (n_length n)) 0) 0 (n_value n) (unat (n_length n)) = Ret t" "unat (n_length n) = length t"
proof -
  note n = val_node_facts [OF assms]
  show "unat (n_length n) = length t" using n(1,2) length_slice_bytes [of "n_value n" "n_length n"] by simp
  show "memcpy (replicate (unat (n_length n)) 0) 0 (n_value n) (unat (n_length n)) = Ret t"
    using n(1,2) by (auto simp: memcpy_def slice_ok_def slice_bytes_def)
qed

text \<open>The request and the transaction identifier, as the code has them.\<close>

definition packs_tid :: "byte list \<times> byte list \<Rightarrow> der_tree \<times> byte list \<times> u32 \<Rightarrow> bool" where
  "packs_tid = (\<lambda>(req, t) (n, tid, len). packs req n \<and> tid = t \<and> unat len = length t)"

lemma authenticate_tree_rel:
  assumes nodes: "val_node 0x30 x nx" "val_node 0x80 t nt" "val_node 0x5F37 y ny" "val_node 0x04 k nk" "val_node 0x30 z nz"
    and bound: "length x < 0x30000004" "length y < 0x30000004" "length k < 0x30000004" "length z < 0x30000004"
    and "length imei0 = 8" "\<And>m. matchingId = Some m \<Longrightarrow> length m < 0x30000000" "\<And>s. imei = Some s \<Longrightarrow> length s < 0x30000000"
  shows "res_rel packs_tid
    (Option.bind (imei_spec imei0 imei) (\<lambda>(tac, enc). Some (tlv 0xBF38 (tlv 0x30 x @ tlv 0x5F37 y @ tlv 0x04 k @ tlv 0x30 z @
       tlv 0xA0 ((case matchingId of None \<Rightarrow> [] | Some m \<Rightarrow> tlv 0x80 m) @ tlv 0xA1 (tlv 0x80 tac @ tlv 0xA1 [] @ enc))), t)))
    (cbind (memcpy (replicate (unat (n_length nt)) 0) 0 (n_value nt) (unat (n_length nt))) (\<lambda>transaction_id.
     cbind (device_imei imei0 imei) (\<lambda>(arr, imei_len).
     Ret (n_cons 0xBF38 [n_found nx, n_found ny, n_found nk, n_found nz, ctx_params1 matchingId (device_info arr imei_len)],
       transaction_id, n_length nt))))"
proof -
  have len: "length (tlv 0xBF38 (tlv 0x30 x @ tlv 0x5F37 y @ tlv 0x04 k @ tlv 0x30 z @ c)) < 4294967296"
    if "length c < 0x30000080" for c
    using that bound length_tlv(1) [of "0xBF38" "tlv 0x30 x @ tlv 0x5F37 y @ tlv 0x04 k @ tlv 0x30 z @ c"]
      length_tlv(1) [of "0x30" x] length_tlv(1) [of "0x5F37" y] length_tlv(1) [of "0x04" k] length_tlv(1) [of "0x30" z]
    by simp
  note facts = val_node_facts [OF nodes(1)] val_node_facts [OF nodes(3)] val_node_facts [OF nodes(4)] val_node_facts [OF nodes(5)]
  show ?thesis
    unfolding tid_copy(1) [OF nodes(2)] cbind.simps
  proof (rule res_rel_bind [OF imei_rel [OF assms(10,12)]], assumption, clarify)
    fix tac enc arr il
    assume d: "packs (tlv 0xA1 (tlv 0x80 tac @ tlv 0xA1 [] @ enc)) (device_info arr il)" and l: "length tac = 4" "length enc \<le> 15"
    have "length (tlv 0x80 tac @ tlv 0xA1 [] @ enc) \<le> 100" using l by (simp add: length_tlv_exact)
    note p = ctx_params_rel [OF d this assms(11)]
    then show "res_rel packs_tid
        (Some (tlv 0xBF38 (tlv 0x30 x @ tlv 0x5F37 y @ tlv 0x04 k @ tlv 0x30 z @
         tlv 0xA0 ((case matchingId of None \<Rightarrow> [] | Some m \<Rightarrow> tlv 0x80 m) @ tlv 0xA1 (tlv 0x80 tac @ tlv 0xA1 [] @ enc))), t))
        (Ret (n_cons 0xBF38 [n_found nx, n_found ny, n_found nk, n_found nz, ctx_params1 matchingId (device_info arr il)],
         t, n_length nt))"
      using facts tid_copy(2) [OF nodes(2)] len by (auto simp: packs_tid_def packs_def)
  qed
qed

lemma authenticate_request_rel:
  assumes "authenticate_small param matchingId imei" "length imei0 = 8"
  shows "res_rel packs_tid (authenticate_server_spec imei0 param matchingId imei)
    (authenticate_server_request imei0 param matchingId imei)"
proof -
  have len: "length (b64_serverSigned1 param) < 0x40000000" "length (b64_serverSignature1 param) < 0x40000000"
    "length (b64_euiccCiPKIdToBeUsed param) < 0x40000000" "length (b64_serverCertificate param) < 0x40000000"
    "\<And>m. matchingId = Some m \<Longrightarrow> length m < 0x30000000" "\<And>s. imei = Some s \<Longrightarrow> length s < 0x30000000"
    using assms(1) by (auto simp: authenticate_small_def)
  have bound: "length x < 0x30000004" if "tlv_val tag (b64_plain s) = Some x" "length s < 0x30000000" for tag s x
    using tlv_val_length [OF that(1)] length_b64_plain [of s] that(2) by simp
  let ?tree = "\<lambda>x t y k z. Option.bind (imei_spec imei0 imei) (\<lambda>(tac, enc).
      Some (tlv 0xBF38 (tlv 0x30 x @ tlv 0x5F37 y @ tlv 0x04 k @ tlv 0x30 z @
       tlv 0xA0 ((case matchingId of None \<Rightarrow> [] | Some m \<Rightarrow> tlv 0x80 m) @ tlv 0xA1 (tlv 0x80 tac @ tlv 0xA1 [] @ enc))), t))"
  have spec: "authenticate_server_spec imei0 param matchingId imei =
      Option.bind (Some (b64_plain (b64_serverSigned1 param))) (\<lambda>p.
      Option.bind (Some (b64_plain (b64_serverSignature1 param))) (\<lambda>q.
      Option.bind (Some (b64_plain (b64_euiccCiPKIdToBeUsed param))) (\<lambda>r.
      Option.bind (Some (b64_plain (b64_serverCertificate param))) (\<lambda>s.
      Option.bind (tlv_val 0x30 p) (\<lambda>x. Option.bind (tlv_val 0x80 x) (\<lambda>t. Option.bind (tlv_val 0x5F37 q) (\<lambda>y.
      Option.bind (tlv_val 0x04 r) (\<lambda>k. Option.bind (tlv_val 0x30 s) (\<lambda>z. ?tree x t y k z)))))))))"
    by (simp add: authenticate_server_spec_def)
  show ?thesis
    unfolding spec authenticate_server_request_def
    apply (rule res_rel_bind [OF decode_rel [OF len(1)]], clarify, rule res_rel_bind [OF decode_rel [OF len(2)]], clarify,
        rule res_rel_bind [OF decode_rel [OF len(3)]], clarify, rule res_rel_bind [OF decode_rel [OF len(4)]], clarify)
    apply (rule res_rel_bind [OF find_slice_rel], assumption)
    apply (rule res_rel_bind [OF find_in_rel], assumption)
    apply (rule res_rel_bind [OF find_slice_rel], assumption)+
    apply (rule authenticate_tree_rel [OF _ _ _ _ _ _ _ _ _ assms(2) len(5,6)], assumption+)
    using assms(1) by (simp_all add: authenticate_small_def bound)
qed

lemma authenticate_spec_imei:
  "(\<forall>s. imei = Some s \<longrightarrow> 7 \<le> length s) \<longrightarrow>
    authenticate_server_spec imei0 param matchingId imei = authenticate_server_spec imei1 param matchingId imei"
proof
  assume long: "\<forall>s. imei = Some s \<longrightarrow> 7 \<le> length s"
  have "4 \<le> length bs" if "imei = Some s" "unhex (swap_pairs (bcd_pad s)) = Some bs" for s bs
    using long that(1) length_unhex [OF that(2)] by (auto simp: length_bcd_pad)
  then have "imei_spec imei0 imei = imei_spec imei1 imei"
    by (auto simp: imei_spec_def split: option.split)
  then show "authenticate_server_spec imei0 param matchingId imei = authenticate_server_spec imei1 param matchingId imei"
    by (simp add: authenticate_server_spec_def)
qed

interpretation with_tid: es10_parser
  "\<lambda>respbuf resplen. cbind (b64_dup respbuf resplen) (\<lambda>b64. Ret (tid, len, b64))" "\<lambda>_. True"
  "\<lambda>resp. Some (tid, len, b64_enc resp)" for tid :: "byte list" and len :: u32
  by unfold_locales (simp add: b64_dup_eq)

text \<open>
  C29. Authenticating the server. \<open>es10b_authenticate_server\<close> sends exactly the request
  \<open>authenticate_server_spec\<close> describes: what the server signed, the matching identifier if there is one, and
  the device with its IMEI; it keeps the transaction identifier the server signed, with its length, and the
  card's answer. Where an element is missing or the IMEI is not one, nothing is exchanged and the session has
  no transaction identifier. The type allocation code is independent of what the uninitialised array held
  when no IMEI is given or one of at least seven digits.
\<close>

theorem es10b_authenticate_server_step:
  assumes "small_answers iface" "wf_ctx ctx" "es10x_mss ctx \<noteq> 0"
    and "authenticate_server_param (http_internal ctx) = Some param"
    and "b64_authenticate_server_response (http_internal ctx) = None"
    and "authenticate_small param matchingId imei" "length imei0 = 8"
  shows "(case authenticate_server_spec imei0 param matchingId imei of
      None \<Rightarrow> es10b_authenticate_server iface imei0 matchingId imei (ctx, d) =
        Some (Fail, upd_http (\<lambda>h. h\<lparr>transaction_id_bin := None, transaction_id_bin_len := 0\<rparr>) (ctx, d))
    | Some (req, tid) \<Rightarrow> \<forall>resp d'. card_gives iface ctx req d resp d' \<and> length resp < 0x40000000 \<longrightarrow>
        (\<exists>ctx'. es10b_authenticate_server iface imei0 matchingId imei (ctx, d) =
            Some (Ret (), upd_http (\<lambda>h. h\<lparr>transaction_id_bin := Some tid, transaction_id_bin_len := of_nat (length tid),
              b64_authenticate_server_response := Some (b64_enc resp), authenticate_server_param := None\<rparr>) (ctx', d')) \<and>
          same_session ctx ctx')) \<and>
    ((\<forall>s. imei = Some s \<longrightarrow> 7 \<le> length s) \<longrightarrow>
      authenticate_server_spec imei0 param matchingId imei = authenticate_server_spec imei1 param matchingId imei)"
proof (cases rule: res_rel_cases [OF authenticate_request_rel [OF assms(6,7)], case_names none some])
  case none
  have "http_internal ctx\<lparr>transaction_id_bin := None, transaction_id_bin_len := 0, b64_authenticate_server_response := None\<rparr> =
      http_internal ctx\<lparr>transaction_id_bin := None, transaction_id_bin_len := 0\<rparr>"
    using assms(5) by (cases "http_internal ctx") simp
  with none authenticate_spec_imei [of imei imei0 param matchingId imei1] show ?thesis
    using assms(4,5) by (simp add: es10b_authenticate_server_def es10b_authenticate_server_r_def upd_http_def)
next
  case (some rt ntl)
  obtain req tid n len where s: "rt = (req, tid)" "ntl = (n, tid, len)" "packs req n" "of_nat (length tid) = len"
    using some(3) by (auto simp: packs_tid_def) (metis of_nat_unat ucast_id)
  have "\<exists>ctx'. es10b_authenticate_server iface imei0 matchingId imei (ctx, d) =
            Some (Ret (), upd_http (\<lambda>h. h\<lparr>transaction_id_bin := Some tid, transaction_id_bin_len := len,
              b64_authenticate_server_response := Some (b64_enc resp), authenticate_server_param := None\<rparr>) (ctx', d')) \<and>
          same_session ctx ctx'"
    if "card_gives iface ctx req d resp d'" "length resp < 0x40000000" for resp d'
    using with_tid.request_alloc_spec [OF assms(1-3), of n d resp d' tid len] that some(2) s assms(4,5)
    by (auto simp: packs_def es10b_authenticate_server_def es10b_authenticate_server_r_def)
  with some(1) s authenticate_spec_imei [of imei imei0 param matchingId imei1] show ?thesis by simp
qed

definition demo_authenticate :: es10b_authenticate_server_param where
  "demo_authenticate = \<lparr>b64_serverSigned1 = b64_enc (tlv 0x30 (tlv 0x80 [1, 2])), b64_serverSignature1 = b64_enc (tlv 0x5F37 [3]),
     b64_euiccCiPKIdToBeUsed = b64_enc (tlv 0x04 [5]), b64_serverCertificate = b64_enc (tlv 0x30 [4])\<rparr>"

lemma demo_authenticate_spec:
  "authenticate_small demo_authenticate (Some (cstr ''A'')) (Some (cstr ''356938035643809''))"
  "authenticate_server_spec imei0 demo_authenticate (Some (cstr ''A'')) (Some (cstr ''356938035643809'')) =
    Some (tlv 0xBF38 (tlv 0x30 (tlv 0x80 [1, 2]) @ tlv 0x5F37 [3] @ tlv 0x04 [5] @ tlv 0x30 [4] @
      tlv 0xA0 (tlv 0x80 (cstr ''A'') @ tlv 0xA1 (tlv 0x80 [0x53, 0x96, 0x83, 0x30] @ tlv 0xA1 [] @
        tlv 0x82 [0x53, 0x96, 0x83, 0x30, 0x65, 0x34, 0x08, 0xF9]))), [1, 2])"
proof -
  have "unhex (swap_pairs (bcd_pad (cstr ''356938035643809''))) = Some [0x53, 0x96, 0x83, 0x30, 0x65, 0x34, 0x08, 0xF9]"
    by code_simp
  then show "authenticate_server_spec imei0 demo_authenticate (Some (cstr ''A'')) (Some (cstr ''356938035643809'')) =
    Some (tlv 0xBF38 (tlv 0x30 (tlv 0x80 [1, 2]) @ tlv 0x5F37 [3] @ tlv 0x04 [5] @ tlv 0x30 [4] @
      tlv 0xA0 (tlv 0x80 (cstr ''A'') @ tlv 0xA1 (tlv 0x80 [0x53, 0x96, 0x83, 0x30] @ tlv 0xA1 [] @
        tlv 0x82 [0x53, 0x96, 0x83, 0x30, 0x65, 0x34, 0x08, 0xF9]))), [1, 2])"
    by (simp add: authenticate_server_spec_def demo_authenticate_def b64_plain_enc tag_wf_def length_tlv_exact imei_spec_def)
  show "authenticate_small demo_authenticate (Some (cstr ''A'')) (Some (cstr ''356938035643809''))"
    using length_b64_enc [of "tlv 0x30 (tlv 0x80 [1, 2])"] length_b64_enc [of "tlv 0x5F37 [3]"]
      length_b64_enc [of "tlv 0x04 [5]"] length_b64_enc [of "tlv 0x30 [4]"]
    by (simp add: authenticate_small_def demo_authenticate_def length_tlv_exact cstr_def euicc_base64_encode_len_def)
qed

theorem es10b_authenticate_server_step_witness:
  "\<exists>ctx'. es10b_authenticate_server script_card (replicate 8 0) (Some (cstr ''A'')) (Some (cstr ''356938035643809''))
      (with_http (http_internal_zero\<lparr>authenticate_server_param := Some demo_authenticate\<rparr>), [[0xBF, 0x38, 0x00, 0x90, 0x00]]) =
    Some (Ret (), upd_http (\<lambda>h. h\<lparr>transaction_id_bin := Some [1, 2], transaction_id_bin_len := 2,
      b64_authenticate_server_response := Some (b64_enc [0xBF, 0x38, 0x00]), authenticate_server_param := None\<rparr>) (ctx', []))"
proof -
  let ?ctx = "with_http (http_internal_zero\<lparr>authenticate_server_param := Some demo_authenticate\<rparr>)"
  obtain req where asp: "authenticate_server_spec (replicate 8 0) demo_authenticate (Some (cstr ''A''))
      (Some (cstr ''356938035643809'')) = Some (req, [1, 2])" and req: "req \<noteq> []" "length req \<le> 120"
    by (rule that [OF demo_authenticate_spec(2)]) (simp_all add: length_tlv_exact cstr_def)
  have "card_gives script_card ?ctx req [[0xBF, 0x38, 0x00] @ [0x90, 0x00]] [0xBF, 0x38, 0x00] []"
    unfolding with_http_simps by (rule script_gives [OF req]) simp
  with es10b_authenticate_server_step [OF script_card_small, of ?ctx demo_authenticate "Some (cstr ''A'')"
      "Some (cstr ''356938035643809'')" "replicate 8 0" "[[0xBF, 0x38, 0x00, 0x90, 0x00]]" "[]"]
  show ?thesis
    by (simp add: demo_authenticate_spec(1) asp http_internal_zero_def)
      (drule conjunct1, drule spec [of _ "[0xBF, 0x38, 0x00]"], drule spec [of _ "[]"], auto)
qed

end
