(* ===== verification/Es9p_Props.thy ===== *)
theory Es9p_Props
  imports Es9p Es10_Answers
begin

text \<open>
  The properties of \<open>euicc/es9p.c\<close>: the status arrays keep their shape, no answer of the server leads
  outside memory, and what a well-formed answer puts into the session.
\<close>

subsection \<open>Strings\<close>

lemma trim_from_eq: "trim_from i s = take i s @ filter (\<lambda>c. \<not> is_blank c) (drop i s)"
proof (induction i s rule: trim_from.induct)
  case (1 i s)
  show ?case
  proof (cases "i < length s")
    case True
    then have split: "drop i s = s ! i # drop (Suc i) s" by (simp add: Cons_nth_drop_Suc)
    show ?thesis
      using True 1 split by (simp add: trim_from.simps [of i s] take_Suc_conv_app_nth)
  qed (simp add: trim_from.simps [of i s])
qed

lemma es9p_base64_trim_eq: "es9p_base64_trim s = filter (\<lambda>c. \<not> is_blank c) s"
  by (simp add: es9p_base64_trim_def trim_from_eq)

lemma strncpy_eq:
  "length dst = n \<Longrightarrow> length src < n \<Longrightarrow> strncpy dst src n = Ret (src @ replicate (n - length src) 0)"
  by (simp add: strncpy_def)

lemma snprintf_eq:
  "length dst = n \<Longrightarrow> 0 < n \<Longrightarrow> \<exists>b. snprintf dst n t = Ret b \<and> length b = n \<and> 0 \<in> set b"
  by (simp add: snprintf_def Let_def)

subsection \<open>The status arrays\<close>

text \<open>Each array has its size and holds a terminated string.\<close>

definition array_wf :: "nat \<Rightarrow> cbuf \<Rightarrow> bool" where
  "array_wf n b \<longleftrightarrow> length b = n \<and> 0 \<in> set b"

definition status_wf :: "euicc_http_status \<Rightarrow> bool" where
  "status_wf s \<longleftrightarrow> array_wf 9 (subjectCode s) \<and> array_wf 9 (reasonCode s) \<and>
     array_wf 129 (subjectIdentifier s) \<and> array_wf 129 (status_message s)"

lemma strncpy_wf: "array_wf n dst \<Longrightarrow> length src < n \<Longrightarrow> \<exists>b. strncpy dst src n = Ret b \<and> array_wf n b"
  by (auto simp: array_wf_def strncpy_eq)

lemma snprintf_wf: "array_wf n dst \<Longrightarrow> 0 < n \<Longrightarrow> \<exists>b. snprintf dst n t = Ret b \<and> array_wf n b"
  using snprintf_eq [of dst n t] by (auto simp: array_wf_def)

lemma copy_json_str_wf: "array_wf n dst \<Longrightarrow> 0 < n \<Longrightarrow> \<exists>b. copy_json_str J obj k n dst = Ret b \<and> array_wf n b"
  using snprintf_wf by (auto simp: copy_json_str_def split: option.split)

text \<open>\<open>yields r P\<close>: the function returns, with a result that satisfies \<open>P\<close>.\<close>

definition yields :: "'a cres \<Rightarrow> ('a \<Rightarrow> bool) \<Rightarrow> bool" where
  "yields r P \<longleftrightarrow> (\<exists>a. r = Ret a \<and> P a)"

lemma yields_Ret [simp]: "yields (Ret a) P = P a"
  by (simp add: yields_def)

lemma yields_bind: "yields r P \<Longrightarrow> (\<And>a. P a \<Longrightarrow> yields (f a) Q) \<Longrightarrow> yields (cbind r f) Q"
  by (auto simp: yields_def)

lemmas yields_copy =
  yields_bind [OF strncpy_wf [folded yields_def]] yields_bind [OF snprintf_wf [folded yields_def]]
  yields_bind [OF copy_json_str_wf [folded yields_def]]

lemma put_status_wf:
  assumes "status_wf s" "length identifier < 129" "length message < 129"
  shows "yields (put_status identifier message s) status_wf"
  unfolding put_status_def using assms
  by (intro yields_copy) (auto simp: status_wf_def cstr_def)

lemma put_status_rcode_wf: "status_wf s \<Longrightarrow> yields (put_status_rcode rcode s) status_wf"
  unfolding put_status_rcode_def by (intro yields_copy) (auto simp: status_wf_def cstr_def)

lemma array_str_wf: "array_wf n b \<Longrightarrow> array_str b = Ret (cstr_of b)"
  by (simp add: array_str_def array_wf_def)

lemma status_code_data_wf:
  assumes "status_wf s"
  shows "yields (status_code_data J obj s) status_wf"
  unfolding status_code_data_def
proof (intro yields_copy)
  fix rc sc si
  assume wf: "array_wf 9 rc" "array_wf 9 sc" "array_wf 129 si"
  have m: "array_wf 129 (status_message s)" using assms by (simp add: status_wf_def)
  have "yields (case json_str J obj (cstr ''message'') of
              Some v \<Rightarrow> snprintf (status_message s) 129 v
            | None \<Rightarrow>
                cbind (array_str sc) (\<lambda>subject. cbind (array_str rc) (\<lambda>reason.
                case es9p_error_message subject reason of
                  Some message \<Rightarrow> snprintf (status_message s) 129 message
                | None \<Rightarrow> snprintf (status_message s) 129
                    (cstr ''subject-code: '' @ subject @ cstr '', reason-code: '' @ reason)))) (array_wf 129)"
    using snprintf_wf [OF m] by (auto simp: yields_def array_str_wf [OF wf(1)] array_str_wf [OF wf(2)] split: option.split)
  then show "yields (cbind (case json_str J obj (cstr ''message'') of
              Some v \<Rightarrow> snprintf (status_message s) 129 v
            | None \<Rightarrow>
                cbind (array_str sc) (\<lambda>subject. cbind (array_str rc) (\<lambda>reason.
                case es9p_error_message subject reason of
                  Some message \<Rightarrow> snprintf (status_message s) 129 message
                | None \<Rightarrow> snprintf (status_message s) 129
                    (cstr ''subject-code: '' @ subject @ cstr '', reason-code: '' @ reason))))
        (\<lambda>m. Ret (s\<lparr>reasonCode := rc, subjectCode := sc, subjectIdentifier := si, status_message := m\<rparr>))) status_wf"
    by (rule yields_bind) (use wf in \<open>simp add: status_wf_def\<close>)
qed (use assms in \<open>simp_all add: status_wf_def\<close>)

subsection \<open>A call never leaves its memory\<close>

text \<open>What the code relies on of a driver: the answer has the length it says, and that is not the largest number.\<close>

definition http_safe :: "'h euicc_http_interface \<Rightarrow> bool" where
  "http_safe iface \<longleftrightarrow> (\<forall>u b n hs h. case fst (http_transmit iface u b n hs h) of None \<Rightarrow> True
     | Some (rcode, rbuf, rlen) \<Rightarrow> unat rlen \<le> length rbuf \<and> unat rlen \<noteq> 0xFFFFFFFF)"

lemma cstr_of_NUL: "cstr_of (s @ [0]) = cstr_of s"
  by (induction s) (simp_all add: cstr_of_def)

lemma trans_ex_answer:
  assumes "unat rlen \<le> length rbuf" "unat (rlen :: u32) \<noteq> 0xFFFFFFFF"
  shows "cbind (memcpy (replicate (unat (rlen + 1)) 0) 0 rbuf (unat rlen)) (\<lambda>str_rx.
      cbind (cstore str_rx (unat rlen) 0) (\<lambda>str_rx. Ret (rcode, cstr_of str_rx))) =
    Ret (rcode, cstr_of (take (unat rlen) rbuf))"
proof -
  have "unat (rlen + 1) = Suc (unat rlen)"
    using assms(2) unsigned_less [of rlen, where ?'a = nat] by (subst unat_plus_u32) auto
  moreover from this have "replicate (unat (rlen + 1)) (0 :: byte) = replicate (unat rlen) 0 @ [0]"
    by (simp add: replicate_append_same)
  moreover have "(take (unat rlen) rbuf @ [0])[unat rlen := 0] = take (unat rlen) rbuf @ [0]"
    using assms(1) by (simp add: list_update_append)
  ultimately show ?thesis
    using assms(1) by (simp add: memcpy_def cstore_def cstr_of_NUL)
qed

lemma trans_ex_defined:
  assumes "\<And>i. http = Some i \<Longrightarrow> http_safe i \<and> smdp \<noteq> None"
  shows "fst (es9p_trans_ex http smdp api tx h) \<noteq> UB"
proof (cases http)
  case (Some i)
  with assms obtain u where safe: "http_safe i" and u: "smdp = Some u" by auto
  show ?thesis
  proof (cases "http_transmit i (cstr ''https://'' @ u @ api) tx (strlen tx) lpa_header h")
    case (Pair a h')
    have "case a of None \<Rightarrow> True | Some (rcode, rbuf, rlen) \<Rightarrow> unat rlen \<le> length rbuf \<and> unat rlen \<noteq> 0xFFFFFFFF"
      using safe [unfolded http_safe_def, rule_format, of "cstr ''https://'' @ u @ api" tx "strlen tx" lpa_header h] Pair by simp
    with Some u Pair show ?thesis
      by (auto simp: es9p_trans_ex_def trans_ex_answer split: option.splits)
  qed
qed (simp add: es9p_trans_ex_def)

definition outs_match :: "(cstr \<times> bool) list \<Rightarrow> 'j jval list \<Rightarrow> bool" where
  "outs_match = list_all2 (\<lambda>(k, oobj) v. oobj \<or> (\<exists>s. v = JStr s))"

lemma map_prod_id_eq: "map_prod id f p = (a, b) \<longleftrightarrow> (\<exists>c. p = (a, c) \<and> b = f c)"
  by (cases p) auto

lemma json_outputs_match: "json_outputs J root keys = (True, outs) \<Longrightarrow> outs_match keys outs"
  by (induction keys arbitrary: outs) (auto simp: outs_match_def map_prod_id_eq split: option.splits if_splits)

lemma outs_match_Nil [simp]: "outs_match [] outs \<longleftrightarrow> outs = []"
  by (simp add: outs_match_def)

lemma outs_match_Cons [simp]: "outs_match ((k, False) # ks) outs \<longleftrightarrow> (\<exists>s vs. outs = JStr s # vs \<and> outs_match ks vs)"
  by (auto simp: outs_match_def list_all2_Cons1)

definition okeys :: "(cstr \<times> bool) list option \<Rightarrow> (cstr \<times> bool) list" where
  "okeys okey = (case okey of None \<Rightarrow> [] | Some ks \<Rightarrow> ks)"

lemma trans_reply_wf:
  fixes J :: "'j cjson"
  assumes "status_wf s"
  shows "yields (trans_reply J okey rcode rbuf s) (\<lambda>((ok, outs), s'). status_wf s' \<and> (ok \<longrightarrow> outs_match (okeys okey) outs))"
proof -
  have err: "yields (cbind (put_status i m s) (\<lambda>s. Ret ((False, []), s))) (\<lambda>((ok, outs), s'). status_wf s' \<and> (ok \<longrightarrow> P outs))"
    if "length i < 129" "length m < 129" for i m and P :: "'j jval list \<Rightarrow> bool"
    by (rule yields_bind [OF put_status_wf [OF assms that]]) simp
  have rc: "yields (cbind (put_status_rcode rcode s) (\<lambda>s. Ret ((False, []), s))) (\<lambda>((ok, outs), s'). status_wf s' \<and> (ok \<longrightarrow> P outs))"
    for P :: "'j jval list \<Rightarrow> bool"
    by (rule yields_bind [OF put_status_rcode_wf [OF assms]]) simp
  have fin: "yields (cbind m (\<lambda>s. Ret (json_outputs J root keys, s)))
      (\<lambda>((ok, outs), s'). status_wf s' \<and> (ok \<longrightarrow> outs_match keys outs))"
    if "yields m status_wf" for m root keys
    by (rule yields_bind [OF that]) (auto dest: json_outputs_match split: prod.splits)
  show ?thesis
    using status_code_data_wf [OF assms] assms
    by (auto simp: trans_reply_def Let_def okeys_def cstr_def dest: json_outputs_match [OF sym] intro!: err rc fin split: option.split)
qed

lemma trans_json_yields:
  assumes "status_wf (http_status ctx)" "\<And>i. http = Some i \<Longrightarrow> http_safe i \<and> smdp \<noteq> None"
  obtains ok outs s h' where "es9p_trans_json J http smdp api idata okey (ctx, h) = (Ret (ok, outs), ctx\<lparr>http_status := s\<rparr>, h')"
    "status_wf s" "ok \<Longrightarrow> outs_match (okeys okey) outs"
proof -
  obtain s where s: "put_status (cstr ''unknown'') (cstr ''unknown'') (http_status ctx) = Ret s" "status_wf s"
    using put_status_wf [OF assms(1), of "cstr ''unknown''" "cstr ''unknown''"] by (auto simp: yields_def cstr_def)
  obtain r h' where ex: "es9p_trans_ex http smdp api (cJSON_Print J idata) h = (r, h')" by (cases "es9p_trans_ex http smdp api (cJSON_Print J idata) h")
  have "r \<noteq> UB"
    using trans_ex_defined [OF assms(2), where http = http and api = api and tx = "cJSON_Print J idata" and h = h] ex by simp
  then have "yields (case r of UB \<Rightarrow> UB
       | Fail \<Rightarrow> cbind (put_status (cstr ''unknown'') (cstr ''HTTP transport failed'') s) (\<lambda>s. Ret ((False, []), s))
       | Ret (rcode, rbuf) \<Rightarrow> trans_reply J okey rcode rbuf s)
     (\<lambda>((ok, outs), s'). status_wf s' \<and> (ok \<longrightarrow> outs_match (okeys okey) outs))"
    using trans_reply_wf [OF s(2)]
    by (cases r) (auto simp: cstr_def intro!: yields_bind [OF put_status_wf [OF s(2)]])
  then show ?thesis
    using that by (auto simp: es9p_trans_json_def s(1) ex yields_def)
qed

text \<open>What a call leaves of the context: the card's part is untouched, the status arrays keep their shape.\<close>

definition keeps_card :: "'h hst \<Rightarrow> 'a cres \<times> 'h hst \<Rightarrow> bool" where
  "keeps_card st = (\<lambda>(r, st'). r \<noteq> UB \<and> (\<exists>s i. fst st' = (fst st)\<lparr>http_status := s, http_internal := i\<rparr> \<and> status_wf s))"

definition es9p_ready :: "'h euicc_http_interface option \<Rightarrow> euicc_ctx \<Rightarrow> bool" where
  "es9p_ready http ctx \<longleftrightarrow> status_wf (http_status ctx) \<and> (\<forall>i. http = Some i \<longrightarrow> http_safe i \<and> server_address ctx \<noteq> None)"

lemma ready_trans:
  assumes "es9p_ready http ctx"
  obtains ok outs s h' where
    "es9p_trans_json J http (server_address ctx) api idata okey (ctx, h) = (Ret (ok, outs), ctx\<lparr>http_status := s\<rparr>, h')"
    "status_wf s" "ok \<Longrightarrow> outs_match (okeys okey) outs"
proof (rule trans_json_yields [of ctx http "server_address ctx" J api idata okey h])
  show "status_wf (http_status ctx)" "\<And>i. http = Some i \<Longrightarrow> http_safe i \<and> server_address ctx \<noteq> None"
    using assms by (auto simp: es9p_ready_def)
qed (use that in blast)

lemma keeps_card_refl: "status_wf (http_status ctx) \<Longrightarrow> keeps_card (ctx, h) (Fail, ctx, h)"
  by (auto simp: keeps_card_def intro!: exI [of _ "http_status ctx"] exI [of _ "http_internal ctx"])

lemma keeps_card_upd:
  "status_wf s \<Longrightarrow> r \<noteq> UB \<Longrightarrow> keeps_card (ctx, h) (r, upd_http f (ctx\<lparr>http_status := s\<rparr>, h'))"
  "status_wf s \<Longrightarrow> r \<noteq> UB \<Longrightarrow> keeps_card (ctx, h) (r, ctx\<lparr>http_status := s\<rparr>, h')"
  by (auto simp: keeps_card_def upd_http_def intro!: exI [of _ s])
    (rule exI [of _ "http_internal ctx"], cases ctx, simp)

lemma upd_http_upd [simp]: "upd_http f (upd_http g st) = upd_http (\<lambda>h. f (g h)) st"
  by (simp add: upd_http_def)

lemma ready_trans_eq:
  assumes "es9p_ready http ctx" "es9p_trans_json J http (server_address ctx) api idata okey (ctx, h) = (r, st')"
  shows "\<exists>ok outs s h'. r = Ret (ok, outs) \<and> st' = (ctx\<lparr>http_status := s\<rparr>, h') \<and> status_wf s \<and> (ok \<longrightarrow> outs_match (okeys okey) outs)"
  by (rule ready_trans [OF assms(1), of J api idata okey h]) (use assms(2) in auto)

lemmas es9p_call_defs = es9p_initiate_authentication_def es9p_initiate_authentication_r_def
  es9p_get_bound_profile_package_def es9p_get_bound_profile_package_r_def es9p_authenticate_client_def
  es9p_authenticate_client_r_def es9p_cancel_session_def es9p_cancel_session_r_def es9p_handle_notification_def

text \<open>
  C30. No answer of the server leads outside memory. With a driver that tells the length of its answer truly
  (and the address of a server set), every function of the download session that talks to the server
  returns or fails, for any JSON library and any answer: the copy of the answer, the four status arrays
  (of 9, 9, 129 and 129 bytes, filled with \<open>strncpy\<close> and \<open>snprintf\<close>, and read back for the message) and the
  fields stored through pointers of the caller are in bounds. The arrays still hold terminated strings, and
  the card's part of the context is unchanged.
\<close>

theorem es9p_calls_defined:
  assumes "es9p_ready http ctx"
    and "f \<in> {es9p_initiate_authentication J http, es9p_authenticate_client J http, es9p_get_bound_profile_package J http,
      es9p_cancel_session J http, es9p_handle_notification J http b64_notification}"
  shows "keeps_card (ctx, h) (f (ctx, h))"
proof -
  note ready = assms(1)
  have wf: "status_wf (http_status ctx)" using ready by (simp add: es9p_ready_def)
  note run = es9p_call_defs okeys_def keeps_card_upd keeps_card_refl [OF wf] Let_def
  note call = ready_trans_eq [OF ready, where J = J and h = h]
  have "keeps_card (ctx, h) (es9p_initiate_authentication J http (ctx, h))"
    by (auto simp: run dest!: call split: prod.split cres.split bool.split list.split jval.split option.split)
  moreover have "keeps_card (ctx, h) (es9p_authenticate_client J http (ctx, h))"
    by (auto simp: run dest!: call split: prod.split cres.split bool.split list.split jval.split option.split)
  moreover have "keeps_card (ctx, h) (es9p_get_bound_profile_package J http (ctx, h))"
    by (auto simp: run dest!: call split: prod.split cres.split bool.split list.split jval.split option.split)
  moreover have "keeps_card (ctx, h) (es9p_cancel_session J http (ctx, h))"
    by (auto simp: run dest!: call split: prod.split cres.split bool.split list.split jval.split option.split)
  moreover have "keeps_card (ctx, h) (es9p_handle_notification J http b64_notification (ctx, h))"
    by (auto simp: run dest!: call split: prod.split cres.split bool.split list.split jval.split option.split)
  ultimately show ?thesis using assms(2) by auto
qed

text \<open>A scripted server, and JSON values that are given instead of parsed, for the examples.\<close>

datatype demo_json = DStr cstr | DObj "(cstr \<times> demo_json) list"

definition demo_cjson :: "demo_json \<Rightarrow> demo_json cjson" where
  "demo_cjson root = \<lparr>cJSON_Parse = \<lambda>s. if s = [] then None else Some root,
     cJSON_IsObject = \<lambda>j. (case j of DObj _ \<Rightarrow> True | _ \<Rightarrow> False),
     cJSON_GetObjectItem = \<lambda>j k. (case j of DObj m \<Rightarrow> map_of m k | _ \<Rightarrow> None),
     cJSON_String = \<lambda>j. (case j of DStr s \<Rightarrow> Some s | _ \<Rightarrow> None),
     cJSON_IsArray = \<lambda>_. False, cJSON_GetArraySize = \<lambda>_. 0, cJSON_GetArrayItem = \<lambda>_ _. None,
     cJSON_Print = \<lambda>m. concat (map fst m)\<rparr>"

definition demo_http :: "(u32 \<times> byte list) list euicc_http_interface" where
  "demo_http = \<lparr>http_transmit = \<lambda>u b n hs h. (case h of [] \<Rightarrow> (None, [])
     | (code, x) # rest \<Rightarrow> if length x < 0xFFFFFFFF then (Some (code, x, of_nat (length x)), rest) else (None, rest))\<rparr>"

lemma demo_http_safe: "http_safe demo_http"
  by (auto simp: http_safe_def demo_http_def split: list.splits if_splits)

definition demo_session :: "euicc_http_internal \<Rightarrow> euicc_ctx" where
  "demo_session i = demo_ctx\<lparr>server_address := Some (cstr ''smdp''), http_internal := i\<rparr>"

lemma demo_session_ready:
  "es9p_ready (Some demo_http) (demo_session i)" "server_address (demo_session i) = Some (cstr ''smdp'')"
  "http_internal (demo_session i) = i" "status_wf (http_status (demo_session i))"
  using demo_http_safe
  by (simp_all add: es9p_ready_def status_wf_def array_wf_def demo_session_def demo_ctx_def script_ctx_def)

theorem es9p_calls_defined_witness:
  "keeps_card (demo_session http_internal_zero, [(500, [])])
    (es9p_handle_notification (demo_cjson (DStr [])) (Some demo_http) (Some (cstr ''AA=='')) (demo_session http_internal_zero, [(500, [])]))"
  using es9p_calls_defined [OF demo_session_ready(1),
      of "es9p_handle_notification (demo_cjson (DStr [])) (Some demo_http) (Some (cstr ''AA==''))" "demo_cjson (DStr [])"
        "Some (cstr ''AA=='')" http_internal_zero "[(500, [])]"]
  by blast

subsection \<open>What a well-formed answer puts into the session\<close>

text \<open>The answer as JSON, if it has the parts the code insists on.\<close>

definition reply_root :: "'j cjson \<Rightarrow> cstr \<Rightarrow> 'j option" where
  "reply_root J rbuf = do {
     root \<leftarrow> cJSON_Parse J rbuf;
     (if cJSON_IsObject J root then Some () else None);
     header \<leftarrow> cJSON_GetObjectItem J root (cstr ''header'');
     status \<leftarrow> cJSON_GetObjectItem J header (cstr ''functionExecutionStatus'');
     Some root }"

lemma json_outputs_strings:
  "case those (map (json_str J root) ks) of
     None \<Rightarrow> \<exists>outs. json_outputs J root (map (\<lambda>k. (k, False)) ks) = (False, outs) \<and> (\<forall>v \<in> set outs. \<exists>s. v = JStr s)
   | Some vs \<Rightarrow> json_outputs J root (map (\<lambda>k. (k, False)) ks) = (True, map JStr vs)"
proof (induction ks)
  case (Cons k ks)
  then show ?case
    by (cases "those (map (json_str J root) ks)") (auto simp: json_str_def map_prod_id_eq split: option.splits)
qed simp

lemma trans_reply_fields:
  assumes "status_wf s" "rcode div 100 = 2" "reply_root J rbuf = Some root"
  shows "\<exists>s'. trans_reply J (Some keys) rcode rbuf s = Ret (json_outputs J root keys, s') \<and> status_wf s'"
  using assms status_code_data_wf [OF assms(1), of J]
  by (auto simp: trans_reply_def reply_root_def Let_def yields_def bind_eq_Some_conv split: option.splits if_splits)
    (metis cbind.simps(1))

lemma trans_json_fields:
  fixes i :: "'h euicc_http_interface"
  assumes "status_wf (http_status ctx)" "http_safe i"
    and "http_transmit i (cstr ''https://'' @ a @ api) (cJSON_Print J idata) (strlen (cJSON_Print J idata)) lpa_header h =
      (Some (rcode, rbuf, rlen), h')"
    and "rcode div 100 = 2" "reply_root J (cstr_of (take (unat rlen) rbuf)) = Some root"
  shows "\<exists>s'. es9p_trans_json J (Some i) (Some a) api idata (Some keys) (ctx, h) =
    (Ret (json_outputs J root keys), ctx\<lparr>http_status := s'\<rparr>, h') \<and> status_wf s'"
proof -
  obtain s where s: "put_status (cstr ''unknown'') (cstr ''unknown'') (http_status ctx) = Ret s" "status_wf s"
    using put_status_wf [OF assms(1), of "cstr ''unknown''" "cstr ''unknown''"] by (auto simp: yields_def cstr_def)
  have "unat rlen \<le> length rbuf \<and> unat rlen \<noteq> 0xFFFFFFFF"
    using assms(2) [unfolded http_safe_def, rule_format, of "cstr ''https://'' @ a @ api" "cJSON_Print J idata"
        "strlen (cJSON_Print J idata)" lpa_header h] assms(3) by simp
  then have "es9p_trans_ex (Some i) (Some a) api (cJSON_Print J idata) h = (Ret (rcode, cstr_of (take (unat rlen) rbuf)), h')"
    using assms(3) by (simp add: es9p_trans_ex_def trans_ex_answer)
  with trans_reply_fields [OF s(2) assms(4,5), of keys] s(1) show ?thesis
    by (auto simp: es9p_trans_json_def)
qed

text \<open>
  Starting the authentication. \<open>es9p_initiate_authentication\<close> posts the address, the challenge and the card's
  information to the server; when a 2xx answer is a JSON object with the execution status, and the five fields
  are strings, the transaction identifier and the four base64 strings, without their blanks, are in the session
  and the challenge is used up. When one of the fields is missing or not a string it fails: nothing but,
  possibly, the transaction identifier has changed, and the challenge is still there.
\<close>

theorem es9p_initiate_authentication_returns:
  fixes i :: "'h euicc_http_interface" and J :: "'j cjson"
  defines "body \<equiv> \<lambda>a c info. cJSON_Print J [(cstr ''smdpAddress'', Some a), (cstr ''euiccChallenge'', Some c), (cstr ''euiccInfo1'', Some info)]"
  assumes "status_wf (http_status ctx)" "http_safe i" "server_address ctx = Some a"
    and "authenticate_server_param (http_internal ctx) = None"
    and "b64_euicc_challenge (http_internal ctx) = Some c" "b64_euicc_info_1 (http_internal ctx) = Some info"
    and "http_transmit i (cstr ''https://'' @ a @ cstr ''/gsma/rsp2/es9plus/initiateAuthentication'') (body a c info)
      (strlen (body a c info)) lpa_header h = (Some (rcode, rbuf, rlen), h')"
    and "rcode div 100 = 2" "reply_root J (cstr_of (take (unat rlen) rbuf)) = Some root"
  shows "\<exists>s. status_wf s \<and>
    (case those (map (json_str J root) [cstr ''transactionId'', cstr ''serverSigned1'', cstr ''serverSignature1'',
        cstr ''euiccCiPKIdToBeUsed'', cstr ''serverCertificate'']) of
       Some [t, signed1, signature1, ciPKId, certificate] \<Rightarrow>
         es9p_initiate_authentication J (Some i) (ctx, h) =
           (Ret (), upd_http (\<lambda>x. x\<lparr>transaction_id_http := Some t, authenticate_server_param := Some \<lparr>b64_serverSigned1 = filter (\<lambda>c. \<not> is_blank c) signed1,
                b64_serverSignature1 = filter (\<lambda>c. \<not> is_blank c) signature1,
                b64_euiccCiPKIdToBeUsed = filter (\<lambda>c. \<not> is_blank c) ciPKId,
                b64_serverCertificate = filter (\<lambda>c. \<not> is_blank c) certificate\<rparr>,
                b64_euicc_challenge := None, b64_euicc_info_1 := None\<rparr>) (ctx\<lparr>http_status := s\<rparr>, h'))
     | _ \<Rightarrow> \<exists>t. es9p_initiate_authentication J (Some i) (ctx, h) =
           (Fail, upd_http (\<lambda>x. x\<lparr>transaction_id_http := t\<rparr>) (ctx\<lparr>http_status := s\<rparr>, h')))"
proof -
  let ?ks = "[cstr ''transactionId'', cstr ''serverSigned1'', cstr ''serverSignature1'', cstr ''euiccCiPKIdToBeUsed'',
    cstr ''serverCertificate'']"
  obtain s where run: "es9p_trans_json J (Some i) (Some a) (cstr ''/gsma/rsp2/es9plus/initiateAuthentication'')
      [(cstr ''smdpAddress'', Some a), (cstr ''euiccChallenge'', Some c), (cstr ''euiccInfo1'', Some info)]
      (Some (map (\<lambda>k. (k, False)) ?ks)) (ctx, h) =
    (Ret (json_outputs J root (map (\<lambda>k. (k, False)) ?ks)), ctx\<lparr>http_status := s\<rparr>, h')" and s: "status_wf s"
    using trans_json_fields [OF assms(2,3) assms(8) [unfolded body_def] assms(9,10)] by blast
  have param: "upd_http (\<lambda>x. x\<lparr>authenticate_server_param := None\<rparr>) (ctx\<lparr>http_status := s\<rparr>, h') =
      upd_http (\<lambda>x. x\<lparr>transaction_id_http := transaction_id_http (http_internal ctx)\<rparr>) (ctx\<lparr>http_status := s\<rparr>, h')"
    "upd_http (\<lambda>x. x\<lparr>transaction_id_http := t, authenticate_server_param := None\<rparr>) (ctx\<lparr>http_status := s\<rparr>, h') =
      upd_http (\<lambda>x. x\<lparr>transaction_id_http := t\<rparr>) (ctx\<lparr>http_status := s\<rparr>, h')" for t
    using assms(5) by (cases "http_internal ctx", simp add: upd_http_def)+
  note defs = es9p_initiate_authentication_def es9p_initiate_authentication_r_def Let_def
  show ?thesis
  proof (cases "those (map (json_str J root) ?ks)")
    case None
    then obtain outs where "json_outputs J root (map (\<lambda>k. (k, False)) ?ks) = (False, outs)"
      using json_outputs_strings [of J root ?ks] by auto
    with run assms(4-7) param s None show ?thesis
      by (auto simp: defs intro!: exI [of _ s] split: list.split jval.split)
  next
    case (Some vs)
    then obtain t v1 v2 v3 v4 where vs: "vs = [t, v1, v2, v3, v4]" by (auto split: option.splits)
    with Some have "json_outputs J root (map (\<lambda>k. (k, False)) ?ks) = (True, map JStr vs)"
      using json_outputs_strings [of J root ?ks] by simp
    with run assms(4-7) s Some vs show ?thesis
      by (auto simp: defs es9p_base64_trim_eq intro!: exI [of _ s])
  qed
qed

definition demo_reply :: demo_json where
  "demo_reply = DObj [(cstr ''header'', DObj [(cstr ''functionExecutionStatus'', DObj [])]),
     (cstr ''transactionId'', DStr (cstr ''T'')), (cstr ''serverSigned1'', DStr (cstr ''MA A='')),
     (cstr ''serverSignature1'', DStr (cstr ''XzcA'')), (cstr ''euiccCiPKIdToBeUsed'', DStr (cstr ''BAA='')),
     (cstr ''serverCertificate'', DStr (cstr ''MAA=''))]"

theorem es9p_initiate_authentication_returns_witness:
  "\<exists>s. status_wf s \<and> es9p_initiate_authentication (demo_cjson demo_reply) (Some demo_http)
      (demo_session (http_internal_zero\<lparr>b64_euicc_challenge := Some (cstr ''C''), b64_euicc_info_1 := Some (cstr ''I'')\<rparr>), [(200, cstr ''J'')]) =
    (Ret (), upd_http (\<lambda>x. x\<lparr>transaction_id_http := Some (cstr ''T''), authenticate_server_param :=
        Some \<lparr>b64_serverSigned1 = cstr ''MAA='', b64_serverSignature1 = cstr ''XzcA'', b64_euiccCiPKIdToBeUsed = cstr ''BAA='',
          b64_serverCertificate = cstr ''MAA=''\<rparr>, b64_euicc_challenge := None, b64_euicc_info_1 := None\<rparr>)
      ((demo_session (http_internal_zero\<lparr>b64_euicc_challenge := Some (cstr ''C''), b64_euicc_info_1 := Some (cstr ''I'')\<rparr>))\<lparr>http_status := s\<rparr>, []))"
proof -
  let ?ctx = "demo_session (http_internal_zero\<lparr>b64_euicc_challenge := Some (cstr ''C''), b64_euicc_info_1 := Some (cstr ''I'')\<rparr>)"
  have those: "those (map (json_str (demo_cjson demo_reply) demo_reply) [cstr ''transactionId'', cstr ''serverSigned1'',
      cstr ''serverSignature1'', cstr ''euiccCiPKIdToBeUsed'', cstr ''serverCertificate'']) =
      Some [cstr ''T'', cstr ''MA A='', cstr ''XzcA'', cstr ''BAA='', cstr ''MAA='']" by code_simp
  have trim: "filter (\<lambda>c. \<not> is_blank c) (cstr ''MA A='') = cstr ''MAA=''" "filter (\<lambda>c. \<not> is_blank c) (cstr ''XzcA'') = cstr ''XzcA''"
    "filter (\<lambda>c. \<not> is_blank c) (cstr ''BAA='') = cstr ''BAA=''" "filter (\<lambda>c. \<not> is_blank c) (cstr ''MAA='') = cstr ''MAA=''"
    by code_simp+
  have root: "reply_root (demo_cjson demo_reply) (cstr_of (take (unat (1 :: u32)) (cstr ''J''))) = Some demo_reply" by code_simp
  have code: "(200 :: u32) div 100 = 2" by code_simp
  have http: "http_transmit demo_http u b n hs [(200, cstr ''J'')] = (Some (200, cstr ''J'', 1), [])" for u b n hs
    by (simp add: demo_http_def cstr_def)
  have start: "authenticate_server_param (http_internal ?ctx) = None" "b64_euicc_challenge (http_internal ?ctx) = Some (cstr ''C'')"
    "b64_euicc_info_1 (http_internal ?ctx) = Some (cstr ''I'')"
    by (simp_all add: demo_session_ready(3) http_internal_zero_def)
  show ?thesis
    using es9p_initiate_authentication_returns [OF demo_session_ready(4) demo_http_safe demo_session_ready(2) start http code root]
    unfolding those by (simp add: trim)
qed

subsection \<open>Two corner cases\<close>

text \<open>
  \<open>es11_authenticate_client_r\<close> asks for \<open>eventEntries\<close> as a JSON value, but a string under that name is stored as a
  \<open>char *\<close> in the variable of type \<open>cJSON *\<close>, and \<open>cJSON_IsArray\<close> then reads it as a JSON node.
\<close>

theorem es11_entries_string_undefined:
  assumes "status_wf (http_status ctx)" "http_safe i" "server_address ctx = Some a"
    and "b64_authenticate_server_response (http_internal ctx) = Some b"
    and "\<And>tx. http_transmit i (cstr ''https://'' @ a @ cstr ''/gsma/rsp2/es9plus/authenticateClient'') tx (strlen tx) lpa_header h =
      (Some (rcode, rbuf, rlen), h')"
    and "rcode div 100 = 2" "reply_root J (cstr_of (take (unat rlen) rbuf)) = Some root"
    and "json_str J root (cstr ''eventEntries'') = Some s"
  shows "fst (es11_authenticate_client J (Some i) (ctx, h)) = UB"
proof -
  have "json_outputs J root [(cstr ''eventEntries'', True)] = (True, [JStr s])"
    using assms(8) by (auto simp: json_str_def bind_eq_Some_conv)
  moreover obtain s' where "es9p_trans_json J (Some i) (Some a) (cstr ''/gsma/rsp2/es9plus/authenticateClient'')
      [(cstr ''transactionId'', transaction_id_http (http_internal ctx)), (cstr ''authenticateServerResponse'', Some b)]
      (Some [(cstr ''eventEntries'', True)]) (ctx, h) =
    (Ret (json_outputs J root [(cstr ''eventEntries'', True)]), ctx\<lparr>http_status := s'\<rparr>, h')"
    using trans_json_fields [OF assms(1,2,5-7)] by blast
  ultimately show ?thesis
    using assms(3,4) by (simp add: es11_authenticate_client_def es11_authenticate_client_r_def Let_def del: json_outputs.simps)
qed

text \<open>One message of the table is longer than the array of 129 bytes, and is cut.\<close>

lemma es9p_errors_longest:
  "map fst (filter (\<lambda>(s, r, d). 128 < length d) es9p_errors) = [cstr ''8.2.5'']"
  by code_simp

end
