(* ===== verification/Session_Props.thy ===== *)
theory Session_Props
  imports Session Download_Props Es9p_Props
begin

text \<open>
  The properties of the download session: the code is a refinement of the abstract session, what holds of
  every session, and, as an application, what cancelling a session sends.
\<close>

text \<open>
  C8. The functions of \<open>es10b.c\<close> and \<open>es9p.c\<close> on the session refine the abstract session: whatever card,
  server and JSON library are there, a call that returns takes the session where \<open>session_step\<close> allows, so
  a function that finds its input missing or its output present changes nothing, a success fills the outputs
  and uses up the inputs, and a failure leaves the session as it was, but for the transaction identifiers
  where the first exchange or the authentication of the server fails half-way.
\<close>

theorem session_call_refines:
  assumes "session_call iface J http op ok (ctx, d, h) (ctx', d', h')" "wf_ctx ctx"
  shows "session_step op ok (http_internal ctx) (http_internal ctx') \<and> wf_ctx ctx'"
  using assms by (rule session_call_steps)

theorem session_call_refines_witness:
  "\<exists>ctx'. session_call script_card (demo_cjson demo_reply) (Some demo_http) CancelServer True
      (demo_session (http_internal_zero\<lparr>b64_cancel_session_response := Some (cstr ''AA=='')\<rparr>), [], [(200, [])]) (ctx', [], []) \<and>
     session_step CancelServer True (http_internal_zero\<lparr>b64_cancel_session_response := Some (cstr ''AA=='')\<rparr>) (http_internal ctx')"
proof -
  let ?ctx = "demo_session (http_internal_zero\<lparr>b64_cancel_session_response := Some (cstr ''AA=='')\<rparr>)"
  obtain s where s: "put_status (cstr ''unknown'') (cstr ''unknown'') (http_status ?ctx) = Ret s"
    using put_status_wf [OF demo_session_ready(4), of "cstr ''unknown''" "cstr ''unknown''"] by (auto simp: yields_def cstr_def)
  have "es9p_trans_ex (Some demo_http) (Some (cstr ''smdp'')) api tx [(200, [])] = (Ret (200, []), [])" for api tx
    by (simp add: es9p_trans_ex_def demo_http_def memcpy_def cstore_def cstr_of_def)
  moreover have "(200 :: u32) div 100 = 2" by code_simp
  ultimately have run: "es9p_cancel_session (demo_cjson demo_reply) (Some demo_http) (?ctx, [(200, [])]) =
      (Ret (), ?ctx\<lparr>http_status := s, http_internal := http_internal_zero\<rparr>, [])"
    using s by (simp add: es9p_cancel_session_def es9p_cancel_session_r_def es9p_trans_json_def demo_session_ready(2,3)
        trans_reply_def upd_http_def http_internal_zero_def)
  have "session_call script_card (demo_cjson demo_reply) (Some demo_http) CancelServer (Ret () = Ret ())
      (?ctx, [], [(200, [])]) (?ctx\<lparr>http_status := s, http_internal := http_internal_zero\<rparr>, [], [])"
    by (rule session_call.call_cancel_server [OF run]) simp
  with session_call_refines [OF this] show ?thesis
    using demo_ctx_wf demo_session_ready(3) by (auto simp: demo_session_def wf_ctx_def)
qed

text \<open>
  C9. What holds of every session. From a cleaned-up context, after any sequence of calls, successful or not,
  in any order, with any card, server and JSON library: challenge and information are there together or not
  at all; the stored length of the transaction identifier is the number of its bytes; and nothing is ever
  there to be sent to the server without the transaction identifier that has to go with it.
\<close>

theorem session_invariant:
  assumes "session_reach iface J http (ctx, d, h)"
  shows "session_inv (http_internal ctx) \<and> wf_ctx ctx"
  using session_reach_inv [OF assms] by simp

theorem session_invariant_witness:
  "\<exists>ctx. session_reach script_card (demo_cjson demo_reply) (Some demo_http) (ctx, [], [(200, cstr ''J'')]) \<and>
     session_inv (http_internal ctx) \<and> wf_ctx ctx"
proof -
  have "session_reach script_card (demo_cjson demo_reply) (Some demo_http) (euicc_http_cleanup demo_ctx, [], [(200, cstr ''J'')])"
    by (rule session_reach.start) (rule demo_ctx_wf)
  with session_invariant [OF this] show ?thesis by blast
qed

subsection \<open>Cancelling\<close>

interpretation element: es10_parser "parse_b64_element tag" "\<lambda>_. True" "\<lambda>resp. map_option b64_enc (tlv_enc tag resp)" for tag
proof
  fix p len assume "slice_small p len"
  then have "parse_b64_element tag p len = opt_res (Option.bind (tlv_enc tag (slice_bytes p len)) (\<lambda>e. Some (b64_enc e)))"
    unfolding parse_b64_element_def by (rule cbind_find_enc) (simp add: dup_eqs)
  then show "parse_b64_element tag p len = opt_res (map_option b64_enc (tlv_enc tag (slice_bytes p len)))"
    by (cases "tlv_enc tag (slice_bytes p len)") simp_all
qed

lemma reason_bytes:
  "euicc_derutil_convert_long2bin (replicate 4 0) 4 (cancel_reason_value reason) =
     Ret (long_bytes (cancel_reason_value reason) @ replicate 3 0, 1) \<and> length (long_bytes (cancel_reason_value reason)) = 1"
proof -
  have l: "length (long_bytes (cancel_reason_value reason)) = 1"
    by (cases reason) (simp_all only: cancel_reason_value.simps, code_simp+)
  then show ?thesis using long2bin_bytes [of 4 "replicate 4 0" "cancel_reason_value reason"]
    by simp
qed

lemma tid_slice:
  assumes "length tid = unat (n :: u32)" "length tid \<le> 255"
  shows "slice_ok tid (ucast (ucast n :: byte))" "slice_bytes tid (ucast (ucast n :: byte)) = tid"
proof -
  have "unat (ucast (ucast n :: byte) :: u32) = length tid"
    using assms by (simp add: unsigned_ucast_eq unsigned_take_bit_eq take_bit_nat_def)
  then show "slice_ok tid (ucast (ucast n :: byte))" "slice_bytes tid (ucast (ucast n :: byte)) = tid"
    by (simp_all add: slice_ok_def slice_bytes_def)
qed

text \<open>
  Cancelling. In a session that satisfies the invariant, with a transaction identifier of at most 200
  bytes (the buffer of a request has 255, and the code keeps the length in one byte),
  \<open>es10b_cancel_session\<close> reads the identifier in bounds, sends it whole with the reason, and keeps the element \<open>BF41\<close> of the
  card's answer for the server; an answer without one is a failure that leaves the session as it was.
\<close>

theorem es10b_cancel_session_sends:
  assumes "session_inv (http_internal ctx)" "wf_ctx ctx" "small_answers iface" "es10x_mss ctx \<noteq> 0"
    and "transaction_id_bin (http_internal ctx) = Some tid" "tid \<noteq> []" "length tid \<le> 200"
    and "b64_cancel_session_response (http_internal ctx) = None"
    and "card_gives iface ctx (tlv 0xBF41 (tlv 0x80 tid @ tlv 0x81 (long_bytes (cancel_reason_value reason)))) d resp d'"
    and "length resp < 0x40000000"
  shows "\<exists>ctx'. same_session ctx ctx' \<and> es10b_cancel_session iface reason (ctx, d) =
    (case tlv_enc 0xBF41 resp of
       None \<Rightarrow> Some (Fail, ctx', d')
     | Some e \<Rightarrow> Some (Ret (), upd_http (\<lambda>h. h\<lparr>b64_cancel_session_response := Some (b64_enc e)\<rparr>) (ctx', d')))"
proof -
  let ?n = "transaction_id_bin_len (http_internal ctx)" and ?v = "long_bytes (cancel_reason_value reason)"
  have inv: "length tid = unat ?n" "wf_ctx ctx"
    using assms(1,2,5) by (simp_all add: session_inv_def)
  then have n0: "?n \<noteq> 0" using assms(6) by auto
  have v: "length ?v = 1" using reason_bytes by blast
  define req where "req = n_cons 0xBF41 [n_leaf 0x80 tid (ucast (ucast ?n :: byte)), n_leaf 0x81 (?v @ replicate 3 0) 1]"
  note tid = tid_slice [OF inv(1)]
  have enc: "der_enc req = tlv 0xBF41 (tlv 0x80 tid @ tlv 0x81 ?v)" "pack_ok req"
    using tid assms(7) v by (auto simp: req_def slice_ok_def slice_bytes_def)
  have "length (der_enc req) \<le> 255" using assms(7) v by (simp add: enc length_tlv_exact)
  from element.request_spec [OF assms(3,2,4) enc(2) this, of d resp d' "0xBF41"] assms(9,10) obtain ctx' where
    run: "es10x_request iface req (parse_b64_element 0xBF41) (ctx, d) = Some (opt_res (map_option b64_enc (tlv_enc 0xBF41 resp)), ctx', d')"
    and s: "same_session ctx ctx'" by (auto simp: enc)
  have "upd_http (\<lambda>h. h\<lparr>b64_cancel_session_response := None\<rparr>) (ctx', d') = (ctx', d')"
    using assms(8) s by (simp add: upd_http_def same_session_def)
  with run s assms(5,8) n0 reason_bytes [of reason] show ?thesis
    by (intro exI [of _ ctx']) (auto simp: es10b_cancel_session_def es10b_cancel_session_r_def Let_def simp flip: req_def split: option.split)
qed

theorem es10b_cancel_session_sends_witness:
  "\<exists>ctx'. es10b_cancel_session script_card ES10B_CANCEL_SESSION_REASON_POSTPONED
      (with_http (http_internal_zero\<lparr>transaction_id_http := Some (cstr ''T''), transaction_id_bin := Some [1, 2], transaction_id_bin_len := 2\<rparr>),
       [[0xBF, 0x41, 0x00, 0x90, 0x00]]) =
    Some (Ret (), upd_http (\<lambda>h. h\<lparr>b64_cancel_session_response := Some (b64_enc [0xBF, 0x41, 0x00])\<rparr>) (ctx', []))"
proof -
  let ?ctx = "with_http (http_internal_zero\<lparr>transaction_id_http := Some (cstr ''T''), transaction_id_bin := Some [1, 2], transaction_id_bin_len := 2\<rparr>)"
  let ?req = "tlv 0xBF41 (tlv 0x80 [1, 2] @ tlv 0x81 (long_bytes (cancel_reason_value ES10B_CANCEL_SESSION_REASON_POSTPONED)))"
  have gives: "card_gives script_card ?ctx ?req [[0xBF, 0x41, 0x00] @ [0x90, 0x00]] [0xBF, 0x41, 0x00] []"
    unfolding with_http_simps using reason_bytes [of ES10B_CANCEL_SESSION_REASON_POSTPONED] by (intro script_gives) (simp_all add: length_tlv_exact)
  have enc: "tlv_enc 0xBF41 [0xBF, 0x41, 0x00] = Some [0xBF, 0x41, 0x00]" by code_simp
  have inv: "session_inv (http_internal ?ctx)" by (simp add: session_inv_def http_internal_zero_def)
  have "\<exists>ctx'. same_session ?ctx ctx' \<and>
    es10b_cancel_session script_card ES10B_CANCEL_SESSION_REASON_POSTPONED (?ctx, [[0xBF, 0x41, 0x00] @ [0x90, 0x00]]) =
    (case tlv_enc 0xBF41 [0xBF, 0x41, 0x00] of
       None \<Rightarrow> Some (Fail, ctx', [])
     | Some e \<Rightarrow> Some (Ret (), upd_http (\<lambda>h. h\<lparr>b64_cancel_session_response := Some (b64_enc e)\<rparr>) (ctx', [])))"
    by (rule es10b_cancel_session_sends [OF inv _ script_card_small _ _ _ _ _ gives]) (simp_all add: http_internal_zero_def)
  then show ?thesis by (auto simp: enc)
qed

end
