(* ===== verification/Applet_Props.thy ===== *)
theory Applet_Props
  imports Applet_Download Session_Props
begin

text \<open>
  The properties of the command \<open>profile download\<close> (\<open>src/applet/profile/download.c\<close>): which calls it makes in which order,
  and how it reads an activation code.
\<close>

subsection \<open>The order of the calls\<close>

lemma smdp_keeps:
  assumes "download_smdp iface o1 st = Some (r, st1)" "wf_ctx (fst st)"
  shows "http_internal (fst st1) = http_internal (fst st) \<and> wf_ctx (fst st1)"
proof (cases "smdp o1")
  case None
  obtain ctx d h where st: "st = (ctx, d, h)" by (cases st)
  from None assms(1) st obtain r0 ctx1 d1 where run: "es10a_get_euicc_configured_addresses iface (ctx, d) = Some (r0, ctx1, d1)"
    and st1: "st1 = (ctx1, d1, h)" by (auto simp: download_smdp_def to_card_def)
  have "keeps ctx (es10a_get_euicc_configured_addresses iface (ctx, d))"
    unfolding es10a_get_euicc_configured_addresses_def using assms(2) st by (intro request_keeps) simp
  with run have "same_session ctx ctx1" by (simp add: keeps_def)
  with assms(2) st st1 show ?thesis by (auto simp: same_session_def wf_ctx_def)
qed (use assms in \<open>auto simp: download_smdp_def\<close>)

lemma download_body_drives:
  assumes "download_body iface J http cancelled imei0 answer o1 st = Some (Ret e, st2)" "wf_ctx (fst st)"
  obtains st1 where "http_internal (fst st1) = http_internal (fst st)" "wf_ctx (fst st1)" "drives iface J http download_ops e st1 st2"
proof (cases "activation_loop 0 (activation_code o1) o1")
  case (Inl x)
  with assms have "drives iface J http download_ops e st st2" by (auto simp: download_body_def intro: drives.stop)
  with that assms(2) show ?thesis by blast
next
  case (Inr o2)
  with assms(1) obtain r st0 where smdp: "download_smdp iface o2 st = Some (r, st0)"
    by (auto simp: download_body_def Option.bind_eq_Some_conv)
  note same = smdp_keeps [OF smdp assms(2)]
  note found = that
  have stop: thesis if "st0 = st2" "e = Stopped x" for x
    using found [of st0] that same by (auto intro: drives.stop)
  show ?thesis
  proof (cases r)
    case (Ret s)
    show ?thesis
    proof (cases "s = None \<or> s = Some []")
      case False
      with assms(1) Inr smdp Ret have "download_steps iface J http cancelled imei0 answer o2 (set_server s st0) = Some (Ret e, st2)"
        by (auto simp: download_body_def)
      from download_steps_drives [OF this] same show ?thesis
        by (intro that [of "set_server s st0"]) (auto simp: set_server_def wf_ctx_def split: prod.splits)
    qed (use assms(1) Inr smdp Ret stop in \<open>auto simp: download_body_def\<close>)
  qed (use assms(1) Inr smdp stop in \<open>auto simp: download_body_def\<close>)
qed



subsection \<open>Activation codes\<close>

lemma strsep_no_sep: "of_char CHR ''$'' \<notin> set s \<Longrightarrow> strsep s = (s, None)"
  by (induction s) auto

lemma strsep_sep: "of_char CHR ''$'' \<notin> set s \<Longrightarrow> strsep (s @ of_char CHR ''$'' # t) = (s, Some t)"
  by (induction s) auto

text \<open>The format of SGP.22, section 4.1: fields with a \<open>$\<close> between any two of them.\<close>

fun join_fields :: "cstr list \<Rightarrow> cstr" where
  "join_fields [] = []"
| "join_fields [f] = f"
| "join_fields (f # g # fs) = f @ of_char CHR ''$'' # join_fields (g # fs)"

text \<open>The loop over the string is a loop over the fields.\<close>

fun activation_fields :: "nat \<Rightarrow> cstr list \<Rightarrow> download_options \<Rightarrow> dl_error + download_options" where
  "activation_fields i [] o1 = Inr o1"
| "activation_fields i (f # fs) o1 =
     (case activation_token i f o1 of Inl e \<Rightarrow> Inl e | Inr o2 \<Rightarrow> activation_fields (Suc i) fs o2)"

lemma activation_loop_fields:
  assumes "fs \<noteq> []" "\<forall>f \<in> set fs. of_char CHR ''$'' \<notin> set f"
  shows "activation_loop i (Some (join_fields fs)) o1 = activation_fields i fs o1"
  using assms
proof (induction fs arbitrary: i o1 rule: join_fields.induct)
  case (2 f)
  then show ?case by (simp add: strsep_no_sep [simplified] split: sum.split)
next
  case (3 f g fs)
  then have "activation_loop j (Some (join_fields (g # fs))) o2 = activation_fields j (g # fs) o2" for j o2 by simp
  with 3(3) show ?case
    by (simp add: strsep_sep [simplified] del: activation_loop.simps(2) activation_fields.simps(2))
      (simp add: activation_loop.simps(2) [of _ "f @ _"] activation_fields.simps(2) [of _ f] strsep_sep [simplified]
        del: activation_loop.simps(2) activation_fields.simps(2) split: sum.split)
qed simp

lemma strncmp_eq_1: "strncmp_eq t (cstr ''1'') (length t) \<longleftrightarrow> t = [] \<or> t = cstr ''1''"
  by (cases t) (auto simp: strncmp_eq_def cstr_def)

text \<open>
  C31. Activation codes. For a code of the five fields of SGP.22, format, server address, matching identifier, object
  identifier and confirmation flag, the loop reports \<open>activation_code\<close> unless the format field is \<open>1\<close> or empty,
  then \<open>matching_id\<close> unless the matching identifier is made of letters, digits and dashes, then
  \<open>confirmation_code\<close> when none was given and the flag is \<open>1\<close> or empty, and otherwise takes server and
  matching identifier from the code in place of what the options gave, and nothing else. A \<open>strncmp\<close> over the length
  of the token is what lets the empty field pass for \<open>1\<close>.
\<close>

theorem activation_code_fields:
  assumes "\<forall>f \<in> {format, address, matching, oid, flag}. of_char CHR ''$'' \<notin> set f"
  shows "activation_loop 0 (Some (join_fields [format, address, matching, oid, flag])) o1 =
    (if format \<notin> {[], cstr ''1''} then Inl (cstr ''activation_code'')
     else if \<exists>c \<in> set matching. \<not> isalnum c \<and> c \<noteq> of_char CHR ''-'' then Inl (cstr ''matching_id'')
     else if flag \<in> {[], cstr ''1''} \<and> confirmation_code o1 = None then Inl (cstr ''confirmation_code'')
     else Inr (o1\<lparr>smdp := Some address, matchingId := Some matching\<rparr>))"
proof -
  have loose: "(\<exists>c \<in> set matching. \<not> isalnum c \<and> c \<noteq> of_char CHR ''-'') \<longleftrightarrow> \<not> is_strict_matching_id matching"
    by (auto simp: is_strict_matching_id_def list_all_iff)
  have "activation_loop 0 (Some (join_fields [format, address, matching, oid, flag])) o1 =
      activation_fields 0 [format, address, matching, oid, flag] o1"
    by (rule activation_loop_fields) (use assms in auto)
  then show ?thesis
    unfolding loose by (simp add: activation_token_def strncmp_eq_1 del: activation_loop.simps)
qed

theorem activation_code_fields_witness:
  "activation_loop 0 (Some (cstr ''1$smdp.example$A-1$$'')) no_options = Inl (cstr ''confirmation_code'') \<and>
   activation_loop 0 (Some (cstr ''1$smdp.example$A-1$$1'')) (no_options\<lparr>confirmation_code := Some (cstr ''7'')\<rparr>) =
     Inr (no_options\<lparr>confirmation_code := Some (cstr ''7''), smdp := Some (cstr ''smdp.example''), matchingId := Some (cstr ''A-1'')\<rparr>)"
  using activation_code_fields [of "cstr ''1''" "cstr ''smdp.example''" "cstr ''A-1''" "[]" "[]" no_options]
    activation_code_fields [of "cstr ''1''" "cstr ''smdp.example''" "cstr ''A-1''" "[]" "cstr ''1''"
      "no_options\<lparr>confirmation_code := Some (cstr ''7'')\<rparr>"]
  by (simp add: cstr_def isalnum_def no_options_def)

end
