(* ===== verification/Command_Props.thy ===== *)
theory Command_Props
  imports Applet_Notification Applet_Props Es10b_Props
begin

text \<open>
  The properties of the command line: what initialisation leaves, that the card is released on every path,
  and what the notification applets do with a notification.
\<close>

subsection \<open>Initialisation and release\<close>

definition aid_ok :: "(byte list \<times> byte) option \<Rightarrow> bool" where
  "aid_ok x \<longleftrightarrow> (case x of None \<Rightarrow> True | Some (a, n) \<Rightarrow> length a = unat n \<and> 0 < unat n \<and> unat n \<le> 16)"

lemma setup_isdr_aid_ok: "\<exists>x. setup_isdr_aid env = Ret x \<and> aid_ok x"
proof -
  define s where "s = getenv_str_or_default env (cstr ''LPAC_CUSTOM_ISD_R_AID'') (cstr ''A0000005591010FFFFFFFF8900000100'')"
  define n where "n = (of_nat (length s) :: byte) div 2"
  show ?thesis
  proof (cases "length s mod 2 \<noteq> 0 \<or> length s < 2 \<or> length s > 32")
    case True
    then have "setup_isdr_aid env = Ret None" by (auto simp: setup_isdr_aid_def s_def Let_def)
    then show ?thesis by (simp add: aid_ok_def)
  next
    case False
    then have len: "length s \<le> 32" "2 \<le> length s" by auto
    have half: "unat n = length s div 2" using len by (simp add: n_def unat_div unat_of_nat)
    have "unat (ucast n :: u32) = unat n" by transfer (simp add: take_bit_eq_mod)
    with half have out: "unat (ucast n :: u32) = length s div 2" by simp
    have eq: "euicc_hexutil_hex2bin_r (replicate (unat n) 0) (ucast n) s (of_nat (length s)) =
        (case unhex s of None \<Rightarrow> Fail | Some bs \<Rightarrow> Ret (length bs, bs @ drop (length bs) (replicate (unat n) 0)))"
      using len half out False
      by (subst euicc_hexutil_hex2bin_r_eq) (auto simp: slice_ok_def slice_bytes_def)
    have "setup_isdr_aid env = (case unhex s of None \<Rightarrow> Ret None
        | Some bs \<Rightarrow> Ret (if 0 < length bs then Some (bs @ drop (length bs) (replicate (unat n) 0), n) else None))"
      using False eq by (auto simp: setup_isdr_aid_def s_def n_def Let_def split: option.splits)
    moreover have "length bs = unat n" if "unhex s = Some bs" for bs
      using length_unhex [OF that] half by simp
    ultimately show ?thesis using half len by (auto simp: aid_ok_def split: option.splits)
  qed
qed

lemma setup_es10x_mss_range:
  assumes "setup_es10x_mss env stale = Some mss"
  shows "mss = 0 \<or> 6 \<le> mss"
proof -
  obtain v r where v: "getenv_long_or_default env (cstr ''LPAC_CUSTOM_ES10X_MSS'') 0 = (v, r)" by force
  show ?thesis
  proof (cases "v = 0")
    case False
    with assms v have "6 \<le> v" "v \<le> 255" "mss = word_of_int v"
      by (auto simp: setup_es10x_mss_def split: if_splits)
    then show ?thesis by (simp add: word_le_def uint_word_of_int)
  qed (use assms v in \<open>simp add: setup_es10x_mss_def\<close>)
qed

lemma main_init_euicc_outcome:
  assumes "wf_ctx ctx"
  shows "\<exists>rep inited ctx' d'. main_init_euicc iface env stale log_fps (ctx, d) = (Ret (rep, inited), ctx', d') \<and>
    wf_ctx ctx' \<and> http_internal ctx' = http_internal ctx \<and>
    (if inited then rep = None \<and> es10x_mss ctx' \<noteq> 0 \<and> 6 \<le> es10x_mss ctx' \<and>
       (\<exists>a d1 ch. aid ctx' = Some a \<and> length a = unat (aid_len ctx') \<and> 0 < length a \<and> length a \<le> 16 \<and>
         d1 = snd (if_connect iface d) \<and> 0 \<le> fst (if_connect iface d) \<and>
         if_logic_channel_open iface a (aid_len ctx') d1 = (ch, d') \<and> 0 \<le> ch \<and> logic_channel ctx' = word_of_int ch)
     else (\<exists>detail. rep = Some (Error (cstr ''euicc_init'') detail)) \<and>
       (d' = d \<or> (fst (if_connect iface d) < 0 \<and> d' = snd (if_connect iface d)) \<or> (\<exists>d2. d' = if_disconnect iface d2)))"
proof -
  obtain x where x: "setup_isdr_aid env = Ret x" "aid_ok x" using setup_isdr_aid_ok by blast
  show ?thesis
  proof (cases x)
    case None
    with x assms show ?thesis by (auto simp: main_init_euicc_def)
  next
    case (Some an)
    obtain a n where an: "an = (a, n)" by force
    with Some x have a: "length a = unat n" "0 < unat n" "unat n \<le> 16" by (simp_all add: aid_ok_def)
    show ?thesis
    proof (cases "setup_es10x_mss env stale")
      case None
      with x Some an assms show ?thesis by (auto simp: main_init_euicc_def Let_def wf_ctx_def)
    next
      case (Some mss)
      note mss = setup_es10x_mss_range [OF this]
      let ?ctx = "ctx\<lparr>aid := Some a, aid_len := n, es10x_mss := mss\<rparr>"
      show ?thesis
      proof (cases log_fps)
        case False
        with x \<open>x = Some an\<close> Some an assms show ?thesis by (auto simp: main_init_euicc_def Let_def wf_ctx_def)
      next
        case True
        have wf: "wf_ctx ?ctx" using assms by (simp add: wf_ctx_def)
        have run: "main_init_euicc iface env stale log_fps (ctx, d) = (case euicc_init iface (?ctx, d) of
            (Ret _, st) \<Rightarrow> (Ret (None, True), st)
          | (Fail, st) \<Rightarrow> (Ret (Some (Error (cstr ''euicc_init'') None), False), st) | (UB, st) \<Rightarrow> (UB, st))"
          using x \<open>x = Some an\<close> Some an True by (simp add: main_init_euicc_def Let_def)
        obtain ret d1 where conn: "if_connect iface d = (ret, d1)" by force
        obtain ch d2 where opn: "if_logic_channel_open iface a n d1 = (ch, d2)" by force
        let ?ctx' = "?ctx\<lparr>es10x_mss := if mss = 0 then 120 else mss\<rparr>"
        have init: "euicc_init iface (?ctx, d) = (if ret < 0 then (Fail, ?ctx', d1)
            else if ch < 0 then (Fail, ?ctx', if_disconnect iface d2)
            else (Ret (), ?ctx'\<lparr>logic_channel := word_of_int ch\<rparr>, d2))"
          by (simp add: euicc_init_def conn opn)
        have ctx': "wf_ctx ?ctx'" "wf_ctx (?ctx'\<lparr>logic_channel := word_of_int ch\<rparr>)" using assms by (simp_all add: wf_ctx_def)
        have mss': "6 \<le> (if mss = 0 then 120 else mss)" "(if mss = 0 then 120 else mss) \<noteq> 0" using mss by auto
        consider "ret < 0" | "0 \<le> ret" "ch < 0" | "0 \<le> ret" "0 \<le> ch" by linarith
        then show ?thesis
        proof cases
          case 3
          then have "main_init_euicc iface env stale log_fps (ctx, d) = (Ret (None, True), ?ctx'\<lparr>logic_channel := word_of_int ch\<rparr>, d2)"
            unfolding run by (simp add: init)
          then show ?thesis
            by (intro exI [of _ None] exI [of _ True] exI [of _ "?ctx'\<lparr>logic_channel := word_of_int ch\<rparr>"] exI [of _ d2])
              (use 3 ctx'(2) mss' a conn opn in \<open>simp split del: if_split\<close>, use a in \<open>auto\<close>)
        qed (use ctx' conn in \<open>auto simp: run init\<close>)
      qed
    qed
  qed
qed

text \<open>
  C12. Initialisation. \<open>main_init_euicc\<close> is defined for every environment. If it succeeds, the application identifier
  has between one and sixteen bytes, as many as its length says, the block size is the one asked for, between 6 and
  255, or 120, and the channel is the one the driver opened after it connected; so every command that
  follows finds the context that the properties of the commands assume. If it fails, it reports \<open>euicc_init\<close>,
  and the driver is either untouched, not connected, or disconnected again.
\<close>

theorem main_init_euicc_ready:
  assumes "wf_ctx ctx"
  shows "\<exists>rep inited ctx' d'. main_init_euicc iface env stale log_fps (ctx, d) = (Ret (rep, inited), ctx', d') \<and>
    wf_ctx ctx' \<and> http_internal ctx' = http_internal ctx \<and>
    (if inited then rep = None \<and> es10x_mss ctx' \<noteq> 0 \<and> 6 \<le> es10x_mss ctx' \<and>
       (\<exists>a d1 ch. aid ctx' = Some a \<and> length a = unat (aid_len ctx') \<and> 0 < length a \<and> length a \<le> 16 \<and>
         d1 = snd (if_connect iface d) \<and> 0 \<le> fst (if_connect iface d) \<and>
         if_logic_channel_open iface a (aid_len ctx') d1 = (ch, d') \<and> 0 \<le> ch \<and> logic_channel ctx' = word_of_int ch)
     else (\<exists>detail. rep = Some (Error (cstr ''euicc_init'') detail)) \<and>
       (d' = d \<or> (fst (if_connect iface d) < 0 \<and> d' = snd (if_connect iface d)) \<or> (\<exists>d2. d' = if_disconnect iface d2)))"
  using assms by (rule main_init_euicc_outcome)

lemma demo_init: "\<exists>ctx'. main_init_euicc script_card (\<lambda>_. None) False True (demo_ctx, []) = (Ret (None, True), ctx', [])"
proof -
  have "setup_isdr_aid (\<lambda>_. None) = Ret (Some (ISD_R_AID, 16))" by code_simp
  moreover have "setup_es10x_mss (\<lambda>_. None) False = Some 0" by code_simp
  ultimately show ?thesis by (simp add: main_init_euicc_def euicc_init_def script_card_def)
qed

theorem main_init_euicc_ready_witness:
  "\<exists>ctx'. main_init_euicc script_card (\<lambda>_. None) False True (demo_ctx, []) = (Ret (None, True), ctx', []) \<and>
     6 \<le> es10x_mss ctx' \<and> wf_ctx ctx'"
  using main_init_euicc_ready [OF demo_ctx_wf(1), of script_card "\<lambda>_. None" False True "[]"] demo_init by auto

text \<open>
  C13. Release. Whatever an applet of the card does, when the command ends the driver's last act is to disconnect,
  unless it was never connected.
\<close>

theorem card_applet_releases:
  assumes "wf_ctx ctx" "card_applet iface env stale log_fps main (ctx, d) = Some (Ret e, ctx', d')"
  shows "d' = d \<or> (fst (if_connect iface d) < 0 \<and> d' = snd (if_connect iface d)) \<or> (\<exists>d2. d' = if_disconnect iface d2)"
proof -
  obtain rep inited ctx1 d1 where init: "main_init_euicc iface env stale log_fps (ctx, d) = (Ret (rep, inited), ctx1, d1)"
    and cases: "if inited then rep = None else rep \<noteq> None \<and>
       (d1 = d \<or> (fst (if_connect iface d) < 0 \<and> d1 = snd (if_connect iface d)) \<or> (\<exists>d2. d1 = if_disconnect iface d2))"
    using main_init_euicc_outcome [OF assms(1), of iface env stale log_fps d] by (fastforce split: if_splits)
  show ?thesis
    using assms(2) init cases
    by (cases inited; cases rep) (auto simp: card_applet_def main_fini_euicc_def euicc_fini_def Let_def split: option.splits if_splits prod.splits)
qed

theorem card_applet_releases_witness:
  "\<exists>ctx' d'. card_applet script_card (\<lambda>_. None) False True None (demo_ctx, []) = Some (Ret (-1, Plain), ctx', d') \<and>
     (d' = [] \<or> fst (if_connect script_card []) < 0 \<and> d' = snd (if_connect script_card []) \<or> (\<exists>d2. d' = if_disconnect script_card d2))"
proof -
  obtain ctx1 where "main_init_euicc script_card (\<lambda>_. None) False True (demo_ctx, []) = (Ret (None, True), ctx1, [])"
    using demo_init by blast
  then have "card_applet script_card (\<lambda>_. None) False True None (demo_ctx, []) =
      Some (Ret (-1, Plain), main_fini_euicc script_card True (ctx1, []))" by (simp add: card_applet_def)
  then obtain ctx' d' where run: "card_applet script_card (\<lambda>_. None) False True None (demo_ctx, []) = Some (Ret (-1, Plain), ctx', d')"
    by (cases "main_fini_euicc script_card True (ctx1, [])") auto
  from card_applet_releases [OF demo_ctx_wf(1) this] run show ?thesis by blast
qed

subsection \<open>Notifications\<close>

lemma strip_end_eq: "strip_end s (length s) = rev (dropWhile isspace (rev s))"
  by (induction s rule: rev_induct) (simp_all add: nth_append)

lemma strstrip_Some: "notification_strstrip (Some s) = Some (rev (dropWhile isspace (rev (dropWhile isspace s))))"
proof (cases "dropWhile isspace s = []")
  case False
  then show ?thesis by (simp only: notification_strstrip_def Let_def strip_end_eq option.case if_False)
next
  case True
  then show ?thesis by (simp only: notification_strstrip_def Let_def option.case if_True) simp
qed

lemma strstrip_hd: "notification_strstrip (Some s) = Some t \<Longrightarrow> t \<noteq> [] \<Longrightarrow> \<not> isspace (hd t) \<and> \<not> isspace (last t)"
proof -
  assume a: "notification_strstrip (Some s) = Some t" "t \<noteq> []"
  define u where "u = dropWhile isspace s"
  have t: "t = rev (dropWhile isspace (rev u))" using a(1) by (simp add: strstrip_Some u_def)
  have "u = t @ rev (takeWhile isspace (rev u))"
    by (metis rev_append rev_rev_ident t takeWhile_dropWhile_id)
  with a(2) have "hd u = hd t" "u \<noteq> []" by (metis hd_append2, auto)
  then have "\<not> isspace (hd t)" using hd_dropWhile [of isspace s] by (simp add: u_def)
  moreover have "\<not> isspace (last t)" using a(2) t hd_dropWhile [of isspace "rev u"] by (simp add: last_rev)
  ultimately show ?thesis by simp
qed

lemma strstrip_idem [simp]: "notification_strstrip (notification_strstrip x) = notification_strstrip x"
proof (cases x)
  case (Some s)
  obtain t where t: "notification_strstrip (Some s) = Some t" by (simp add: strstrip_Some)
  show ?thesis
  proof (cases "t = []")
    case False
    with strstrip_hd [OF t] have "dropWhile isspace t = t" "dropWhile isspace (rev t) = rev t"
      by (auto simp: dropWhile_eq_self_iff hd_rev)
    then show ?thesis using Some t by (simp add: strstrip_Some [of t])
  qed (use Some t in \<open>simp add: strstrip_Some [of "[]"]\<close>)
qed (simp add: notification_strstrip_def)

lemma parse_build:
  assumes "pn_notificationAddress n = Some a" "pn_b64_PendingNotification n = Some b"
  shows "parse_notification (build_notification eid k n) eid p =
      (True, \<lparr>pl_seqNumber = k, pl_notificationAddress = notification_strstrip (Some a), pl_pendingNotification = Some b\<rparr>) \<and>
    (eid' \<noteq> eid \<longrightarrow> parse_notification (build_notification eid k n) eid' p = (False, p))"
proof -
  obtain t where t: "notification_strstrip (Some a) = Some t" by (simp add: strstrip_Some)
  have "notification_strstrip (Some t) = Some t" using strstrip_idem [of "Some a"] t by simp
  then show ?thesis
    using assms t by (cases p) (auto simp: parse_notification_def build_notification_def)
qed

text \<open>
  C37. Dump and replay, the format: the line that \<open>dump\<close> builds for a notification with address and contents is
  taken by \<open>parse_notification\<close> of the same card as the same sequence number, address, without blanks around
  it, and contents; a line of another card is refused and leaves the caller's structure as it was.
\<close>

theorem notification_line_roundtrip:
  assumes "pn_notificationAddress n = Some a" "pn_b64_PendingNotification n = Some b"
  shows "parse_notification (build_notification eid k n) eid p =
      (True, \<lparr>pl_seqNumber = k, pl_notificationAddress = notification_strstrip (Some a), pl_pendingNotification = Some b\<rparr>) \<and>
    (eid' \<noteq> eid \<longrightarrow> parse_notification (build_notification eid k n) eid' p = (False, p))"
  using assms by (rule parse_build)

theorem notification_line_roundtrip_witness:
  "parse_notification (build_notification (cstr ''89'') 7
      \<lparr>pn_notificationAddress = Some (cstr '' a ''), pn_b64_PendingNotification = Some (cstr ''AA=='')\<rparr>) (cstr ''89'')
      \<lparr>pl_seqNumber = 0, pl_notificationAddress = None, pl_pendingNotification = None\<rparr> =
    (True, \<lparr>pl_seqNumber = 7, pl_notificationAddress = Some (cstr ''a''), pl_pendingNotification = Some (cstr ''AA=='')\<rparr>)"
proof -
  have "notification_strstrip (Some (cstr '' a '')) = Some (cstr ''a'')" by code_simp
  then show ?thesis
    using notification_line_roundtrip [of "\<lparr>pn_notificationAddress = Some (cstr '' a ''),
      pn_b64_PendingNotification = Some (cstr ''AA=='')\<rparr>" "cstr '' a ''" "cstr ''AA==''"] by simp
qed



subsection \<open>Processing\<close>

text \<open>The calls to the library, with their arguments and how they ended.\<close>

datatype notification_event =
    Retrieve u32 "es10b_pending_notification option"
  | Deliver es10b_pending_notification bool
  | Remove u32 bool

text \<open>\<open>called es st st'\<close>: the calls \<open>es\<close> were made, in this order, and nothing else.\<close>

inductive called ::
  "'d euicc_apdu_interface \<Rightarrow> 'j cjson \<Rightarrow> 'h euicc_http_interface option \<Rightarrow> notification_event list \<Rightarrow>
     ('d, 'h) session \<Rightarrow> ('d, 'h) session \<Rightarrow> bool" for iface J http where
  no_call: "called iface J http [] st st"
| retrieve: "to_card (es10b_retrieve_notifications_list iface (ucast k)) st = Some (r, st1) \<Longrightarrow> r \<noteq> UB \<Longrightarrow>
    called iface J http es st1 st' \<Longrightarrow> called iface J http (Retrieve k (case r of Ret n \<Rightarrow> Some n | _ \<Rightarrow> None) # es) st st'"
| deliver: "to_server (es9p_handle_notification J http (pn_b64_PendingNotification n))
      (set_server (notification_strstrip (pn_notificationAddress n)) st) = Some (r, st1) \<Longrightarrow> r \<noteq> UB \<Longrightarrow>
    called iface J http es st1 st' \<Longrightarrow> called iface J http (Deliver n (r = Ret ()) # es) st st'"
| remove: "to_card (es10b_remove_notification_from_list iface (ucast k)) st = Some (r, st1) \<Longrightarrow> r \<noteq> UB \<Longrightarrow>
    called iface J http es st1 st' \<Longrightarrow> called iface J http (Remove k (r = Ret 0) # es) st st'"

text \<open>What is done with a notification that is dealt with completely, and where it may stop.\<close>

definition processed :: "bool \<Rightarrow> u32 \<times> es10b_pending_notification \<Rightarrow> notification_event list" where
  "processed autoremove = (\<lambda>(k, n). [Retrieve k (Some n), Deliver n True] @ (if autoremove then [Remove k True] else []))"

definition stopped :: "bool \<Rightarrow> u32 \<Rightarrow> notification_event list \<Rightarrow> bool" where
  "stopped autoremove k es \<longleftrightarrow> es = [Retrieve k None] \<or> (\<exists>n. es = [Retrieve k (Some n), Deliver n False]) \<or>
     (autoremove \<and> (\<exists>n. es = [Retrieve k (Some n), Deliver n True, Remove k False]))"

lemma called_append: "called iface J http es st st1 \<Longrightarrow> called iface J http es' st1 st' \<Longrightarrow> called iface J http (es @ es') st st'"
  by (induction rule: called.induct) (auto intro: called.intros)

lemma ret_int_zero: "r \<noteq> UB \<Longrightarrow> ret_int r = 0 \<longleftrightarrow> r = Ret 0"
  by (cases r) (auto simp: ret_int_def signed_eq_0_iff)

lemma delete_single_called:
  assumes "delete_single iface k st = Some (Ret rep, st')"
  shows "called iface J http [Remove k (rep = Success)] st st'"
proof -
  from assms obtain r where r: "to_card (es10b_remove_notification_from_list iface (ucast k)) st = Some (r, st')" "r \<noteq> UB"
    and "rep = Success \<longleftrightarrow> ret_int r = 0"
    by (auto simp: delete_single_def split: if_splits)
  with ret_int_zero [OF r(2)] have "(rep = Success) = (r = Ret 0)" by simp
  with called.remove [OF r called.no_call] show ?thesis by simp
qed

lemma process_single_called:
  assumes "process_single iface J http autoremove k st = Some (Ret rep, st')"
  shows "\<exists>es. called iface J http es st st' \<and>
    (if rep = Success then \<exists>n. es = processed autoremove (k, n) else stopped autoremove k es)"
proof -
  from assms obtain r st1 where get: "to_card (es10b_retrieve_notifications_list iface (ucast k)) st = Some (r, st1)"
    by (auto simp: process_single_def Option.bind_eq_Some_conv)
  show ?thesis
  proof (cases r)
    case (Ret n)
    with assms get obtain r2 st2 where send: "to_server (es9p_handle_notification J http (pn_b64_PendingNotification n))
        (set_server (notification_strstrip (pn_notificationAddress n)) st1) = Some (r2, st2)"
      by (auto simp: process_single_def Option.bind_eq_Some_conv)
    show ?thesis
    proof (cases r2)
      case (Ret u)
      note pre = called.retrieve [OF get _ called.deliver [OF send]]
      show ?thesis
      proof (cases autoremove)
        case True
        with assms get send \<open>r = Ret n\<close> Ret have "delete_single iface k st2 = Some (Ret rep, st')"
          by (simp add: process_single_def)
        from pre [OF _ _ delete_single_called [OF this]] \<open>r = Ret n\<close> Ret True show ?thesis
          by (auto simp: processed_def stopped_def)
      next
        case False
        with assms get send \<open>r = Ret n\<close> Ret have "rep = Success" "st' = st2" by (simp_all add: process_single_def)
        with pre [OF _ _ called.no_call] \<open>r = Ret n\<close> Ret False show ?thesis by (auto simp: processed_def)
      qed
    next
      case Fail
      with assms get send \<open>r = Ret n\<close> have "rep \<noteq> Success" "st' = st2" by (auto simp: process_single_def)
      with called.retrieve [OF get _ called.deliver [OF send _ called.no_call]] \<open>r = Ret n\<close> Fail show ?thesis
        by (auto simp: stopped_def)
    qed (use assms get send Ret in \<open>simp add: process_single_def\<close>)
  next
    case Fail
    with assms get have "rep \<noteq> Success" "st' = st1" by (auto simp: process_single_def)
    with called.retrieve [OF get _ called.no_call] Fail show ?thesis by (auto simp: stopped_def)
  qed (use assms get in \<open>simp add: process_single_def\<close>)
qed

lemma each_processed:
  assumes "each_notification (process_single iface J http autoremove) ks st = Some (Ret rep, st')"
  shows "\<exists>kns es. called iface J http (concat (map (processed autoremove) kns) @ es) st st' \<and>
    map fst kns = take (length kns) ks \<and>
    (if rep = Success then es = [] \<and> length kns = length ks
     else length kns < length ks \<and> stopped autoremove (ks ! length kns) es)"
  using assms
proof (induction ks arbitrary: st)
  case Nil
  then show ?case by (auto intro: called.no_call)
next
  case (Cons k ks)
  from Cons.prems obtain r st1 where one: "process_single iface J http autoremove k st = Some (r, st1)"
    by (auto simp: Option.bind_eq_Some_conv)
  show ?case
  proof (cases "r = Ret Success")
    case True
    from process_single_called [OF one [unfolded True]] obtain n where
      first: "called iface J http (processed autoremove (k, n)) st st1" by auto
    from Cons.prems one True have "each_notification (process_single iface J http autoremove) ks st1 = Some (Ret rep, st')" by simp
    from Cons.IH [OF this] obtain kns es where rest: "called iface J http (concat (map (processed autoremove) kns) @ es) st1 st'"
      "map fst kns = take (length kns) ks"
      "if rep = Success then es = [] \<and> length kns = length ks else length kns < length ks \<and> stopped autoremove (ks ! length kns) es"
      by blast
    show ?thesis
      using called_append [OF first rest(1)] rest(2,3)
      by (intro exI [of _ "(k, n) # kns"] exI [of _ es]) (auto split: if_splits)
  next
    case False
    with Cons.prems one have "r = Ret rep" "st1 = st'" "rep \<noteq> Success" by auto
    with process_single_called one obtain es where "called iface J http es st st'" "stopped autoremove k es" by fastforce
    with \<open>rep \<noteq> Success\<close> show ?thesis by (intro exI [of _ "[]"] exI [of _ es]) auto
  qed
qed

text \<open>
  C11. No notification is lost. A run of \<open>notification process\<close> that ends makes exactly these calls, on the notifications
  of the card's list or those named by the operands: for one after the other it retrieves the notification,
  delivers it, and with \<open>-r\<close> removes it; so what is removed has been delivered just before, and it is the
  notification that was retrieved under that number. The first call that fails ends the run with exit code
  -1 and nothing after it is touched; the exit code is 0 exactly if all of them have been dealt with. With \<open>-a\<close> and a code other than 0 the
  list is then released twice (\<open>notification_main\<close>); in every other case the run ends with this code and report.
\<close>

theorem notification_process_calls:
  assumes "notification_run iface (process_single iface J http autoremove) all args st = Some (Ret (code, rep), st')"
  shows "notification_main iface (process_single iface J http autoremove) all args st =
      Some (if all \<and> code \<noteq> 0 then UB else Ret (code, rep), st') \<and>
    ((all \<and> to_card (es10b_list_notification iface) st = Some (Fail, st') \<and> code = -1 \<and>
      rep = Error (cstr ''es10b_list_notification'') None) \<or>
    (\<exists>ks st1 kns es.
      (if all then \<exists>l. to_card (es10b_list_notification iface) st = Some (Ret l, st1) \<and> ks = map (ucast \<circ> nm_seqNumber) l
       else st1 = st \<and> ks = seq_operands args) \<and>
      called iface J http (concat (map (processed autoremove) kns) @ es) st1 st' \<and>
      map fst kns = take (length kns) ks \<and>
      (if rep = Success then code = 0 \<and> es = [] \<and> length kns = length ks
       else code = -1 \<and> length kns < length ks \<and> stopped autoremove (ks ! length kns) es)))"
proof (rule conjI, goal_cases)
  case 1
  from assms show ?case by (simp add: notification_main_def)
next
  case 2
  have finish: "m = Some (Ret rep, st') \<and> code = (if rep = Success then 0 else -1)"
    if "map_option (\<lambda>(r, st). (cbind r (\<lambda>rep. Ret (if rep = Success then 0 else -1, rep)), st)) m = Some (Ret (code, rep), st')"
    for m
    using that by (auto simp: cbind_eq_Ret)
  show ?case
  proof (cases all)
    case False
    with assms finish have "each_notification (process_single iface J http autoremove) (seq_operands args) st = Some (Ret rep, st')"
      and "code = (if rep = Success then 0 else -1)" by (simp_all add: notification_run_def Let_def)
    with each_processed [OF this(1)] False show ?thesis by (intro disjI2) (metis (no_types, lifting))
  next
    case True
    with assms obtain r st1 where r: "to_card (es10b_list_notification iface) st = Some (r, st1)"
      by (auto simp: notification_run_def Let_def Option.bind_eq_Some_conv)
    show ?thesis
    proof (cases r)
      case (Ret l)
      with True assms r finish have "each_notification (process_single iface J http autoremove) (map (ucast \<circ> nm_seqNumber) l) st1 = Some (Ret rep, st')"
        and "code = (if rep = Success then 0 else -1)" by (simp_all add: notification_run_def Let_def)
      with each_processed [OF this(1)] True r Ret show ?thesis by (intro disjI2) (metis (no_types, lifting))
    qed (use True assms r in \<open>auto simp: notification_run_def\<close>)
  qed
qed

text \<open>A card that has nothing under the number 7.\<close>

theorem notification_process_calls_witness:
  "\<exists>ctx'. notification_main script_card (process_single script_card (demo_cjson demo_reply) (Some demo_http) True) False
      [cstr ''x'', cstr ''7''] (demo_ctx, [[0x90, 0]], []) =
    Some (Ret (-1, Error (cstr ''es10b_retrieve_notifications_list'') None), ctx', [], []) \<and>
   (\<exists>es. called script_card (demo_cjson demo_reply) (Some demo_http) es (demo_ctx, [[0x90, 0]], []) (ctx', [], []) \<and>
     stopped True 7 es)"
proof -
  have "card_gives script_card demo_ctx (tlv 0xBF2B (tlv 0xA0 (tlv 0x80 (long_bytes 7)))) [[] @ [0x90, 0]] [] []"
    using length_long_bytes [of 7] by (intro demo_gives) (simp_all add: length_tlv_exact)
  from retrieve_spec [OF script_card_small demo_ctx_wf this] obtain ctx' where
    get: "es10b_retrieve_notifications_list script_card 7 (demo_ctx, [[0x90, 0]]) = Some (Fail, ctx', [])"
    by (auto simp: pending_spec_def tlv_val_def tlv_find_def)
  have args: "seq_operands [cstr ''x'', cstr ''7''] = [7]"
    by (auto simp: seq_operands_def map_filter_def strtoul_def dec_parts_def dec_value_def cstr_def isspace_def isdigit_def)
  have run: "notification_run script_card (process_single script_card (demo_cjson demo_reply) (Some demo_http) True) False
      [cstr ''x'', cstr ''7''] (demo_ctx, [[0x90, 0]], []) =
    Some (Ret (-1, Error (cstr ''es10b_retrieve_notifications_list'') None), ctx', [], [])"
    by (simp add: notification_run_def args process_single_def to_card_def get)
  have no_list: "take (length kns) [7] = map fst kns \<and> length kns < length [7 :: u32] \<Longrightarrow> kns = []"
    for kns :: "(u32 \<times> es10b_pending_notification) list" by (cases kns) auto
  have "\<exists>es. called script_card (demo_cjson demo_reply) (Some demo_http) es (demo_ctx, [[0x90, 0]], []) (ctx', [], []) \<and>
      stopped True 7 es"
    using notification_process_calls [OF run]
  proof (elim disjE exE conjE, goal_cases)
    case (2 ks st1 kns es)
    then have "st1 = (demo_ctx, [[0x90, 0]], [])" "ks = [7]" "kns = []" using no_list [of kns] by (simp_all add: args)
    with 2 show ?case by (auto simp: args)
  qed simp
  moreover have "notification_main script_card (process_single script_card (demo_cjson demo_reply) (Some demo_http) True) False
      [cstr ''x'', cstr ''7''] (demo_ctx, [[0x90, 0]], []) =
    Some (Ret (-1, Error (cstr ''es10b_retrieve_notifications_list'') None), ctx', [], [])"
    using notification_process_calls [OF run] by simp
  ultimately show ?thesis by blast
qed

end
