(* ===== verification/Driver_At.thy ===== *)
theory Driver_At
  imports Utils Hexutil Euicc
begin

text \<open>
  The drivers for modems with AT commands: the serial line (\<open>driver/apdu/at_cmd_unix.c\<close>), the table of logical channels
  (\<open>at_helpers.c\<close>) and the two drivers on top of them, \<open>at_etsi.c\<close> (\<open>AT+CGLA\<close>) and \<open>at_etsi_csim.c\<close> (\<open>AT+CSIM\<close>).
  The serial port is a part of the state: what \<open>poll\<close> and \<open>read\<close> will give, as a list of events, and what has been
  written. Where the events are used up the code waits for ever, which is \<open>None\<close>. Debug output is left out.
\<close>

subsection \<open>The serial line\<close>

text \<open>
  \<open>Chunk bs\<close>: \<open>read\<close> finds the bytes \<open>bs\<close> and takes as many as there is room for. \<open>NoInput\<close>: \<open>poll\<close> returns without
  \<open>POLLIN\<close>. \<open>PortError\<close>: \<open>poll\<close> fails, or \<open>read\<close> gives nothing.
\<close>

datatype port_event = Chunk "byte list" | NoInput | PortError

record at_userdata =
  fd_open :: bool
  at_read_buffer :: "byte list"
  channels :: "cstr option list"
  port_in :: "port_event list"
  port_out :: "byte list"
  port_writable :: bool

definition AT_BUFFER_SIZE :: nat where "AT_BUFFER_SIZE = 20480"

definition AT_MAX_LOGICAL_CHANNELS :: nat where "AT_MAX_LOGICAL_CHANNELS = 20"

definition at_write_command :: "cstr \<Rightarrow> at_userdata \<Rightarrow> unit cres \<times> at_userdata" where
  "at_write_command command u =
     (if \<not> fd_open u then (Fail, u)
      else if \<not> port_writable u then (Fail, u)
      else (Ret (), u\<lparr>port_out := port_out u @ command\<rparr>))"

text \<open>What \<open>line\<close> holds as a string after it was cut at the first CR.\<close>

definition at_line :: "byte list \<Rightarrow> cstr" where
  "at_line bs = takeWhile (\<lambda>c. c \<noteq> 0x0D) (cstr_of bs)"

text \<open>What a line does: go on, perhaps with what was found, or end with a result.\<close>

definition at_line_found :: "cstr option \<Rightarrow> cstr \<Rightarrow> cstr option \<Rightarrow> cstr option" where
  "at_line_found expected line found =
     (case expected of
        None \<Rightarrow> found
      | Some e \<Rightarrow>
          if take (length e) line = e then Some (dropWhile (\<lambda>c. c = 0x20) (drop (length e) line)) else found)"

fun event_size :: "port_event \<Rightarrow> nat" where
  "event_size (Chunk bs) = Suc (length bs)"
| "event_size NoInput = 1"
| "event_size PortError = 1"

definition port_size :: "at_userdata \<Rightarrow> nat" where
  "port_size u = sum_list (map event_size (port_in u))"

text \<open>The loop of \<open>at_expect\<close>; the result is whether it is 0.\<close>

function at_expect_loop ::
  "cstr option \<Rightarrow> cstr option \<Rightarrow> at_userdata \<Rightarrow> ((bool \<times> cstr option) \<times> at_userdata) option" where
  "at_expect_loop expected found u =
     (let pos = length (takeWhile (\<lambda>c. c \<noteq> 0x0A) (at_read_buffer u)) in
      if pos = length (at_read_buffer u) then
        if length (at_read_buffer u) \<ge> AT_BUFFER_SIZE then Some ((False, found), u\<lparr>at_read_buffer := []\<rparr>)
        else (case port_in u of
            [] \<Rightarrow> None
          | PortError # evs \<Rightarrow> Some ((False, found), u\<lparr>port_in := evs\<rparr>)
          | NoInput # evs \<Rightarrow> at_expect_loop expected found (u\<lparr>port_in := evs\<rparr>)
          | Chunk bs # evs \<Rightarrow>
              if bs = [] then Some ((False, found), u\<lparr>port_in := evs\<rparr>)
              else let n = min (length bs) (AT_BUFFER_SIZE - length (at_read_buffer u)) in
                at_expect_loop expected found
                  (u\<lparr>at_read_buffer := at_read_buffer u @ take n bs,
                    port_in := (if n < length bs then Chunk (drop n bs) # evs else evs)\<rparr>))
      else
        let line_len = (if pos \<ge> AT_BUFFER_SIZE then AT_BUFFER_SIZE - 1 else pos);
            line = at_line (take line_len (at_read_buffer u));
            u = u\<lparr>at_read_buffer := drop (pos + 1) (at_read_buffer u)\<rparr>
        in if line = [] then at_expect_loop expected found u
           else if line = cstr ''ERROR'' then Some ((False, found), u)
           else if line = cstr ''OK'' then Some ((True, found), u)
           else at_expect_loop expected (at_line_found expected line found) u)"
  by pat_completeness auto
termination
proof (relation "measures [\<lambda>(e, f, u). port_size u, \<lambda>(e, f, u). length (at_read_buffer u)]", goal_cases)
  case (2 expected found u pos ev evs bs n)
  then have "bs \<noteq> []" "length (at_read_buffer u) < AT_BUFFER_SIZE" by simp_all
  then have "0 < n" using 2 by simp
  with 2 show ?case by (auto simp: port_size_def)
next
  case (4 expected found u pos line_len line u')
  then have "at_read_buffer u \<noteq> []" by auto
  with 4 show ?case by (auto simp: port_size_def)
next
  case (5 expected found u pos line_len line u')
  then have "at_read_buffer u \<noteq> []" by auto
  with 5 show ?case by (auto simp: port_size_def)
qed (auto simp: port_size_def)

declare at_expect_loop.simps [simp del]

text \<open>\<open>NULL\<close> for the response where none was found or the result is not 0.\<close>

definition at_expect :: "cstr option \<Rightarrow> at_userdata \<Rightarrow> ((bool \<times> cstr option) \<times> at_userdata) option" where
  "at_expect expected u =
     map_option (\<lambda>((ok, found), u). ((ok, if ok then found else None), u)) (at_expect_loop expected None u)"

text \<open>\<open>opens\<close>: whether \<open>open\<close> and the settings of the line succeed.\<close>

definition at_device_close :: "at_userdata \<Rightarrow> at_userdata" where
  "at_device_close u = u\<lparr>fd_open := False\<rparr>"

definition at_device_open :: "bool \<Rightarrow> at_userdata \<Rightarrow> unit cres \<times> at_userdata" where
  "at_device_open opens u =
     (let u = (if fd_open u then at_device_close u else u) in
      if \<not> opens then (Fail, u\<lparr>fd_open := False\<rparr>)
      else (Ret (), u\<lparr>fd_open := True, at_read_buffer := []\<rparr>))"

definition at_setup_userdata :: "port_event list \<Rightarrow> bool \<Rightarrow> at_userdata" where
  "at_setup_userdata events writable =
     \<lparr>fd_open = False, at_read_buffer = [], channels = replicate (AT_MAX_LOGICAL_CHANNELS + 1) None,
      port_in = events, port_out = [], port_writable = writable\<rparr>"

subsection \<open>\<open>at_helpers.c\<close>\<close>

definition at_channel_get :: "at_userdata \<Rightarrow> int \<Rightarrow> cstr option cres" where
  "at_channel_get u index =
     (if index \<le> 0 \<or> index > int AT_MAX_LOGICAL_CHANNELS then Ret None else cload (channels u) (nat index))"

definition at_channel_set :: "at_userdata \<Rightarrow> int \<Rightarrow> cstr option \<Rightarrow> at_userdata cres" where
  "at_channel_set u index identifier =
     (if index \<le> 0 \<or> index > int AT_MAX_LOGICAL_CHANNELS then Fail
      else cbind (cstore (channels u) (nat index) identifier) (\<lambda>cs. Ret (u\<lparr>channels := cs\<rparr>)))"

text \<open>\<open>n\<close> entries are left to look at.\<close>

fun at_channel_scan :: "cstr option list \<Rightarrow> nat \<Rightarrow> nat \<Rightarrow> nat cres" where
  "at_channel_scan cs index 0 = Ret index"
| "at_channel_scan cs index (Suc n) =
     cbind (cload cs index) (\<lambda>c. if c \<noteq> None then at_channel_scan cs (index + 1) n else Ret index)"

definition at_channel_next_id :: "at_userdata \<Rightarrow> int cres" where
  "at_channel_next_id u =
     cbind (at_channel_scan (channels u) 1 AT_MAX_LOGICAL_CHANNELS) (\<lambda>index.
     Ret (if index > AT_MAX_LOGICAL_CHANNELS then -1 else int index))"

definition at_emit_command :: "cstr \<Rightarrow> at_userdata \<Rightarrow> unit cres \<times> at_userdata" where
  "at_emit_command formatted u = at_write_command (formatted @ [0x0D, 0x0A]) u"

subsection \<open>What both drivers do with an answer\<close>

type_synonym 'a at_result = "('a cres \<times> at_userdata) option"

text \<open>
  \<open>strtok(response, ","); response = strtok(NULL, ",")\<close>: fields are separated by one or more commas. \<open>None\<close> is \<open>NULL\<close>,
  which the code hands to \<open>strlen\<close>.
\<close>

definition second_field :: "cstr \<Rightarrow> cstr option" where
  "second_field s =
     (let comma = (\<lambda>c. c = of_char CHR '','');
          rest = dropWhile comma (dropWhile (\<lambda>c. \<not> comma c) (dropWhile comma s))
      in if rest = [] then None else Some (takeWhile (\<lambda>c. \<not> comma c) rest))"

definition unquote :: "cstr \<Rightarrow> cstr cres" where
  "unquote r =
     (if r = [] then UB
      else if hd r = of_char CHR ''\"'' \<and> last r = of_char CHR ''\"'' then
        if length r < 2 then UB else Ret (take (length r - 2) (tl r))
      else Ret r)"

definition at_answer_bytes :: "cstr \<Rightarrow> byte list cres" where
  "at_answer_bytes response =
     (case second_field response of
        None \<Rightarrow> UB
      | Some field \<Rightarrow>
          cbind (unquote field) (\<lambda>r.
          let rx_len = strlen r div 2 in
          cbind (euicc_hexutil_hex2bin_r (replicate (unat rx_len) 0) rx_len r (strlen r)) (\<lambda>(ret, rx).
          Ret (take ret rx))))"

text \<open>Send a command with \<open>%u,"%s"\<close> for the APDU, and take the bytes of the answer.\<close>

definition at_exchange :: "cstr \<Rightarrow> cstr \<Rightarrow> byte list \<Rightarrow> at_userdata \<Rightarrow> byte list at_result" where
  "at_exchange command expected tx u =
     (let tx_len = of_nat (length tx) :: u32 in
      case euicc_hexutil_bin2hex (replicate (unat (tx_len * 2 + 1)) 0) (tx_len * 2 + 1) tx tx_len of
        UB \<Rightarrow> Some (UB, u)
      | Fail \<Rightarrow> Some (UB, u)
      | Ret (_, encoded) \<Rightarrow>
          let u = snd (at_emit_command
                (command @ fmt_u (unat (tx_len * 2)) @ cstr '',\"'' @ cstr_of encoded @ cstr ''\"'') u)
          in Option.bind (at_expect (Some expected) u) (\<lambda>((ok, response), u).
             case response of
               None \<Rightarrow> Some (Fail, u)
             | Some r \<Rightarrow> if \<not> ok then Some (Fail, u) else Some (at_answer_bytes r, u)))"

text \<open>Send a command without an answer of interest; the result is whether it was \<open>OK\<close>.\<close>

definition at_simple :: "cstr \<Rightarrow> at_userdata \<Rightarrow> (bool \<times> at_userdata) option" where
  "at_simple command u =
     map_option (\<lambda>((ok, _), u). (ok, u)) (at_expect None (snd (at_emit_command command u)))"

fun at_check_commands :: "cstr list \<Rightarrow> at_userdata \<Rightarrow> (bool \<times> at_userdata) option" where
  "at_check_commands [] u = Some (True, u)"
| "at_check_commands (c # cs) u =
     Option.bind (at_simple c u) (\<lambda>(ok, u). if ok then at_check_commands cs u else Some (False, u))"

text \<open>The number that is returned: -1, \<open>false\<close> or \<open>true\<close>.\<close>

definition at_connect :: "cstr list \<Rightarrow> bool \<Rightarrow> at_userdata \<Rightarrow> (int \<times> at_userdata) option" where
  "at_connect commands opens u =
     (case at_device_open opens u of
        (Ret _, u) \<Rightarrow> map_option (\<lambda>(ok, u). (if ok then 1 else 0, u)) (at_check_commands commands u)
      | (_, u) \<Rightarrow> Some (-1, u))"

subsection \<open>\<open>at_etsi.c\<close>\<close>

definition etsi_connect :: "bool \<Rightarrow> at_userdata \<Rightarrow> (int \<times> at_userdata) option" where
  "etsi_connect = at_connect [cstr ''AT'', cstr ''AT+CCHO=?'', cstr ''AT+CCHC=?'', cstr ''AT+CGLA=?'']"

definition etsi_disconnect :: "u32 \<Rightarrow> at_userdata \<Rightarrow> at_userdata cres" where
  "etsi_disconnect ch u =
     (case at_channel_set u (sint ch) None of
        Ret u \<Rightarrow> Ret (at_device_close u)
      | Fail \<Rightarrow> Ret (at_device_close u)
      | UB \<Rightarrow> UB)"

text \<open>The identifier of the channel goes to \<open>%s\<close> unchecked.\<close>

definition etsi_transmit :: "u32 \<Rightarrow> byte list \<Rightarrow> at_userdata \<Rightarrow> byte list at_result" where
  "etsi_transmit ch tx u =
     (case at_channel_get u (sint ch) of
        Ret (Some identifier) \<Rightarrow> at_exchange (cstr ''AT+CGLA='' @ identifier @ cstr '','') (cstr ''+CGLA: '') tx u
      | _ \<Rightarrow> Some (UB, u))"

text \<open>Close the channels of the table, \<open>n\<close> entries from \<open>index\<close> on.\<close>

fun etsi_close_all :: "nat \<Rightarrow> nat \<Rightarrow> at_userdata \<Rightarrow> unit at_result" where
  "etsi_close_all index 0 u = Some (Ret (), u)"
| "etsi_close_all index (Suc n) u =
     (case cload (channels u) index of
        Ret (Some c) \<Rightarrow>
          Option.bind (at_simple (cstr ''AT+CCHC='' @ c) u) (\<lambda>(_, u). etsi_close_all (index + 1) n u)
      | Ret None \<Rightarrow> etsi_close_all (index + 1) n u
      | _ \<Rightarrow> Some (UB, u))"

definition etsi_logic_channel_open :: "byte list \<Rightarrow> byte \<Rightarrow> at_userdata \<Rightarrow> int at_result" where
  "etsi_logic_channel_open a a_len u =
     (case euicc_hexutil_bin2hex (replicate (2 * unat a_len + 1) 0) (2 * ucast a_len + 1) a (ucast a_len) of
        Ret (_, aid_hex) \<Rightarrow>
          Option.bind (etsi_close_all 0 AT_MAX_LOGICAL_CHANNELS u) (\<lambda>(r, u). case r of
            Ret _ \<Rightarrow>
              Option.bind (at_expect (Some (cstr ''+CCHO: ''))
                  (snd (at_emit_command (cstr ''AT+CCHO=\"'' @ cstr_of aid_hex @ cstr ''\"'') u)))
                (\<lambda>((ok, response), u). case response of
                   None \<Rightarrow> Some (Fail, u)
                 | Some identifier \<Rightarrow>
                     if \<not> ok then Some (Fail, u)
                     else case at_channel_next_id u of
                       Ret channel_id \<Rightarrow>
                         (case at_channel_set u channel_id (Some identifier) of
                            Ret u \<Rightarrow> Some (Ret channel_id, u)
                          | Fail \<Rightarrow> Some (Fail, u)
                          | UB \<Rightarrow> Some (UB, u))
                     | _ \<Rightarrow> Some (UB, u))
          | _ \<Rightarrow> Some (UB, u))
      | _ \<Rightarrow> Some (UB, u))"

definition etsi_logic_channel_close :: "byte \<Rightarrow> at_userdata \<Rightarrow> unit at_result" where
  "etsi_logic_channel_close channel u =
     (case at_channel_get u (uint channel) of
        Ret None \<Rightarrow> Some (Ret (), u)
      | Ret (Some identifier) \<Rightarrow>
          Option.bind (at_simple (cstr ''AT+CCHC='' @ identifier) u) (\<lambda>(_, u).
          case at_channel_set u (uint channel) None of
            Ret u \<Rightarrow> Some (Ret (), u)
          | Fail \<Rightarrow> Some (Ret (), u)
          | UB \<Rightarrow> Some (UB, u))
      | _ \<Rightarrow> Some (UB, u))"

subsection \<open>\<open>at_etsi_csim.c\<close>\<close>

definition csim_connect :: "bool \<Rightarrow> at_userdata \<Rightarrow> (int \<times> at_userdata) option" where
  "csim_connect = at_connect [cstr ''AT'', cstr ''AT+CSIM=?'']"

definition csim_transmit :: "byte list \<Rightarrow> at_userdata \<Rightarrow> byte list at_result" where
  "csim_transmit tx u = at_exchange (cstr ''AT+CSIM='') (cstr ''+CSIM: '') tx u"

definition csim_logic_channel_open :: "byte list \<Rightarrow> byte \<Rightarrow> at_userdata \<Rightarrow> int at_result" where
  "csim_logic_channel_open a a_len u =
     (if length a < unat a_len then Some (UB, u)
      else Option.bind (csim_transmit [0x00, 0x70, 0x00, 0x00, 0x01] u) (\<lambda>(r, u). case r of
          UB \<Rightarrow> Some (UB, u)
        | Fail \<Rightarrow> Some (Fail, u)
        | Ret resp \<Rightarrow>
            if length resp \<noteq> 3 \<or> resp ! 1 \<noteq> 0x90 \<or> resp ! 2 \<noteq> 0x00 then Some (Fail, u)
            else let channel_byte = resp ! 0;
                     select_cmd = [channel_byte, 0xA4, 0x04, 0x00, a_len] @ take (unat a_len) a
              in Option.bind (csim_transmit select_cmd u) (\<lambda>(r, u). case r of
                UB \<Rightarrow> Some (UB, u)
              | Fail \<Rightarrow> Some (Fail, u)
              | Ret resp \<Rightarrow>
                  if length resp < 2 \<or> (resp ! (length resp - 2) \<noteq> 0x90 \<and> resp ! (length resp - 2) \<noteq> 0x61) then Some (Fail, u)
                  else Some (Ret (uint channel_byte), u))))"

definition csim_logic_channel_close :: "byte \<Rightarrow> at_userdata \<Rightarrow> unit at_result" where
  "csim_logic_channel_close channel u =
     map_option (\<lambda>(r, u). (if r = UB then UB else Ret (), u)) (csim_transmit [0x00, 0x70, 0x80, channel, 0x00] u)"


subsection \<open>The interfaces\<close>

text \<open>
  \<open>libapduinterface_init\<close> of both files. The type of a driver has no place for a call that waits for ever or is undefined;
  such a call is shown as a failure, and what is stated of these records is about calls that succeed. The table of the first
  driver needs the channel of the context when it disconnects.
\<close>

definition at_call :: "'a at_result \<Rightarrow> at_userdata \<Rightarrow> 'a option \<times> at_userdata" where
  "at_call r u = (case r of Some (Ret a, u) \<Rightarrow> (Some a, u) | Some (_, u) \<Rightarrow> (None, u) | None \<Rightarrow> (None, u))"

definition at_call_int :: "int at_result \<Rightarrow> at_userdata \<Rightarrow> int \<times> at_userdata" where
  "at_call_int r u = (case at_call r u of (Some n, u) \<Rightarrow> (n, u) | (None, u) \<Rightarrow> (-1, u))"

definition etsi_interface :: "bool \<Rightarrow> u32 \<Rightarrow> at_userdata euicc_apdu_interface" where
  "etsi_interface opens ch =
     \<lparr>if_connect = (\<lambda>u. case etsi_connect opens u of None \<Rightarrow> (-1, u) | Some r \<Rightarrow> r),
      if_disconnect = (\<lambda>u. case etsi_disconnect ch u of Ret u \<Rightarrow> u | _ \<Rightarrow> u),
      if_logic_channel_open = (\<lambda>a n u. at_call_int (etsi_logic_channel_open a n u) u),
      if_logic_channel_close = (\<lambda>channel u. snd (at_call (etsi_logic_channel_close channel u) u)),
      if_transmit = (\<lambda>ch tx u. at_call (etsi_transmit ch tx u) u)\<rparr>"

definition csim_interface :: "bool \<Rightarrow> at_userdata euicc_apdu_interface" where
  "csim_interface opens =
     \<lparr>if_connect = (\<lambda>u. case csim_connect opens u of None \<Rightarrow> (-1, u) | Some r \<Rightarrow> r),
      if_disconnect = at_device_close,
      if_logic_channel_open = (\<lambda>a n u. at_call_int (csim_logic_channel_open a n u) u),
      if_logic_channel_close = (\<lambda>channel u. snd (at_call (csim_logic_channel_close channel u) u)),
      if_transmit = (\<lambda>ch tx u. at_call (csim_transmit tx u) u)\<rparr>"

end
