(* ===== verification/Driver_Contract.thy ===== *)
theory Driver_Contract
  imports Apdu_Card Apdu_Props Hexutil
begin

text \<open>
  What the APDU layer needs of a driver, as a locale: a driver carries the exchange with a card when each answer
  of the card comes out of the driver's \<open>transmit\<close> unchanged. Whole commands then give over the driver what they
  give with the card itself. The locale is interpreted for each driver that is modelled.
\<close>

subsection \<open>The contract\<close>

text \<open>
  \<open>R\<close> relates the driver's state with the card's; \<open>limit\<close> is the longest APDU the driver takes. Nothing is promised where
  the card does not answer: a driver may fail then, or wait.
\<close>

locale apdu_carrier =
  fixes iface :: "'d euicc_apdu_interface" and card :: "'c euicc_apdu_interface"
    and R :: "'d \<Rightarrow> 'c \<Rightarrow> bool" and ch :: u32 and limit :: nat
  assumes carries: "R d c \<Longrightarrow> length tx \<le> limit \<Longrightarrow> if_transmit card ch tx c = (Some rx, c') \<Longrightarrow>
    \<exists>d'. if_transmit iface ch tx d = (Some rx, d') \<and> R d' c'"
    and limit: "5 \<le> limit"
begin

lemma answer_carried:
  assumes "card_answer card ch tx c = (Some response, c')" "R d c" "length tx \<le> limit"
  shows "\<exists>d'. card_answer iface ch tx d = (Some response, d') \<and> R d' c'"
proof -
  from assms(1) obtain rx where rx: "if_transmit card ch tx c = (Some rx, c')" "\<not> length rx < 2"
    by (auto simp: card_answer_def split: prod.splits option.splits if_splits)
  from carries [OF assms(2,3) rx(1)] obtain d' where "if_transmit iface ch tx d = (Some rx, d')" "R d' c'" by blast
  with rx assms(1) show ?thesis by (auto simp: card_answer_def)
qed

lemma collects_carried:
  assumes "collects card ch cb response u c r c'" "r = Ret v" "R d c"
  shows "\<exists>d'. collects iface ch cb response u d (Ret v) d' \<and> R d' c'"
  using assms
proof (induction arbitrary: d)
  case (finished response u u' c)
  then show ?case by (auto intro: collects.finished)
next
  case (more response u u' c response' c1 r c2)
  from answer_carried [OF more.hyps(3) more.prems(2)] limit obtain d1 where
    d1: "card_answer iface ch (get_response ch (r_sw2 response)) d = (Some response', d1)" "R d1 c1" by auto
  from more.IH [OF more.prems(1) d1(2)] obtain d2 where
    "collects iface ch cb response' u' d1 (Ret v) d2" "R d2 c2" by blast
  with more.hyps(1,2) d1(1) show ?case by (auto intro: collects.more)
qed simp_all

lemma exchanges_carried:
  assumes "exchanges card ch cb apdus u c r c'" "r = Ret v" "R d c" "\<forall>a \<in> set apdus. length a \<le> limit"
  shows "\<exists>d'. exchanges iface ch cb apdus u d (Ret v) d' \<and> R d' c'"
  using assms
proof (induction arbitrary: d)
  case (all_sent u c)
  then show ?case by (auto intro: exchanges.all_sent)
next
  case (answered apdu c response c1 u u' c2 apdus r c3)
  from answer_carried [OF answered.hyps(1) answered.prems(2)] answered.prems(3) obtain d1 where
    d1: "card_answer iface ch apdu d = (Some response, d1)" "R d1 c1" by auto
  from collects_carried [OF answered.hyps(2) refl d1(2)] obtain d2 where
    d2: "collects iface ch cb response u d1 (Ret u') d2" "R d2 c2" by blast
  from answered.IH [OF answered.prems(1) d2(2)] answered.prems(3) obtain d3 where
    "exchanges iface ch cb apdus u' d2 (Ret v) d3" "R d3 c3" by auto
  with d1(1) d2(1) show ?case by (auto intro: exchanges.answered)
qed auto

end

lemma length_segments: "a \<in> set (segments ch mss seq req) \<Longrightarrow> length a \<le> mss + 5"
proof (induction ch mss seq req rule: segments.induct)
  case (1 ch mss seq bs)
  then show ?case by (subst (asm) (2) segments.simps) (auto simp: store_data_def split: if_splits)
qed

context apdu_carrier
begin

text \<open>A whole command.\<close>

lemma command_carried:
  assumes "small_answers iface" "wf_ctx ctx" "es10x_mss ctx \<noteq> 0" "length req < 4294967296" "src_request ctx src req"
    "length resp < 4294967296"
    and "logic_channel ctx = ch" "unat (es10x_mss ctx) + 5 \<le> limit" "R d c" "card_gives card ctx req c resp c'"
  shows "\<exists>ctx' d'. es10x_command iface src (of_nat (length req)) (ctx, d) = Some (Ret (resp, of_nat (length resp)), ctx', d') \<and>
    R d' c'"
proof -
  have "\<forall>a \<in> set (segments ch (unat (es10x_mss ctx)) 0 req). length a \<le> limit"
    using assms(8) by (meson length_segments le_trans)
  then obtain d' where "card_gives iface ctx req d resp d'" "R d' c'"
    using exchanges_carried [OF assms(10) [unfolded card_gives_def assms(7)] refl assms(9)] by (auto simp: card_gives_def assms(7))
  with es10x_command_gives [OF assms(1-6)] show ?thesis by blast
qed

end

subsection \<open>A card that keeps a record\<close>

text \<open>The answers still to come, and the APDUs that were received.\<close>

record card_log =
  to_say :: "byte list list"
  heard :: "byte list list"

definition log_card :: "card_log euicc_apdu_interface" where
  "log_card = \<lparr>
     if_connect = (\<lambda>d. (0, d)), if_disconnect = (\<lambda>d. d),
     if_logic_channel_open = (\<lambda>a n d. (1, d)), if_logic_channel_close = (\<lambda>c d. d),
     if_transmit = (\<lambda>ch tx d. case to_say d of [] \<Rightarrow> (None, d\<lparr>heard := heard d @ [tx]\<rparr>)
       | rx # rest \<Rightarrow> (Some rx, d\<lparr>to_say := rest, heard := heard d @ [tx]\<rparr>))\<rparr>"

lemma log_card_transmit:
  "if_transmit log_card ch tx d = (Some rx, d') \<longleftrightarrow>
    (\<exists>rest. to_say d = rx # rest \<and> d' = d\<lparr>to_say := rest, heard := heard d @ [tx]\<rparr>)"
  by (auto simp: log_card_def split: list.splits)


text \<open>A command with an answer in two parts, for the examples.\<close>

definition demo_answers :: "byte list list" where
  "demo_answers = [[7, 0x61, 1], [8, 0x90, 0]]"

definition demo_apdus :: "byte list list" where
  "demo_apdus = [store_data 1 0x91 0 [1, 2], get_response 1 1]"

text \<open>\<open>f\<close> is what the way to the card does to an APDU.\<close>

lemma demo_card_gives_via:
  assumes "\<And>tx c rx rest. to_say c = rx # rest \<Longrightarrow> length rx = 3 \<Longrightarrow>
    if_transmit iface 1 tx c = (Some rx, c\<lparr>to_say := rest, heard := heard c @ [f tx]\<rparr>)"
  shows "card_gives iface script_ctx [1, 2] \<lparr>to_say = demo_answers, heard = []\<rparr> [7, 8] \<lparr>to_say = [], heard = map f demo_apdus\<rparr>"
proof -
  let ?r1 = "\<lparr>r_data = [7, 0x61, 1], r_length = 1, r_sw1 = 0x61, r_sw2 = 1\<rparr>"
  let ?r2 = "\<lparr>r_data = [8, 0x90, 0], r_length = 1, r_sw1 = 0x90, r_sw2 = 0\<rparr>"
  let ?c1 = "\<lparr>to_say = [[8, 0x90, 0]], heard = [f (store_data 1 0x91 0 [1, 2])]\<rparr>"
  let ?c2 = "\<lparr>to_say = [], heard = map f demo_apdus\<rparr>"
  have a1: "card_answer iface 1 (store_data 1 0x91 0 [1, 2]) \<lparr>to_say = demo_answers, heard = []\<rparr> = (Some ?r1, ?c1)"
    using assms [of "\<lparr>to_say = demo_answers, heard = []\<rparr>"] by (simp add: card_answer_def demo_answers_def)
  have a2: "card_answer iface 1 (get_response 1 1) ?c1 = (Some ?r2, ?c2)"
    using assms [of ?c1] by (simp add: card_answer_def demo_apdus_def)
  have "collects iface 1 append_response ?r2 [7] ?c2 (Ret [7, 8]) ?c2"
    by (rule collects.finished) (simp_all add: deliver_def append_response_def SW1_LAST_def SW1_OK_def)
  then have "collects iface 1 append_response ?r1 [] ?c1 (Ret [7, 8]) ?c2"
    by (rule collects.more [rotated 3]) (simp_all add: deliver_def append_response_def SW1_LAST_def a2)
  then have "exchanges iface 1 append_response [store_data 1 0x91 0 [1, 2]] [] \<lparr>to_say = demo_answers, heard = []\<rparr> (Ret [7, 8]) ?c2"
    using a1 by (blast intro: exchanges.answered exchanges.all_sent)
  moreover have "segments 1 2 0 [1, 2] = [store_data 1 0x91 0 [1, 2]]" by (simp add: segments.simps)
  ultimately show ?thesis by (simp add: card_gives_def script_ctx_def)
qed

lemmas demo_card_gives = demo_card_gives_via [where f = "\<lambda>tx. tx", simplified list.map_ident]

subsection \<open>Hexadecimal text in both directions\<close>

text \<open>The drivers decode a string into a block of half its length.\<close>

lemma hex2bin_all:
  assumes "length s < 4294967296"
  shows "euicc_hexutil_hex2bin_r (replicate (unat (strlen s div 2)) 0) (strlen s div 2) s (strlen s) =
    (case unhex s of None \<Rightarrow> Fail | Some bs \<Rightarrow> Ret (length bs, bs))"
proof -
  have len: "unat (strlen s) = length s" "unat (strlen s div 2) = length s div 2"
    using assms by (simp_all add: strlen_def unat_div)
  moreover have "unhex s = None" if "odd (length s)" using that length_unhex [of s] by (cases "unhex s") auto
  ultimately show ?thesis
    by (subst euicc_hexutil_hex2bin_r_eq) (auto simp: slice_ok_def slice_bytes_def split: option.splits dest: length_unhex)
qed

lemma hex_of_plain: "list_all isxdigit (hex_of bs)"
  by (induction bs) simp_all

end
