(* ===== verification/At_Props.thy ===== *)
theory At_Props
  imports Driver_At Driver_Contract
begin

text \<open>
  The properties of the AT drivers: reading lines does not depend on how the port cuts the bytes, an exchange gives
  the bytes the modem reports, and the table of channels.
\<close>

subsection \<open>Reading lines\<close>

text \<open>What is still to be read, in the buffer and at the port.\<close>

fun event_bytes :: "port_event \<Rightarrow> byte list" where
  "event_bytes (Chunk bs) = bs"
| "event_bytes NoInput = []"
| "event_bytes PortError = []"

definition at_stream :: "at_userdata \<Rightarrow> byte list" where
  "at_stream u = at_read_buffer u @ concat (map event_bytes (port_in u))"

text \<open>The port works, and the buffer has not more than it can hold.\<close>

definition port_ok :: "at_userdata \<Rightarrow> bool" where
  "port_ok u \<longleftrightarrow> length (at_read_buffer u) \<le> AT_BUFFER_SIZE \<and> (\<forall>e \<in> set (port_in u). e \<noteq> PortError \<and> e \<noteq> Chunk [])"

text \<open>Any run of bytes without an LF fits the buffer.\<close>

definition short_lines :: "byte list \<Rightarrow> bool" where
  "short_lines bs \<longleftrightarrow> (\<forall>xs ys zs. bs = xs @ ys @ zs \<longrightarrow> 0x0A \<notin> set ys \<longrightarrow> length ys < AT_BUFFER_SIZE)"

text \<open>The answer in a sequence of bytes: one line after the other, until one says \<open>OK\<close> or \<open>ERROR\<close>.\<close>

function at_answer :: "cstr option \<Rightarrow> cstr option \<Rightarrow> byte list \<Rightarrow> ((bool \<times> cstr option) \<times> byte list) option" where
  "at_answer expected found bs =
     (if 0x0A \<notin> set bs then None
      else let line = at_line (takeWhile (\<lambda>c. c \<noteq> 0x0A) bs); rest = tl (dropWhile (\<lambda>c. c \<noteq> 0x0A) bs) in
        if line = [] then at_answer expected found rest
        else if line = cstr ''ERROR'' then Some ((False, found), rest)
        else if line = cstr ''OK'' then Some ((True, found), rest)
        else at_answer expected (at_line_found expected line found) rest)"
  by pat_completeness auto
termination
proof (relation "measure (\<lambda>(e, f, bs). length bs)", goal_cases)
  case (2 expected found bs line rest)
  then have "dropWhile (\<lambda>c. c \<noteq> 0x0A) bs \<noteq> []" by auto
  with 2 length_dropWhile_le [of "\<lambda>c. c \<noteq> 0x0A" bs] show ?case by (cases "dropWhile (\<lambda>c. c \<noteq> 0x0A) bs") auto
next
  case (3 expected found bs line rest)
  then have "dropWhile (\<lambda>c. c \<noteq> 0x0A) bs \<noteq> []" by auto
  with 3 length_dropWhile_le [of "\<lambda>c. c \<noteq> 0x0A" bs] show ?case by (cases "dropWhile (\<lambda>c. c \<noteq> 0x0A) bs") auto
qed simp

declare at_answer.simps [simp del]

lemma short_lines_suffix: "short_lines (xs @ ys) \<Longrightarrow> short_lines ys"
  unfolding short_lines_def by (metis append_assoc)

lemma at_answer_line:
  assumes "0x0A \<notin> set l"
  shows "at_answer expected found (l @ 0x0A # rest) =
    (let line = at_line l in
     if line = [] then at_answer expected found rest
     else if line = cstr ''ERROR'' then Some ((False, found), rest)
     else if line = cstr ''OK'' then Some ((True, found), rest)
     else at_answer expected (at_line_found expected line found) rest)"
proof -
  have "takeWhile (\<lambda>c. c \<noteq> 0x0A) (l @ 0x0A # rest) = l" "dropWhile (\<lambda>c. c \<noteq> 0x0A) (l @ 0x0A # rest) = 0x0A # rest"
    using assms by (simp_all add: takeWhile_append dropWhile_append)
  then show ?thesis by (subst at_answer.simps) (simp add: Let_def)
qed

definition answers :: "cstr option \<Rightarrow> cstr option \<Rightarrow> at_userdata \<Rightarrow> bool" where
  "answers expected found u \<longleftrightarrow>
     (case at_answer expected found (at_stream u) of
        None \<Rightarrow> at_expect_loop expected found u = None
      | Some (r, rest) \<Rightarrow> \<exists>buf evs. let u' = u\<lparr>at_read_buffer := buf, port_in := evs\<rparr> in
          at_expect_loop expected found u = Some (r, u') \<and> port_ok u' \<and> at_stream u' = rest)"

lemma answers_step:
  assumes "at_expect_loop expected found u = at_expect_loop expected found' (u\<lparr>at_read_buffer := buf, port_in := evs\<rparr>)"
    and "at_answer expected found (at_stream u) = at_answer expected found' (at_stream (u\<lparr>at_read_buffer := buf, port_in := evs\<rparr>))"
    and "answers expected found' (u\<lparr>at_read_buffer := buf, port_in := evs\<rparr>)"
  shows "answers expected found u"
  using assms by (auto simp: answers_def Let_def split: option.splits prod.splits)

text \<open>One turn of the loop where the buffer has no line, and where it has one.\<close>

lemma loop_wait:
  assumes "0x0A \<notin> set (at_read_buffer u)" "length (at_read_buffer u) < AT_BUFFER_SIZE"
  shows "at_expect_loop expected found u =
    (case port_in u of
       [] \<Rightarrow> None
     | PortError # evs \<Rightarrow> Some ((False, found), u\<lparr>port_in := evs\<rparr>)
     | NoInput # evs \<Rightarrow> at_expect_loop expected found (u\<lparr>port_in := evs\<rparr>)
     | Chunk bs # evs \<Rightarrow>
         if bs = [] then Some ((False, found), u\<lparr>port_in := evs\<rparr>)
         else let n = min (length bs) (AT_BUFFER_SIZE - length (at_read_buffer u)) in
           at_expect_loop expected found
             (u\<lparr>at_read_buffer := at_read_buffer u @ take n bs,
               port_in := (if n < length bs then Chunk (drop n bs) # evs else evs)\<rparr>))"
proof -
  have "takeWhile (\<lambda>c. c \<noteq> 0x0A) (at_read_buffer u) = at_read_buffer u" using assms(1) by (auto simp: takeWhile_eq_all_conv)
  moreover have "\<not> AT_BUFFER_SIZE \<le> length (at_read_buffer u)" using assms(2) by simp
  ultimately show ?thesis by (subst at_expect_loop.simps) (simp only: Let_def if_True if_False refl)
qed

lemma loop_line:
  assumes "at_read_buffer u = l @ 0x0A # rest" "0x0A \<notin> set l" "length l < AT_BUFFER_SIZE"
  shows "at_expect_loop expected found u =
    (let line = at_line l; u = u\<lparr>at_read_buffer := rest\<rparr> in
     if line = [] then at_expect_loop expected found u
     else if line = cstr ''ERROR'' then Some ((False, found), u)
     else if line = cstr ''OK'' then Some ((True, found), u)
     else at_expect_loop expected (at_line_found expected line found) u)"
proof -
  have "takeWhile (\<lambda>c. c \<noteq> 0x0A) (at_read_buffer u) = l" using assms(1,2) by (simp add: takeWhile_append)
  then show ?thesis using assms(1,3) by (subst at_expect_loop.simps) (simp add: Let_def)
qed

lemma at_expect_loop_answers:
  assumes "port_ok u" "short_lines (at_stream u)"
  shows "answers expected found u"
  using assms
proof (induction "2 * port_size u + length (at_read_buffer u)" arbitrary: u found rule: less_induct)
  case less
  let ?buf = "at_read_buffer u"
  note ok = less.prems(1) [unfolded port_ok_def]
  show ?case
  proof (cases "0x0A \<in> set ?buf")
    case True
    then obtain l rest where buf: "?buf = l @ 0x0A # rest" "0x0A \<notin> set l" by (meson split_list_first)
    then have l: "length l < AT_BUFFER_SIZE" using ok by auto
    let ?u = "u\<lparr>at_read_buffer := rest\<rparr>"
    have same: "u\<lparr>at_read_buffer := rest, port_in := port_in u\<rparr> = ?u" by simp
    have stream: "at_stream u = l @ 0x0A # at_stream ?u" using buf by (simp add: at_stream_def)
    have u: "port_ok ?u" "short_lines (at_stream ?u)"
      using less.prems buf short_lines_suffix [of "l @ [0x0A]"] by (auto simp: port_ok_def stream)
    have IH: "answers expected f ?u" for f
      using u buf by (intro less.hyps) (simp_all add: port_size_def)
    note loop = loop_line [OF buf l, of expected found, unfolded Let_def]
    have answer: "at_answer expected found (at_stream u) = (if at_line l = [] then at_answer expected found (at_stream ?u)
       else if at_line l = cstr ''ERROR'' then Some ((False, found), at_stream ?u)
       else if at_line l = cstr ''OK'' then Some ((True, found), at_stream ?u)
       else at_answer expected (at_line_found expected (at_line l) found) (at_stream ?u))"
      unfolding stream at_answer_line [OF buf(2)] by (simp only: Let_def)
    note step = answers_step [where u = u and buf = rest and evs = "port_in u", unfolded same]
    show ?thesis
    proof (cases "at_line l = cstr ''ERROR'' \<or> at_line l = cstr ''OK''")
      case True
      then have "at_line l \<noteq> []" by (auto simp: cstr_def)
      with True loop answer u(1) show ?thesis
        by (auto simp: answers_def Let_def intro!: exI [of _ rest] exI [of _ "port_in u"])
    next
      case False
      have "answers expected found u" if "at_line l = []"
        using step [OF _ _ IH] loop answer that by simp
      moreover have "answers expected found u" if "at_line l \<noteq> []"
        using step [OF _ _ IH] loop answer that False by simp
      ultimately show ?thesis by blast
    qed
  next
    case False
    have "length ?buf < AT_BUFFER_SIZE"
      using less.prems(2) False unfolding short_lines_def at_stream_def by (metis append_Nil)
    note loop = loop_wait [OF False this, of expected found]
    show ?thesis
    proof (cases "port_in u")
      case Nil
      then have "at_stream u = ?buf" by (simp add: at_stream_def)
      with False have "at_answer expected found (at_stream u) = None" by (subst at_answer.simps) simp
      with loop Nil show ?thesis by (simp add: answers_def)
    next
      case (Cons ev evs)
      show ?thesis
      proof (cases ev)
        case NoInput
        let ?u = "u\<lparr>at_read_buffer := ?buf, port_in := evs\<rparr>"
        have stream: "at_stream ?u = at_stream u" using Cons NoInput by (simp add: at_stream_def)
        have "port_ok ?u" using ok Cons by (simp add: port_ok_def)
        moreover have "2 * port_size ?u + length (at_read_buffer ?u) < 2 * port_size u + length ?buf"
          using Cons NoInput by (simp add: port_size_def)
        ultimately have "answers expected found ?u" using less.prems(2) by (intro less.hyps) (simp_all only: stream)
        moreover have "at_expect_loop expected found u = at_expect_loop expected found ?u" using loop Cons NoInput by simp
        ultimately show ?thesis by (intro answers_step [where u = u and buf = ?buf and evs = evs]) (simp_all only: stream)
      next
        case (Chunk bs)
        define n where "n = min (length bs) (AT_BUFFER_SIZE - length ?buf)"
        let ?evs = "if n < length bs then Chunk (drop n bs) # evs else evs"
        let ?u = "u\<lparr>at_read_buffer := ?buf @ take n bs, port_in := ?evs\<rparr>"
        have bs: "bs \<noteq> []" using ok Cons Chunk by auto
        then have n: "0 < n" "n \<le> length bs" "length ?buf + n \<le> AT_BUFFER_SIZE"
          using \<open>length ?buf < AT_BUFFER_SIZE\<close> by (auto simp: n_def)
        have stream: "at_stream ?u = at_stream u" using Cons Chunk n(2) by (auto simp: at_stream_def)
        have "port_ok ?u" using ok n Cons by (auto simp: port_ok_def)
        moreover have "2 * port_size ?u + length (at_read_buffer ?u) < 2 * port_size u + length ?buf"
          using n Cons Chunk by (auto simp: port_size_def)
        ultimately have "answers expected found ?u" using less.prems(2) by (intro less.hyps) (simp_all only: stream)
        moreover have "at_expect_loop expected found u = at_expect_loop expected found ?u"
          using loop Cons Chunk bs by (simp add: n_def Let_def)
        ultimately show ?thesis by (intro answers_step [where u = u and buf = "?buf @ take n bs" and evs = ?evs]) (simp_all only: stream)
      next
        case PortError
        with ok Cons show ?thesis by auto
      qed
    qed
  qed
qed

lemma at_expect_Some:
  assumes "port_ok u" "short_lines (at_stream u)" "at_answer expected None (at_stream u) = Some ((ok, found), rest)"
  shows "\<exists>buf evs. at_expect expected u = Some ((ok, if ok then found else None), u\<lparr>at_read_buffer := buf, port_in := evs\<rparr>) \<and>
    port_ok (u\<lparr>at_read_buffer := buf, port_in := evs\<rparr>) \<and> at_stream (u\<lparr>at_read_buffer := buf, port_in := evs\<rparr>) = rest"
proof -
  from at_expect_loop_answers [OF assms(1,2), of expected None] assms(3) obtain buf evs where
    "at_expect_loop expected None u = Some ((ok, found), u\<lparr>at_read_buffer := buf, port_in := evs\<rparr>)"
    "port_ok (u\<lparr>at_read_buffer := buf, port_in := evs\<rparr>)" "at_stream (u\<lparr>at_read_buffer := buf, port_in := evs\<rparr>) = rest"
    by (auto simp: answers_def Let_def)
  then show ?thesis by (intro exI [of _ buf] exI [of _ evs]) (simp add: at_expect_def)
qed

lemma at_expect_None:
  assumes "port_ok u" "short_lines (at_stream u)" "at_answer expected None (at_stream u) = None"
  shows "at_expect expected u = None"
  using at_expect_loop_answers [OF assms(1,2), of expected None] assms(3) by (simp add: answers_def at_expect_def)


subsection \<open>An exchange\<close>

text \<open>What the modem says to an exchange: the line with the length and the bytes, then \<open>OK\<close>.\<close>

definition modem_answer :: "cstr \<Rightarrow> byte list \<Rightarrow> byte list" where
  "modem_answer expected rx =
     expected @ fmt_u (2 * length rx) @ cstr '',\"'' @ hex_of rx @ cstr ''\"'' @ [0x0D, 0x0A] @ cstr ''OK'' @ [0x0D, 0x0A]"

lemma at_line_plain: "set l \<inter> {0, 0x0D} = {} \<Longrightarrow> at_line (l @ [0x0D]) = l"
  by (induction l) (auto simp: at_line_def cstr_of_def)

lemma isxdigit_0: "isxdigit (0x30 + of_nat m)" if "m < 10"
proof -
  have "unat (0x30 + of_nat m :: byte) = 0x30 + m" using that by (simp add: unat_word_ariths unat_of_nat)
  with that show ?thesis by (simp add: isxdigit_def word_le_nat_alt)
qed

lemma fmt_u_plain: "list_all isxdigit (fmt_u n) \<and> fmt_u n \<noteq> []"
proof (induction n rule: fmt_u.induct)
  case (1 n)
  then show ?case using isxdigit_0 [of n] isxdigit_0 [of "n mod 10"] by (subst (1 2) fmt_u.simps) auto
qed

lemma plain_neq: "isxdigit c \<Longrightarrow> c \<notin> {0, 0x0A, 0x0D, 0x20, 0x22, 0x2C}"
  by (auto simp: isxdigit_def)

text \<open>The second of two fields, in quotes.\<close>

lemma second_field_quoted:
  assumes "list_all isxdigit n" "n \<noteq> []" "list_all isxdigit h"
  shows "second_field (n @ cstr '',\"'' @ h @ cstr ''\"'') = Some (cstr ''\"'' @ h @ cstr ''\"'')"
proof -
  have nc: "\<forall>c \<in> set n. c \<noteq> 0x2C" "\<forall>c \<in> set h. c \<noteq> 0x2C" using assms plain_neq by (auto simp: list_all_iff)
  have "dropWhile (\<lambda>c. c = 0x2C) (n @ xs) = n @ xs" for xs using assms(2) nc(1) by (cases n) auto
  moreover have "dropWhile (\<lambda>c. c \<noteq> 0x2C) (n @ 0x2C # xs) = 0x2C # xs" for xs using nc(1) by (simp add: dropWhile_append)
  moreover have "takeWhile (\<lambda>c. c \<noteq> 0x2C) (0x22 # h @ [0x22]) = 0x22 # h @ [0x22]" using nc(2) by (auto simp: takeWhile_eq_all_conv)
  ultimately show ?thesis by (simp add: second_field_def cstr_def Let_def)
qed

lemma at_answer_bytes_modem:
  assumes "length rx < 2147483648"
  shows "at_answer_bytes (fmt_u n @ cstr '',\"'' @ hex_of rx @ cstr ''\"'') = Ret rx"
proof -
  have unq: "unquote (cstr ''\"'' @ hex_of rx @ cstr ''\"'') = Ret (hex_of rx)" by (simp add: unquote_def cstr_def)
  have "2 * length rx < 4294967296" using assms by simp
  then have len: "unat (strlen (hex_of rx)) = 2 * length rx"
    unfolding strlen_def length_hex_of by (rule unat_of_nat_u32)
  then have half: "unat (strlen (hex_of rx) div 2) = length rx" by (simp add: unat_div)
  then have "euicc_hexutil_hex2bin_r (replicate (length rx) 0) (strlen (hex_of rx) div 2) (hex_of rx) (strlen (hex_of rx)) =
      Ret (length rx, rx)"
    using half len by (subst euicc_hexutil_hex2bin_r_eq) (simp_all add: slice_ok_def slice_bytes_def)
  then show ?thesis
    using second_field_quoted [OF _ _ hex_of_plain, of "fmt_u n" rx] fmt_u_plain [of n] unq half
    by (simp add: at_answer_bytes_def Let_def)
qed

lemma at_answer_modem:
  assumes "list_all (\<lambda>c. c \<notin> {0, 0x0A, 0x0D}) expected" "expected \<noteq> []" "hd expected = 0x2B" "last expected = 0x20"
  shows "at_answer (Some expected) None (modem_answer expected rx @ rest) =
    Some ((True, Some (fmt_u (2 * length rx) @ cstr '',\"'' @ hex_of rx @ cstr ''\"'')), rest)"
proof -
  let ?data = "fmt_u (2 * length rx) @ cstr '',\"'' @ hex_of rx @ cstr ''\"''"
  let ?l = "expected @ ?data"
  have data: "set ?data \<inter> {0, 0x0A, 0x0D} = {}"
    using fmt_u_plain [of "2 * length rx"] hex_of_plain [of rx] plain_neq by (auto simp: list_all_iff cstr_def)
  with assms(1) have l: "set ?l \<inter> {0, 0x0A, 0x0D} = {}" by (auto simp: list_all_iff)
  then have line: "at_line (?l @ [0x0D]) = ?l" by (intro at_line_plain) auto
  have ok: "at_line (cstr ''OK'' @ [0x0D]) = cstr ''OK''" by (rule at_line_plain) (auto simp: cstr_def)
  have kw: "?l \<noteq> cstr ''OK''" "?l \<noteq> cstr ''ERROR''" "?l \<noteq> []" using assms(2,3) by (cases expected; auto simp: cstr_def)+
  have "hd ?data \<noteq> 0x20" "?data \<noteq> []"
    using fmt_u_plain [of "2 * length rx"] plain_neq [of "hd (fmt_u (2 * length rx))"] by (cases "fmt_u (2 * length rx)"; auto)+
  then have found: "at_line_found (Some expected) ?l None = Some ?data"
    by (cases ?data) (simp_all add: at_line_found_def)
  have "modem_answer expected rx @ rest = (?l @ [0x0D]) @ 0x0A # (cstr ''OK'' @ [0x0D]) @ 0x0A # rest"
    by (simp add: modem_answer_def)
  moreover have "0x0A \<notin> set (?l @ [0x0D])" using l by auto
  moreover have "0x0A \<notin> set (cstr ''OK'' @ [0x0D :: byte])" by (simp add: cstr_def)
  moreover have "cstr ''OK'' \<noteq> []" by (simp add: cstr_def)
  moreover have "cstr ''OK'' \<noteq> cstr ''ERROR''" by (simp add: cstr_def)
  ultimately show ?thesis
    using kw by (simp only: at_answer_line line ok found Let_def if_False if_True simp_thms refl)
qed

lemma bin2hex_string:
  assumes "length tx < 1073741824"
  shows "euicc_hexutil_bin2hex (replicate (unat (of_nat (length tx) * 2 + 1 :: u32)) 0) (of_nat (length tx) * 2 + 1) tx (of_nat (length tx)) =
    Ret (2 * length tx, hex_of tx @ [0])"
proof -
  have len: "unat (of_nat (length tx) * 2 + 1 :: u32) = 2 * length tx + 1"
    using assms unat_double_plus1_u32 [of "of_nat (length tx)"] by (simp add: mult.commute)
  show ?thesis using assms
    by (subst euicc_hexutil_bin2hex_eq) (simp_all only: len, simp_all add: slice_ok_def slice_bytes_def)
qed

text \<open>The command of an exchange, as the modem sees it.\<close>

definition at_exchange_command :: "cstr \<Rightarrow> byte list \<Rightarrow> byte list" where
  "at_exchange_command command tx = command @ fmt_u (2 * length tx) @ cstr '',\"'' @ hex_of tx @ cstr ''\"'' @ [0x0D, 0x0A]"

lemma at_exchange_modem:
  assumes "port_ok u" "short_lines (at_stream u)" "fd_open u" "port_writable u"
    and "at_stream u = modem_answer expected rx @ rest"
    and "length tx < 1073741824" "length rx < 2147483648"
    and expected: "list_all (\<lambda>c. c \<notin> {0, 0x0A, 0x0D}) expected" "expected \<noteq> []" "hd expected = 0x2B" "last expected = 0x20"
  shows "\<exists>buf evs. at_exchange command expected tx u =
      Some (Ret rx, u\<lparr>port_out := port_out u @ at_exchange_command command tx, at_read_buffer := buf, port_in := evs\<rparr>) \<and>
    port_ok (u\<lparr>at_read_buffer := buf, port_in := evs\<rparr>) \<and> at_stream (u\<lparr>at_read_buffer := buf, port_in := evs\<rparr>) = rest"
proof -
  let ?u = "u\<lparr>port_out := port_out u @ at_exchange_command command tx\<rparr>"
  have same: "port_ok ?u" "at_stream ?u = at_stream u" using assms(1) by (simp_all add: port_ok_def at_stream_def)
  have "at_answer (Some expected) None (at_stream ?u) =
      Some ((True, Some (fmt_u (2 * length rx) @ cstr '',\"'' @ hex_of rx @ cstr ''\"'')), rest)"
    unfolding same assms(5) by (rule at_answer_modem [OF expected])
  from at_expect_Some [OF same(1) assms(2) [folded same(2)] this] obtain buf evs where
    e: "at_expect (Some expected) ?u = Some ((True, Some (fmt_u (2 * length rx) @ cstr '',\"'' @ hex_of rx @ cstr ''\"'')),
        ?u\<lparr>at_read_buffer := buf, port_in := evs\<rparr>)"
    and r: "port_ok (?u\<lparr>at_read_buffer := buf, port_in := evs\<rparr>)" "at_stream (?u\<lparr>at_read_buffer := buf, port_in := evs\<rparr>) = rest"
    by (simp only: if_True) blast
  have "unat (of_nat (length tx) * 2 :: u32) = 2 * length tx"
    using assms(6) unat_of_nat_u32 [of "2 * length tx"] by (simp add: mult.commute)
  moreover have "cstr_of (hex_of tx @ [0]) = hex_of tx" by (rule cstr_of_append_NUL) (rule hex_of_no_NUL)
  ultimately have "at_exchange command expected tx u = Some (Ret rx, ?u\<lparr>at_read_buffer := buf, port_in := evs\<rparr>)"
    using e assms(3,4) at_answer_bytes_modem [OF assms(7)]
    by (simp add: at_exchange_def bin2hex_string [OF assms(6)] at_emit_command_def at_write_command_def at_exchange_command_def)
  with r show ?thesis by (intro exI [of _ buf] exI [of _ evs]) (simp add: port_ok_def at_stream_def)
qed


subsection \<open>The drivers carry the exchange with the card\<close>

text \<open>What is left of the port after a run of exchanges: the answers still to come, and the commands written.\<close>

definition at_session :: "cstr \<Rightarrow> cstr \<Rightarrow> byte list \<Rightarrow> at_userdata \<Rightarrow> card_log \<Rightarrow> bool" where
  "at_session command expected base u c \<longleftrightarrow>
     port_ok u \<and> fd_open u \<and> port_writable u \<and> short_lines (at_stream u) \<and>
     at_stream u = concat (map (modem_answer expected) (to_say c)) \<and>
     port_out u = base @ concat (map (at_exchange_command command) (heard c))"

text \<open>What the two drivers look for in the answer.\<close>

definition at_prefix :: "cstr \<Rightarrow> bool" where
  "at_prefix expected \<longleftrightarrow> list_all (\<lambda>c. c \<notin> {0, 0x0A, 0x0D}) expected \<and> expected \<noteq> [] \<and> hd expected = 0x2B \<and> last expected = 0x20"

lemma at_prefix_simps [simp]: "at_prefix (cstr ''+CGLA: '')" "at_prefix (cstr ''+CSIM: '')"
  by (simp_all add: at_prefix_def cstr_def)

lemma short_lines_modem:
  assumes "short_lines (modem_answer expected rx @ rest)"
  shows "length rx < 2147483648"
proof -
  have "modem_answer expected rx @ rest = (expected @ fmt_u (2 * length rx) @ cstr '',\"'') @ hex_of rx @
      (cstr ''\"'' @ [0x0D, 0x0A] @ cstr ''OK'' @ [0x0D, 0x0A] @ rest)" by (simp add: modem_answer_def)
  moreover have "0x0A \<notin> set (hex_of rx)" using hex_of_plain [of rx] plain_neq by (auto simp: list_all_iff)
  ultimately have "length (hex_of rx) < AT_BUFFER_SIZE" using assms unfolding short_lines_def by blast
  then show ?thesis by (simp add: AT_BUFFER_SIZE_def)
qed

lemma at_exchange_session:
  assumes "at_session command expected base u c" "at_prefix expected" "length tx < 1073741824"
    and "if_transmit log_card ch tx c = (Some rx, c')"
  shows "\<exists>u'. at_exchange command expected tx u = Some (Ret rx, u') \<and> at_session command expected base u' c' \<and>
    channels u' = channels u"
proof -
  from assms(4) obtain rest where c: "to_say c = rx # rest" "c' = c\<lparr>to_say := rest, heard := heard c @ [tx]\<rparr>"
    by (auto simp: log_card_transmit)
  have stream: "at_stream u = modem_answer expected rx @ concat (map (modem_answer expected) rest)"
    using assms(1) c(1) by (simp add: at_session_def)
  have ok: "port_ok u" "short_lines (at_stream u)" "fd_open u" "port_writable u"
    using assms(1) unfolding at_session_def by blast+
  have rx: "length rx < 2147483648" using ok(2) stream short_lines_modem by simp
  from assms(2) have e: "list_all (\<lambda>c. c \<notin> {0, 0x0A, 0x0D}) expected" "expected \<noteq> []" "hd expected = 0x2B" "last expected = 0x20"
    unfolding at_prefix_def by blast+
  from at_exchange_modem [OF ok stream assms(3) rx e, of command] obtain buf evs where
    r: "at_exchange command expected tx u =
      Some (Ret rx, u\<lparr>port_out := port_out u @ at_exchange_command command tx, at_read_buffer := buf, port_in := evs\<rparr>)"
    "port_ok (u\<lparr>at_read_buffer := buf, port_in := evs\<rparr>)"
    "at_stream (u\<lparr>at_read_buffer := buf, port_in := evs\<rparr>) = concat (map (modem_answer expected) rest)"
    by blast
  have "short_lines (concat (map (modem_answer expected) rest))"
    using ok(2) unfolding stream by (rule short_lines_suffix)
  with r(2,3) assms(1) c have "at_session command expected base
      (u\<lparr>port_out := port_out u @ at_exchange_command command tx, at_read_buffer := buf, port_in := evs\<rparr>) c'"
    by (simp add: at_session_def port_ok_def at_stream_def)
  with r(1) show ?thesis by simp
qed

lemma at_answer_bytes_small: "at_answer_bytes r = Ret rx \<Longrightarrow> length rx < 4294967296"
proof -
  assume "at_answer_bytes r = Ret rx"
  then obtain f s ret bs where f: "unquote f = Ret s" and
    h: "euicc_hexutil_hex2bin_r (replicate (unat (strlen s div 2)) 0) (strlen s div 2) s (strlen s) = Ret (ret, bs)"
      "rx = take ret bs"
    by (auto simp: at_answer_bytes_def Let_def cbind_eq_Ret split: option.splits)
  have "slice_ok s (strlen s)" by (simp add: slice_ok_def strlen_def unat_of_nat)
  with h have "ret \<le> unat (strlen s)"
    by (subst (asm) euicc_hexutil_hex2bin_r_eq) (auto simp: slice_bytes_def split: if_splits option.splits dest!: length_unhex)
  with h(2) unsigned_less [of "strlen s", where ?'a = nat] show ?thesis by simp
qed

lemma at_exchange_small: "at_exchange command expected tx u = Some (Ret rx, u') \<Longrightarrow> length rx < 4294967296"
  by (auto simp: at_exchange_def Let_def Option.bind_eq_Some_conv at_answer_bytes_small
      split: cres.splits option.splits if_splits prod.splits)


text \<open>
  The two drivers as carriers: \<open>i\<close> is the identifier the modem gave to the channel, \<open>base\<close> what was written before.
\<close>

definition etsi_carries :: "u32 \<Rightarrow> cstr \<Rightarrow> byte list \<Rightarrow> at_userdata \<Rightarrow> card_log \<Rightarrow> bool" where
  "etsi_carries ch i base u c \<longleftrightarrow> at_channel_get u (sint ch) = Ret (Some i) \<and>
     at_session (cstr ''AT+CGLA='' @ i @ cstr '','') (cstr ''+CGLA: '') base u c"

definition csim_carries :: "byte list \<Rightarrow> at_userdata \<Rightarrow> card_log \<Rightarrow> bool" where
  "csim_carries base u c \<longleftrightarrow> at_session (cstr ''AT+CSIM='') (cstr ''+CSIM: '') base u c"

interpretation etsi: apdu_carrier "etsi_interface opens ch0" log_card "etsi_carries ch i base" ch 1000000
  for opens ch0 ch i base
proof unfold_locales
  fix u c tx rx c'
  assume R: "etsi_carries ch i base u c" "length tx \<le> 1000000" "if_transmit log_card ch tx c = (Some rx, c')"
  then have len: "length tx < 1073741824" and s: "at_session (cstr ''AT+CGLA='' @ i @ cstr '','') (cstr ''+CGLA: '') base u c"
    by (simp_all add: etsi_carries_def)
  from at_exchange_session [OF s at_prefix_simps(1) len R(3)] obtain u' where
    "at_exchange (cstr ''AT+CGLA='' @ i @ cstr '','') (cstr ''+CGLA: '') tx u = Some (Ret rx, u')"
    "at_session (cstr ''AT+CGLA='' @ i @ cstr '','') (cstr ''+CGLA: '') base u' c'" "channels u' = channels u"
    by blast
  with R(1) show "\<exists>u'. if_transmit (etsi_interface opens ch0) ch tx u = (Some rx, u') \<and> etsi_carries ch i base u' c'"
    by (auto simp: etsi_interface_def etsi_carries_def etsi_transmit_def at_call_def at_channel_get_def)
qed simp

lemma etsi_small: "small_answers (etsi_interface opens ch)"
  by (auto simp: small_answers_def etsi_interface_def etsi_transmit_def at_call_def
      split: cres.splits option.splits prod.splits dest: at_exchange_small)

interpretation csim: apdu_carrier "csim_interface opens" log_card "csim_carries base" ch 1000000
  for opens base ch
proof unfold_locales
  fix u c tx rx c'
  assume R: "csim_carries base u c" "length tx \<le> 1000000" "if_transmit log_card ch tx c = (Some rx, c')"
  then have len: "length tx < 1073741824" and s: "at_session (cstr ''AT+CSIM='') (cstr ''+CSIM: '') base u c"
    by (simp_all add: csim_carries_def)
  from at_exchange_session [OF s at_prefix_simps(2) len R(3)]
  show "\<exists>u'. if_transmit (csim_interface opens) ch tx u = (Some rx, u') \<and> csim_carries base u' c'"
    by (fastforce simp: csim_interface_def csim_carries_def csim_transmit_def at_call_def)
qed simp

lemma csim_small: "small_answers (csim_interface opens)"
  by (auto simp: small_answers_def csim_interface_def csim_transmit_def at_call_def
      split: cres.splits option.splits prod.splits dest: at_exchange_small)


lemma short_lines_short: "length bs < AT_BUFFER_SIZE \<Longrightarrow> short_lines bs"
  by (auto simp: short_lines_def)

text \<open>A modem that has opened one channel, with the events \<open>evs\<close> to come at the port.\<close>

definition demo_modem :: "port_event list \<Rightarrow> at_userdata" where
  "demo_modem evs = \<lparr>fd_open = True, at_read_buffer = [], channels = (replicate 21 None)[1 := Some (cstr ''5'')],
     port_in = evs, port_out = [], port_writable = True\<rparr>"

definition demo_events :: "port_event list" where
  "demo_events = [Chunk (cstr ''+CGLA: 4,''), NoInput, Chunk (cstr ''\"9000\"'' @ [0x0D, 0x0A] @ cstr ''O''),
     Chunk (cstr ''K'' @ [0x0D, 0x0A, 0x41])]"

lemma demo_port:
  "port_ok (demo_modem demo_events)" "short_lines (at_stream (demo_modem demo_events))"
  "at_answer (Some (cstr ''+CGLA: '')) None (at_stream (demo_modem demo_events)) = Some ((True, Some (cstr ''4,\"9000\"'')), [0x41])"
proof -
  have stream: "at_stream (demo_modem demo_events) = cstr ''+CGLA: 4,\"9000\"'' @ [0x0D, 0x0A] @ cstr ''OK'' @ [0x0D, 0x0A, 0x41]"
    by (simp add: at_stream_def demo_modem_def demo_events_def cstr_def)
  show "port_ok (demo_modem demo_events)" by (simp add: port_ok_def demo_modem_def demo_events_def cstr_def)
  show "short_lines (at_stream (demo_modem demo_events))"
    unfolding stream by (rule short_lines_short) (simp add: cstr_def AT_BUFFER_SIZE_def)
  show "at_answer (Some (cstr ''+CGLA: '')) None (at_stream (demo_modem demo_events)) = Some ((True, Some (cstr ''4,\"9000\"'')), [0x41])"
    unfolding stream by code_simp
qed


subsection \<open>A command over the modem\<close>

text \<open>
  C14. A whole command over a modem. When the serial port, cut into pieces in any way, brings the answers the card gives to
  the APDUs of a request, as the modem wraps them, \<open>es10x_command\<close> through the driver \<open>at_etsi.c\<close> returns what it returns with
  the card itself; the port has been sent one \<open>AT+CGLA\<close> for each APDU, with the identifier of the channel, and nothing
  else; and what follows is left for the next command.
\<close>

theorem es10x_command_over_modem:
  assumes "wf_ctx ctx" "es10x_mss ctx \<noteq> 0" "length req < 4294967296" "src_request ctx src req" "length resp < 4294967296"
    and "port_ok u" "fd_open u" "port_writable u" "at_channel_get u (sint (logic_channel ctx)) = Ret (Some i)"
    and "short_lines (at_stream u)" "at_stream u = concat (map (modem_answer (cstr ''+CGLA: '')) rxs)"
    and "card_gives log_card ctx req \<lparr>to_say = rxs, heard = []\<rparr> resp \<lparr>to_say = rest, heard = apdus\<rparr>"
  shows "\<exists>ctx' u'. es10x_command (etsi_interface opens ch) src (of_nat (length req)) (ctx, u) =
      Some (Ret (resp, of_nat (length resp)), ctx', u') \<and>
    port_out u' = port_out u @ concat (map (at_exchange_command (cstr ''AT+CGLA='' @ i @ cstr '','')) apdus) \<and>
    at_stream u' = concat (map (modem_answer (cstr ''+CGLA: '')) rest)"
proof -
  have "etsi_carries (logic_channel ctx) i (port_out u) u \<lparr>to_say = rxs, heard = []\<rparr>"
    using assms(6-11) by (simp add: etsi_carries_def at_session_def)
  moreover have "unat (es10x_mss ctx) + 5 \<le> 1000000" using unsigned_less [of "es10x_mss ctx", where ?'a = nat] by simp
  ultimately obtain ctx' u' where
    "es10x_command (etsi_interface opens ch) src (of_nat (length req)) (ctx, u) = Some (Ret (resp, of_nat (length resp)), ctx', u')"
    "etsi_carries (logic_channel ctx) i (port_out u) u' \<lparr>to_say = rest, heard = apdus\<rparr>"
    using etsi.command_carried [OF etsi_small assms(1-5) refl _ _ assms(12)] by blast
  then show ?thesis unfolding etsi_carries_def at_session_def by (intro exI [of _ ctx'] exI [of _ u']) simp
qed

lemma log_card_gives:
  "card_gives log_card script_ctx [1, 2] \<lparr>to_say = demo_answers, heard = []\<rparr> [7, 8] \<lparr>to_say = [], heard = demo_apdus\<rparr>"
  by (rule demo_card_gives) (simp add: log_card_def)

definition demo_port_in :: "port_event list" where
  "demo_port_in = map Chunk (map (\<lambda>c. [c]) (modem_answer (cstr ''+CGLA: '') [7, 0x61, 1])) @
     [NoInput, Chunk (modem_answer (cstr ''+CGLA: '') [8, 0x90, 0])]"

lemma demo_session:
  "port_ok (demo_modem demo_port_in)" "fd_open (demo_modem demo_port_in)" "port_writable (demo_modem demo_port_in)"
  "at_channel_get (demo_modem demo_port_in) (sint (logic_channel script_ctx)) = Ret (Some (cstr ''5''))"
  "at_stream (demo_modem demo_port_in) = concat (map (modem_answer (cstr ''+CGLA: '')) demo_answers)"
  "short_lines (at_stream (demo_modem demo_port_in))"
proof -
  show stream: "at_stream (demo_modem demo_port_in) = concat (map (modem_answer (cstr ''+CGLA: '')) demo_answers)"
    by (simp add: at_stream_def demo_modem_def demo_port_in_def demo_answers_def comp_def concat_map_singleton)
  show "short_lines (at_stream (demo_modem demo_port_in))"
    unfolding stream
    by (rule short_lines_short) (simp add: demo_answers_def modem_answer_def fmt_u.simps cstr_def AT_BUFFER_SIZE_def)
qed (auto simp: port_ok_def demo_modem_def demo_port_in_def modem_answer_def cstr_def AT_BUFFER_SIZE_def at_channel_get_def
    AT_MAX_LOGICAL_CHANNELS_def script_ctx_def cload_def)

theorem es10x_command_over_modem_witness:
  "\<exists>ctx' u'. es10x_command (etsi_interface True 0) (ReqMem [1, 2]) 2 (script_ctx, demo_modem demo_port_in) =
      Some (Ret ([7, 8], 2), ctx', u') \<and>
    port_out u' = concat (map (at_exchange_command (cstr ''AT+CGLA='' @ cstr ''5'' @ cstr '','')) demo_apdus) \<and> at_stream u' = []"
proof -
  have src: "src_request script_ctx (ReqMem [1, 2]) [1, 2]" by (simp add: src_request_def)
  show ?thesis
    using es10x_command_over_modem [OF script_ctx_wf(1,2) _ src _ demo_session(1-4,6,5) log_card_gives, of True 0]
    by (simp add: demo_modem_def)
qed

end
