(* ===== verification/At_Channels.thy ===== *)
theory At_Channels
  imports At_Props
begin

text \<open>
  The table of logical channels of the AT driver, and the answers for which its transmission is defined.
\<close>

subsection \<open>What reading and sending leave alone\<close>

definition same_port :: "at_userdata \<Rightarrow> at_userdata \<Rightarrow> bool" where
  "same_port u u' \<longleftrightarrow> channels u' = channels u \<and> fd_open u' = fd_open u \<and> port_writable u' = port_writable u"

lemma at_expect_loop_frame:
  "at_expect_loop expected found u = Some (r, u') \<Longrightarrow> same_port u u' \<and> port_out u' = port_out u"
proof (induction expected found u rule: at_expect_loop.induct)
  case (1 expected found u)
  let ?pos = "length (takeWhile (\<lambda>c. c \<noteq> 0x0A) (at_read_buffer u))"
  note step = 1(5) [unfolded at_expect_loop.simps [of expected found u] Let_def]
  show ?case
  proof (cases "?pos = length (at_read_buffer u)")
    case True
    show ?thesis
    proof (cases "port_in u")
      case Nil
      with True step show ?thesis by (auto simp: same_port_def split: if_splits)
    next
      case (Cons ev evs)
      note IH = 1(1,2) [OF refl True _ Cons]
      with True step Cons show ?thesis by (cases ev) (auto simp: same_port_def Let_def split: if_splits)
    qed
  next
    case False
    with 1(3,4) [OF refl False refl refl refl] step show ?thesis
      by (auto simp: same_port_def split: if_splits)
  qed
qed

lemma at_expect_frame:
  "at_expect expected u = Some (r, u') \<Longrightarrow> same_port u u' \<and> port_out u' = port_out u"
  by (auto simp: at_expect_def dest: at_expect_loop_frame)

lemma at_emit_frame:
  "same_port u (snd (at_emit_command command u))"
  "fd_open u \<Longrightarrow> port_writable u \<Longrightarrow> port_out (snd (at_emit_command command u)) = port_out u @ command @ [0x0D, 0x0A]"
  by (auto simp: at_emit_command_def at_write_command_def same_port_def)

lemma at_simple_frame:
  assumes "at_simple command u = Some (ok, u')"
  shows "same_port u u'" "fd_open u \<Longrightarrow> port_writable u \<Longrightarrow> port_out u' = port_out u @ command @ [0x0D, 0x0A]"
proof -
  from assms obtain r where "at_expect None (snd (at_emit_command command u)) = Some (r, u')"
    by (auto simp: at_simple_def)
  from at_expect_frame [OF this] at_emit_frame [of u command] show "same_port u u'"
    "fd_open u \<Longrightarrow> port_writable u \<Longrightarrow> port_out u' = port_out u @ command @ [0x0D, 0x0A]"
    by (auto simp: same_port_def)
qed


subsection \<open>The table\<close>

abbreviation crlf :: "byte list" where "crlf \<equiv> [0x0D, 0x0A]"

text \<open>The commands that close the channels of a table.\<close>

definition close_commands :: "cstr option list \<Rightarrow> byte list" where
  "close_commands cs = concat (map (\<lambda>c. case c of None \<Rightarrow> [] | Some i \<Rightarrow> cstr ''AT+CCHC='' @ i @ crlf) cs)"

lemma cload_Ret: "index < length cs \<Longrightarrow> cload cs index = Ret (cs ! index)"
  by (simp add: cload_def)

lemma close_commands_simps [simp]:
  "close_commands [] = []" "close_commands (None # cs) = close_commands cs"
  "close_commands (Some i # cs) = cstr ''AT+CCHC='' @ i @ crlf @ close_commands cs"
  by (simp_all add: close_commands_def)

lemma at_channel_scan_eq:
  "index + n \<le> length cs \<Longrightarrow>
    at_channel_scan cs index n = Ret (index + length (takeWhile (\<lambda>c. c \<noteq> None) (take n (drop index cs))))"
proof (induction cs index n rule: at_channel_scan.induct)
  case (2 cs index n)
  then have "take (Suc n) (drop index cs) = cs ! index # take n (drop (index + 1) cs)"
    by (simp add: Cons_nth_drop_Suc [symmetric])
  with 2 show ?case by (auto simp: cload_Ret)
qed simp


text \<open>The entry that \<open>at_channel_next_id\<close> finds.\<close>

definition first_free :: "cstr option list \<Rightarrow> nat" where
  "first_free cs = 1 + length (takeWhile (\<lambda>c. c \<noteq> None) (tl cs))"

lemma at_channel_next_id_eq:
  assumes "length (channels u) = AT_MAX_LOGICAL_CHANNELS + 1"
  shows "at_channel_next_id u = Ret (if first_free (channels u) \<le> AT_MAX_LOGICAL_CHANNELS then int (first_free (channels u)) else -1)"
proof -
  have "take AT_MAX_LOGICAL_CHANNELS (drop 1 (channels u)) = tl (channels u)" using assms by (simp add: drop_Suc)
  with assms show ?thesis by (simp add: at_channel_next_id_def at_channel_scan_eq first_free_def not_le)
qed

lemma first_free_entry:
  assumes "first_free cs < length cs"
  shows "cs ! first_free cs = None" "1 \<le> j \<Longrightarrow> j < first_free cs \<Longrightarrow> cs ! j \<noteq> None"
proof -
  from assms have len: "length (takeWhile (\<lambda>c. c \<noteq> None) (tl cs)) < length (tl cs)" by (simp add: first_free_def)
  from nth_length_takeWhile [OF this] len show "cs ! first_free cs = None" by (simp add: first_free_def nth_tl)
  assume "1 \<le> j" "j < first_free cs"
  then have j: "j - 1 < length (takeWhile (\<lambda>c. c \<noteq> None) (tl cs))" by (simp add: first_free_def)
  then have "takeWhile (\<lambda>c. c \<noteq> None) (tl cs) ! (j - 1) \<noteq> None" using set_takeWhileD [OF nth_mem [OF j]] by simp
  moreover have "tl cs ! (j - 1) = cs ! j" using \<open>1 \<le> j\<close> j len by (simp add: nth_tl)
  ultimately show "cs ! j \<noteq> None" using takeWhile_nth [OF j] by simp
qed

lemma first_free_pos: "0 < first_free cs"
  by (simp add: first_free_def)

lemma at_channel_set_eq:
  "0 < k \<Longrightarrow> k \<le> AT_MAX_LOGICAL_CHANNELS \<Longrightarrow> length (channels u) = AT_MAX_LOGICAL_CHANNELS + 1 \<Longrightarrow>
    at_channel_set u (int k) x = Ret (u\<lparr>channels := (channels u)[k := x]\<rparr>)"
  by (simp add: at_channel_set_def cstore_def)

text \<open>Everything that is written when a channel is opened.\<close>

definition open_commands :: "cstr option list \<Rightarrow> byte list \<Rightarrow> byte list" where
  "open_commands cs a = close_commands (take AT_MAX_LOGICAL_CHANNELS cs) @ cstr ''AT+CCHO=\"'' @ hex_of a @ cstr ''\"'' @ crlf"

lemma bin2hex_aid:
  assumes "unat a_len \<le> length a"
  shows "euicc_hexutil_bin2hex (replicate (2 * unat (a_len :: byte) + 1) 0) (2 * ucast a_len + 1) a (ucast a_len) =
    Ret (2 * unat a_len, hex_of (take (unat a_len) a) @ [0])"
proof -
  have n: "unat (ucast a_len :: u32) = unat a_len" by transfer (simp add: take_bit_eq_mod)
  have small: "unat a_len < 256" using unsigned_less [of a_len, where ?'a = nat] by simp
  have "2 * (ucast a_len :: u32) + 1 = of_nat (2 * unat a_len + 1)" using n by (simp add: word_unat_eq_iff unat_word_ariths)
  then have len: "unat (2 * ucast a_len + 1 :: u32) = 2 * unat a_len + 1" using small by (simp only: unat_of_nat_u32)
  show ?thesis using assms n small
    by (subst euicc_hexutil_bin2hex_eq) (simp_all only: len, simp_all add: slice_ok_def slice_bytes_def)
qed

subsection \<open>Opening a channel\<close>

lemma at_answer_suffix: "at_answer expected found bs = Some (r, rest) \<Longrightarrow> \<exists>p. bs = p @ rest"
proof (induction expected found bs rule: at_answer.induct)
  case (1 expected found bs)
  let ?l = "takeWhile (\<lambda>c. c \<noteq> 0x0A) bs" and ?rest = "tl (dropWhile (\<lambda>c. c \<noteq> 0x0A) bs)"
  from 1(3) have nl: "0x0A \<in> set bs" by (subst (asm) at_answer.simps) (auto split: if_splits)
  then have "dropWhile (\<lambda>c. c \<noteq> 0x0A) bs \<noteq> []" by auto
  then have "dropWhile (\<lambda>c. c \<noteq> 0x0A) bs = hd (dropWhile (\<lambda>c. c \<noteq> 0x0A) bs) # ?rest" by simp
  then have bs: "bs = (?l @ [hd (dropWhile (\<lambda>c. c \<noteq> 0x0A) bs)]) @ ?rest" by (metis append.assoc append_Cons append_Nil takeWhile_dropWhile_id)
  have "\<exists>q. ?rest = q @ rest"
    using 1(3) 1(1) [OF _ refl refl] 1(2) [OF _ refl refl] nl
    by (subst (asm) at_answer.simps) (auto simp: Let_def split: if_splits)
  with bs show ?case by (metis append.assoc)
qed

text \<open>The driver's state after a command that was answered: \<open>rest\<close> is still to be read, \<open>w\<close> was written.\<close>

definition after :: "at_userdata \<Rightarrow> byte list \<Rightarrow> byte list \<Rightarrow> at_userdata \<Rightarrow> bool" where
  "after u w rest u' \<longleftrightarrow> same_port u u' \<and> port_out u' = port_out u @ w \<and> port_ok u' \<and> at_stream u' = rest \<and> short_lines rest"

definition at_ready :: "at_userdata \<Rightarrow> bool" where
  "at_ready u \<longleftrightarrow> port_ok u \<and> short_lines (at_stream u) \<and> fd_open u \<and> port_writable u"

lemma after_ready: "after u w rest u' \<Longrightarrow> at_ready u \<Longrightarrow> at_ready u'"
  by (simp add: after_def at_ready_def same_port_def)

lemma after_trans: "after u w rest u' \<Longrightarrow> after u' w' rest' u'' \<Longrightarrow> after u (w @ w') rest' u''"
  by (simp add: after_def same_port_def)

lemma at_command_answer:
  assumes "at_ready u"
  shows "case at_answer expected None (at_stream u) of
      None \<Rightarrow> at_expect expected (snd (at_emit_command command u)) = None
    | Some ((ok, found), rest) \<Rightarrow> \<exists>u'. at_expect expected (snd (at_emit_command command u)) =
        Some ((ok, if ok then found else None), u') \<and> after u (command @ crlf) rest u'"
proof -
  let ?u = "snd (at_emit_command command u)"
  have same: "port_ok ?u" "at_stream ?u = at_stream u" "short_lines (at_stream ?u)"
    using assms by (simp_all add: at_ready_def at_emit_command_def at_write_command_def port_ok_def at_stream_def)
  show ?thesis
  proof (cases "at_answer expected None (at_stream u)")
    case None
    with at_expect_None [OF same(1,3)] same(2) show ?thesis by simp
  next
    case (Some x)
    obtain ok found rest where x: "x = ((ok, found), rest)" by (metis surj_pair)
    from at_expect_Some [OF same(1,3), of expected ok found rest] Some same(2) x obtain u' where
      u': "at_expect expected ?u = Some ((ok, if ok then found else None), u')" "port_ok u'" "at_stream u' = rest"
      by auto
    have "short_lines rest" using at_answer_suffix Some x same(2,3) short_lines_suffix by metis
    with u' at_expect_frame [OF u'(1)] at_emit_frame [of u command] assms have "after u (command @ crlf) rest u'"
      by (simp add: after_def same_port_def at_ready_def)
    with u'(1) Some x show ?thesis by auto
  qed
qed

text \<open>What is left after one answer for each of \<open>n\<close> commands; \<open>None\<close> where one never comes.\<close>

fun skip_answers :: "nat \<Rightarrow> byte list \<Rightarrow> byte list option" where
  "skip_answers 0 bs = Some bs"
| "skip_answers (Suc n) bs = Option.bind (at_answer None None bs) (\<lambda>(_, rest). skip_answers n rest)"

definition in_use :: "cstr option list \<Rightarrow> nat" where
  "in_use cs = length (filter (\<lambda>c. c \<noteq> None) cs)"

lemma in_use_simps [simp]: "in_use [] = 0" "in_use (None # cs) = in_use cs" "in_use (Some i # cs) = Suc (in_use cs)"
  by (simp_all add: in_use_def)

lemma etsi_close_all_answers:
  "at_ready u \<Longrightarrow> index + n \<le> length (channels u) \<Longrightarrow>
    (case skip_answers (in_use (take n (drop index (channels u)))) (at_stream u) of
       None \<Rightarrow> etsi_close_all index n u = None
     | Some rest \<Rightarrow> \<exists>u'. etsi_close_all index n u = Some (Ret (), u') \<and>
         after u (close_commands (take n (drop index (channels u)))) rest u')"
proof (induction n arbitrary: index u)
  case 0
  then show ?case by (simp add: after_def same_port_def at_ready_def)
next
  case (Suc n)
  let ?cs = "take n (drop (Suc index) (channels u))"
  from Suc have i: "cload (channels u) index = Ret (channels u ! index)"
    and tk: "take (Suc n) (drop index (channels u)) = channels u ! index # ?cs"
    by (simp_all add: cload_Ret Cons_nth_drop_Suc [symmetric])
  show ?case
  proof (cases "channels u ! index")
    case None
    with i have eq: "etsi_close_all index (Suc n) u = etsi_close_all (Suc index) n u" by simp
    show ?thesis using Suc.IH [of u "Suc index"] Suc.prems unfolding eq tk None in_use_simps close_commands_simps by simp
  next
    case (Some c)
    with i have eq: "etsi_close_all index (Suc n) u =
        Option.bind (at_simple (cstr ''AT+CCHC='' @ c) u) (\<lambda>(_, u). etsi_close_all (Suc index) n u)" by simp
    note tk = tk [unfolded Some]
    note cmd = at_command_answer [OF Suc.prems(1), of None "cstr ''AT+CCHC='' @ c"]
    show ?thesis
    proof (cases "at_answer None None (at_stream u)")
      case None
      with cmd eq tk show ?thesis by (simp add: at_simple_def del: etsi_close_all.simps)
    next
      fix x
      assume x: "at_answer None None (at_stream u) = Some x"
      obtain ok found rest where x': "x = ((ok, found), rest)" by (metis surj_pair)
      with cmd x obtain v where v: "at_simple (cstr ''AT+CCHC='' @ c) u = Some (ok, v)"
        "after u ((cstr ''AT+CCHC='' @ c) @ crlf) rest v" by (auto simp: at_simple_def)
      then have ch: "channels v = channels u" "at_stream v = rest" by (simp_all add: after_def same_port_def)
      have IH: "case skip_answers (in_use ?cs) rest of
          None \<Rightarrow> etsi_close_all (Suc index) n v = None
        | Some rest' \<Rightarrow> \<exists>u'. etsi_close_all (Suc index) n v = Some (Ret (), u') \<and> after v (close_commands ?cs) rest' u'"
        using Suc.IH [of v "Suc index", unfolded ch, OF after_ready [OF v(2) Suc.prems(1)]] Suc.prems(2) by simp
      have skip: "skip_answers (in_use (take (Suc n) (drop index (channels u)))) (at_stream u) = skip_answers (in_use ?cs) rest"
        and eq': "etsi_close_all index (Suc n) u = etsi_close_all (Suc index) n v"
        using tk x x' v(1) eq by simp_all
      from tk have "close_commands (take (Suc n) (drop index (channels u))) = ((cstr ''AT+CCHC='' @ c) @ crlf) @ close_commands ?cs"
        by simp
      with IH after_trans [OF v(2)] show ?thesis unfolding skip eq' by (fastforce split: option.splits)
    qed
  qed
qed

text \<open>
  C16. Opening a channel over \<open>at_etsi.c\<close>, for all that a modem can say. One command closes each of the channels in the table,
  one opens the application. The answers to the first are not looked at. If the last says \<open>OK\<close> and gives an identifier, the
  channel is the first free entry of the table, which now has the identifier, and the other entries are as before; there is
  no such entry when 20 are in use, and then, as for any other answer, the call fails and the table is as it was. The call
  waits for ever exactly when one of the commands gets neither \<open>OK\<close> nor \<open>ERROR\<close>. No entry outside the table is touched: it has
  the 21 entries that \<open>at_setup_userdata\<close> makes.
\<close>

theorem etsi_logic_channel_open_registers:
  assumes "at_ready u" "length (channels u) = AT_MAX_LOGICAL_CHANNELS + 1" "unat a_len \<le> length a"
  shows "case Option.bind (skip_answers (in_use (take AT_MAX_LOGICAL_CHANNELS (channels u))) (at_stream u))
        (at_answer (Some (cstr ''+CCHO: '')) None) of
      None \<Rightarrow> etsi_logic_channel_open a a_len u = None
    | Some ((ok, found), rest) \<Rightarrow>
        \<exists>u'. port_out u' = port_out u @ open_commands (channels u) (take (unat a_len) a) \<and> at_stream u' = rest \<and>
          (if ok \<and> found \<noteq> None \<and> first_free (channels u) \<le> AT_MAX_LOGICAL_CHANNELS
           then etsi_logic_channel_open a a_len u = Some (Ret (int (first_free (channels u))), u') \<and>
             channels u' = (channels u)[first_free (channels u) := found]
           else etsi_logic_channel_open a a_len u = Some (Fail, u') \<and> channels u' = channels u)"
proof -
  let ?cmd = "cstr ''AT+CCHO=\"'' @ hex_of (take (unat a_len) a) @ cstr ''\"''"
  let ?n = "in_use (take AT_MAX_LOGICAL_CHANNELS (channels u))" and ?e = "Some (cstr ''+CCHO: '')"
  note body = etsi_logic_channel_open_def bin2hex_aid [OF assms(3)] cstr_of_append_NUL [OF hex_of_no_NUL] cres.case prod.case
  note closed = etsi_close_all_answers [OF assms(1), of 0 AT_MAX_LOGICAL_CHANNELS, simplified assms(2)]
  show ?thesis
  proof (cases "skip_answers ?n (at_stream u)")
    case None
    with closed show ?thesis unfolding body by simp
  next
    case (Some rest1)
    with closed obtain v where v: "etsi_close_all 0 AT_MAX_LOGICAL_CHANNELS u = Some (Ret (), v)"
      "after u (close_commands (take AT_MAX_LOGICAL_CHANNELS (channels u))) rest1 v" by auto
    then have stream: "at_stream v = rest1" by (simp add: after_def)
    note cmd = at_command_answer [OF after_ready [OF v(2) assms(1)], of ?e ?cmd, unfolded stream]
    show ?thesis
    proof (cases "at_answer ?e None rest1")
      case None
      with cmd Some v(1) show ?thesis unfolding body by simp
    next
      fix x
      assume x: "at_answer ?e None rest1 = Some x"
      obtain ok found rest where x': "x = ((ok, found), rest)" by (metis surj_pair)
      with cmd x obtain w where w: "at_expect ?e (snd (at_emit_command ?cmd v)) = Some ((ok, if ok then found else None), w)"
        "after v (?cmd @ crlf) rest w" by auto
      from after_trans [OF v(2) w(2)] have w2: "channels w = channels u" "at_stream w = rest"
        "port_out w = port_out u @ open_commands (channels u) (take (unat a_len) a)"
        by (simp_all add: after_def same_port_def open_commands_def)
      have eq: "etsi_logic_channel_open a a_len u = (case if ok then found else None of None \<Rightarrow> Some (Fail, w)
        | Some i \<Rightarrow> if first_free (channels u) \<le> AT_MAX_LOGICAL_CHANNELS
            then Some (Ret (int (first_free (channels u))), w\<lparr>channels := (channels u)[first_free (channels u) := Some i]\<rparr>)
            else Some (Fail, w))"
        using v(1) w(1) at_channel_next_id_eq [of w] assms(2) w2(1)
          at_channel_set_eq [OF first_free_pos, of "channels u" w]
        unfolding body by (auto simp: at_channel_set_def split: option.splits)
      show ?thesis
      proof (cases "ok \<and> found \<noteq> None \<and> first_free (channels u) \<le> AT_MAX_LOGICAL_CHANNELS")
        case True
        then obtain i where "found = Some i" by blast
        with True Some x x' eq w2 show ?thesis
          by (auto simp: at_stream_def intro!: exI [of _ "w\<lparr>channels := (channels u)[first_free (channels u) := Some i]\<rparr>"])
      next
        case False
        with Some x x' eq w2 show ?thesis by (auto split: option.splits intro!: exI [of _ w])
      qed
    qed
  qed
qed


definition demo_open_events :: "port_event list" where
  "demo_open_events = [Chunk (cstr ''ERROR'' @ crlf @ cstr ''+CCHO: 7'' @ crlf @ cstr ''OK'' @ crlf)]"

lemma demo_open:
  "at_ready (demo_modem demo_open_events)" "length (channels (demo_modem demo_open_events)) = AT_MAX_LOGICAL_CHANNELS + 1"
  "first_free (channels (demo_modem demo_open_events)) = 2"
  "in_use (take AT_MAX_LOGICAL_CHANNELS (channels (demo_modem demo_open_events))) = 1"
  "Option.bind (skip_answers 1 (at_stream (demo_modem demo_open_events))) (at_answer (Some (cstr ''+CCHO: '')) None) =
     Some ((True, Some (cstr ''7'')), [])"
proof -
  have stream: "at_stream (demo_modem demo_open_events) = cstr ''ERROR'' @ crlf @ cstr ''+CCHO: 7'' @ crlf @ cstr ''OK'' @ crlf"
    by (simp add: at_stream_def demo_modem_def demo_open_events_def)
  have "short_lines (at_stream (demo_modem demo_open_events))"
    unfolding stream by (rule short_lines_short) (simp add: cstr_def AT_BUFFER_SIZE_def)
  then show "at_ready (demo_modem demo_open_events)"
    by (simp add: at_ready_def port_ok_def demo_modem_def demo_open_events_def cstr_def)
  show "length (channels (demo_modem demo_open_events)) = AT_MAX_LOGICAL_CHANNELS + 1"
    by (simp add: demo_modem_def AT_MAX_LOGICAL_CHANNELS_def)
  show "first_free (channels (demo_modem demo_open_events)) = 2"
    "in_use (take AT_MAX_LOGICAL_CHANNELS (channels (demo_modem demo_open_events))) = 1"
    by code_simp+
  show "Option.bind (skip_answers 1 (at_stream (demo_modem demo_open_events))) (at_answer (Some (cstr ''+CCHO: '')) None) =
     Some ((True, Some (cstr ''7'')), [])"
    unfolding stream by code_simp
qed

theorem etsi_logic_channel_open_registers_witness:
  "\<exists>u'. etsi_logic_channel_open [0xA0, 0x00] 2 (demo_modem demo_open_events) = Some (Ret 2, u') \<and>
     channels u' = (channels (demo_modem demo_open_events))[2 := Some (cstr ''7'')] \<and>
     port_out u' = open_commands (channels (demo_modem demo_open_events)) [0xA0, 0x00]"
proof -
  have "unat (2 :: byte) \<le> length [0xA0 :: byte, 0x00]" by simp
  from etsi_logic_channel_open_registers [OF demo_open(1,2) this, unfolded demo_open(4) demo_open(5) demo_open(3)]
  show ?thesis by (simp add: demo_modem_def AT_MAX_LOGICAL_CHANNELS_def) blast
qed

subsection \<open>Answers the drivers cannot handle\<close>

lemma second_field_some:
  assumes "second_field s = Some f"
  shows "f \<noteq> []" "length f \<le> length s"
proof -
  let ?c = "\<lambda>c :: byte. c = of_char CHR '',''"
  let ?rest = "dropWhile ?c (dropWhile (\<lambda>c. \<not> ?c c) (dropWhile ?c s))"
  have some: "(if b then None else Some x) = Some y \<Longrightarrow> \<not> b \<and> y = x" for b x and y :: cstr by (simp split: if_splits)
  note f = some [OF assms [unfolded second_field_def Let_def], THEN conjunct1]
    some [OF assms [unfolded second_field_def Let_def], THEN conjunct2]
  from hd_dropWhile [OF f(1)] have "\<not> ?c (hd ?rest)" .
  with f(1) show "f \<noteq> []" unfolding f(2) by (simp add: takeWhile_eq_Nil_iff)
  have "length f \<le> length ?rest" unfolding f(2) by (rule length_takeWhile_le)
  also have "\<dots> \<le> length s" by (meson length_dropWhile_le le_trans)
  finally show "length f \<le> length s" .
qed



end
