(* ===== verification/Driver_Pcsc.thy ===== *)
theory Driver_Pcsc
  imports Utils Euicc
begin

text \<open>
  The driver for card readers, \<open>driver/apdu/pcsc.c\<close>. The library PC/SC is a parameter, one function for each that the
  code calls, over a state \<open>'c\<close> of readers and card. The environment is part of the driver's state, because \<open>strtok\<close> writes
  into it. The printing of errors and of the list of readers is left out.
\<close>

subsection \<open>The library\<close>

text \<open>
  Results are the numbers the functions return, 0 for success. \<open>SCardTransmit\<close> is given the bytes to send and the
  room for the answer. The list of readers is a multi-string: names that are not empty.
\<close>

record 'c winscard =
  SCardEstablishContext :: "'c \<Rightarrow> int \<times> 'c"
  SCardListReaders :: "'c \<Rightarrow> int \<times> cstr list \<times> 'c"
  SCardConnect :: "cstr \<Rightarrow> 'c \<Rightarrow> int \<times> 'c"
  SCardTransmit :: "byte list \<Rightarrow> nat \<Rightarrow> 'c \<Rightarrow> int \<times> byte list \<times> 'c"
  SCardDisconnect :: "'c \<Rightarrow> 'c"
  SCardReleaseContext :: "'c \<Rightarrow> 'c"

definition SCARD_E_SHARING_VIOLATION :: int where
  "SCARD_E_SHARING_VIOLATION = sint (0x8010000B :: u32)"

record 'c pcsc_userdata =
  pc_ctx :: bool
  hCard :: bool
  mszReaders :: "cstr list"
  pc_env :: env
  pc_state :: 'c

definition EUICC_INTERFACE_BUFSZ :: nat where "EUICC_INTERFACE_BUFSZ = 264"

subsection \<open>Choosing a reader\<close>

text \<open>\<open>strstr(s, t) != NULL\<close>\<close>

fun strstr :: "cstr \<Rightarrow> cstr \<Rightarrow> bool" where
  "strstr [] t = (t = [])"
| "strstr (c # s) t = (take (length t) (c # s) = t \<or> strstr s t)"

text \<open>The tokens \<open>strtok\<close> gives one after the other.\<close>

function strtok_all :: "byte \<Rightarrow> cstr \<Rightarrow> cstr list" where
  "strtok_all d s =
     (let s = dropWhile (\<lambda>c. c = d) s in
      if s = [] then [] else takeWhile (\<lambda>c. c \<noteq> d) s # strtok_all d (dropWhile (\<lambda>c. c \<noteq> d) s))"
  by pat_completeness auto
termination
proof (relation "measure (\<lambda>(d, s). length s)", goal_cases)
  case (2 d s t)
  from 2(2) obtain c t' where t: "t = c # t'" by (meson neq_Nil_conv)
  then have "c \<noteq> d" using 2 hd_dropWhile [of "\<lambda>c. c = d" s] by auto
  with t have "length (dropWhile (\<lambda>c. c \<noteq> d) t) < length t" by (simp add: le_imp_less_Suc length_dropWhile_le)
  also have "length t \<le> length s" using 2(1) by (simp add: length_dropWhile_le)
  finally show ?case by simp
qed simp

declare strtok_all.simps [simp del]

text \<open>What is left of the string: \<open>strtok\<close> has put a NUL behind the first token.\<close>

definition strtok_rest :: "byte \<Rightarrow> cstr \<Rightarrow> cstr" where
  "strtok_rest d s = takeWhile (\<lambda>c. c = d) s @ takeWhile (\<lambda>c. c \<noteq> d) (dropWhile (\<lambda>c. c = d) s)"

definition ENV_DRV_IFID :: cstr where "ENV_DRV_IFID = cstr ''LPAC_APDU_PCSC_DRV_IFID''"

definition ENV_DRV_NAME :: cstr where "ENV_DRV_NAME = cstr ''LPAC_APDU_PCSC_DRV_NAME''"

definition ENV_DRV_IGNORE_NAME :: cstr where "ENV_DRV_IGNORE_NAME = cstr ''LPAC_APDU_PCSC_DRV_IGNORE_NAME''"

definition is_ignored_reader_name :: "cstr \<Rightarrow> env \<Rightarrow> bool \<times> env" where
  "is_ignored_reader_name reader env =
     (case env ENV_DRV_IGNORE_NAME of
        None \<Rightarrow> (False, env)
      | Some v \<Rightarrow>
          (list_ex (strstr reader) (strtok_all (of_char CHR '';'') v),
           env(ENV_DRV_IGNORE_NAME \<mapsto> strtok_rest (of_char CHR '';'') v)))"

text \<open>The loop over the readers; a callback ends it with a number other than 0.\<close>

fun pcsc_iter_reader :: "(int \<Rightarrow> cstr \<Rightarrow> 'u \<Rightarrow> int \<times> 'u) \<Rightarrow> int \<Rightarrow> cstr list \<Rightarrow> 'u \<Rightarrow> int \<times> 'u" where
  "pcsc_iter_reader callback index [] u = (-1, u)"
| "pcsc_iter_reader callback index (reader # readers) u =
     (if reader = [] then (-1, u)
      else let (ret, u) = callback index reader u in
        if ret < 0 then (-1, u)
        else if ret > 0 then (0, u)
        else pcsc_iter_reader callback (index + 1) readers u)"

definition pcsc_connect_reader :: "'c winscard \<Rightarrow> cstr \<Rightarrow> 'c pcsc_userdata \<Rightarrow> int \<times> 'c pcsc_userdata" where
  "pcsc_connect_reader S reader u =
     (let (ret, c) = SCardConnect S reader (pc_state u); u = u\<lparr>pc_state := c\<rparr> in
      if ret \<noteq> 0 then if ret = SCARD_E_SHARING_VIOLATION then (0, u) else (-1, u)
      else (1, u\<lparr>hCard := True\<rparr>))"

definition pcsc_open_hCard_iter :: "'c winscard \<Rightarrow> int \<Rightarrow> cstr \<Rightarrow> 'c pcsc_userdata \<Rightarrow> int \<times> 'c pcsc_userdata" where
  "pcsc_open_hCard_iter S index reader u =
     (let ident = getenv_int_or_default (pc_env u) ENV_DRV_IFID (-1) in
      if ident \<ge> 0 then if ident \<noteq> index then (0, u) else pcsc_connect_reader S reader u
      else case pc_env u ENV_DRV_NAME of
        Some part_name \<Rightarrow> if \<not> strstr reader part_name then (0, u) else pcsc_connect_reader S reader u
      | None \<Rightarrow>
          (let (ignored, env) = is_ignored_reader_name reader (pc_env u); u = u\<lparr>pc_env := env\<rparr> in
           if ignored then (0, u) else pcsc_connect_reader S reader u))"

definition pcsc_open_hCard :: "'c winscard \<Rightarrow> 'c pcsc_userdata \<Rightarrow> int \<times> 'c pcsc_userdata" where
  "pcsc_open_hCard S u = pcsc_iter_reader (pcsc_open_hCard_iter S) 0 (mszReaders u) u"

subsection \<open>Context and card\<close>

definition pcsc_ctx_open :: "'c winscard \<Rightarrow> 'c pcsc_userdata \<Rightarrow> int \<times> 'c pcsc_userdata" where
  "pcsc_ctx_open S u =
     (let u = u\<lparr>pc_ctx := False, hCard := False, mszReaders := []\<rparr>;
          (ret, c) = SCardEstablishContext S (pc_state u);
          u = u\<lparr>pc_state := c\<rparr>
      in if ret \<noteq> 0 then (-1, u)
         else let (ret, readers, c) = SCardListReaders S (pc_state u); u = u\<lparr>pc_ctx := True, pc_state := c\<rparr> in
           if ret \<noteq> 0 then (-1, u) else (0, u\<lparr>mszReaders := readers\<rparr>))"

definition pcsc_close :: "'c winscard \<Rightarrow> 'c pcsc_userdata \<Rightarrow> 'c pcsc_userdata" where
  "pcsc_close S u =
     (let u = (if hCard u then u\<lparr>pc_state := SCardDisconnect S (pc_state u)\<rparr> else u) in
      if pc_ctx u then u\<lparr>pc_state := SCardReleaseContext S (pc_state u)\<rparr> else u)"

text \<open>\<open>tx_len\<close> is a \<open>uint8_t\<close>; the bytes received, or \<open>None\<close>.\<close>

definition pcsc_transmit_lowlevel ::
  "'c winscard \<Rightarrow> nat \<Rightarrow> byte list \<Rightarrow> byte \<Rightarrow> 'c pcsc_userdata \<Rightarrow> byte list option \<times> 'c pcsc_userdata" where
  "pcsc_transmit_lowlevel S rx_len tx tx_len u =
     (let (ret, rx, c) = SCardTransmit S (take (unat tx_len) tx) rx_len (pc_state u); u = u\<lparr>pc_state := c\<rparr> in
      if ret \<noteq> 0 then (None, u) else (Some rx, u))"

definition pcsc_logic_channel_close :: "'c winscard \<Rightarrow> byte \<Rightarrow> 'c pcsc_userdata \<Rightarrow> 'c pcsc_userdata" where
  "pcsc_logic_channel_close S channel u =
     snd (pcsc_transmit_lowlevel S EUICC_INTERFACE_BUFSZ ([0x00, 0x70, 0x80, 0xFF, 0x00][3 := channel]) 5 u)"

text \<open>The label \<open>err\<close>: a channel that was opened is closed.\<close>

definition pcsc_channel_err :: "'c winscard \<Rightarrow> byte \<Rightarrow> 'c pcsc_userdata \<Rightarrow> int \<times> 'c pcsc_userdata" where
  "pcsc_channel_err S channel u = (-1, if channel \<noteq> 0 then pcsc_logic_channel_close S channel u else u)"

definition pcsc_logic_channel_open :: "'c winscard \<Rightarrow> byte list \<Rightarrow> byte \<Rightarrow> 'c pcsc_userdata \<Rightarrow> int \<times> 'c pcsc_userdata" where
  "pcsc_logic_channel_open S a n u =
     (if n > 32 then pcsc_channel_err S 0 u
      else case pcsc_transmit_lowlevel S EUICC_INTERFACE_BUFSZ [0x00, 0x70, 0x00, 0x00, 0x01] 5 u of
        (None, u) \<Rightarrow> pcsc_channel_err S 0 u
      | (Some rx, u) \<Rightarrow>
          if length rx \<noteq> 3 then pcsc_channel_err S 0 u
          else if rx ! 1 AND 0xF0 \<noteq> 0x90 then pcsc_channel_err S 0 u
          else
            let channel = rx ! 0;
                tx = [0x00, 0xA4, 0x04, 0x00, 0xFF] @ take (unat n) a;
                tx = tx[0 := (tx ! 0 AND 0xF0) OR channel, 4 := n]
            in case pcsc_transmit_lowlevel S EUICC_INTERFACE_BUFSZ tx (of_nat (length tx)) u of
                 (None, u) \<Rightarrow> pcsc_channel_err S channel u
               | (Some rx, u) \<Rightarrow>
                   if length rx < 2 then pcsc_channel_err S channel u
                   else if rx ! (length rx - 2) = 0x90 \<or> rx ! (length rx - 2) = 0x61 then (uint channel, u)
                   else pcsc_channel_err S channel u)"

subsection \<open>The interface\<close>

definition pcsc_connect :: "'c winscard \<Rightarrow> 'c pcsc_userdata \<Rightarrow> int \<times> 'c pcsc_userdata" where
  "pcsc_connect S u =
     (let (ret, u) = pcsc_open_hCard S u in
      if ret < 0 then (-1, u)
      else (0, snd (pcsc_transmit_lowlevel S EUICC_INTERFACE_BUFSZ
        [0x80, 0xAA, 0x00, 0x00, 0x0A, 0xA9, 0x08, 0x81, 0x00, 0x82, 0x01, 0x01, 0x83, 0x01, 0x07] 15 u)))"

text \<open>The length of the APDU is cut to a \<open>uint8_t\<close> on the way to \<open>pcsc_transmit_lowlevel\<close>.\<close>

definition pcsc_transmit :: "'c winscard \<Rightarrow> byte list \<Rightarrow> 'c pcsc_userdata \<Rightarrow> byte list option \<times> 'c pcsc_userdata" where
  "pcsc_transmit S tx u = pcsc_transmit_lowlevel S EUICC_INTERFACE_BUFSZ tx (of_nat (length tx)) u"

definition pcsc_interface :: "'c winscard \<Rightarrow> 'c pcsc_userdata euicc_apdu_interface" where
  "pcsc_interface S =
     \<lparr>if_connect = pcsc_connect S, if_disconnect = pcsc_close S, if_logic_channel_open = pcsc_logic_channel_open S,
      if_logic_channel_close = pcsc_logic_channel_close S, if_transmit = (\<lambda>ch. pcsc_transmit S)\<rparr>"

definition pcsc_init :: "'c winscard \<Rightarrow> env \<Rightarrow> 'c \<Rightarrow> int \<times> 'c pcsc_userdata" where
  "pcsc_init S env c =
     (let env = set_deprecated_env_name ENV_DRV_IFID (cstr ''DRIVER_IFID'') env;
          env = set_deprecated_env_name ENV_DRV_NAME (cstr ''DRIVER_NAME'') env
      in pcsc_ctx_open S \<lparr>pc_ctx = False, hCard = False, mszReaders = [], pc_env = env, pc_state = c\<rparr>)"

end
