(* ===== verification/Pcsc_Props.thy ===== *)
theory Pcsc_Props
  imports Driver_Pcsc Driver_Contract
begin

text \<open>
  The properties of the driver for card readers: which reader it connects to, which APDUs reach the card, and what
  opening a channel leaves behind.
\<close>

subsection \<open>The driver carries the exchange with the card\<close>

text \<open>The card as PC/SC shows it.\<close>

definition reader_card :: "'c winscard \<Rightarrow> 'c euicc_apdu_interface" where
  "reader_card S = \<lparr>
     if_connect = (\<lambda>c. (0, c)), if_disconnect = SCardDisconnect S,
     if_logic_channel_open = (\<lambda>a n c. (1, c)), if_logic_channel_close = (\<lambda>ch c. c),
     if_transmit = (\<lambda>ch tx c. let (ret, rx, c) = SCardTransmit S tx EUICC_INTERFACE_BUFSZ c in (if ret = 0 then Some rx else None, c))\<rparr>"

text \<open>\<open>SCardTransmit\<close> does not write more than there is room for.\<close>

definition winscard_ok :: "'c winscard \<Rightarrow> bool" where
  "winscard_ok S \<longleftrightarrow> (\<forall>tx n c. length (fst (snd (SCardTransmit S tx n c))) \<le> n)"

lemma pcsc_transmit_reader:
  "length tx < 256 \<Longrightarrow>
    pcsc_transmit S tx u = (let (r, c) = if_transmit (reader_card S) ch tx (pc_state u) in (r, u\<lparr>pc_state := c\<rparr>))"
  by (simp add: pcsc_transmit_def pcsc_transmit_lowlevel_def reader_card_def unat_of_nat Let_def split: prod.splits)

interpretation pcsc: apdu_carrier "pcsc_interface S" "reader_card S" "\<lambda>u c. pc_state u = c" ch 255
  for S :: "'c winscard" and ch
  by unfold_locales (simp_all add: pcsc_interface_def pcsc_transmit_reader [where ch = ch])

lemma pcsc_small:
  assumes "winscard_ok S"
  shows "small_answers (pcsc_interface S)"
proof -
  have "length rx < 4294967296" if "pcsc_transmit S tx u = (Some rx, u')" for tx u rx u'
    using that assms [unfolded winscard_ok_def, rule_format, of "take (unat (of_nat (length tx) :: byte)) tx" EUICC_INTERFACE_BUFSZ "pc_state u"]
    by (simp add: pcsc_transmit_def pcsc_transmit_lowlevel_def EUICC_INTERFACE_BUFSZ_def Let_def split: prod.splits if_splits)
  then show ?thesis by (auto simp: small_answers_def pcsc_interface_def)
qed

text \<open>
  C17. A whole command over a card reader, with blocks of at most 250 bytes: \<open>es10x_command\<close> through \<open>pcsc.c\<close> returns what the card
  in the reader gives for the request, and leaves card and reader in the same state.
\<close>

theorem es10x_command_over_pcsc:
  assumes "winscard_ok S" "wf_ctx ctx" "es10x_mss ctx \<noteq> 0" "es10x_mss ctx \<le> 250" "length req < 4294967296"
    and "src_request ctx src req" "length resp < 4294967296"
    and "card_gives (reader_card S) ctx req (pc_state u) resp c'"
  shows "\<exists>ctx' u'. es10x_command (pcsc_interface S) src (of_nat (length req)) (ctx, u) =
      Some (Ret (resp, of_nat (length resp)), ctx', u') \<and> pc_state u' = c'"
proof -
  have "unat (es10x_mss ctx) + 5 \<le> 255" using assms(4) by (simp add: word_le_nat_alt)
  from pcsc.command_carried [OF pcsc_small [OF assms(1)] assms(2,3,5-7) refl this refl assms(8)] show ?thesis .
qed

text \<open>
  C18. What reaches the card of a STORE DATA block. \<open>pcsc_transmit_lowlevel\<close> takes the length as a \<open>uint8_t\<close>: a block of up to 250 bytes is
  sent whole, and of a block of 251 to 255 bytes, which \<open>LPAC_CUSTOM_ES10X_MSS\<close> allows, only the first bytes of the header.
\<close>

theorem pcsc_transmit_store_data:
  assumes "length data \<le> 255"
  shows "pcsc_transmit S (store_data ch p1 seq data) u =
    (let sent = (if length data \<le> 250 then store_data ch p1 seq data
                 else take (length data - 251) [wire_cla ch, 0xE2, p1, of_nat seq, of_nat (length data)]);
         (ret, rx, c) = SCardTransmit S sent EUICC_INTERFACE_BUFSZ (pc_state u)
     in (if ret = 0 then Some rx else None, u\<lparr>pc_state := c\<rparr>))"
proof -
  have "unat (of_nat (length (store_data ch p1 seq data)) :: byte) = (if length data \<le> 250 then length data + 5 else length data - 251)"
    using assms by (simp add: store_data_def unat_of_nat mod_if del: of_nat_Suc of_nat_add)
  moreover have "take k (store_data ch p1 seq data) = take k [wire_cla ch, 0xE2, p1, of_nat seq, of_nat (length data)]" if "k \<le> 5" for k
    using that by (simp only: store_data_def take_append) simp
  moreover have "length (store_data ch p1 seq data) = length data + 5" by (simp add: store_data_def)
  ultimately have "take (unat (of_nat (length (store_data ch p1 seq data)) :: byte)) (store_data ch p1 seq data) =
      (if length data \<le> 250 then store_data ch p1 seq data
       else take (length data - 251) [wire_cla ch, 0xE2, p1, of_nat seq, of_nat (length data)])"
    using assms by simp
  then show ?thesis
    by (simp only: pcsc_transmit_def pcsc_transmit_lowlevel_def) (simp add: Let_def split: prod.splits)
qed


text \<open>A reader whose card gives prepared answers and keeps a record; \<open>shared\<close> are the readers another program uses.\<close>

definition log_reader :: "cstr list \<Rightarrow> cstr list \<Rightarrow> card_log winscard" where
  "log_reader readers shared = \<lparr>
     SCardEstablishContext = (\<lambda>c. (0, c)), SCardListReaders = (\<lambda>c. (0, readers, c)),
     SCardConnect = (\<lambda>r c. (if r \<in> set shared then SCARD_E_SHARING_VIOLATION else 0, c\<lparr>heard := heard c @ [r]\<rparr>)),
     SCardTransmit = (\<lambda>tx n c. case to_say c of [] \<Rightarrow> (-1, [], c\<lparr>heard := heard c @ [tx]\<rparr>)
       | rx # rest \<Rightarrow> (if length rx \<le> n then 0 else -1, take n rx, c\<lparr>to_say := rest, heard := heard c @ [tx]\<rparr>)),
     SCardDisconnect = (\<lambda>c. c), SCardReleaseContext = (\<lambda>c. c)\<rparr>"

lemma log_reader_ok: "winscard_ok (log_reader readers shared)"
  by (auto simp: winscard_ok_def log_reader_def split: list.splits)

definition demo_reader :: "byte list list \<Rightarrow> card_log pcsc_userdata" where
  "demo_reader rxs = \<lparr>pc_ctx = True, hCard = True, mszReaders = [cstr ''A'', cstr ''B'', cstr ''C''], pc_env = (\<lambda>_. None),
     pc_state = \<lparr>to_say = rxs, heard = []\<rparr>\<rparr>"

theorem es10x_command_over_pcsc_witness:
  "\<exists>ctx' u'. es10x_command (pcsc_interface (log_reader [] [])) (ReqMem [1, 2]) 2 (script_ctx, demo_reader demo_answers) =
      Some (Ret ([7, 8], 2), ctx', u') \<and> pc_state u' = \<lparr>to_say = [], heard = demo_apdus\<rparr>"
proof -
  have src: "src_request script_ctx (ReqMem [1, 2]) [1, 2]" by (simp add: src_request_def)
  have mss: "es10x_mss script_ctx \<le> 250" by (simp add: script_ctx_def)
  have "card_gives (reader_card (log_reader [] [])) script_ctx [1, 2] (pc_state (demo_reader demo_answers)) [7, 8]
      \<lparr>to_say = [], heard = demo_apdus\<rparr>"
    unfolding demo_reader_def pcsc_userdata.simps
    by (rule demo_card_gives) (auto simp: reader_card_def log_reader_def EUICC_INTERFACE_BUFSZ_def)
  from es10x_command_over_pcsc [OF log_reader_ok script_ctx_wf(1,2) mss _ src _ this] show ?thesis by simp
qed

theorem pcsc_transmit_store_data_witness:
  "heard (pc_state (snd (pcsc_transmit (log_reader [] []) (store_data 1 0x91 0 (replicate 253 7)) (demo_reader [])))) = [[0x81, 0xE2]]"
  using pcsc_transmit_store_data [of "replicate 253 7" "log_reader [] []" 1 "0x91" 0 "demo_reader []"]
  by (simp add: log_reader_def demo_reader_def wire_cla_def)


subsection \<open>The choice of a reader\<close>

text \<open>
  The names that are ignored at a reader: the list in the environment is whole for the first reader only, because
  \<open>strtok\<close> then has cut it behind its first name.
\<close>

definition ignored_names :: "env \<Rightarrow> int \<Rightarrow> cstr list" where
  "ignored_names env index =
     (case env ENV_DRV_IGNORE_NAME of
        None \<Rightarrow> []
      | Some v \<Rightarrow> if index = 0 then strtok_all (of_char CHR '';'') v else take 1 (strtok_all (of_char CHR '';'') v))"

definition reader_wanted :: "env \<Rightarrow> int \<Rightarrow> cstr \<Rightarrow> bool" where
  "reader_wanted env index reader \<longleftrightarrow>
     (let ident = getenv_int_or_default env ENV_DRV_IFID (-1) in
      if ident \<ge> 0 then ident = index
      else case env ENV_DRV_NAME of
        Some part_name \<Rightarrow> strstr reader part_name
      | None \<Rightarrow> \<not> list_ex (strstr reader) (ignored_names env index))"

fun wanted_readers :: "env \<Rightarrow> int \<Rightarrow> cstr list \<Rightarrow> cstr list" where
  "wanted_readers env index [] = []"
| "wanted_readers env index (r # rs) = (if reader_wanted env index r then r # wanted_readers env (index + 1) rs else wanted_readers env (index + 1) rs)"

text \<open>Connect to the first that another program does not hold.\<close>

fun try_readers :: "'c winscard \<Rightarrow> cstr list \<Rightarrow> 'c pcsc_userdata \<Rightarrow> int \<times> 'c pcsc_userdata" where
  "try_readers S [] u = (-1, u)"
| "try_readers S (r # rs) u =
     (let (ret, u) = pcsc_connect_reader S r u in
      if ret < 0 then (-1, u) else if ret > 0 then (0, u) else try_readers S rs u)"

lemma strtok_parts:
  obtains ds tok rest where "s = ds @ tok @ rest" "strtok_rest d s = ds @ tok" "\<forall>c \<in> set ds. c = d" "d \<notin> set tok"
    "strtok_all d s = (if tok = [] then [] else tok # strtok_all d rest)"
proof
  let ?t = "dropWhile (\<lambda>c. c = d) s"
  show "s = takeWhile (\<lambda>c. c = d) s @ takeWhile (\<lambda>c. c \<noteq> d) ?t @ dropWhile (\<lambda>c. c \<noteq> d) ?t" by simp
  show "strtok_rest d s = takeWhile (\<lambda>c. c = d) s @ takeWhile (\<lambda>c. c \<noteq> d) ?t" by (simp add: strtok_rest_def)
  show "\<forall>c \<in> set (takeWhile (\<lambda>c. c = d) s). c = d" "d \<notin> set (takeWhile (\<lambda>c. c \<noteq> d) ?t)" by (auto dest: set_takeWhileD)
  have "takeWhile (\<lambda>c. c \<noteq> d) ?t = [] \<longleftrightarrow> ?t = []"
    using hd_dropWhile [of "\<lambda>c. c = d" s] by (auto simp: takeWhile_eq_Nil_iff)
  then show "strtok_all d s = (if takeWhile (\<lambda>c. c \<noteq> d) ?t = [] then []
      else takeWhile (\<lambda>c. c \<noteq> d) ?t # strtok_all d (dropWhile (\<lambda>c. c \<noteq> d) ?t))"
    by (subst strtok_all.simps) (simp add: Let_def)
qed

lemma strtok_plain:
  assumes "\<forall>c \<in> set ds. c = d" "d \<notin> set tok"
  shows "strtok_all d (ds @ tok) = (if tok = [] then [] else [tok])" "strtok_rest d (ds @ tok) = ds @ tok"
proof -
  have drop: "dropWhile (\<lambda>c. c = d) (ds @ tok) = tok" and take: "takeWhile (\<lambda>c. c = d) (ds @ tok) = ds"
    using assms by (cases tok; auto simp: dropWhile_append takeWhile_append)+
  have all: "takeWhile (\<lambda>c. c \<noteq> d) tok = tok" "dropWhile (\<lambda>c. c \<noteq> d) tok = []"
    using assms(2) by (auto simp: takeWhile_eq_all_conv dropWhile_eq_Nil_conv)
  have Nil: "strtok_all d [] = []" by (subst strtok_all.simps) simp
  show "strtok_all d (ds @ tok) = (if tok = [] then [] else [tok])"
    unfolding strtok_all.simps [of d "ds @ tok"] drop all Nil Let_def ..
  show "strtok_rest d (ds @ tok) = ds @ tok" unfolding strtok_rest_def drop take all ..
qed

lemma strtok_cut: "strtok_all d (strtok_rest d s) = take 1 (strtok_all d s)" "strtok_rest d (strtok_rest d s) = strtok_rest d s"
proof -
  obtain ds tok rest where p: "strtok_rest d s = ds @ tok" "\<forall>c \<in> set ds. c = d" "d \<notin> set tok"
    "strtok_all d s = (if tok = [] then [] else tok # strtok_all d rest)" by (rule strtok_parts [of s d])
  from strtok_plain [OF p(2,3)] p show "strtok_all d (strtok_rest d s) = take 1 (strtok_all d s)"
    "strtok_rest d (strtok_rest d s) = strtok_rest d s" by simp_all
qed

text \<open>The environment after the list of names was used.\<close>

definition cut_env :: "env \<Rightarrow> env" where
  "cut_env env = (case env ENV_DRV_IGNORE_NAME of
     None \<Rightarrow> env | Some v \<Rightarrow> env(ENV_DRV_IGNORE_NAME \<mapsto> strtok_rest (of_char CHR '';'') v))"

definition env_at :: "env \<Rightarrow> int \<Rightarrow> env \<Rightarrow> bool" where
  "env_at env k e \<longleftrightarrow>
     (if getenv_int_or_default env ENV_DRV_IFID (-1) \<ge> 0 \<or> env ENV_DRV_NAME \<noteq> None \<or> k = 0 then e = env else e = cut_env env)"

lemma cut_env_other:
  "cut_env env ENV_DRV_NAME = env ENV_DRV_NAME"
  "getenv_int_or_default (cut_env env) ENV_DRV_IFID x = getenv_int_or_default env ENV_DRV_IFID x"
  by (auto simp: cut_env_def ENV_DRV_NAME_def ENV_DRV_IGNORE_NAME_def ENV_DRV_IFID_def cstr_def
      getenv_int_or_default_def getenv_long_or_default_def split: option.splits)

lemma is_ignored_reader_name_env:
  "is_ignored_reader_name r env = (list_ex (strstr r) (ignored_names env 0), cut_env env)"
  "k \<noteq> 0 \<Longrightarrow> is_ignored_reader_name r (cut_env env) = (list_ex (strstr r) (ignored_names env k), cut_env env)"
  by (auto simp: is_ignored_reader_name_def ignored_names_def cut_env_def strtok_cut split: option.splits)

lemma pcsc_open_hCard_iter_wanted:
  assumes "env_at env k (pc_env u)" "0 \<le> k"
  shows "\<exists>e. env_at env (k + 1) e \<and> pcsc_open_hCard_iter S k r u =
    (if reader_wanted env k r then pcsc_connect_reader S r (u\<lparr>pc_env := e\<rparr>) else (0, u\<lparr>pc_env := e\<rparr>))"
proof (cases "getenv_int_or_default env ENV_DRV_IFID (-1) \<ge> 0 \<or> env ENV_DRV_NAME \<noteq> None")
  case True
  with assms have "pc_env u = env" by (auto simp: env_at_def split: if_splits)
  with True show ?thesis
    by (intro exI [of _ env]) (auto simp: env_at_def pcsc_open_hCard_iter_def reader_wanted_def Let_def split: option.splits)
next
  case False
  then have k: "pc_env u = (if k = 0 then env else cut_env env)" using assms(1) by (auto simp: env_at_def)
  have "is_ignored_reader_name r (pc_env u) = (list_ex (strstr r) (ignored_names env k), cut_env env)"
    unfolding k using is_ignored_reader_name_env by simp
  moreover have "getenv_int_or_default (pc_env u) ENV_DRV_IFID (-1) = getenv_int_or_default env ENV_DRV_IFID (-1)"
    "pc_env u ENV_DRV_NAME = env ENV_DRV_NAME" unfolding k by (simp_all add: cut_env_other)
  ultimately show ?thesis using False assms(2)
    by (intro exI [of _ "cut_env env"]) (simp add: env_at_def pcsc_open_hCard_iter_def reader_wanted_def Let_def)
qed

lemma pcsc_connect_reader_env:
  "pcsc_connect_reader S r (u\<lparr>pc_env := e\<rparr>) = apsnd (pc_env_update (\<lambda>_. e)) (pcsc_connect_reader S r u)"
  by (auto simp: pcsc_connect_reader_def Let_def split: prod.splits)

lemma pcsc_iter_reader_wanted:
  "env_at env k (pc_env u) \<Longrightarrow> 0 \<le> k \<Longrightarrow> [] \<notin> set rs \<Longrightarrow>
    \<exists>e. pcsc_iter_reader (pcsc_open_hCard_iter S) k rs u = apsnd (pc_env_update (\<lambda>_. e)) (try_readers S (wanted_readers env k rs) u)"
proof (induction rs arbitrary: k u)
  case Nil
  then show ?case by (intro exI [of _ "pc_env u"]) simp
next
  case (Cons r rs)
  from pcsc_open_hCard_iter_wanted [OF Cons.prems(1,2), of S r] obtain e where e: "env_at env (k + 1) e"
    "pcsc_open_hCard_iter S k r u =
      (if reader_wanted env k r then pcsc_connect_reader S r (u\<lparr>pc_env := e\<rparr>) else (0, u\<lparr>pc_env := e\<rparr>))" by blast
  have upd: "try_readers S xs (v\<lparr>pc_env := e1\<rparr>) = apsnd (pc_env_update (\<lambda>_. e1)) (try_readers S xs v)" for xs v e1
    by (induction xs arbitrary: v) (auto simp: pcsc_connect_reader_env Let_def split: prod.splits)
  have IH: "\<exists>e'. pcsc_iter_reader (pcsc_open_hCard_iter S) (k + 1) rs (v\<lparr>pc_env := e\<rparr>) =
      apsnd (pc_env_update (\<lambda>_. e')) (try_readers S (wanted_readers env (k + 1) rs) v)" for v
    using Cons.IH [of "k + 1" "v\<lparr>pc_env := e\<rparr>"] e(1) Cons.prems(2,3) by (auto simp: upd apsnd_compose)
  show ?case
  proof (cases "reader_wanted env k r")
    case False
    with e(2) IH [of u] Cons.prems(3) show ?thesis by auto
  next
    case True
    obtain ret v where c: "pcsc_connect_reader S r u = (ret, v)" by fastforce
    with True e(2) IH [of v] Cons.prems(3) show ?thesis
      by (auto simp: pcsc_connect_reader_env intro!: exI [of _ e])
  qed
qed



definition ignore_env :: env where
  "ignore_env = [ENV_DRV_IGNORE_NAME \<mapsto> cstr ''A;B'']"


subsection \<open>Opening a channel\<close>

definition open_channel :: "byte list" where "open_channel = [0x00, 0x70, 0x00, 0x00, 0x01]"

definition select_aid :: "byte \<Rightarrow> byte list \<Rightarrow> byte list" where
  "select_aid channel a = [channel, 0xA4, 0x04, 0x00, of_nat (length a)] @ a"

definition close_channel :: "byte \<Rightarrow> byte list" where "close_channel channel = [0x00, 0x70, 0x80, channel, 0x00]"

definition selected :: "byte list option \<Rightarrow> bool" where
  "selected rx \<longleftrightarrow> (case rx of None \<Rightarrow> False | Some r \<Rightarrow> length r \<ge> 2 \<and> r ! (length r - 2) \<in> {0x90, 0x61})"

text \<open>The next answer of the scripted card, where the buffer has room for it.\<close>

definition next_answer :: "byte list list \<Rightarrow> byte list option" where
  "next_answer rxs = (case rxs of [] \<Rightarrow> None | rx # _ \<Rightarrow> if length rx \<le> EUICC_INTERFACE_BUFSZ then Some rx else None)"

lemma log_reader_lowlevel:
  "pcsc_transmit_lowlevel (log_reader readers shared) EUICC_INTERFACE_BUFSZ tx (of_nat (length tx)) u =
    (next_answer (to_say (pc_state u)), u\<lparr>pc_state := \<lparr>to_say = tl (to_say (pc_state u)), heard = heard (pc_state u) @ [tx]\<rparr>\<rparr>)"
  if "length tx < 256"
  using that by (simp add: pcsc_transmit_lowlevel_def log_reader_def next_answer_def unat_of_nat split: list.splits)



end
