(* ===== verification/Driver_Stdio.thy ===== *)
theory Driver_Stdio
  imports Utils Euicc Es9p
begin

text \<open>
  The driver that hands the work to another program over standard input and output, one line of JSON each way:
  \<open>driver/apdu/stdio.c\<close>, with what \<open>driver/http/stdio.c\<close> shares with it. The JSON library is a parameter: the record \<open>cjson\<close> of \<open>es9p.c\<close>, extended by
  numbers and by the text of the two kinds of request.
\<close>

subsection \<open>The parameters\<close>

text \<open>
  \<open>cJSON_Number\<close> is the \<open>valueint\<close> of a value for which \<open>cJSON_IsNumber\<close> holds. \<open>print_apdu\<close> and \<open>print_http\<close> stand for the
  text \<open>json_print\<close> gives of the objects the drivers build.
\<close>

record 'j cjson_stdio = "'j cjson" +
  cJSON_Number :: "'j \<Rightarrow> int option"
  print_apdu :: "cstr \<Rightarrow> cstr option \<Rightarrow> cstr"
  print_http :: "cstr \<Rightarrow> cstr \<Rightarrow> cstr list \<Rightarrow> cstr"

text \<open>What is still to come on standard input, and what was written to standard output.\<close>

record stdio =
  std_in :: "byte list"
  std_out :: "byte list"

subsection \<open>Reading a line\<close>

text \<open>
  The loop of \<open>afgets\<close>: \<open>fgets\<close> with a buffer of two bytes gives one character at a time. \<open>len\<close> is the size of the block;
  \<open>strcat\<close> writes the string, the character and the NUL into it. For a NUL in the input \<open>strlen(buffer)\<close> is 0 and
  \<open>buffer[fgets_len - 1]\<close> is far outside.
\<close>

fun afgets_loop :: "cstr \<Rightarrow> u32 \<Rightarrow> byte list \<Rightarrow> cstr cres \<times> byte list" where
  "afgets_loop obuf len [] = (Ret obuf, [])"
| "afgets_loop obuf len (c # rest) =
     (if c = 0 then (UB, rest)
      else let len = len + 2 in
        if length obuf + 2 > unat len then (UB, rest)
        else if c = 0x0A then (Ret (obuf @ [c]), rest)
        else afgets_loop (obuf @ [c]) len rest)"

definition afgets :: "stdio \<Rightarrow> cstr cres \<times> stdio" where
  "afgets st =
     (let (r, rest) = afgets_loop [] 0 (std_in st) in
      (cbind r (\<lambda>obuf. Ret (takeWhile (\<lambda>c. c \<noteq> 0x0A) obuf)), st\<lparr>std_in := rest\<rparr>))"

subsection \<open>\<open>driver/apdu/stdio.c\<close>\<close>

definition std_print :: "cstr \<Rightarrow> stdio \<Rightarrow> stdio" where
  "std_print line st = st\<lparr>std_out := std_out st @ line @ [0x0A]\<rparr>"

text \<open>No parameter is printed for a null pointer or an empty one.\<close>

definition apdu_json_request :: "('j, 'x) cjson_stdio_scheme \<Rightarrow> cstr \<Rightarrow> byte list \<Rightarrow> stdio \<Rightarrow> bool cres \<times> stdio" where
  "apdu_json_request J func param st =
     (if param = [] then (Ret True, std_print (print_apdu J func None) st)
      else let n = of_nat (length param) :: u32 in
        case euicc_hexutil_bin2hex (replicate (unat (2 * n + 1)) 0) (2 * n + 1) param n of
          UB \<Rightarrow> (UB, st)
        | Fail \<Rightarrow> (Ret False, st)
        | Ret (_, hex) \<Rightarrow> (Ret True, std_print (print_apdu J func (Some (cstr_of hex))) st))"

text \<open>The member of that name, where it is a string.\<close>

definition json_string :: "('j, 'x) cjson_stdio_scheme \<Rightarrow> 'j \<Rightarrow> cstr \<Rightarrow> cstr option" where
  "json_string J j name = Option.bind (cJSON_GetObjectItem J j name) (cJSON_String J)"

definition hex_bytes :: "cstr \<Rightarrow> byte list cres" where
  "hex_bytes s =
     (let n = strlen s div 2 in
      cbind (euicc_hexutil_hex2bin_r (replicate (unat n) 0) n s (strlen s)) (\<lambda>(_, bytes). Ret bytes))"

text \<open>
  The number, and the bytes where \<open>wanted\<close> (\<open>data\<close> and \<open>data_len\<close> are not \<open>NULL\<close>) and there: \<open>None\<close> where the string is
  missing, which leaves \<open>*data\<close> at \<open>NULL\<close>.
\<close>

definition apdu_json_response ::
  "('j, 'x) cjson_stdio_scheme \<Rightarrow> bool \<Rightarrow> stdio \<Rightarrow> (int \<times> byte list option) cres \<times> stdio" where
  "apdu_json_response J wanted st =
     (let (r, st) = afgets st in
      (cbind r (\<lambda>line.
       case cJSON_Parse J line of
         None \<Rightarrow> Fail
       | Some root \<Rightarrow>
           if json_string J root (cstr ''type'') \<noteq> Some (cstr ''apdu'') then Fail
           else case cJSON_GetObjectItem J root (cstr ''payload'') of
             None \<Rightarrow> Fail
           | Some payload \<Rightarrow>
               if \<not> cJSON_IsObject J payload then Fail
               else case Option.bind (cJSON_GetObjectItem J payload (cstr ''ecode'')) (cJSON_Number J) of
                 None \<Rightarrow> Fail
               | Some ecode \<Rightarrow>
                   (case json_string J payload (cstr ''data'') of
                      None \<Rightarrow> Ret (ecode, None)
                    | Some s \<Rightarrow>
                        if \<not> wanted then Ret (ecode, None)
                        else cbind (hex_bytes s) (\<lambda>bytes. Ret (ecode, Some bytes)))), st))"

definition stdio_call ::
  "('j, 'x) cjson_stdio_scheme \<Rightarrow> cstr \<Rightarrow> byte list \<Rightarrow> bool \<Rightarrow> stdio \<Rightarrow> (int \<times> byte list option) cres \<times> stdio" where
  "stdio_call J func param wanted st =
     (case apdu_json_request J func param st of
        (UB, st) \<Rightarrow> (UB, st)
      | (Ret True, st) \<Rightarrow> apdu_json_response J wanted st
      | (_, st) \<Rightarrow> (Fail, st))"

definition stdio_connect :: "('j, 'x) cjson_stdio_scheme \<Rightarrow> stdio \<Rightarrow> int cres \<times> stdio" where
  "stdio_connect J st =
     (let (r, st) = stdio_call J (cstr ''connect'') [] False st in (cbind r (\<lambda>(ecode, _). Ret ecode), st))"

text \<open>The functions without a result wait for the answer even where the request could not be printed.\<close>

definition stdio_notify :: "('j, 'x) cjson_stdio_scheme \<Rightarrow> cstr \<Rightarrow> byte list \<Rightarrow> stdio \<Rightarrow> unit cres \<times> stdio" where
  "stdio_notify J func param st =
     (case apdu_json_request J func param st of
        (UB, st) \<Rightarrow> (UB, st)
      | (_, st) \<Rightarrow> (let (r, st) = apdu_json_response J False st in (if r = UB then UB else Ret (), st)))"

definition stdio_disconnect :: "('j, 'x) cjson_stdio_scheme \<Rightarrow> stdio \<Rightarrow> unit cres \<times> stdio" where
  "stdio_disconnect J = stdio_notify J (cstr ''disconnect'') []"

definition stdio_logic_channel_open ::
  "('j, 'x) cjson_stdio_scheme \<Rightarrow> byte list \<Rightarrow> byte \<Rightarrow> stdio \<Rightarrow> int cres \<times> stdio" where
  "stdio_logic_channel_open J a n st =
     (if length a < unat n then (UB, st)
      else let (r, st) = stdio_call J (cstr ''logic_channel_open'') (take (unat n) a) False st in
        (cbind r (\<lambda>(ecode, _). Ret ecode), st))"

definition stdio_logic_channel_close :: "('j, 'x) cjson_stdio_scheme \<Rightarrow> byte \<Rightarrow> stdio \<Rightarrow> unit cres \<times> stdio" where
  "stdio_logic_channel_close J channel = stdio_notify J (cstr ''logic_channel_close'') [channel]"

text \<open>A negative \<open>ecode\<close> is the failure of the driver; without data the answer is empty, which the caller refuses.\<close>

definition stdio_transmit :: "('j, 'x) cjson_stdio_scheme \<Rightarrow> byte list \<Rightarrow> stdio \<Rightarrow> byte list cres \<times> stdio" where
  "stdio_transmit J tx st =
     (let (r, st) = stdio_call J (cstr ''transmit'') tx True st in
      (cbind r (\<lambda>(ecode, data). if ecode < 0 then Fail else Ret (case data of None \<Rightarrow> [] | Some rx \<Rightarrow> rx)), st))"

subsection \<open>The interface\<close>

text \<open>
  \<open>libapduinterface_init\<close>. A call that is undefined is shown as a failure; what is stated of this record is about calls
  that succeed.
\<close>

definition stdio_result :: "'a cres \<times> stdio \<Rightarrow> 'a option \<times> stdio" where
  "stdio_result = (\<lambda>(r, st). (case r of Ret a \<Rightarrow> Some a | _ \<Rightarrow> None, st))"

definition stdio_int :: "int cres \<times> stdio \<Rightarrow> int \<times> stdio" where
  "stdio_int = (\<lambda>(r, st). (case r of Ret n \<Rightarrow> n | _ \<Rightarrow> -1, st))"

definition stdio_interface :: "('j, 'x) cjson_stdio_scheme \<Rightarrow> stdio euicc_apdu_interface" where
  "stdio_interface J =
     \<lparr>if_connect = (\<lambda>st. stdio_int (stdio_connect J st)), if_disconnect = (\<lambda>st. snd (stdio_disconnect J st)),
      if_logic_channel_open = (\<lambda>a n st. stdio_int (stdio_logic_channel_open J a n st)),
      if_logic_channel_close = (\<lambda>channel st. snd (stdio_logic_channel_close J channel st)),
      if_transmit = (\<lambda>ch tx st. stdio_result (stdio_transmit J tx st))\<rparr>"

end
