(* ===== verification/Driver_Http.thy ===== *)
theory Driver_Http
  imports Driver_Stdio
begin

text \<open>The HTTP driver on standard input and output, \<open>driver/http/stdio.c\<close>; \<open>afgets\<close> is the one of the driver for APDUs.\<close>

subsection \<open>\<open>driver/http/stdio.c\<close>\<close>

text \<open>The result of the request is not looked at.\<close>

definition http_json_request ::
  "('j, 'x) cjson_stdio_scheme \<Rightarrow> cstr \<Rightarrow> byte list \<Rightarrow> u32 \<Rightarrow> cstr list \<Rightarrow> stdio \<Rightarrow> unit cres \<times> stdio" where
  "http_json_request J url tx tx_len headers st =
     (case euicc_hexutil_bin2hex (replicate (unat (2 * tx_len + 1)) 0) (2 * tx_len + 1) tx tx_len of
        UB \<Rightarrow> (UB, st)
      | Fail \<Rightarrow> (Ret (), st)
      | Ret (_, hex) \<Rightarrow> (Ret (), std_print (print_http J url (cstr_of hex) headers) st))"

definition http_interface_transmit ::
  "('j, 'x) cjson_stdio_scheme \<Rightarrow> cstr \<Rightarrow> byte list \<Rightarrow> u32 \<Rightarrow> cstr list \<Rightarrow> stdio \<Rightarrow> (u32 \<times> byte list) cres \<times> stdio" where
  "http_interface_transmit J url tx tx_len headers st =
     (case http_json_request J url tx tx_len headers st of
        (UB, st) \<Rightarrow> (UB, st)
      | (_, st) \<Rightarrow>
          (let (r, st) = afgets st in
           (cbind r (\<lambda>line.
            case cJSON_Parse J line of
              None \<Rightarrow> Fail
            | Some root \<Rightarrow>
                if json_string J root (cstr ''type'') \<noteq> Some (cstr ''http'') then Fail
                else case cJSON_GetObjectItem J root (cstr ''payload'') of
                  None \<Rightarrow> Fail
                | Some payload \<Rightarrow>
                    if \<not> cJSON_IsObject J payload then Fail
                    else case Option.bind (cJSON_GetObjectItem J payload (cstr ''rcode'')) (cJSON_Number J) of
                      None \<Rightarrow> Fail
                    | Some rcode \<Rightarrow>
                        (case json_string J payload (cstr ''rx'') of
                           None \<Rightarrow> Fail
                         | Some s \<Rightarrow> cbind (hex_bytes s) (\<lambda>rx. Ret (word_of_int rcode, rx)))), st)))"

subsection \<open>The interface\<close>

text \<open>\<open>libhttpinterface_init\<close>, with an undefined call shown as a failure.\<close>

definition stdio_http_interface :: "('j, 'x) cjson_stdio_scheme \<Rightarrow> stdio euicc_http_interface" where
  "stdio_http_interface J =
     \<lparr>http_transmit = (\<lambda>url tx tx_len headers st.
        let (r, st) = stdio_result (http_interface_transmit J url tx tx_len headers st) in
        (map_option (\<lambda>(rcode, rx). (rcode, rx, of_nat (length rx))) r, st))\<rparr>"

end
