(* ===== verification/Stdio_Props.thy ===== *)
theory Stdio_Props
  imports Driver_Http Driver_Contract Es9p_Props
begin

text \<open>
  The properties of the drivers on standard input and output: reading a line, and that both drivers hand on what the
  program at the other end says.
\<close>

subsection \<open>Reading a line\<close>

lemma afgets_loop_line:
  "0 \<notin> set line \<Longrightarrow> 0x0A \<notin> set line \<Longrightarrow> len = of_nat (2 * length obuf) \<Longrightarrow> 2 * (length obuf + length line) + 2 < 4294967296 \<Longrightarrow>
    afgets_loop obuf len (line @ 0x0A # rest) = (Ret (obuf @ line @ [0x0A]), rest)"
proof (induction line arbitrary: obuf len)
  case Nil
  then have "unat (len + 2) = 2 * length obuf + 2" using unat_of_nat_u32 [of "2 * length obuf + 2"] by (simp add: add.commute)
  then show ?case by (simp add: Let_def)
next
  case (Cons c line)
  then have "unat (len + 2) = 2 * length obuf + 2" using unat_of_nat_u32 [of "2 * length obuf + 2"] by (simp add: add.commute)
  moreover have "len + 2 = of_nat (2 * length (obuf @ [c]))" using Cons.prems(3) by simp
  ultimately show ?case using Cons.IH [of "len + 2" "obuf @ [c]"] Cons.prems by (auto simp: Let_def)
qed

lemma afgets_loop_NUL:
  "0 \<notin> set line \<Longrightarrow> 0x0A \<notin> set line \<Longrightarrow> fst (afgets_loop obuf len (line @ 0 # rest)) = UB"
  by (induction line arbitrary: obuf len) (auto simp: Let_def)

lemma afgets_line:
  assumes "std_in st = line @ 0x0A # rest" "0 \<notin> set line" "0x0A \<notin> set line" "length line < 0x70000000"
  shows "afgets st = (Ret line, st\<lparr>std_in := rest\<rparr>)"
proof -
  have "takeWhile (\<lambda>c. c \<noteq> 0x0A) (line @ [0x0A]) = line" using assms(3) by (simp add: takeWhile_append)
  then show ?thesis using assms by (simp add: afgets_def afgets_loop_line)
qed

text \<open>A NUL in the input: \<open>buffer[fgets_len - 1]\<close> is read with \<open>fgets_len\<close> 0.\<close>

lemma afgets_NUL:
  "std_in st = line @ 0 # rest \<Longrightarrow> 0 \<notin> set line \<Longrightarrow> 0x0A \<notin> set line \<Longrightarrow> fst (afgets st) = UB"
  using afgets_loop_NUL [of line "[]" 0 rest] by (simp add: afgets_def split_beta)

lemma hex_bytes_eq:
  "length s < 4294967296 \<Longrightarrow> hex_bytes s = (case unhex s of None \<Rightarrow> Fail | Some bs \<Rightarrow> Ret bs)"
  by (simp add: hex_bytes_def Let_def hex2bin_all split: option.splits)

lemma hex_bytes_small: "hex_bytes s = Ret bs \<Longrightarrow> length bs < 0xFFFFFFFF"
proof -
  assume "hex_bytes s = Ret bs"
  moreover have "slice_ok s (strlen s)" by (simp add: slice_ok_def strlen_def unat_of_nat)
  ultimately obtain xs where x: "bs = xs @ drop (length xs) (replicate (unat (strlen s div 2)) 0)"
    "unhex (slice_bytes s (strlen s)) = Some xs" "\<not> unat (strlen s div 2) < unat (strlen s) div 2"
    by (auto simp: hex_bytes_def Let_def cbind_eq_Ret euicc_hexutil_hex2bin_r_eq split: if_splits option.splits)
  then have "length xs \<le> unat (strlen s) div 2" using length_unhex [OF x(2)] by (simp add: slice_bytes_def)
  then have "length bs \<le> unat (strlen s) div 2" unfolding x(1) by (simp add: unat_div)
  with unsigned_less [of "strlen s", where ?'a = nat] show ?thesis by simp
qed

subsection \<open>The driver for APDUs\<close>

text \<open>A line that says that the card answered \<open>rx\<close>.\<close>

definition line_ok :: "cstr \<Rightarrow> bool" where
  "line_ok l \<longleftrightarrow> 0 \<notin> set l \<and> 0x0A \<notin> set l \<and> length l < 0x70000000"

definition says_apdu :: "('j, 'x) cjson_stdio_scheme \<Rightarrow> cstr \<Rightarrow> byte list \<Rightarrow> bool" where
  "says_apdu J l rx \<longleftrightarrow> line_ok l \<and> (\<exists>root payload ecode s.
     cJSON_Parse J l = Some root \<and> json_string J root (cstr ''type'') = Some (cstr ''apdu'') \<and>
     cJSON_GetObjectItem J root (cstr ''payload'') = Some payload \<and> cJSON_IsObject J payload \<and>
     Option.bind (cJSON_GetObjectItem J payload (cstr ''ecode'')) (cJSON_Number J) = Some ecode \<and> 0 \<le> ecode \<and>
     json_string J payload (cstr ''data'') = Some s \<and> length s < 4294967296 \<and> unhex s = Some rx)"

definition transmit_line :: "('j, 'x) cjson_stdio_scheme \<Rightarrow> byte list \<Rightarrow> byte list" where
  "transmit_line J tx = print_apdu J (cstr ''transmit'') (if tx = [] then None else Some (hex_of tx)) @ [0x0A]"

definition stdio_carries :: "('j, 'x) cjson_stdio_scheme \<Rightarrow> byte list \<Rightarrow> byte list \<Rightarrow> stdio \<Rightarrow> card_log \<Rightarrow> bool" where
  "stdio_carries J base rest st c \<longleftrightarrow>
     (\<exists>lines. list_all2 (says_apdu J) lines (to_say c) \<and> std_in st = concat (map (\<lambda>l. l @ [0x0A]) lines) @ rest) \<and>
     std_out st = base @ concat (map (transmit_line J) (heard c))"

lemma apdu_json_request_eq:
  assumes "length tx < 1073741824"
  shows "apdu_json_request J (cstr ''transmit'') tx st = (Ret True, st\<lparr>std_out := std_out st @ transmit_line J tx\<rparr>)"
proof (cases "tx = []")
  case False
  have len: "unat (2 * of_nat (length tx) + 1 :: u32) = 2 * length tx + 1"
    using assms unat_double_plus1_u32 [of "of_nat (length tx)"] by simp
  have "euicc_hexutil_bin2hex (replicate (unat (2 * of_nat (length tx) + 1 :: u32)) 0) (2 * of_nat (length tx) + 1) tx (of_nat (length tx)) =
      Ret (2 * length tx, hex_of tx @ [0])"
    using assms by (subst euicc_hexutil_bin2hex_eq) (simp_all only: len, simp_all add: slice_ok_def slice_bytes_def)
  moreover have "cstr_of (hex_of tx @ [0]) = hex_of tx" by (rule cstr_of_append_NUL) (rule hex_of_no_NUL)
  ultimately show ?thesis using False by (simp add: apdu_json_request_def Let_def std_print_def transmit_line_def)
qed (simp add: apdu_json_request_def std_print_def transmit_line_def)

interpretation stdio: apdu_carrier "stdio_interface J" log_card "stdio_carries J base rest" ch 1000000
  for J :: "('j, 'x) cjson_stdio_scheme" and base rest ch
proof unfold_locales
  fix st c tx rx c'
  assume R: "stdio_carries J base rest st c" "length tx \<le> 1000000" "if_transmit log_card ch tx c = (Some rx, c')"
  then obtain rxs where c: "to_say c = rx # rxs" "c' = c\<lparr>to_say := rxs, heard := heard c @ [tx]\<rparr>" by (auto simp: log_card_transmit)
  with R(1) obtain l lines where l: "says_apdu J l rx" "list_all2 (says_apdu J) lines rxs"
    "std_in st = l @ 0x0A # concat (map (\<lambda>l. l @ [0x0A]) lines) @ rest"
    by (auto simp: stdio_carries_def list_all2_Cons2)
  let ?st = "st\<lparr>std_out := std_out st @ transmit_line J tx\<rparr>"
  let ?st' = "?st\<lparr>std_in := concat (map (\<lambda>l. l @ [0x0A]) lines) @ rest\<rparr>"
  have "afgets ?st = (Ret l, ?st')" using l(1,3) by (intro afgets_line) (simp_all add: says_apdu_def line_ok_def)
  with l(1) R(2) have "stdio_transmit J tx st = (Ret rx, ?st')"
    by (auto simp: stdio_transmit_def stdio_call_def apdu_json_request_eq apdu_json_response_def says_apdu_def hex_bytes_eq)
  moreover have "stdio_carries J base rest ?st' c'" using R(1) l(2) c by (auto simp: stdio_carries_def)
  ultimately show "\<exists>st'. if_transmit (stdio_interface J) ch tx st = (Some rx, st') \<and> stdio_carries J base rest st' c'"
    by (simp add: stdio_interface_def stdio_result_def)
qed simp


lemma stdio_small: "small_answers (stdio_interface J)"
proof -
  have "length rx < 4294967296" if t: "stdio_transmit J tx st = (Ret rx, st')" for tx st rx st'
  proof -
    from t obtain n data st1 where "apdu_json_response J True st1 = (Ret (n, data), st')" "rx = (case data of None \<Rightarrow> [] | Some b \<Rightarrow> b)"
      by (auto simp: stdio_transmit_def stdio_call_def cbind_eq_Ret split: prod.splits cres.splits bool.splits if_splits)
    then show ?thesis
      by (auto simp: apdu_json_response_def cbind_eq_Ret Let_def dest!: hex_bytes_small split: prod.splits option.splits if_splits)
  qed
  then show ?thesis by (auto simp: small_answers_def stdio_interface_def stdio_result_def split: prod.splits cres.splits)
qed

text \<open>
  C21. A whole command over standard input and output. When the lines at the input say, one for each APDU, what the card
  answered, \<open>es10x_command\<close> through \<open>driver/apdu/stdio.c\<close> returns what it returns with the card itself; the output has gained one
  line for each APDU with its bytes in hexadecimal, and the input after the lines is still there.
\<close>

theorem es10x_command_over_stdio:
  fixes J :: "('j, 'x) cjson_stdio_scheme"
  assumes "wf_ctx ctx" "es10x_mss ctx \<noteq> 0" "length req < 4294967296" "src_request ctx src req" "length resp < 4294967296"
    and "list_all2 (says_apdu J) lines rxs" "std_in st = concat (map (\<lambda>l. l @ [0x0A]) lines) @ rest"
    and "card_gives log_card ctx req \<lparr>to_say = rxs, heard = []\<rparr> resp \<lparr>to_say = [], heard = apdus\<rparr>"
  shows "\<exists>ctx' st'. es10x_command (stdio_interface J) src (of_nat (length req)) (ctx, st) =
      Some (Ret (resp, of_nat (length resp)), ctx', st') \<and>
    std_in st' = rest \<and> std_out st' = std_out st @ concat (map (transmit_line J) apdus)"
proof -
  have "stdio_carries J (std_out st) rest st \<lparr>to_say = rxs, heard = []\<rparr>" using assms(6,7) by (auto simp: stdio_carries_def)
  moreover have "unat (es10x_mss ctx) + 5 \<le> 1000000" using unsigned_less [of "es10x_mss ctx", where ?'a = nat] by simp
  ultimately obtain ctx' st' where
    "es10x_command (stdio_interface J) src (of_nat (length req)) (ctx, st) = Some (Ret (resp, of_nat (length resp)), ctx', st')"
    "stdio_carries J (std_out st) rest st' \<lparr>to_say = [], heard = apdus\<rparr>"
    using stdio.command_carried [OF stdio_small assms(1-5) refl _ _ assms(8)] by blast
  then show ?thesis by (auto simp: stdio_carries_def)
qed

subsection \<open>The driver for HTTP\<close>

definition says_http :: "('j, 'x) cjson_stdio_scheme \<Rightarrow> cstr \<Rightarrow> int \<Rightarrow> byte list \<Rightarrow> bool" where
  "says_http J l rcode rx \<longleftrightarrow> line_ok l \<and> (\<exists>root payload s.
     cJSON_Parse J l = Some root \<and> json_string J root (cstr ''type'') = Some (cstr ''http'') \<and>
     cJSON_GetObjectItem J root (cstr ''payload'') = Some payload \<and> cJSON_IsObject J payload \<and>
     Option.bind (cJSON_GetObjectItem J payload (cstr ''rcode'')) (cJSON_Number J) = Some rcode \<and>
     json_string J payload (cstr ''rx'') = Some s \<and> length s < 4294967296 \<and> unhex s = Some rx)"

lemma stdio_http_safe: "http_safe (stdio_http_interface J)"
proof -
  have "length rx < 0xFFFFFFFF" if "http_interface_transmit J url tx n hs st = (Ret (rcode, rx), st')" for url tx n hs st rcode rx st'
    using that
    by (auto simp: http_interface_transmit_def cbind_eq_Ret Let_def dest!: hex_bytes_small
        split: prod.splits cres.splits option.splits if_splits)
  then show ?thesis
    by (fastforce simp: http_safe_def stdio_http_interface_def stdio_result_def split: prod.splits cres.splits option.splits)
qed

text \<open>
  C22. A request to the server over standard input and output: \<open>es9p_trans_ex\<close> through \<open>driver/http/stdio.c\<close> writes one line with
  the address, the body in hexadecimal and the three headers, reads one line, and returns the status code and the text that
  it says; the driver also keeps what every function of \<open>es9p.c\<close> relies on, that an answer has the length it says.
\<close>

theorem es9p_trans_ex_over_stdio:
  assumes "std_in st = l @ 0x0A # rest" "says_http J l rcode rx" "length tx < 1073741824"
  shows "es9p_trans_ex (Some (stdio_http_interface J)) (Some smdp) api tx st =
      (Ret (word_of_int rcode, cstr_of rx),
       st\<lparr>std_in := rest, std_out := std_out st @ print_http J (cstr ''https://'' @ smdp @ api) (hex_of tx) lpa_header @ [0x0A]\<rparr>)"
proof -
  let ?url = "cstr ''https://'' @ smdp @ api"
  let ?st = "st\<lparr>std_out := std_out st @ print_http J ?url (hex_of tx) lpa_header @ [0x0A]\<rparr>"
  have len: "unat (2 * of_nat (length tx) + 1 :: u32) = 2 * length tx + 1"
    using assms(3) unat_double_plus1_u32 [of "of_nat (length tx)"] by simp
  have "euicc_hexutil_bin2hex (replicate (unat (2 * of_nat (length tx) + 1 :: u32)) 0) (2 * of_nat (length tx) + 1) tx (of_nat (length tx)) =
      Ret (2 * length tx, hex_of tx @ [0])"
    using assms(3) by (subst euicc_hexutil_bin2hex_eq) (simp_all only: len, simp_all add: slice_ok_def slice_bytes_def)
  moreover have "cstr_of (hex_of tx @ [0]) = hex_of tx" by (rule cstr_of_append_NUL) (rule hex_of_no_NUL)
  ultimately have req: "http_json_request J ?url tx (strlen tx) lpa_header st = (Ret (), ?st)"
    by (simp add: http_json_request_def strlen_def std_print_def)
  have "afgets ?st = (Ret l, ?st\<lparr>std_in := rest\<rparr>)"
    using assms(1,2) by (intro afgets_line) (simp_all add: says_http_def line_ok_def)
  with req assms(2) have "http_interface_transmit J ?url tx (strlen tx) lpa_header st = (Ret (word_of_int rcode, rx), ?st\<lparr>std_in := rest\<rparr>)"
    by (auto simp: http_interface_transmit_def says_http_def hex_bytes_eq)
  then have t: "http_transmit (stdio_http_interface J) ?url tx (strlen tx) lpa_header st =
      (Some (word_of_int rcode, rx, of_nat (length rx)), ?st\<lparr>std_in := rest\<rparr>)"
    by (simp add: stdio_http_interface_def stdio_result_def)
  from stdio_http_safe [of J, unfolded http_safe_def, rule_format, of ?url tx "strlen tx" lpa_header st] t
  have safe: "unat (of_nat (length rx) :: u32) \<le> length rx" "unat (of_nat (length rx) :: u32) \<noteq> 0xFFFFFFFF" by simp_all
  have "length rx < 4294967296"
  proof -
    from assms(2) obtain s where "length s < 4294967296" "unhex s = Some rx" by (auto simp: says_http_def)
    then show ?thesis using length_unhex [of s rx] by simp
  qed
  then have "unat (of_nat (length rx) :: u32) = length rx" by (rule unat_of_nat_u32)
  with t trans_ex_answer [OF safe, of "word_of_int rcode"] show ?thesis by (simp add: es9p_trans_ex_def)
qed


subsection \<open>Examples\<close>

text \<open>A protocol in which a line is just the data in hexadecimal, and a value is a line with the name it was reached by.\<close>

definition demo_stdio :: "cstr \<Rightarrow> (cstr \<times> cstr) cjson_stdio" where
  "demo_stdio kind = \<lparr>cJSON_Parse = \<lambda>l. Some ([], l), cJSON_IsObject = \<lambda>j. True,
     cJSON_GetObjectItem = \<lambda>j name. Some (name, snd j),
     cJSON_String = \<lambda>j. Some (if fst j = cstr ''type'' then kind else snd j),
     cJSON_IsArray = \<lambda>_. False, cJSON_GetArraySize = \<lambda>_. 0, cJSON_GetArrayItem = \<lambda>_ _. None,
     cJSON_Print = \<lambda>m. concat (map fst m), cJSON_Number = \<lambda>j. Some 200,
     print_apdu = \<lambda>func param. func @ (case param of None \<Rightarrow> [] | Some p \<Rightarrow> 0x20 # p),
     print_http = \<lambda>url tx hs. url @ 0x20 # tx\<rparr>"

lemma hex_of_no_LF: "0x0A \<notin> set (hex_of bs)"
  using hex_of_plain [of bs] by (auto simp: list_all_iff isxdigit_def)

lemma hex_line_ok: "length bs < 1000 \<Longrightarrow> line_ok (hex_of bs)"
  using hex_of_no_NUL [of bs] hex_of_no_LF [of bs] by (simp add: line_ok_def)

lemma demo_says_apdu: "length rx < 1000 \<Longrightarrow> says_apdu (demo_stdio (cstr ''apdu'')) (hex_of rx) rx"
  by (simp add: says_apdu_def hex_line_ok demo_stdio_def json_string_def cstr_def)

lemma demo_says_http: "length rx < 1000 \<Longrightarrow> says_http (demo_stdio (cstr ''http'')) (hex_of rx) 200 rx"
  by (simp add: says_http_def hex_line_ok demo_stdio_def json_string_def cstr_def)

theorem es10x_command_over_stdio_witness:
  "\<exists>ctx' st'. es10x_command (stdio_interface (demo_stdio (cstr ''apdu''))) (ReqMem [1, 2]) 2
       (script_ctx, \<lparr>std_in = hex_of [7, 0x61, 1] @ 0x0A # hex_of [8, 0x90, 0] @ [0x0A, 0x41], std_out = []\<rparr>) =
      Some (Ret ([7, 8], 2), ctx', st') \<and> std_in st' = [0x41] \<and>
    std_out st' = concat (map (transmit_line (demo_stdio (cstr ''apdu''))) demo_apdus)"
proof -
  have src: "src_request script_ctx (ReqMem [1, 2]) [1, 2]" by (simp add: src_request_def)
  have gives: "card_gives log_card script_ctx [1, 2] \<lparr>to_say = demo_answers, heard = []\<rparr> [7, 8] \<lparr>to_say = [], heard = demo_apdus\<rparr>"
    by (rule demo_card_gives) (simp add: log_card_def)
  have lines: "list_all2 (says_apdu (demo_stdio (cstr ''apdu''))) [hex_of [7, 0x61, 1], hex_of [8, 0x90, 0]] demo_answers"
    unfolding demo_answers_def using demo_says_apdu [of "[7, 0x61, 1]"] demo_says_apdu [of "[8, 0x90, 0]"]
    by (simp del: hex_of.simps)
  from es10x_command_over_stdio [OF script_ctx_wf(1,2) _ src _ lines _ gives,
      of "\<lparr>std_in = hex_of [7, 0x61, 1] @ 0x0A # hex_of [8, 0x90, 0] @ [0x0A, 0x41], std_out = []\<rparr>" "[0x41]"]
  show ?thesis by (simp del: hex_of.simps)
qed

theorem es9p_trans_ex_over_stdio_witness:
  "es9p_trans_ex (Some (stdio_http_interface (demo_stdio (cstr ''http'')))) (Some (cstr ''smdp'')) (cstr ''/x'') (cstr ''{}'')
      \<lparr>std_in = hex_of (cstr ''{1}'') @ 0x0A # [0x41], std_out = []\<rparr> =
    (Ret (200, cstr ''{1}''), \<lparr>std_in = [0x41], std_out = cstr ''https://smdp/x 7b7d'' @ [0x0A]\<rparr>)"
proof -
  have "length (cstr ''{1}'') < 1000" by (simp add: cstr_def)
  note says = demo_says_http [OF this]
  have "cstr_of (cstr ''{1}'') = cstr ''{1}''" "print_http (demo_stdio (cstr ''http'')) (cstr ''https://'' @ cstr ''smdp'' @ cstr ''/x'')
      (hex_of (cstr ''{}'')) lpa_header = cstr ''https://smdp/x 7b7d''" by code_simp+
  with es9p_trans_ex_over_stdio [OF _ says, of "\<lparr>std_in = hex_of (cstr ''{1}'') @ 0x0A # [0x41], std_out = []\<rparr>" "[0x41]" "cstr ''{}''"
      "cstr ''smdp''" "cstr ''/x''"]
  show ?thesis by (simp add: cstr_def del: hex_of.simps)
qed

end
