(* ===== verification/Driver_Qmi.thy ===== *)
theory Driver_Qmi
  imports Utils Euicc
begin

text \<open>
  The drivers for modems with QMI: what they share (\<open>driver/apdu/qmi_common.c\<close>) and the two ways to reach the modem, \<open>qmi.c\<close> and
  \<open>qmi_qrtr.c\<close>. The library libqmi is a parameter, one function for each request, over a state \<open>'q\<close> of the modem. The functions
  of \<open>qmi_helpers.c\<close>, which start a request and run the main loop until its answer is there, are part of it.
\<close>

subsection \<open>The library\<close>

text \<open>
  \<open>False\<close> and \<open>None\<close> stand for an answer that did not come or says that the request failed. A device is opened with or without the
  proxy; the nodes of the QRTR bus are given by their ports for the UIM service, negative where there is none. The slots are those of
  \<open>physical_slot_status\<close>, with whether each is active; the cards have a list of applications, with whether each is a USIM and whether
  it is ready.
\<close>

datatype slot_status = SlotsFailed | SlotsNotSupported | Slots "bool list"

record 'q libqmi =
  qmi_device_new_from_path :: "cstr \<Rightarrow> 'q \<Rightarrow> bool \<times> 'q"
  qrtr_bus_new :: "'q \<Rightarrow> bool \<times> 'q"
  qrtr_node_ports :: "'q \<Rightarrow> int list"
  qmi_device_new_from_node :: "nat \<Rightarrow> 'q \<Rightarrow> bool \<times> 'q"
  qmi_device_open :: "bool \<Rightarrow> 'q \<Rightarrow> bool \<times> 'q"
  qmi_allocate_client :: "'q \<Rightarrow> bool \<times> 'q"
  qmi_release_client :: "'q \<Rightarrow> 'q"
  uim_get_slot_status :: "'q \<Rightarrow> slot_status \<times> 'q"
  uim_switch_slot :: "byte \<Rightarrow> byte \<Rightarrow> 'q \<Rightarrow> bool \<times> 'q"
  uim_get_card_status :: "'q \<Rightarrow> (bool \<times> bool) list list option \<times> 'q"
  uim_open_logical_channel :: "byte \<Rightarrow> byte list \<Rightarrow> 'q \<Rightarrow> byte option \<times> 'q"
  uim_logical_channel :: "byte \<Rightarrow> byte \<Rightarrow> 'q \<Rightarrow> bool \<times> 'q"
  uim_send_apdu :: "byte \<Rightarrow> byte \<Rightarrow> byte list \<Rightarrow> 'q \<Rightarrow> byte list option \<times> 'q"

text \<open>
  \<open>lastChannelId\<close> is \<open>None\<close> where it was never written: \<open>qmi.c\<close> clears its memory, \<open>qmi_qrtr.c\<close> does not. \<open>uimClient\<close> says whether the
  pointer is not \<open>NULL\<close>. \<open>qmi_device_path\<close> is what \<open>connect\<close> of \<open>qmi.c\<close> reads from the environment, which nothing changes after
  the driver's initialisation.
\<close>

record 'q qmi_data =
  lastChannelId :: "int option"
  uimSlot :: int
  uimClient :: bool
  qmi_device_path :: cstr
  qmi_state :: 'q

text \<open>The library needs a client: a request with \<open>NULL\<close> in its place is undefined.\<close>

type_synonym ('a, 'q) qmi_result = "'a cres \<times> 'q qmi_data"

subsection \<open>\<open>qmi_common.c\<close>\<close>

definition qmi_apdu_interface_transmit :: "'q libqmi \<Rightarrow> byte list \<Rightarrow> 'q qmi_data \<Rightarrow> (byte list, 'q) qmi_result" where
  "qmi_apdu_interface_transmit L tx u =
     (case lastChannelId u of
        None \<Rightarrow> (UB, u)
      | Some channel \<Rightarrow>
          if \<not> uimClient u then (UB, u)
          else let (rx, q) = uim_send_apdu L (word_of_int (uimSlot u)) (word_of_int channel) tx (qmi_state u) in
            (case rx of None \<Rightarrow> Fail | Some bytes \<Rightarrow> Ret bytes, u\<lparr>qmi_state := q\<rparr>))"

definition qmi_apdu_interface_logic_channel_open ::
  "'q libqmi \<Rightarrow> byte list \<Rightarrow> byte \<Rightarrow> 'q qmi_data \<Rightarrow> (int, 'q) qmi_result" where
  "qmi_apdu_interface_logic_channel_open L a a_len u =
     (if length a < unat a_len \<or> \<not> uimClient u then (UB, u)
      else let (r, q) = uim_open_logical_channel L (word_of_int (uimSlot u)) (take (unat a_len) a) (qmi_state u);
               u = u\<lparr>qmi_state := q\<rparr>
        in case r of
             None \<Rightarrow> (Fail, u)
           | Some channel_id \<Rightarrow> (Ret (uint channel_id), u\<lparr>lastChannelId := Some (uint channel_id)\<rparr>))"

definition qmi_apdu_interface_logic_channel_close :: "'q libqmi \<Rightarrow> byte \<Rightarrow> 'q qmi_data \<Rightarrow> (unit, 'q) qmi_result" where
  "qmi_apdu_interface_logic_channel_close L channel u =
     (if \<not> uimClient u then (UB, u)
      else let (ok, q) = uim_logical_channel L (word_of_int (uimSlot u)) channel (qmi_state u); u = u\<lparr>qmi_state := q\<rparr> in
        if \<not> ok then (Ret (), u)
        else case lastChannelId u of
          None \<Rightarrow> (UB, u)
        | Some last_id \<Rightarrow> (Ret (), if uint channel = last_id then u\<lparr>lastChannelId := Some (-1)\<rparr> else u))"

definition qmi_apdu_interface_disconnect :: "'q libqmi \<Rightarrow> 'q qmi_data \<Rightarrow> 'q qmi_data" where
  "qmi_apdu_interface_disconnect L u = u\<lparr>qmi_state := qmi_release_client L (qmi_state u), uimClient := False\<rparr>"

definition qmi_cleanup :: "'q libqmi \<Rightarrow> 'q qmi_data \<Rightarrow> (unit, 'q) qmi_result" where
  "qmi_cleanup L u =
     (case lastChannelId u of
        None \<Rightarrow> (UB, u)
      | Some last_id \<Rightarrow>
          if last_id \<le> 0 then (Ret (), u)
          else let (r, u) = qmi_apdu_interface_logic_channel_close L (word_of_int last_id) u in (r, u\<lparr>lastChannelId := Some (-1)\<rparr>))"

subsection \<open>\<open>qmi.c\<close>\<close>

definition is_sim_available :: "'q libqmi \<Rightarrow> 'q qmi_data \<Rightarrow> bool \<times> 'q qmi_data" where
  "is_sim_available L u =
     (let (r, q) = uim_get_card_status L (qmi_state u) in
      (case r of None \<Rightarrow> False | Some cards \<Rightarrow> list_ex (list_ex (\<lambda>(usim, ready). usim \<and> ready)) cards, u\<lparr>qmi_state := q\<rparr>))"

text \<open>\<open>n\<close> tries are left.\<close>

fun wait_for_sim :: "'q libqmi \<Rightarrow> nat \<Rightarrow> 'q qmi_data \<Rightarrow> bool \<times> 'q qmi_data" where
  "wait_for_sim L 0 u = (False, u)"
| "wait_for_sim L (Suc n) u =
     (let (available, u) = is_sim_available L u in if available then (True, u) else wait_for_sim L n u)"

text \<open>The first active slot, counted from 1, or 0; the variable is a \<open>guint8\<close>.\<close>

fun active_slot :: "nat \<Rightarrow> bool list \<Rightarrow> byte" where
  "active_slot i [] = 0"
| "active_slot i (active # rest) = (if active then of_nat (i + 1) else active_slot (i + 1) rest)"

definition select_sim_slot :: "'q libqmi \<Rightarrow> 'q qmi_data \<Rightarrow> bool \<times> 'q qmi_data" where
  "select_sim_slot L u =
     (let target_slot = word_of_int (uimSlot u) :: byte;
          (r, q) = uim_get_slot_status L (qmi_state u);
          u = u\<lparr>qmi_state := q\<rparr>
      in case r of
           SlotsFailed \<Rightarrow> (False, u)
         | SlotsNotSupported \<Rightarrow> (True, u)
         | Slots slots \<Rightarrow>
             if active_slot 0 slots \<noteq> target_slot then
               let (ok, q) = uim_switch_slot L 1 target_slot (qmi_state u); u = u\<lparr>qmi_state := q\<rparr> in
               if \<not> ok then (False, u) else wait_for_sim L 20 u
             else (True, u))"

text \<open>\<open>open\<close> and \<open>allocate_client\<close>, which both connects have.\<close>

definition qmi_open_client :: "'q libqmi \<Rightarrow> bool \<Rightarrow> 'q qmi_data \<Rightarrow> bool \<times> 'q qmi_data" where
  "qmi_open_client L proxy u =
     (let (ok, q) = qmi_device_open L proxy (qmi_state u); u = u\<lparr>qmi_state := q\<rparr> in
      if \<not> ok then (False, u)
      else let (ok, q) = qmi_allocate_client L (qmi_state u); u = u\<lparr>qmi_state := q\<rparr> in
        if \<not> ok then (False, u) else (True, u\<lparr>uimClient := True\<rparr>))"

definition qmi_connect :: "'q libqmi \<Rightarrow> 'q qmi_data \<Rightarrow> int \<times> 'q qmi_data" where
  "qmi_connect L u =
     (let (ok, q) = qmi_device_new_from_path L (qmi_device_path u) (qmi_state u); u = u\<lparr>qmi_state := q\<rparr> in
      if \<not> ok then (-1, u)
      else let (ok, u) = qmi_open_client L True u in
        if \<not> ok then (-1, u)
        else let (ok, u) = select_sim_slot L u in
          if \<not> ok then (-1, u) else (0, u\<lparr>uimSlot := 1\<rparr>))"

definition qmi_init :: "env \<Rightarrow> 'q \<Rightarrow> 'q qmi_data" where
  "qmi_init env q =
     (let env = set_deprecated_env_name (cstr ''LPAC_APDU_QMI_UIM_SLOT'') (cstr ''UIM_SLOT'') env;
          env = set_deprecated_env_name (cstr ''LPAC_APDU_QMI_DEVICE'') (cstr ''QMI_DEVICE'') env
      in \<lparr>lastChannelId = Some 0, uimSlot = getenv_int_or_default env (cstr ''LPAC_APDU_QMI_UIM_SLOT'') 1, uimClient = False,
          qmi_device_path = getenv_str_or_default env (cstr ''LPAC_APDU_QMI_DEVICE'') (cstr ''/dev/cdc-wdm0''), qmi_state = q\<rparr>)"

subsection \<open>\<open>qmi_qrtr.c\<close>\<close>

definition qrtr_connect :: "'q libqmi \<Rightarrow> 'q qmi_data \<Rightarrow> int \<times> 'q qmi_data" where
  "qrtr_connect L u =
     (let (ok, q) = qrtr_bus_new L (qmi_state u); u = u\<lparr>qmi_state := q\<rparr> in
      if \<not> ok then (-1, u)
      else let ports = qrtr_node_ports L (qmi_state u) in
        case find (\<lambda>i. ports ! i \<ge> 0) [0..<length ports] of
          None \<Rightarrow> (-1, u)
        | Some node \<Rightarrow>
            let (ok, q) = qmi_device_new_from_node L node (qmi_state u); u = u\<lparr>qmi_state := q\<rparr> in
            if \<not> ok then (-1, u)
            else let (ok, u) = qmi_open_client L False u in (if ok then 0 else -1, u))"

definition qrtr_init :: "env \<Rightarrow> 'q \<Rightarrow> 'q qmi_data" where
  "qrtr_init env q =
     (let env = set_deprecated_env_name (cstr ''LPAC_APDU_QMI_UIM_SLOT'') (cstr ''UIM_SLOT'') env in
      \<lparr>lastChannelId = None, uimSlot = getenv_int_or_default env (cstr ''LPAC_APDU_QMI_UIM_SLOT'') 1, uimClient = False,
        qmi_device_path = [], qmi_state = q\<rparr>)"

subsection \<open>The interface\<close>

text \<open>An undefined call is shown as a failure.\<close>

definition qmi_interface :: "'q libqmi \<Rightarrow> 'q qmi_data euicc_apdu_interface" where
  "qmi_interface L =
     \<lparr>if_connect = qmi_connect L, if_disconnect = qmi_apdu_interface_disconnect L,
      if_logic_channel_open = (\<lambda>a n u. let (r, u) = qmi_apdu_interface_logic_channel_open L a n u in (case r of Ret c \<Rightarrow> c | _ \<Rightarrow> -1, u)),
      if_logic_channel_close = (\<lambda>channel u. snd (qmi_apdu_interface_logic_channel_close L channel u)),
      if_transmit = (\<lambda>ch tx u. let (r, u) = qmi_apdu_interface_transmit L tx u in (case r of Ret rx \<Rightarrow> Some rx | _ \<Rightarrow> None, u))\<rparr>"

end
