(* ===== verification/Driver_Mbim.thy ===== *)
theory Driver_Mbim
  imports Utils Euicc
begin

text \<open>
  The driver for modems with MBIM, \<open>driver/apdu/mbim.c\<close>. The library libmbim, with the functions of \<open>mbim_helpers.c\<close> that wait for an answer, is
  a parameter, one function for each request, over a state \<open>'m\<close> of the modem.
\<close>

subsection \<open>The library\<close>

text \<open>
  \<open>None\<close> and \<open>False\<close> stand for a request that could not be made, an answer that did not come or could not be read. A query of
  the slots may also say that the device does not support it.
\<close>

datatype slot_mappings = MappingsFailed | MappingsNotSupported | Mappings "u32 list"

datatype ready_state = ReadyNoEsimProfile | ReadyInitialized | ReadyOther

record 'm libmbim =
  mbim_device_new :: "cstr \<Rightarrow> 'm \<Rightarrow> bool \<times> 'm"
  mbim_device_open :: "bool \<Rightarrow> 'm \<Rightarrow> bool \<times> 'm"
  mbim_device_close :: "'m \<Rightarrow> 'm"
  slot_mappings_query :: "'m \<Rightarrow> slot_mappings \<times> 'm"
  slot_mappings_set :: "u32 \<Rightarrow> 'm \<Rightarrow> bool \<times> 'm"
  subscriber_ready_status :: "'m \<Rightarrow> ready_state option \<times> 'm"
  uicc_open_channel :: "byte list \<Rightarrow> u32 \<Rightarrow> u32 \<Rightarrow> 'm \<Rightarrow> (u32 \<times> u32) option \<times> 'm"
  uicc_close_channel :: "u32 \<Rightarrow> u32 \<Rightarrow> 'm \<Rightarrow> u32 option \<times> 'm"
  uicc_apdu :: "u32 \<Rightarrow> byte list \<Rightarrow> 'm \<Rightarrow> (u32 \<times> byte list) option \<times> 'm"

text \<open>
  \<open>last_channel_id\<close> is \<open>None\<close> where it was never written: the memory of \<open>malloc\<close> is not cleared. \<open>skip_slot_mapping\<close> is what \<open>connect\<close> reads from
  the environment, which nothing changes after the driver's initialisation.
\<close>

record 'm mbim_data =
  mbim_device_path :: cstr
  last_channel_id :: "int option"
  use_proxy :: bool
  uim_slot :: u32
  skip_slot_mapping :: bool
  mbim_state :: 'm

subsection \<open>The slot\<close>

definition mbim_is_sim_available :: "'m libmbim \<Rightarrow> 'm mbim_data \<Rightarrow> bool \<times> 'm mbim_data" where
  "mbim_is_sim_available L u =
     (let (r, m) = subscriber_ready_status L (mbim_state u) in
      (r = Some ReadyNoEsimProfile \<or> r = Some ReadyInitialized, u\<lparr>mbim_state := m\<rparr>))"

text \<open>\<open>while (retries--)\<close>; whether the card became available is not looked at.\<close>

fun mbim_wait_for_sim :: "'m libmbim \<Rightarrow> nat \<Rightarrow> 'm mbim_data \<Rightarrow> 'm mbim_data" where
  "mbim_wait_for_sim L 0 u = u"
| "mbim_wait_for_sim L (Suc n) u =
     (let (available, u) = mbim_is_sim_available L u in if available then u else mbim_wait_for_sim L n u)"

definition mbim_select_sim_slot :: "'m libmbim \<Rightarrow> 'm mbim_data \<Rightarrow> int \<times> 'm mbim_data" where
  "mbim_select_sim_slot L u =
     (let (r, m) = slot_mappings_query L (mbim_state u); u = u\<lparr>mbim_state := m\<rparr> in
      case r of
        MappingsFailed \<Rightarrow> (-1, u)
      | MappingsNotSupported \<Rightarrow> (if uim_slot u = 0 then 0 else -1, u)
      | Mappings slots \<Rightarrow>
          if slots \<noteq> [] \<and> hd slots = uim_slot u then (0, u)
          else let (ok, m) = slot_mappings_set L (uim_slot u) (mbim_state u); u = u\<lparr>mbim_state := m\<rparr> in
            if \<not> ok then (-1, u) else (0, mbim_wait_for_sim L 20 u))"

definition mbim_connect :: "'m libmbim \<Rightarrow> 'm mbim_data \<Rightarrow> int \<times> 'm mbim_data" where
  "mbim_connect L u =
     (let (ok, m) = mbim_device_new L (mbim_device_path u) (mbim_state u); u = u\<lparr>mbim_state := m\<rparr> in
      if \<not> ok then (-1, u)
      else let (ok, m) = mbim_device_open L (use_proxy u) (mbim_state u); u = u\<lparr>mbim_state := m\<rparr> in
        if \<not> ok then (-1, u)
        else if skip_slot_mapping u then (0, u)
        else mbim_select_sim_slot L u)"

subsection \<open>APDUs\<close>

text \<open>The size \<open>response_size + 2\<close> wraps, and then the copy is too long for the block.\<close>

definition copy_data_with_status :: "byte list \<Rightarrow> u32 \<Rightarrow> u32 \<Rightarrow> byte list cres" where
  "copy_data_with_status response_data response_size status =
     (let rx_len = response_size + 2 in
      cbind (memcpy (replicate (unat rx_len) 0) 0 response_data (unat response_size)) (\<lambda>rx.
      cbind (cstore rx (unat (rx_len - 2)) (ucast (status AND 0xff))) (\<lambda>rx.
      cstore rx (unat (rx_len - 1)) (ucast (drop_bit 8 status AND 0xff)))))"

text \<open>A block of STORE DATA gets an expected length of 0.\<close>

definition apdu_with_le :: "byte list \<Rightarrow> byte list" where
  "apdu_with_le tx =
     (if length tx \<ge> 5 \<and> tx ! 1 = 0xe2 \<and> length tx = unat (tx ! 4) + 5 then tx @ [0x00] else tx)"

definition mbim_transmit :: "'m libmbim \<Rightarrow> byte list \<Rightarrow> 'm mbim_data \<Rightarrow> byte list cres \<times> 'm mbim_data" where
  "mbim_transmit L tx u =
     (case last_channel_id u of
        None \<Rightarrow> (UB, u)
      | Some channel \<Rightarrow>
          (let (r, m) = uicc_apdu L (word_of_int channel) (apdu_with_le tx) (mbim_state u) in
           (case r of
              None \<Rightarrow> Fail
            | Some (status, data) \<Rightarrow> copy_data_with_status data (of_nat (length data)) status, u\<lparr>mbim_state := m\<rparr>)))"

subsection \<open>Channels\<close>

definition LPAC_MBIM_UICC_SELECT_P2_NO_RESPONSE :: u32 where "LPAC_MBIM_UICC_SELECT_P2_NO_RESPONSE = 0x0c"

text \<open>The status in the answer is not looked at.\<close>

definition mbim_logic_channel_open :: "'m libmbim \<Rightarrow> byte list \<Rightarrow> byte \<Rightarrow> 'm mbim_data \<Rightarrow> int cres \<times> 'm mbim_data" where
  "mbim_logic_channel_open L a a_len u =
     (if length a < unat a_len then (UB, u)
      else let (r, m) = uicc_open_channel L (take (unat a_len) a) LPAC_MBIM_UICC_SELECT_P2_NO_RESPONSE 1 (mbim_state u);
               u = u\<lparr>mbim_state := m\<rparr>
        in case r of
             None \<Rightarrow> (Fail, u)
           | Some (status, channel) \<Rightarrow> (Ret (sint channel), u\<lparr>last_channel_id := Some (sint channel)\<rparr>))"

definition mbim_logic_channel_close :: "'m libmbim \<Rightarrow> byte \<Rightarrow> 'm mbim_data \<Rightarrow> unit cres \<times> 'm mbim_data" where
  "mbim_logic_channel_close L channel u =
     (let (r, m) = uicc_close_channel L (ucast channel) 1 (mbim_state u); u = u\<lparr>mbim_state := m\<rparr> in
      case r of
        None \<Rightarrow> (Ret (), u)
      | Some status \<Rightarrow>
          (case last_channel_id u of
             None \<Rightarrow> (UB, u)
           | Some last_id \<Rightarrow> (Ret (), if uint channel = last_id then u\<lparr>last_channel_id := Some (-1)\<rparr> else u)))"

definition mbim_disconnect :: "'m libmbim \<Rightarrow> 'm mbim_data \<Rightarrow> unit cres \<times> 'm mbim_data" where
  "mbim_disconnect L u =
     (case last_channel_id u of
        None \<Rightarrow> (UB, u)
      | Some last_id \<Rightarrow>
          (let (r, u) = (if last_id > 0
                 then (let (r, u) = mbim_logic_channel_close L (word_of_int last_id) u in (r, u\<lparr>last_channel_id := Some (-1)\<rparr>))
                 else (Ret (), u))
           in (r, u\<lparr>mbim_state := mbim_device_close L (mbim_state u)\<rparr>)))"

text \<open>The slot of the environment counts from 1, the library from 0; \<open>None\<close> for a result other than 0.\<close>

definition mbim_init :: "env \<Rightarrow> 'm \<Rightarrow> 'm mbim_data option" where
  "mbim_init env m =
     (let env = set_deprecated_env_name (cstr ''LPAC_APDU_MBIM_UIM_SLOT'') (cstr ''UIM_SLOT'') env;
          env = set_deprecated_env_name (cstr ''LPAC_APDU_MBIM_USE_PROXY'') (cstr ''MBIM_USE_PROXY'') env;
          env = set_deprecated_env_name (cstr ''LPAC_APDU_MBIM_DEVICE'') (cstr ''MBIM_DEVICE'') env;
          slot = word_of_int (getenv_int_or_default env (cstr ''LPAC_APDU_MBIM_UIM_SLOT'') 1) :: u32
      in if slot = 0 then None
         else Some \<lparr>mbim_device_path = getenv_str_or_default env (cstr ''LPAC_APDU_MBIM_DEVICE'') (cstr ''/dev/cdc-wdm0''),
           last_channel_id = None, use_proxy = getenv_bool_or_default env (cstr ''LPAC_APDU_MBIM_USE_PROXY'') False,
           uim_slot = slot - 1, skip_slot_mapping = getenv_bool_or_default env (cstr ''LPAC_APDU_MBIM_SKIP_SLOT_MAPPING'') False,
           mbim_state = m\<rparr>)"

text \<open>The interface, with an undefined call shown as a failure.\<close>

definition mbim_interface :: "'m libmbim \<Rightarrow> 'm mbim_data euicc_apdu_interface" where
  "mbim_interface L =
     \<lparr>if_connect = mbim_connect L, if_disconnect = (\<lambda>u. snd (mbim_disconnect L u)),
      if_logic_channel_open = (\<lambda>a n u. let (r, u) = mbim_logic_channel_open L a n u in (case r of Ret c \<Rightarrow> c | _ \<Rightarrow> -1, u)),
      if_logic_channel_close = (\<lambda>channel u. snd (mbim_logic_channel_close L channel u)),
      if_transmit = (\<lambda>ch tx u. let (r, u) = mbim_transmit L tx u in (case r of Ret rx \<Rightarrow> Some rx | _ \<Rightarrow> None, u))\<rparr>"

end
