(* ===== verification/Driver_Uqmi.thy ===== *)
theory Driver_Uqmi
  imports Utils Euicc Driver_Stdio
begin

text \<open>
  The driver that calls the program \<open>uqmi\<close>, \<open>driver/apdu/uqmi.c\<close>. Running the program is a parameter: from the arguments, what the
  calls of \<open>read\<close> on the pipe give one after the other, and the status of \<open>waitpid\<close>. The JSON library is the one of \<open>Driver_Stdio\<close>. Debug output is left
  out.
\<close>

subsection \<open>The program\<close>

text \<open>
  \<open>spawn\<close> is \<open>None\<close> where the pipe or the process cannot be made. A read gives at most 1023 bytes, or \<open>ReadError\<close>; the list ends where
  \<open>read\<close> gives 0.
\<close>

datatype read_result = Bytes "byte list" | ReadError

type_synonym 'p program = "cstr list \<Rightarrow> 'p \<Rightarrow> (read_result list \<times> int) option \<times> 'p"

record 'p uqmi_userdata =
  uq_program :: cstr
  uq_client_id :: "cstr option"
  uq_uim_slot :: cstr
  uq_device_path :: cstr
  uq_state :: 'p

text \<open>
  The loop that reads the output. The result of \<open>read\<close> is cast to \<open>size_t\<close>: after an error \<open>memcpy\<close> is given the largest number.
  At the end the last byte is overwritten with a NUL; without any byte that is before the start of nothing.
\<close>

fun read_output :: "read_result list \<Rightarrow> byte list cres" where
  "read_output [] = Ret []"
| "read_output (ReadError # rs) = UB"
| "read_output (Bytes bs # rs) = cbind (read_output rs) (\<lambda>rest. Ret (bs @ rest))"

definition output_string :: "read_result list \<Rightarrow> cstr cres" where
  "output_string rs =
     cbind (read_output rs) (\<lambda>bytes. if bytes = [] then UB else Ret (cstr_of (bytes[length bytes - 1 := 0])))"

text \<open>The status and, where \<open>buf\<close> is not \<open>NULL\<close>, the output; \<open>-1\<close> without an output where the program could not be run.\<close>

definition uqmi_execute_command ::
  "'p program \<Rightarrow> bool \<Rightarrow> cstr list \<Rightarrow> 'p uqmi_userdata \<Rightarrow> (int \<times> cstr option) cres \<times> 'p uqmi_userdata" where
  "uqmi_execute_command run want argv u =
     (let (r, p) = run ([uq_program u, cstr ''--single'', cstr ''--device'', uq_device_path u] @ argv) (uq_state u);
          u = u\<lparr>uq_state := p\<rparr>
      in (case r of
            None \<Rightarrow> Ret (-1, None)
          | Some (reads, status) \<Rightarrow>
              if \<not> want then Ret (status, None)
              else cbind (output_string reads) (\<lambda>s. Ret (status, Some s)), u))"

subsection \<open>The driver\<close>

definition uqmi_connect :: "'p program \<Rightarrow> 'p uqmi_userdata \<Rightarrow> int cres \<times> 'p uqmi_userdata" where
  "uqmi_connect run u =
     (let (r, u) = uqmi_execute_command run True [cstr ''--get-client-id'', cstr ''uim''] u in
      case r of
        Ret (status, Some client_id) \<Rightarrow>
          if status \<noteq> 0 then (Ret (-1), u) else (Ret 0, u\<lparr>uq_client_id := Some (cstr ''uim,'' @ client_id)\<rparr>)
      | Ret (status, None) \<Rightarrow> (Ret (-1), u)
      | _ \<Rightarrow> (UB, u))"

text \<open>
  The arguments of a call; the array ends at the first \<open>NULL\<close>, so without a client identifier only \<open>--set-client-id\<close> is left.
\<close>

definition client_args :: "cstr option \<Rightarrow> cstr list \<Rightarrow> cstr list" where
  "client_args client_id rest =
     cstr ''--set-client-id'' # (case client_id of None \<Rightarrow> [] | Some c \<Rightarrow> c # rest)"

definition uqmi_disconnect :: "'p program \<Rightarrow> 'p uqmi_userdata \<Rightarrow> 'p uqmi_userdata" where
  "uqmi_disconnect run u =
     (snd (uqmi_execute_command run False (client_args (uq_client_id u) [cstr ''--release-client-id'', cstr ''uim'']) u))\<lparr>uq_client_id := None\<rparr>"

definition slot_args :: "'p uqmi_userdata \<Rightarrow> cstr list \<Rightarrow> cstr list" where
  "slot_args u rest =
     client_args (uq_client_id u) ([cstr ''--keep-client-id'', cstr ''uim'', cstr ''--uim-slot'', uq_uim_slot u] @ rest)"

text \<open>
  Only the status -1 is a failure. The result of the decoding is returned as it is, and the length was set before; a channel number
  of the context below \<open>2 ^ 31\<close> is printed as it is.
\<close>

definition uqmi_transmit ::
  "('j, 'x) cjson_stdio_scheme \<Rightarrow> 'p program \<Rightarrow> u32 \<Rightarrow> byte list \<Rightarrow> 'p uqmi_userdata \<Rightarrow> byte list cres \<times> 'p uqmi_userdata" where
  "uqmi_transmit J run ch tx u =
     (let n = of_nat (length tx) :: u32 in
      case euicc_hexutil_bin2hex (replicate (unat (n * 2 + 1)) 0) (n * 2 + 1) tx n of
        Ret (_, tx_hex) \<Rightarrow>
          (let (r, u) = uqmi_execute_command run True
                 (slot_args u [cstr ''--uim-channel-id'', fmt_u (unat ch), cstr ''--uim-apdu-send'', cstr_of tx_hex]) u
           in (cbind r (\<lambda>(status, buf). case buf of
                 None \<Rightarrow> Fail
               | Some s \<Rightarrow>
                   if status = -1 then Fail
                   else case cJSON_Parse J s of
                     None \<Rightarrow> Fail
                   | Some jroot \<Rightarrow>
                       if \<not> cJSON_IsObject J jroot then Fail
                       else case json_string J jroot (cstr ''response'') of
                         None \<Rightarrow> Fail
                       | Some response \<Rightarrow> hex_bytes response), u))
      | _ \<Rightarrow> (UB, u))"

definition uqmi_logic_channel_open ::
  "('j, 'x) cjson_stdio_scheme \<Rightarrow> 'p program \<Rightarrow> byte list \<Rightarrow> byte \<Rightarrow> 'p uqmi_userdata \<Rightarrow> int cres \<times> 'p uqmi_userdata" where
  "uqmi_logic_channel_open J run a a_len u =
     (if uq_client_id u = None then (Fail, u)
      else case euicc_hexutil_bin2hex (replicate (2 * unat a_len + 1) 0) (2 * ucast a_len + 1) a (ucast a_len) of
        Ret (_, aid_hex) \<Rightarrow>
          (let (r, u) = uqmi_execute_command run True (slot_args u [cstr ''--uim-channel-open'', cstr_of aid_hex]) u in
           (cbind r (\<lambda>(status, buf). case buf of
              None \<Rightarrow> Fail
            | Some s \<Rightarrow>
                if status = -1 then Fail
                else case cJSON_Parse J s of
                  None \<Rightarrow> Fail
                | Some jroot \<Rightarrow>
                    if \<not> cJSON_IsObject J jroot then Fail
                    else case Option.bind (cJSON_GetObjectItem J jroot (cstr ''channel_id'')) (cJSON_Number J) of
                      None \<Rightarrow> Fail
                    | Some channel_id \<Rightarrow> Ret channel_id), u))
      | _ \<Rightarrow> (UB, u))"

definition uqmi_logic_channel_close :: "'p program \<Rightarrow> byte \<Rightarrow> 'p uqmi_userdata \<Rightarrow> 'p uqmi_userdata" where
  "uqmi_logic_channel_close run channel u =
     (if channel = 0 then u
      else snd (uqmi_execute_command run False
        (slot_args u [cstr ''--uim-channel-id'', fmt_u (unat channel), cstr ''--uim-channel-close'']) u))"

text \<open>\<open>exists\<close>: \<open>access\<close> finds the device; \<open>None\<close> for a result other than 0.\<close>

definition uqmi_init :: "env \<Rightarrow> (cstr \<Rightarrow> bool) \<Rightarrow> 'p \<Rightarrow> 'p uqmi_userdata option" where
  "uqmi_init env exists p =
     (let env = set_deprecated_env_name (cstr ''LPAC_APDU_QMI_DEVICE'') (cstr ''LPAC_QMI_DEV'') env;
          slot = word_of_int (getenv_int_or_default env (cstr ''LPAC_APDU_QMI_UIM_SLOT'') 1) :: byte;
          device_path = getenv_str_or_default env (cstr ''LPAC_APDU_QMI_DEVICE'') (cstr ''/dev/cdc-wdm0'')
      in if \<not> exists device_path then None
         else if slot > 0 then
           Some \<lparr>uq_program = getenv_str_or_default env (cstr ''LPAC_APDU_UQMI_PROGRAM'') (cstr ''uqmi''), uq_client_id = None,
             uq_uim_slot = fmt_u (unat slot), uq_device_path = device_path, uq_state = p\<rparr>
         else None)"

definition uqmi_interface :: "('j, 'x) cjson_stdio_scheme \<Rightarrow> 'p program \<Rightarrow> 'p uqmi_userdata euicc_apdu_interface" where
  "uqmi_interface J run =
     \<lparr>if_connect = (\<lambda>u. let (r, u) = uqmi_connect run u in (case r of Ret n \<Rightarrow> n | _ \<Rightarrow> -1, u)),
      if_disconnect = uqmi_disconnect run,
      if_logic_channel_open = (\<lambda>a n u. let (r, u) = uqmi_logic_channel_open J run a n u in (case r of Ret c \<Rightarrow> c | _ \<Rightarrow> -1, u)),
      if_logic_channel_close = uqmi_logic_channel_close run,
      if_transmit = (\<lambda>ch tx u. let (r, u) = uqmi_transmit J run ch tx u in (case r of Ret rx \<Rightarrow> Some rx | _ \<Rightarrow> None, u))\<rparr>"

end
