(* ===== verification/Driver_Gbinder.thy ===== *)
theory Driver_Gbinder
  imports Utils Hexutil Euicc
begin

text \<open>
  The driver for Android's radio service, \<open>driver/apdu/gbinder_hidl.c\<close>. The library gbinder and the service are a parameter, over a state
  \<open>'g\<close>: a request, and what the callback \<open>radio_response_transact\<close> is then given, for which the main loop waits. Debug output and the exit
  handlers are left out.
\<close>

subsection \<open>The service\<close>

record icc_io_result =
  io_sw1 :: int
  io_sw2 :: int
  simResponse :: "byte list"

record sim_apdu =
  sessionId :: int
  sim_cla :: byte
  sim_instruction :: byte
  sim_p1 :: byte
  sim_p2 :: byte
  sim_p3 :: byte
  sim_data :: cstr

text \<open>
  \<open>Inl\<close> is a request that could not be made, with its negative status; \<open>Inr\<close> has the error of the radio and, for the error 0, the
  answer.
\<close>

record 'g gbinder =
  gb_client :: "int \<Rightarrow> 'g \<Rightarrow> bool \<times> 'g"
  gb_set_response_functions :: "'g \<Rightarrow> int \<times> 'g"
  gb_icc_open_logical_channel :: "cstr \<Rightarrow> 'g \<Rightarrow> (int + int \<times> int) \<times> 'g"
  gb_icc_close_logical_channel :: "int \<Rightarrow> 'g \<Rightarrow> 'g"
  gb_icc_transmit_apdu :: "sim_apdu \<Rightarrow> 'g \<Rightarrow> (int + int \<times> icc_io_result) \<times> 'g"

text \<open>The static variables that matter between two calls.\<close>

record 'g gbinder_data =
  gb_lastChannelId :: int
  gb_state :: 'g

subsection \<open>Channels\<close>

definition gb_cleanup_channel :: "'g gbinder \<Rightarrow> int \<Rightarrow> 'g gbinder_data \<Rightarrow> 'g gbinder_data" where
  "gb_cleanup_channel G ident u = u\<lparr>gb_state := gb_icc_close_logical_channel G ident (gb_state u)\<rparr>"

definition gb_cleanup :: "'g gbinder \<Rightarrow> 'g gbinder_data \<Rightarrow> 'g gbinder_data" where
  "gb_cleanup G u =
     (if gb_lastChannelId u \<noteq> -1 then (gb_cleanup_channel G (gb_lastChannelId u) u)\<lparr>gb_lastChannelId := -1\<rparr> else u)"

text \<open>The result of the conversion is not looked at, and without it the array \<open>aid_hex\<close> of 255 bytes has never been written.\<close>

definition try_open_slot :: "'g gbinder \<Rightarrow> int \<Rightarrow> byte list \<Rightarrow> u32 \<Rightarrow> 'g gbinder_data \<Rightarrow> int cres \<times> 'g gbinder_data" where
  "try_open_slot G slotId a a_len u =
     (let (found, g) = gb_client G slotId (gb_state u); u = u\<lparr>gb_state := g\<rparr> in
      if \<not> found then (Ret (-1), u)
      else let (status, g) = gb_set_response_functions G (gb_state u); u = u\<lparr>gb_state := g\<rparr> in
        if status < 0 then (Ret (-1), u)
        else case euicc_hexutil_bin2hex (replicate 255 0) 255 a a_len of
          Ret (_, aid_hex) \<Rightarrow>
            (let (r, g) = gb_icc_open_logical_channel G (cstr_of aid_hex) (gb_state u); u = u\<lparr>gb_state := g\<rparr> in
             (Ret (case r of Inl status \<Rightarrow> status | Inr (err, channel) \<Rightarrow> if err \<noteq> 0 then - err else channel), u))
        | _ \<Rightarrow> (UB, u))"

definition gb_logic_channel_open :: "'g gbinder \<Rightarrow> byte list \<Rightarrow> byte \<Rightarrow> 'g gbinder_data \<Rightarrow> int cres \<times> 'g gbinder_data" where
  "gb_logic_channel_open G a a_len u =
     (case try_open_slot G 1 a (ucast a_len) u of
        (Ret res, u) \<Rightarrow>
          (let (r, u) = (if res < 0 then try_open_slot G 2 a (ucast a_len) u else (Ret res, u)) in
           case r of
             Ret res \<Rightarrow> (Ret res, if res \<ge> 0 then u\<lparr>gb_lastChannelId := res\<rparr> else u)
           | _ \<Rightarrow> (UB, u))
      | (_, u) \<Rightarrow> (UB, u))"

definition gb_logic_channel_close :: "'g gbinder \<Rightarrow> byte \<Rightarrow> 'g gbinder_data \<Rightarrow> 'g gbinder_data" where
  "gb_logic_channel_close G channel u =
     (let u = gb_cleanup_channel G (uint channel) u in
      if gb_lastChannelId u = uint channel then u\<lparr>gb_lastChannelId := -1\<rparr> else u)"

subsection \<open>APDUs\<close>

text \<open>
  The data of the APDU in hexadecimal; where \<open>tx_hex\<close>, which was cleared, is too small it stays empty. The answer's length is half that of
  the string, with two bytes for the status words; the result of its decoding is not looked at. \<open>strndup\<close> stops at a NUL. For an error that is
  negative the code returns a positive number without an answer, which the caller refuses as well.
\<close>

definition gb_transmit :: "'g gbinder \<Rightarrow> byte list \<Rightarrow> 'g gbinder_data \<Rightarrow> byte list cres \<times> 'g gbinder_data" where
  "gb_transmit G tx u =
     (if length tx < 5 then (UB, u)
      else
        let tx_hex = (case euicc_hexutil_bin2hex (replicate 4096 0) 4096 (drop 5 tx) (of_nat (length tx - 5)) of
              Ret (_, hex) \<Rightarrow> cstr_of hex | _ \<Rightarrow> []);
            apdu = \<lparr>sessionId = gb_lastChannelId u, sim_cla = tx ! 0, sim_instruction = tx ! 1, sim_p1 = tx ! 2, sim_p2 = tx ! 3,
              sim_p3 = tx ! 4, sim_data = tx_hex\<rparr>;
            (r, g) = gb_icc_transmit_apdu G apdu (gb_state u)
        in (case r of
              Inl status \<Rightarrow> Fail
            | Inr (err, res) \<Rightarrow>
                if err \<noteq> 0 then Fail
                else
                  let len = of_nat (length (simResponse res)) :: u32; rx_len = len div 2 + 2; rx0 = replicate (unat rx_len) 0 in
                  case euicc_hexutil_hex2bin_r rx0 rx_len (cstr_of (simResponse res) @ [0]) len of
                    UB \<Rightarrow> UB
                  | d \<Rightarrow>
                      (let rx = (case d of Ret (_, rx) \<Rightarrow> rx | _ \<Rightarrow> rx0) in
                       cbind (cstore rx (unat (rx_len - 2)) (word_of_int (io_sw1 res))) (\<lambda>rx.
                       cstore rx (unat (rx_len - 1)) (word_of_int (io_sw2 res)))), u\<lparr>gb_state := g\<rparr>))"

text \<open>The interface, with an undefined call shown as a failure.\<close>

definition gb_interface :: "'g gbinder \<Rightarrow> 'g gbinder_data euicc_apdu_interface" where
  "gb_interface G =
     \<lparr>if_connect = (\<lambda>u. (0, u)), if_disconnect = gb_cleanup G,
      if_logic_channel_open = (\<lambda>a n u. let (r, u) = gb_logic_channel_open G a n u in (case r of Ret c \<Rightarrow> c | _ \<Rightarrow> -1, u)),
      if_logic_channel_close = gb_logic_channel_close G,
      if_transmit = (\<lambda>ch tx u. let (r, u) = gb_transmit G tx u in (case r of Ret rx \<Rightarrow> Some rx | _ \<Rightarrow> None, u))\<rparr>"

definition gb_init :: "'g \<Rightarrow> 'g gbinder_data" where
  "gb_init g = \<lparr>gb_lastChannelId = -1, gb_state = g\<rparr>"

end
