(* ===== verification/Modem_Props.thy ===== *)
theory Modem_Props
  imports Driver_Qmi Driver_Mbim Driver_Uqmi Driver_Gbinder Driver_Contract
begin

text \<open>
  The properties of the drivers for QMI, MBIM and Android's radio service: that they carry the exchange with the card, and what they
  leave of the channels.
\<close>

subsection \<open>QMI\<close>

text \<open>The card behind the modem, for a slot and a channel.\<close>

definition uim_card :: "'q libqmi \<Rightarrow> byte \<Rightarrow> byte \<Rightarrow> 'q euicc_apdu_interface" where
  "uim_card L slot channel = \<lparr>
     if_connect = (\<lambda>q. (0, q)), if_disconnect = (\<lambda>q. q), if_logic_channel_open = (\<lambda>a n q. (uint channel, q)),
     if_logic_channel_close = (\<lambda>c q. q), if_transmit = (\<lambda>ch tx q. uim_send_apdu L slot channel tx q)\<rparr>"

definition qmi_carries :: "byte \<Rightarrow> byte \<Rightarrow> 'q qmi_data \<Rightarrow> 'q \<Rightarrow> bool" where
  "qmi_carries slot channel u q \<longleftrightarrow>
     qmi_state u = q \<and> uimClient u \<and> word_of_int (uimSlot u) = slot \<and> lastChannelId u = Some (uint channel)"

interpretation qmi: apdu_carrier "qmi_interface L" "uim_card L slot channel" "qmi_carries slot channel" ch 1000000
  for L :: "'q libqmi" and slot channel ch
  by unfold_locales
    (auto simp: qmi_interface_def uim_card_def qmi_carries_def qmi_apdu_interface_transmit_def Let_def
      split: prod.splits option.splits)

text \<open>
  C24. The end of a session over QMI. The channel that was opened is closed, the driver is disconnected, and then \<open>qmi_cleanup\<close> looks for
  a channel that is left. There is none when the modem closed the channel, and nothing happens; but when it did not, and the channel is not
  the basic one, the request to close it is made with the client \<open>NULL\<close>, because \<open>disconnect\<close> has released it.
\<close>

theorem qmi_cleanup_after_disconnect:
  assumes "qmi_apdu_interface_logic_channel_open L a a_len u = (Ret ident, u1)"
    and "qmi_apdu_interface_logic_channel_close L (word_of_int ident) u1 = (Ret (), u2)"
  shows "qmi_cleanup L (qmi_apdu_interface_disconnect L u2) =
    (if fst (uim_logical_channel L (word_of_int (uimSlot u1)) (word_of_int ident) (qmi_state u1)) \<or> ident = 0
     then (Ret (), qmi_apdu_interface_disconnect L u2) else (UB, (qmi_apdu_interface_disconnect L u2)\<lparr>lastChannelId := Some (-1)\<rparr>))"
proof -
  from assms(1) obtain channel where c: "ident = uint (channel :: byte)" "lastChannelId u1 = Some (uint channel)"
    by (auto simp: qmi_apdu_interface_logic_channel_open_def Let_def split: if_splits prod.splits option.splits)
  have "0 \<le> uint channel" by simp
  then have "uint channel \<noteq> 0 \<Longrightarrow> 0 < uint channel" by linarith
  with c assms(2) show ?thesis
    by (auto simp: qmi_apdu_interface_logic_channel_close_def qmi_apdu_interface_disconnect_def qmi_cleanup_def Let_def
        split: if_splits prod.splits)
qed

text \<open>A modem that opens channel 3, refuses to close it and answers to an APDU what it was given.\<close>

definition demo_qmi :: "unit libqmi" where
  "demo_qmi = \<lparr>qmi_device_new_from_path = \<lambda>d q. (True, q), qrtr_bus_new = \<lambda>q. (True, q), qrtr_node_ports = \<lambda>q. [1],
     qmi_device_new_from_node = \<lambda>n q. (True, q), qmi_device_open = \<lambda>p q. (True, q),
     qmi_allocate_client = \<lambda>q. (True, q), qmi_release_client = \<lambda>q. q, uim_get_slot_status = \<lambda>q. (Slots [False, True], q),
     uim_switch_slot = \<lambda>l p q. (True, q), uim_get_card_status = \<lambda>q. (Some [[(True, True)]], q),
     uim_open_logical_channel = \<lambda>s a q. (Some 3, q), uim_logical_channel = \<lambda>s c q. (False, q), uim_send_apdu = \<lambda>s c tx q. (Some tx, q)\<rparr>"

theorem qmi_cleanup_after_disconnect_witness:
  "fst (qmi_cleanup demo_qmi (qmi_apdu_interface_disconnect demo_qmi
     \<lparr>lastChannelId = Some 3, uimSlot = 1, uimClient = True, qmi_device_path = [], qmi_state = ()\<rparr>)) = UB"
proof -
  let ?u = "\<lparr>lastChannelId = Some 0, uimSlot = 1, uimClient = True, qmi_device_path = [], qmi_state = ()\<rparr>"
  let ?u1 = "\<lparr>lastChannelId = Some 3, uimSlot = 1, uimClient = True, qmi_device_path = [], qmi_state = ()\<rparr>"
  have o: "qmi_apdu_interface_logic_channel_open demo_qmi [1] 1 ?u = (Ret 3, ?u1)"
    by (simp add: qmi_apdu_interface_logic_channel_open_def demo_qmi_def)
  have c: "qmi_apdu_interface_logic_channel_close demo_qmi (word_of_int 3) ?u1 = (Ret (), ?u1)"
    by (simp add: qmi_apdu_interface_logic_channel_close_def demo_qmi_def)
  show ?thesis using qmi_cleanup_after_disconnect [OF o c] by (simp add: demo_qmi_def)
qed

text \<open>The memory of \<open>qmi_qrtr.c\<close> is not cleared: without an opened channel the clean-up reads what was never written.\<close>

lemma qrtr_cleanup_undefined:
  "qmi_cleanup L (snd (qrtr_connect L (qrtr_init env q))) = (UB, snd (qrtr_connect L (qrtr_init env q)))"
proof -
  have "lastChannelId (snd (qrtr_connect L u)) = lastChannelId u" for u
    by (simp add: qrtr_connect_def qmi_open_client_def Let_def split_beta split: option.split)
  then show ?thesis by (simp add: qmi_cleanup_def qrtr_init_def Let_def)
qed

text \<open>A successful \<open>connect\<close> leaves the slot at 1, which is what the modem calls the slot that is active.\<close>

lemma qmi_connect_slot:
  assumes "fst (qmi_connect L u) = 0"
  shows "uimSlot (snd (qmi_connect L u)) = 1" "uimClient (snd (qmi_connect L u))"
proof -
  have wait: "uimClient (snd (wait_for_sim L n v)) = uimClient v" for n v
    by (induction n arbitrary: v) (simp_all add: is_sim_available_def Let_def split_beta)
  have sel: "uimClient (snd (select_sim_slot L v)) = uimClient v" for v
    by (simp add: select_sim_slot_def Let_def split_beta wait del: wait_for_sim.simps split: slot_status.split)
  show "uimSlot (snd (qmi_connect L u)) = 1" "uimClient (snd (qmi_connect L u))"
    using assms by (simp_all add: qmi_connect_def qmi_open_client_def Let_def split_beta sel split: if_splits)
qed

subsection \<open>MBIM\<close>

lemma copy_data_with_status_eq:
  assumes "length data + 2 < 4294967296"
  shows "copy_data_with_status data (of_nat (length data)) status = Ret (data @ [ucast (status AND 0xff), ucast (drop_bit 8 status AND 0xff)])"
proof -
  have n: "unat (of_nat (length data) + 2 :: u32) = length data + 2" "unat (of_nat (length data) :: u32) = length data"
    "unat (of_nat (length data) + 2 - 1 :: u32) = length data + 1"
    using assms unat_of_nat_u32 [of "length data + 2"] unat_of_nat_u32 [of "length data + 1"] unat_of_nat_u32 [of "length data"]
    by (simp_all add: add.commute)
  have "replicate (length data + 2) (0 :: byte) = replicate (length data) 0 @ [0, 0]" by (simp only: replicate_add) (simp add: numeral_2_eq_2)
  then have "memcpy (replicate (length data + 2) 0) 0 data (length data) = Ret (data @ [0, 0])"
    by (simp only:) (simp add: memcpy_def)
  with n show ?thesis by (simp add: copy_data_with_status_def Let_def cstore_def list_update_append)
qed

text \<open>The card behind the modem: it is given the APDU with an expected length, and its status words come apart from the data.\<close>

definition mbim_card :: "'m libmbim \<Rightarrow> u32 \<Rightarrow> 'm euicc_apdu_interface" where
  "mbim_card L channel = \<lparr>
     if_connect = (\<lambda>m. (0, m)), if_disconnect = (\<lambda>m. m), if_logic_channel_open = (\<lambda>a n m. (sint channel, m)),
     if_logic_channel_close = (\<lambda>c m. m),
     if_transmit = (\<lambda>ch tx m. let (r, m) = uicc_apdu L channel (apdu_with_le tx) m in
       (case r of Some (status, data) \<Rightarrow>
          if length data + 2 < 4294967296 then Some (data @ [ucast (status AND 0xff), ucast (drop_bit 8 status AND 0xff)]) else None
        | None \<Rightarrow> None, m))\<rparr>"

interpretation mbim: apdu_carrier "mbim_interface L" "mbim_card L channel"
  "\<lambda>u m. mbim_state u = m \<and> last_channel_id u = Some (sint channel)" ch 1000000
  for L :: "'m libmbim" and channel ch
  by unfold_locales
    (auto simp: mbim_interface_def mbim_card_def mbim_transmit_def copy_data_with_status_eq Let_def split: prod.splits option.splits if_splits)

lemma mbim_small: "small_answers (mbim_interface L)"
proof -
  have "length rx < 4294967296" if "copy_data_with_status d n st = Ret rx" for d n st rx
  proof -
    from that have "length rx = unat (n + 2)"
      by (auto simp: copy_data_with_status_def Let_def cbind_eq_Ret memcpy_def cstore_def split: if_splits)
    then show ?thesis using unsigned_less [of "n + 2", where ?'a = nat] by simp
  qed
  then show ?thesis
    by (auto simp: small_answers_def mbim_interface_def mbim_transmit_def Let_def split: prod.splits option.splits cres.splits)
qed

lemma apdu_with_le_wire:
  "length data \<le> 255 \<Longrightarrow> apdu_with_le (store_data ch p1 seq data) = store_data ch p1 seq data @ [0]"
  "apdu_with_le (get_response ch n) = get_response ch n"
  by (simp_all add: apdu_with_le_def store_data_def get_response_def unat_of_nat)

text \<open>
  C23. A whole command over MBIM: \<open>es10x_command\<close> through \<open>mbim.c\<close> returns what the card behind the modem gives for the request, where the
  modem is sent each block of STORE DATA with an expected length of 0 behind it and each GET RESPONSE as it is, and where its status, low
  byte first, becomes the last two bytes of the answer.
\<close>

theorem es10x_command_over_mbim:
  assumes "wf_ctx ctx" "es10x_mss ctx \<noteq> 0" "length req < 4294967296" "src_request ctx src req" "length resp < 4294967296"
    and "last_channel_id u = Some (sint channel)" "card_gives (mbim_card L channel) ctx req (mbim_state u) resp m'"
  shows "(\<exists>ctx' u'. es10x_command (mbim_interface L) src (of_nat (length req)) (ctx, u) =
        Some (Ret (resp, of_nat (length resp)), ctx', u') \<and> mbim_state u' = m') \<and>
    (\<forall>ch p1 seq data m. length data \<le> 255 \<longrightarrow> snd (if_transmit (mbim_card L channel) ch (store_data ch p1 seq data) m) =
        snd (uicc_apdu L channel (store_data ch p1 seq data @ [0]) m)) \<and>
    (\<forall>ch n m. snd (if_transmit (mbim_card L channel) ch (get_response ch n) m) = snd (uicc_apdu L channel (get_response ch n) m))"
proof -
  have "unat (es10x_mss ctx) + 5 \<le> 1000000" using unsigned_less [of "es10x_mss ctx", where ?'a = nat] by simp
  from mbim.command_carried [OF mbim_small assms(1-5) refl this _ assms(7)] assms(6)
  have "\<exists>ctx' u'. es10x_command (mbim_interface L) src (of_nat (length req)) (ctx, u) =
        Some (Ret (resp, of_nat (length resp)), ctx', u') \<and> mbim_state u' = m'" by blast
  then show ?thesis by (simp add: mbim_card_def apdu_with_le_wire Let_def split_beta)
qed

text \<open>A modem whose card gives prepared answers and keeps a record.\<close>

definition demo_mbim :: "card_log libmbim" where
  "demo_mbim = \<lparr>mbim_device_new = \<lambda>d c. (True, c), mbim_device_open = \<lambda>p c. (True, c), mbim_device_close = \<lambda>c. c,
     slot_mappings_query = \<lambda>c. (Mappings [0], c), slot_mappings_set = \<lambda>s c. (True, c),
     subscriber_ready_status = \<lambda>c. (Some ReadyInitialized, c), uicc_open_channel = \<lambda>a p g c. (Some (0x90, 2), c),
     uicc_close_channel = \<lambda>ch g c. (Some 0x90, c),
     uicc_apdu = \<lambda>ch tx c. (case to_say c of
         rx # rest \<Rightarrow> (Some (ucast (rx ! (length rx - 2)) OR push_bit 8 (ucast (rx ! (length rx - 1))), take (length rx - 2) rx),
           c\<lparr>to_say := rest, heard := heard c @ [tx]\<rparr>)
       | [] \<Rightarrow> (None, c))\<rparr>"

lemma status_bytes:
  "ucast ((ucast (a :: byte) OR push_bit 8 (ucast (b :: byte)) :: u32) AND 0xff) = a"
  "ucast (drop_bit 8 (ucast (a :: byte) OR push_bit 8 (ucast (b :: byte)) :: u32) AND 0xff) = b"
proof -
  have m: "(0xff :: u32) = mask 8" by (simp add: mask_eq_exp_minus_1)
  show "ucast ((ucast a OR push_bit 8 (ucast b) :: u32) AND 0xff) = a"
    "ucast (drop_bit 8 (ucast a OR push_bit 8 (ucast b) :: u32) AND 0xff) = b"
    unfolding m by (rule bit_word_eqI; auto simp: bit_simps dest: bit_imp_le_length)+
qed

theorem es10x_command_over_mbim_witness:
  "\<exists>ctx' u'. es10x_command (mbim_interface demo_mbim) (ReqMem [1, 2]) 2
      (script_ctx, \<lparr>mbim_device_path = [], last_channel_id = Some 2, use_proxy = False, uim_slot = 0, skip_slot_mapping = False,
        mbim_state = \<lparr>to_say = demo_answers, heard = []\<rparr>\<rparr>) = Some (Ret ([7, 8], 2), ctx', u') \<and>
     mbim_state u' = \<lparr>to_say = [], heard = [store_data 1 0x91 0 [1, 2] @ [0], get_response 1 1]\<rparr>"
proof -
  let ?u = "\<lparr>mbim_device_path = [], last_channel_id = Some 2, use_proxy = False, uim_slot = 0, skip_slot_mapping = False,
    mbim_state = \<lparr>to_say = demo_answers, heard = []\<rparr>\<rparr>"
  have src: "src_request script_ctx (ReqMem [1, 2]) [1, 2]" by (simp add: src_request_def)
  have "card_gives (mbim_card demo_mbim 2) script_ctx [1, 2] (mbim_state ?u) [7, 8] \<lparr>to_say = [], heard = map apdu_with_le demo_apdus\<rparr>"
    unfolding mbim_data.simps
  proof (rule demo_card_gives_via)
    fix tx and c :: card_log and rx :: "byte list" and rest
    assume c: "to_say c = rx # rest" "length rx = 3"
    then obtain x y z where "rx = [x, y, z]" by (auto simp: numeral_3_eq_3 length_Suc_conv)
    with c show "if_transmit (mbim_card demo_mbim 2) 1 tx c = (Some rx, c\<lparr>to_say := rest, heard := heard c @ [apdu_with_le tx]\<rparr>)"
      by (simp add: mbim_card_def demo_mbim_def status_bytes status_bytes(2) [simplified])
  qed
  then have g: "card_gives (mbim_card demo_mbim 2) script_ctx [1, 2] (mbim_state ?u) [7, 8]
      \<lparr>to_say = [], heard = [store_data 1 0x91 0 [1, 2] @ [0], get_response 1 1]\<rparr>"
    by (simp add: demo_apdus_def apdu_with_le_wire)
  have last_id: "last_channel_id ?u = Some (sint (2 :: u32))" by simp
  from es10x_command_over_mbim [OF script_ctx_wf(1,2) _ src _ last_id g] show ?thesis by simp
qed

text \<open>
  When no channel could be opened, \<open>euicc_init\<close> disconnects, and \<open>last_channel_id\<close>, which was never written, decides whether a channel is closed.
\<close>

lemma mbim_disconnect_undefined:
  assumes "mbim_init env m = Some u" "mbim_connect L u = (0, u1)" "mbim_logic_channel_open L a a_len u1 = (Fail, u2)"
  shows "mbim_disconnect L u2 = (UB, u2)"
proof -
  have wait: "last_channel_id (mbim_wait_for_sim L n v) = last_channel_id v" for n v
    by (induction n arbitrary: v) (simp_all add: mbim_is_sim_available_def Let_def split_beta)
  have "last_channel_id (snd (mbim_connect L u)) = last_channel_id u"
    by (simp add: mbim_connect_def mbim_select_sim_slot_def Let_def split_beta wait del: mbim_wait_for_sim.simps split: slot_mappings.split)
  moreover have "last_channel_id u = None" using assms(1) by (auto simp: mbim_init_def Let_def split: if_splits)
  moreover have "last_channel_id u2 = last_channel_id u1"
    using assms(3) by (auto simp: mbim_logic_channel_open_def Let_def split: prod.splits option.splits if_splits)
  ultimately show ?thesis using assms(2) by (simp add: mbim_disconnect_def)
qed

subsection \<open>The program \<open>uqmi\<close>\<close>

text \<open>The command line for an APDU.\<close>

definition uqmi_apdu_args :: "'p uqmi_userdata \<Rightarrow> u32 \<Rightarrow> byte list \<Rightarrow> cstr list" where
  "uqmi_apdu_args u ch tx = [uq_program u, cstr ''--single'', cstr ''--device'', uq_device_path u] @
     slot_args u [cstr ''--uim-channel-id'', fmt_u (unat ch), cstr ''--uim-apdu-send'', hex_of tx]"

text \<open>What the output of the program says that the card answered.\<close>

definition uqmi_says :: "('j, 'x) cjson_stdio_scheme \<Rightarrow> (read_result list \<times> int) option \<Rightarrow> byte list option" where
  "uqmi_says J r = Option.bind r (\<lambda>(reads, status).
     case output_string reads of
       Ret s \<Rightarrow>
         if status = -1 then None
         else Option.bind (cJSON_Parse J s) (\<lambda>root.
           if cJSON_IsObject J root then Option.bind (json_string J root (cstr ''response'')) (\<lambda>h.
             if length h < 4294967296 then unhex h else None)
           else None)
     | _ \<Rightarrow> None)"

definition uqmi_card :: "('j, 'x) cjson_stdio_scheme \<Rightarrow> 'p program \<Rightarrow> 'p uqmi_userdata \<Rightarrow> 'p euicc_apdu_interface" where
  "uqmi_card J run u = \<lparr>
     if_connect = (\<lambda>p. (0, p)), if_disconnect = (\<lambda>p. p), if_logic_channel_open = (\<lambda>a n p. (1, p)), if_logic_channel_close = (\<lambda>c p. p),
     if_transmit = (\<lambda>ch tx p. let (r, p) = run (uqmi_apdu_args u ch tx) p in (uqmi_says J r, p))\<rparr>"

lemma uqmi_says_SomeE:
  assumes "uqmi_says J r = Some rx"
  obtains reads status s root h where "r = Some (reads, status)" "output_string reads = Ret s" "status \<noteq> -1"
    "cJSON_Parse J s = Some root" "cJSON_IsObject J root" "json_string J root (cstr ''response'') = Some h"
    "length h < 4294967296" "unhex h = Some rx"
proof -
  from assms obtain reads status where r: "r = Some (reads, status)" by (cases r) (auto simp: uqmi_says_def)
  with assms obtain s where s: "output_string reads = Ret s" by (cases "output_string reads") (simp_all add: uqmi_says_def)
  with r assms that [OF r s] show thesis by (auto simp: uqmi_says_def Option.bind_eq_Some_conv split: if_splits)
qed

lemma uqmi_transmit_says:
  assumes "length tx < 1073741824" "run (uqmi_apdu_args u ch tx) (uq_state u) = (r, p)" "uqmi_says J r = Some rx"
  shows "uqmi_transmit J run ch tx u = (Ret rx, u\<lparr>uq_state := p\<rparr>)"
proof -
  let ?n = "of_nat (length tx) :: u32"
  have len: "unat (?n * 2 + 1) = 2 * length tx + 1" using assms(1) unat_double_plus1_u32 [of ?n] by (simp add: mult.commute)
  have hex: "euicc_hexutil_bin2hex (replicate (unat (?n * 2 + 1)) 0) (?n * 2 + 1) tx ?n = Ret (2 * length tx, hex_of tx @ [0])"
    using assms(1) by (subst euicc_hexutil_bin2hex_eq) (simp_all only: len, simp_all add: slice_ok_def slice_bytes_def)
  have "cstr_of (hex_of tx @ [0]) = hex_of tx" by (rule cstr_of_append_NUL) (rule hex_of_no_NUL)
  moreover from assms(3) obtain reads status s root h where "r = Some (reads, status)" "output_string reads = Ret s" "status \<noteq> -1"
    "cJSON_Parse J s = Some root" "cJSON_IsObject J root" "json_string J root (cstr ''response'') = Some h"
    "length h < 4294967296" "unhex h = Some rx"
    by (rule uqmi_says_SomeE)
  ultimately show ?thesis
    using assms(2) by (simp add: uqmi_transmit_def hex uqmi_execute_command_def uqmi_apdu_args_def hex_bytes_def Let_def hex2bin_all)
qed

interpretation uqmi: apdu_carrier "uqmi_interface J run" "uqmi_card J run u0" "\<lambda>u p. u = u0\<lparr>uq_state := p\<rparr>" ch 1000000
  for J :: "('j, 'x) cjson_stdio_scheme" and run :: "'p program" and u0 ch
proof unfold_locales
  fix u :: "'p uqmi_userdata" and p tx rx p'
  assume R: "u = u0\<lparr>uq_state := p\<rparr>" "length tx \<le> 1000000" "if_transmit (uqmi_card J run u0) ch tx p = (Some rx, p')"
  then obtain r where r: "run (uqmi_apdu_args u0 ch tx) p = (r, p')" "uqmi_says J r = Some rx"
    by (auto simp: uqmi_card_def split: prod.splits)
  have "uqmi_apdu_args u ch tx = uqmi_apdu_args u0 ch tx" "uq_state u = p" using R(1) by (simp_all add: uqmi_apdu_args_def slot_args_def)
  with r R(2) uqmi_transmit_says [of tx run u ch r p' J rx] have "uqmi_transmit J run ch tx u = (Ret rx, u\<lparr>uq_state := p'\<rparr>)" by simp
  with R(1) show "\<exists>u'. if_transmit (uqmi_interface J run) ch tx u = (Some rx, u') \<and> u' = u0\<lparr>uq_state := p'\<rparr>"
    by (simp add: uqmi_interface_def)
qed simp

text \<open>A program that prints nothing: the byte before the start of a null pointer is written.\<close>

lemma uqmi_no_output:
  assumes "run ([uq_program u, cstr ''--single'', cstr ''--device'', uq_device_path u] @ argv) (uq_state u) = (Some ([], status), p)"
  shows "uqmi_execute_command run True argv u = (UB, u\<lparr>uq_state := p\<rparr>)"
  using assms by (simp add: uqmi_execute_command_def output_string_def)

subsection \<open>Android's radio service\<close>

definition sim_apdu_of :: "int \<Rightarrow> byte list \<Rightarrow> sim_apdu" where
  "sim_apdu_of channel tx = \<lparr>sessionId = channel, sim_cla = tx ! 0, sim_instruction = tx ! 1, sim_p1 = tx ! 2, sim_p2 = tx ! 3,
     sim_p3 = tx ! 4, sim_data = hex_of (drop 5 tx)\<rparr>"

definition radio_says :: "int + int \<times> icc_io_result \<Rightarrow> byte list option" where
  "radio_says r = (case r of
     Inr (err, res) \<Rightarrow>
       if err = 0 \<and> length (simResponse res) < 65536
       then map_option (\<lambda>data. data @ [word_of_int (io_sw1 res), word_of_int (io_sw2 res)]) (unhex (simResponse res)) else None
   | Inl _ \<Rightarrow> None)"

definition radio_card :: "'g gbinder \<Rightarrow> int \<Rightarrow> 'g euicc_apdu_interface" where
  "radio_card G channel = \<lparr>
     if_connect = (\<lambda>g. (0, g)), if_disconnect = (\<lambda>g. g), if_logic_channel_open = (\<lambda>a n g. (channel, g)), if_logic_channel_close = (\<lambda>c g. g),
     if_transmit = (\<lambda>ch tx g. if length tx < 5 then (None, g)
       else let (r, g) = gb_icc_transmit_apdu G (sim_apdu_of channel tx) g in (radio_says r, g))\<rparr>"

lemma unhex_plain: "unhex s = Some bs \<Longrightarrow> list_all isxdigit s"
  by (induction s arbitrary: bs rule: unhex.induct) (auto split: if_splits)

lemma gb_transmit_says:
  assumes "5 \<le> length tx" "length tx \<le> 2000" "gb_icc_transmit_apdu G (sim_apdu_of (gb_lastChannelId u) tx) (gb_state u) = (r, g)"
    and "radio_says r = Some rx"
  shows "gb_transmit G tx u = (Ret rx, u\<lparr>gb_state := g\<rparr>)"
proof -
  from assms(4) obtain res data where r: "r = Inr (0, res)" "length (simResponse res) < 65536" "unhex (simResponse res) = Some data"
    "rx = data @ [word_of_int (io_sw1 res), word_of_int (io_sw2 res)]"
    by (auto simp: radio_says_def split: sum.splits if_splits)
  let ?s = "simResponse res" and ?d = "drop 5 tx"
  have nul: "cstr_of ?s = ?s" using unhex_plain [OF r(3)] by (auto simp: cstr_of_def takeWhile_eq_all_conv list_all_iff isxdigit_def)
  have dl: "length ?d \<le> 1995" using assms(2) by simp
  then have dn: "unat (of_nat (length ?d) :: u32) = length ?d" by (intro unat_of_nat_u32) simp
  have "euicc_hexutil_bin2hex (replicate 4096 0) 4096 ?d (of_nat (length ?d)) = Ret (2 * length ?d, hex_of ?d @ 0 # drop (2 * length ?d + 1) (replicate 4096 0))"
    by (subst euicc_hexutil_bin2hex_eq) (use dl in \<open>simp_all only: slice_ok_def slice_bytes_def dn\<close>, simp_all)
  moreover have "cstr_of (hex_of ?d @ 0 # zs) = hex_of ?d" for zs
    using hex_of_no_NUL [of ?d] by (simp add: cstr_of_def takeWhile_append takeWhile_eq_all_conv)
  ultimately have hex: "(case euicc_hexutil_bin2hex (replicate 4096 0) 4096 ?d (of_nat (length tx - 5)) of
      Ret (_, hex) \<Rightarrow> cstr_of hex | _ \<Rightarrow> []) = hex_of ?d" by simp
  let ?len = "of_nat (length ?s) :: u32"
  have n: "length ?s = 2 * length data" using length_unhex [OF r(3)] .
  have lens: "unat ?len = length ?s" "unat (?len div 2 + 2) = length data + 2" "unat (?len div 2 + 2 - 1) = length data + 1" "unat (?len div 2) = length data"
  proof -
    have h: "?len div 2 = of_nat (length data)"
      using r(2) n unat_of_nat_u32 [of "length ?s"] unat_of_nat_u32 [of "length data"]
      by (simp add: word_unat_eq_iff unat_div del: of_nat_mult)
    show "unat ?len = length ?s" using r(2) by (intro unat_of_nat_u32) simp
    show "unat (?len div 2 + 2) = length data + 2" "unat (?len div 2 + 2 - 1) = length data + 1" "unat (?len div 2) = length data"
      unfolding h using r(2) n unat_of_nat_u32 [of "length data + 2"] unat_of_nat_u32 [of "length data + 1"] unat_of_nat_u32 [of "length data"]
      by (simp_all add: add.commute)
  qed
  have "euicc_hexutil_hex2bin_r (replicate (length data + 2) 0) (?len div 2 + 2) (?s @ [0]) ?len = Ret (length data, data @ [0, 0])"
  proof -
    have "drop (length data) (replicate (length data + 2) (0 :: byte)) = [0, 0]"
      by (simp only: replicate_add) (simp add: numeral_2_eq_2)
    then show ?thesis using r(3) n lens
      by (subst euicc_hexutil_hex2bin_r_eq) (simp_all add: slice_ok_def slice_bytes_def del: replicate_Suc)
  qed
  with assms(1,3) r hex nul lens show ?thesis
    by (simp add: gb_transmit_def sim_apdu_of_def Let_def cstore_def list_update_append)
qed

interpretation radio: apdu_carrier "gb_interface G" "radio_card G channel" "\<lambda>u g. u = \<lparr>gb_lastChannelId = channel, gb_state = g\<rparr>" ch 2000
  for G :: "'g gbinder" and channel ch
proof unfold_locales
  fix u :: "'g gbinder_data" and g tx rx g'
  assume R: "u = \<lparr>gb_lastChannelId = channel, gb_state = g\<rparr>" "length tx \<le> 2000" "if_transmit (radio_card G channel) ch tx g = (Some rx, g')"
  then obtain r where "5 \<le> length tx" "gb_icc_transmit_apdu G (sim_apdu_of channel tx) g = (r, g')" "radio_says r = Some rx"
    by (auto simp: radio_card_def split: prod.splits if_splits)
  with R gb_transmit_says [of tx G u r g' rx] show "\<exists>u'. if_transmit (gb_interface G) ch tx u = (Some rx, u') \<and> u' = \<lparr>gb_lastChannelId = channel, gb_state = g'\<rparr>"
    by (simp add: gb_interface_def)
qed simp

end
