(* ===== verification/Driver_Curl.thy ===== *)
theory Driver_Curl
  imports Utils Es9p_Props
begin

text \<open>
  The HTTP driver with libcurl, \<open>driver/http/curl.c\<close>. The library is a parameter: \<open>curl_easy_perform\<close> is given the options that were
  set, calls the function for the data once for each piece of the answer, and returns a code and the status of the server.
\<close>

subsection \<open>The library\<close>

record curl_request =
  CURLOPT_URL :: cstr
  CURLOPT_HTTPHEADER :: "cstr list"
  CURLOPT_POSTFIELDS :: "byte list"
  CURLOPT_SSL_VERIFYPEER :: bool
  CURLOPT_SSL_VERIFYHOST :: bool

record curl_result =
  curl_code :: int
  curl_pieces :: "byte list list"
  curl_response_code :: int

record 'h libcurl =
  curl_easy_init :: "'h \<Rightarrow> bool \<times> 'h"
  curl_easy_perform :: "curl_request \<Rightarrow> 'h \<Rightarrow> curl_result \<times> 'h"

subsection \<open>The code\<close>

record http_trans_response_data =
  hd_data :: "byte list"
  hd_size :: nat

text \<open>Sizes are \<open>size_t\<close>, 64 bits wide, and taken not to wrap.\<close>

definition http_trans_write_callback :: "byte list \<Rightarrow> http_trans_response_data \<Rightarrow> http_trans_response_data cres" where
  "http_trans_write_callback contents mem =
     (let realsize = length contents;
          data = take (hd_size mem + realsize + 1) (hd_data mem) @ replicate (hd_size mem + realsize + 1 - length (hd_data mem)) 0
      in cbind (memcpy data (hd_size mem) contents realsize) (\<lambda>data.
         cbind (cstore data (hd_size mem + realsize) 0) (\<lambda>data.
         Ret \<lparr>hd_data = data, hd_size = hd_size mem + realsize\<rparr>)))"

fun write_pieces :: "byte list list \<Rightarrow> http_trans_response_data \<Rightarrow> http_trans_response_data cres" where
  "write_pieces [] mem = Ret mem"
| "write_pieces (p # ps) mem = cbind (http_trans_write_callback p mem) (write_pieces ps)"

text \<open>The certificate of the server is not checked. The length handed out is a \<open>uint32_t\<close>.\<close>

definition curl_interface_transmit ::
  "'h libcurl \<Rightarrow> cstr \<Rightarrow> byte list \<Rightarrow> u32 \<Rightarrow> cstr list \<Rightarrow> 'h \<Rightarrow> (u32 \<times> byte list \<times> u32) cres \<times> 'h" where
  "curl_interface_transmit L url tx tx_len headers h =
     (let (ok, h) = curl_easy_init L h in
      if \<not> ok then (Fail, h)
      else if length tx < unat tx_len then (UB, h)
      else
        let (res, h) = curl_easy_perform L \<lparr>CURLOPT_URL = url, CURLOPT_HTTPHEADER = headers, CURLOPT_POSTFIELDS = take (unat tx_len) tx,
              CURLOPT_SSL_VERIFYPEER = False, CURLOPT_SSL_VERIFYHOST = False\<rparr> h
        in (cbind (write_pieces (curl_pieces res) \<lparr>hd_data = [], hd_size = 0\<rparr>) (\<lambda>mem.
            if curl_code res \<noteq> 0 then Fail
            else Ret (word_of_int (curl_response_code res), hd_data mem, of_nat (hd_size mem))), h))"

definition curl_interface :: "'h libcurl \<Rightarrow> 'h euicc_http_interface" where
  "curl_interface L = \<lparr>http_transmit = (\<lambda>url tx n headers h.
     let (r, h) = curl_interface_transmit L url tx n headers h in (case r of Ret a \<Rightarrow> Some a | _ \<Rightarrow> None, h))\<rparr>"

subsection \<open>What it hands on\<close>

lemma http_trans_write_callback_eq:
  assumes "length d = n" "xs = d \<or> xs = d @ [0]"
  shows "http_trans_write_callback c \<lparr>hd_data = xs, hd_size = n\<rparr> = Ret \<lparr>hd_data = (d @ c) @ [0], hd_size = n + length c\<rparr>"
proof -
  define data where "data = take (n + length c + 1) xs @ replicate (n + length c + 1 - length xs) 0"
  have len: "length data = Suc (n + length c)" and tk: "take n data = d" using assms by (auto simp: data_def)
  have z: "drop (n + length c) data = [data ! (n + length c)]" using len by (simp add: Cons_nth_drop_Suc [symmetric])
  have "memcpy data n c (length c) = Ret (d @ c @ [data ! (n + length c)])" using len tk z by (simp add: memcpy_def)
  with assms(1) show ?thesis by (simp add: http_trans_write_callback_def Let_def cstore_def list_update_append data_def)
qed

lemma write_pieces_eq:
  "write_pieces ps \<lparr>hd_data = d @ [0], hd_size = length d\<rparr> = Ret \<lparr>hd_data = (d @ concat ps) @ [0], hd_size = length (d @ concat ps)\<rparr>"
proof (induction ps arbitrary: d)
  case (Cons p ps)
  from Cons.IH [of "d @ p"] show ?case by (simp add: http_trans_write_callback_eq [OF refl disjI2 [OF refl]])
qed simp

text \<open>The body of the answer is the concatenation of its pieces.\<close>

lemma write_pieces_all:
  "\<exists>mem. write_pieces ps \<lparr>hd_data = [], hd_size = 0\<rparr> = Ret mem \<and> hd_size mem = length (concat ps) \<and> take (hd_size mem) (hd_data mem) = concat ps"
proof (cases ps)
  case (Cons p qs)
  with write_pieces_eq [of qs p] http_trans_write_callback_eq [of "[]" 0 "[]" p] show ?thesis by simp
qed simp

text \<open>The hypothesis of the functions of \<open>es9p.c\<close> holds of this driver when no answer has \<open>2 ^ 32 - 1\<close> bytes or more.\<close>

lemma curl_safe:
  assumes "\<And>r h. length (concat (curl_pieces (fst (curl_easy_perform L r h)))) < 0xFFFFFFFF"
  shows "http_safe (curl_interface L)"
proof -
  have "unat rlen \<le> length rbuf \<and> unat rlen \<noteq> 0xFFFFFFFF"
    if t: "curl_interface_transmit L url tx n hs h = (Ret (rcode, rbuf, rlen), h')" for url tx n hs h rcode rbuf rlen h'
  proof -
    from t obtain req h1 mem where mem: "write_pieces (curl_pieces (fst (curl_easy_perform L req h1))) \<lparr>hd_data = [], hd_size = 0\<rparr> = Ret mem"
      "rbuf = hd_data mem" "rlen = of_nat (hd_size mem)"
      by (auto simp: curl_interface_transmit_def Let_def cbind_eq_Ret split_beta split: if_splits)
    from write_pieces_all [of "curl_pieces (fst (curl_easy_perform L req h1))"] mem(1) have
      "hd_size mem = length (concat (curl_pieces (fst (curl_easy_perform L req h1))))" "hd_size mem \<le> length (hd_data mem)"
      by (auto simp del: length_concat) (metis length_take min.cobounded1)
    with assms [of req h1] mem(2,3) show ?thesis by (simp add: unat_of_nat_u32 del: length_concat)
  qed
  then show ?thesis
    by (auto simp: http_safe_def curl_interface_def Let_def split: prod.splits cres.splits option.splits)
qed

end
