(* ===== verification/Applet_Print.thy ===== *)
theory Applet_Print
  imports Applet_Notification Tostr Es10a Es10b_Rat Es10c_Ex
begin

text \<open>
  The applets that print what the card says (\<open>profile list\<close>, \<open>notification list\<close>, \<open>chip info\<close>), the frame of every line
  that is printed (\<open>src/jprint.c\<close>), and the function the repository adds to cJSON. A printed line is the JSON value it is made from.
\<close>

subsection \<open>JSON\<close>

text \<open>Objects keep their members in the order in which they were added.\<close>

datatype json = JsonNull | JsonNumber int | JsonString cstr | JsonArray "json list" | JsonObject "(cstr \<times> json) list"

type_synonym json_members = "(cstr \<times> json) list"

text \<open>\<open>cJSON_AddItemToObject\<close> adds nothing for an item that is \<open>NULL\<close>.\<close>

definition add_item :: "cstr \<Rightarrow> json option \<Rightarrow> json_members \<Rightarrow> json_members" where
  "add_item name item object = (case item of None \<Rightarrow> object | Some j \<Rightarrow> object @ [(name, j)])"

definition add_number :: "cstr \<Rightarrow> int \<Rightarrow> json_members \<Rightarrow> json_members" where
  "add_number name n object = object @ [(name, JsonNumber n)]"

definition cJSON_AddStringOrNullToObject :: "json_members \<Rightarrow> cstr \<Rightarrow> cstr option \<Rightarrow> json_members" where
  "cJSON_AddStringOrNullToObject object name s =
     (case s of Some t \<Rightarrow> object @ [(name, JsonString t)] | None \<Rightarrow> object @ [(name, JsonNull)])"

text \<open>The calls that fill an object, one for each pair.\<close>

fun add_strings :: "json_members \<Rightarrow> (cstr \<times> cstr option) list \<Rightarrow> json_members" where
  "add_strings object [] = object"
| "add_strings object ((name, s) # rest) = add_strings (cJSON_AddStringOrNullToObject object name s) rest"

text \<open>\<open>for (int i = 0; a[i] != NULL; i++) cJSON_AddItemToArray(array, cJSON_CreateString(a[i]))\<close>\<close>

fun string_array :: "cstr option list \<Rightarrow> json list cres" where
  "string_array [] = UB"
| "string_array (None # _) = Ret []"
| "string_array (Some s # rest) = cbind (string_array rest) (\<lambda>js. Ret (JsonString s # js))"

text \<open>The same where the pointer to the array may be \<open>NULL\<close>.\<close>

definition add_string_array :: "cstr \<Rightarrow> cstr option list option \<Rightarrow> json_members \<Rightarrow> json_members cres" where
  "add_string_array name a object =
     (case a of None \<Rightarrow> Ret object | Some l \<Rightarrow> cbind (string_array l) (\<lambda>js. Ret (add_item name (Some (JsonArray js)) object)))"

subsection \<open>\<open>jprint.c\<close>\<close>

definition jprint_line :: "cstr \<Rightarrow> int \<Rightarrow> cstr \<Rightarrow> json \<Rightarrow> json" where
  "jprint_line type code message data =
     (let jroot = cJSON_AddStringOrNullToObject [] (cstr ''type'') (Some type);
          jpayload = add_number (cstr ''code'') code [];
          jpayload = cJSON_AddStringOrNullToObject jpayload (cstr ''message'') (Some message);
          jpayload = add_item (cstr ''data'') (Some data) jpayload
      in JsonObject (add_item (cstr ''payload'') (Some (JsonObject jpayload)) jroot))"

definition jprint_error :: "cstr \<Rightarrow> cstr option \<Rightarrow> json" where
  "jprint_error function_name detail =
     jprint_line (cstr ''lpa'') (-1) function_name (JsonString (case detail of None \<Rightarrow> [] | Some d \<Rightarrow> d))"

definition jprint_progress :: "cstr \<Rightarrow> cstr option \<Rightarrow> json" where
  "jprint_progress function_name detail =
     jprint_line (cstr ''progress'') 0 function_name (case detail of None \<Rightarrow> JsonNull | Some d \<Rightarrow> JsonString d)"

definition jprint_progress_obj :: "cstr \<Rightarrow> json option \<Rightarrow> json" where
  "jprint_progress_obj function_name jdata =
     jprint_line (cstr ''progress'') 0 function_name (case jdata of None \<Rightarrow> JsonNull | Some d \<Rightarrow> d)"

definition jprint_success :: "json option \<Rightarrow> json" where
  "jprint_success jdata = jprint_line (cstr ''lpa'') 0 (cstr ''success'') (case jdata of None \<Rightarrow> JsonNull | Some d \<Rightarrow> d)"

text \<open>The exit code and the line of an applet that prints.\<close>

type_synonym 'd print_result = "((int \<times> json) cres \<times> 'd st) option"

subsection \<open>\<open>profile list\<close>\<close>

definition profile_json :: "es10c_profile_info_list \<Rightarrow> json" where
  "profile_json p = JsonObject (add_strings []
     [(cstr ''iccid'', Some (cstr_of (pi_iccid p))), (cstr ''isdpAid'', Some (cstr_of (pi_isdpAid p))),
      (cstr ''profileState'', euicc_profilestate2str (pi_profileState p)), (cstr ''profileNickname'', pi_profileNickname p),
      (cstr ''serviceProviderName'', pi_serviceProviderName p), (cstr ''profileName'', pi_profileName p),
      (cstr ''iconType'', euicc_icontype2str (pi_iconType p)), (cstr ''icon'', pi_icon p),
      (cstr ''profileClass'', euicc_profileclass2str (pi_profileClass p))])"

definition applet_profile_list :: "'d euicc_apdu_interface \<Rightarrow> 'd st \<Rightarrow> 'd print_result" where
  "applet_profile_list iface st =
     Option.bind (es10c_get_profiles_info iface st) (\<lambda>(r, st). Some (case r of
         UB \<Rightarrow> UB
       | Fail \<Rightarrow> Ret (-1, jprint_error (cstr ''es10c_get_profiles_info'') None)
       | Ret profiles \<Rightarrow> Ret (0, jprint_success (Some (JsonArray (map profile_json profiles)))), st))"

subsection \<open>\<open>notification list\<close>\<close>

text \<open>
  The number is cut to 32 bits. Both variables of the list are released at the end, as in \<open>notification_main\<close>: \<open>rptr\<close> was never written when the list
  could not be read.
\<close>

definition notification_json :: "es10b_notification_metadata_list \<Rightarrow> json" where
  "notification_json p = JsonObject (add_strings (add_number (cstr ''seqNumber'') (uint (ucast (nm_seqNumber p) :: u32)) [])
     [(cstr ''profileManagementOperation'', euicc_profilemanagementoperation2str (nm_profileManagementOperation p)),
      (cstr ''notificationAddress'', notification_strstrip (nm_notificationAddress p)), (cstr ''iccid'', nm_iccid p)])"

definition applet_notification_list :: "'d euicc_apdu_interface \<Rightarrow> 'd st \<Rightarrow> 'd print_result" where
  "applet_notification_list iface st =
     Option.bind (es10b_list_notification iface st) (\<lambda>(r, st). Some (case r of
         UB \<Rightarrow> UB
       | Fail \<Rightarrow> UB
       | Ret notifications \<Rightarrow> Ret (0, jprint_success (Some (JsonArray (map notification_json notifications)))), st))"

subsection \<open>\<open>chip info\<close>\<close>

definition addresses_json :: "es10a_euicc_configured_addresses \<Rightarrow> json" where
  "addresses_json a = JsonObject (add_strings []
     [(cstr ''defaultDpAddress'', defaultDpAddress a), (cstr ''rootDsAddress'', rootDsAddress a)])"

definition ext_card_resource_json :: "ext_card_resource \<Rightarrow> json" where
  "ext_card_resource_json r = JsonObject
     (add_number (cstr ''freeVolatileMemory'') (uint (freeVolatileMemory r))
     (add_number (cstr ''freeNonVolatileMemory'') (uint (freeNonVolatileMemory r))
     (add_number (cstr ''installedApplication'') (uint (installedApplication r)) [])))"

definition euiccinfo2_json :: "es10c_ex_euiccinfo2 \<Rightarrow> json cres" where
  "euiccinfo2_json i =
     (let j = add_strings [] [(cstr ''profileVersion'', ei_profileVersion i), (cstr ''svn'', ei_svn i),
            (cstr ''euiccFirmwareVer'', ei_euiccFirmwareVer i)];
          j = add_item (cstr ''extCardResource'') (Some (ext_card_resource_json (ei_extCardResource i))) j
      in cbind (add_string_array (cstr ''uiccCapability'') (ei_uiccCapability i) j) (\<lambda>j.
         let j = add_strings j [(cstr ''ts102241Version'', ei_ts102241Version i),
               (cstr ''globalplatformVersion'', ei_globalplatformVersion i)]
         in cbind (add_string_array (cstr ''rspCapability'') (ei_rspCapability i) j) (\<lambda>j.
            cbind (add_string_array (cstr ''euiccCiPKIdListForVerification'') (ei_euiccCiPKIdListForVerification i) j) (\<lambda>j.
            cbind (add_string_array (cstr ''euiccCiPKIdListForSigning'') (ei_euiccCiPKIdListForSigning i) j) (\<lambda>j.
            let j = add_strings j [(cstr ''euiccCategory'', ei_euiccCategory i)]
            in cbind (add_string_array (cstr ''forbiddenProfilePolicyRules'') (ei_forbiddenProfilePolicyRules i) j) (\<lambda>j.
               let j = add_strings j [(cstr ''ppVersion'', ei_ppVersion i), (cstr ''sasAcreditationNumber'', ei_sasAcreditationNumber i)];
                   c = ei_certificationDataObject i
               in Ret (JsonObject (add_item (cstr ''certificationDataObject'') (Some (JsonObject (add_strings []
                    [(cstr ''platformLabel'', platformLabel c), (cstr ''discoveryBaseURL'', discoveryBaseURL c)]))) j))))))))"

definition operator_json :: "es10b_operation_id \<Rightarrow> json" where
  "operator_json p = JsonObject (add_strings [] [(cstr ''plmn'', op_plmn p), (cstr ''gid1'', op_gid1 p), (cstr ''gid2'', op_gid2 p)])"

text \<open>Without an operator the pointer is \<open>NULL\<close>.\<close>

definition rat_json :: "es10b_rat \<Rightarrow> json cres" where
  "rat_json r =
     cbind (add_string_array (cstr ''pprIds'') (rat_pprIds r) []) (\<lambda>j.
     let j = add_item (cstr ''allowedOperators'')
           (if rat_allowedOperators r = [] then None else Some (JsonArray (map operator_json (rat_allowedOperators r)))) j
     in cbind (add_string_array (cstr ''pprFlags'') (rat_pprFlags r) j) (\<lambda>j. Ret (JsonObject j)))"

fun rats_json :: "es10b_rat list \<Rightarrow> json list cres" where
  "rats_json [] = Ret []"
| "rats_json (r # rs) = cbind (rat_json r) (\<lambda>j. cbind (rats_json rs) (\<lambda>js. Ret (j # js)))"

text \<open>A value that was read, as a JSON value, where it was read.\<close>

definition read_json :: "('a \<Rightarrow> json cres) \<Rightarrow> 'a cres \<Rightarrow> json option cres" where
  "read_json f r = (case r of Ret a \<Rightarrow> cbind (f a) (\<lambda>j. Ret (Some j)) | Fail \<Rightarrow> Ret None | UB \<Rightarrow> UB)"

definition chip_info_json ::
  "cstr \<Rightarrow> es10a_euicc_configured_addresses cres \<Rightarrow> es10b_rat list cres \<Rightarrow> es10c_ex_euiccinfo2 cres \<Rightarrow> json cres" where
  "chip_info_json eid addresses ratList euiccinfo2 =
     (let jdata = add_strings [] [(cstr ''eidValue'', Some eid)] in
      cbind (read_json (\<lambda>a. Ret (addresses_json a)) addresses) (\<lambda>jaddresses.
      let jdata = add_item (cstr ''EuiccConfiguredAddresses'') jaddresses jdata in
      cbind (read_json euiccinfo2_json euiccinfo2) (\<lambda>jeuiccinfo2.
      let jdata = add_item (cstr ''EUICCInfo2'') jeuiccinfo2 jdata in
      cbind (read_json (\<lambda>rs. cbind (rats_json rs) (\<lambda>js. Ret (JsonArray js))) ratList) (\<lambda>jratList.
      Ret (JsonObject (add_item (cstr ''rulesAuthorisationTable'') jratList jdata))))))"

text \<open>
  The three structures have a function that releases them when the applet returns, and are written by the calls that
  fill them, the last call included. When the identifier cannot be read the applet returns before any of these calls, and pointers that were
  never written are released.
\<close>

definition applet_chip_info :: "'d euicc_apdu_interface \<Rightarrow> 'd st \<Rightarrow> 'd print_result" where
  "applet_chip_info iface st =
     Option.bind (es10c_get_eid iface st) (\<lambda>(r, st). case r of
       Ret eid \<Rightarrow>
         Option.bind (es10a_get_euicc_configured_addresses iface st) (\<lambda>(addresses, st).
         Option.bind (es10b_get_rat iface st) (\<lambda>(ratList, st).
         Option.bind (es10c_ex_get_euiccinfo2 iface st) (\<lambda>(euiccinfo2, st).
         Some (cbind (chip_info_json eid addresses ratList euiccinfo2) (\<lambda>jdata. Ret (0, jprint_success (Some jdata))), st))))
     | _ \<Rightarrow> Some (UB, st))"

end
