(* ===== verification/Print_Props.thy ===== *)
theory Print_Props
  imports Applet_Print Es10c_Props
begin

text \<open>
  What the applets that print make of the answers of the card, from the bytes of the answer to the JSON value.
\<close>

subsection \<open>Objects and arrays\<close>

definition or_null :: "cstr option \<Rightarrow> json" where
  "or_null s = (case s of None \<Rightarrow> JsonNull | Some t \<Rightarrow> JsonString t)"

lemma add_strings_eq: "add_strings object l = object @ map (\<lambda>(name, s). (name, or_null s)) l"
  by (induction object l rule: add_strings.induct)
    (auto simp: cJSON_AddStringOrNullToObject_def or_null_def split: option.split)

lemma string_array_defined: "None \<in> set l \<Longrightarrow> \<exists>js. string_array l = Ret js"
  by (induction l rule: string_array.induct) auto

text \<open>An array of strings that is there ends with \<open>NULL\<close>.\<close>

definition terminated :: "cstr option list option \<Rightarrow> bool" where
  "terminated a \<longleftrightarrow> (\<forall>l. a = Some l \<longrightarrow> None \<in> set l)"

lemma terminated_simps [simp]: "terminated None" "terminated (Some l) \<longleftrightarrow> None \<in> set l"
  by (simp_all add: terminated_def)

lemma add_string_array_defined: "terminated a \<Longrightarrow> \<exists>j. add_string_array name a object = Ret j"
  using string_array_defined by (cases a) (fastforce simp: add_string_array_def)+

lemma bits_names_terminated: "bits_names desc v = Some l \<Longrightarrow> None \<in> set l"
  by (auto simp: bits_names_def split: list.splits)

lemma ofold_invariant:
  assumes "ofold f xs s = Some t" "P s" "\<And>x s t. P s \<Longrightarrow> f x s = Some t \<Longrightarrow> P t"
  shows "P t"
  using assms(1,2) by (induction xs arbitrary: s) (auto simp: Option.bind_eq_Some_conv dest: assms(3))

subsection \<open>The tables\<close>

definition rat_terminated :: "es10b_rat \<Rightarrow> bool" where
  "rat_terminated r \<longleftrightarrow> terminated (rat_pprIds r) \<and> terminated (rat_pprFlags r)"

lemma rat_of_terminated:
  assumes "rat_of v = Some r"
  shows "rat_terminated r"
  using assms unfolding rat_of_def
  by (rule ofold_invariant)
    (auto simp: rat_terminated_def rat_new_def rat_item_def bits_names_terminated split: if_splits prod.splits)

lemma rat_spec_terminated:
  assumes "rat_spec resp = Some rs"
  shows "list_all rat_terminated rs"
proof -
  from assms obtain l where "rats_of l = Some rs" by (auto simp: rat_spec_def Option.bind_eq_Some_conv)
  then show ?thesis unfolding rats_of_def
    by (rule ofold_invariant) (auto simp: rat_of_terminated split: prod.splits)
qed

lemma rats_json_defined: "list_all rat_terminated rs \<Longrightarrow> \<exists>js. rats_json rs = Ret js"
proof (induction rs)
  case (Cons r rs)
  from Cons.prems have t: "terminated (rat_pprIds r)" "terminated (rat_pprFlags r)" by (simp_all add: rat_terminated_def)
  obtain j where "add_string_array (cstr ''pprIds'') (rat_pprIds r) [] = Ret j" using add_string_array_defined [OF t(1)] by blast
  moreover obtain j' where "add_string_array (cstr ''pprFlags'') (rat_pprFlags r) (add_item (cstr ''allowedOperators'')
      (if rat_allowedOperators r = [] then None else Some (JsonArray (map operator_json (rat_allowedOperators r)))) j) = Ret j'"
    using add_string_array_defined [OF t(2)] by blast
  ultimately have "rat_json r = Ret (JsonObject j')" by (simp add: rat_json_def)
  with Cons show ?case by auto
qed simp

definition info_terminated :: "es10c_ex_euiccinfo2 \<Rightarrow> bool" where
  "info_terminated i \<longleftrightarrow> terminated (ei_uiccCapability i) \<and> terminated (ei_rspCapability i) \<and>
     terminated (ei_euiccCiPKIdListForVerification i) \<and> terminated (ei_euiccCiPKIdListForSigning i) \<and>
     terminated (ei_forbiddenProfilePolicyRules i)"

lemma euiccinfo2_spec_terminated:
  assumes "euiccinfo2_spec resp = Some i"
  shows "info_terminated i"
proof -
  from assms obtain v where "ofold euiccinfo2_item (tlv_items v) euiccinfo2_zero = Some i"
    by (auto simp: euiccinfo2_spec_def Option.bind_eq_Some_conv)
  then show ?thesis
    by (rule ofold_invariant)
      (auto simp: info_terminated_def euiccinfo2_zero_def euiccinfo2_item_def bits_names_terminated pkids_of_def
        split: if_splits prod.splits)
qed

lemma cbind_defined: "\<exists>a. x = Ret a \<Longrightarrow> (\<And>a. \<exists>b. f a = Ret b) \<Longrightarrow> \<exists>b. cbind x f = Ret b"
  by auto

lemma euiccinfo2_json_defined: "info_terminated i \<Longrightarrow> \<exists>j. euiccinfo2_json i = Ret j"
  unfolding euiccinfo2_json_def Let_def info_terminated_def
  by (intro cbind_defined add_string_array_defined) simp_all

subsection \<open>The applets\<close>

lemma card_gives_same: "same_session ctx ctx' \<Longrightarrow> card_gives iface ctx req d resp d' \<Longrightarrow> card_gives iface ctx' req d resp d'"
  by (auto simp: same_session_def card_gives_def)

context es10_parser
begin

text \<open>A request after others of the same session.\<close>

lemma request_after:
  assumes "small_answers iface" "wf_ctx ctx" "es10x_mss ctx \<noteq> 0" "same_session ctx c"
    and "pack_ok req" "length (der_enc req) \<le> 255"
    and "card_gives iface ctx (der_enc req) d resp d'" "length resp < 0x40000000" "safe resp"
  shows "\<exists>c'. es10x_request iface req parse (c, d) = Some (opt_res (spec resp), c', d') \<and> same_session ctx c'"
proof -
  have "es10x_mss c \<noteq> 0" using assms(3,4) by (simp add: same_session_def)
  from request_spec [OF assms(1) same_session_wf [OF assms(4,2)] this assms(5,6) card_gives_same [OF assms(4,7)] assms(8,9)] assms(4)
  show ?thesis by (blast intro: same_session_trans)
qed

end

text \<open>What is to be printed for a profile on the card.\<close>

definition shown_profile :: "profile \<Rightarrow> json" where
  "shown_profile p = JsonObject
     [(cstr ''iccid'', JsonString (bcd_of (pr_iccid p))), (cstr ''isdpAid'', JsonString (hex_of (pr_aid p))),
      (cstr ''profileState'', JsonString (if pr_state p = 0 then cstr ''disabled'' else if pr_state p = 1 then cstr ''enabled'' else cstr ''unknown'')),
      (cstr ''profileNickname'', JsonString (pr_nickname p)), (cstr ''serviceProviderName'', JsonString (pr_provider p)),
      (cstr ''profileName'', JsonString (pr_name p)), (cstr ''iconType'', JsonNull), (cstr ''icon'', JsonNull),
      (cstr ''profileClass'', JsonString (if pr_class p = 0 then cstr ''test'' else if pr_class p = 1 then cstr ''provisioning''
         else if pr_class p = 2 then cstr ''operational'' else cstr ''unknown''))]"

lemma ucast_byte_eq [simp]:
  "(ucast (b :: byte) :: u32) = 0 \<longleftrightarrow> b = 0" "(ucast (b :: byte) :: u32) = 1 \<longleftrightarrow> b = 1" "(ucast (b :: byte) :: u32) = 2 \<longleftrightarrow> b = 2"
proof -
  have "unat (ucast b :: u32) = unat b"
    using unsigned_less [of b, where ?'a = nat] by (simp add: unsigned_ucast_eq take_bit_eq_mod)
  then show "(ucast b :: u32) = 0 \<longleftrightarrow> b = 0" "(ucast b :: u32) = 1 \<longleftrightarrow> b = 1" "(ucast b :: u32) = 2 \<longleftrightarrow> b = 2"
    by (simp_all add: word_unat_eq_iff)
qed

lemma profile_json_shows: "shows_profile e p \<Longrightarrow> profile_json e = shown_profile p"
  by (simp add: profile_json_def shown_profile_def shows_profile_def add_strings_eq or_null_def profile_state_of_def profile_class_of_def)

text \<open>
  C26. From the bytes of the card to the line that \<open>profile list\<close> prints: for any number of profiles within the sizes of SGP.22 the applet
  exits with 0 and prints an array with one object for each profile, in order, with the digits of its ICCID, its AID, the names as they are on the
  card, and its state and class in words.
\<close>

theorem applet_profile_list_prints:
  assumes "small_answers iface" "wf_ctx ctx" "es10x_mss ctx \<noteq> 0"
    and "card_gives iface ctx (tlv 0xBF2D []) d (profiles_enc ps) d'"
    and "list_all profile_fits ps" "length (profiles_enc ps) < 0x40000000"
  shows "\<exists>ctx'. applet_profile_list iface (ctx, d) =
      Some (Ret (0, jprint_success (Some (JsonArray (map shown_profile ps)))), ctx', d') \<and> same_session ctx ctx'"
proof -
  obtain es where es: "profiles_spec (profiles_enc ps) = Some es" "list_all2 shows_profile es ps"
    using profiles_enc_spec(1) [OF assms(5,6)] by blast
  have "\<exists>ctx'. es10c_get_profiles_info iface (ctx, d) =
      Some (opt_res (profiles_spec (profiles_enc ps)), ctx', d') \<and> same_session ctx ctx'"
    unfolding es10c_get_profiles_info_def
    using assms profiles_enc_spec(2) [OF assms(5,6)]
    by (intro profiles.request_spec) (simp_all add: length_tlv_le)
  moreover have "map profile_json es = map shown_profile ps"
    using es(2) by (induction rule: list_all2_induct) (simp_all add: profile_json_shows)
  ultimately show ?thesis using es(1) by (auto simp: applet_profile_list_def)
qed

theorem applet_profile_list_prints_witness:
  "\<exists>ctx'. applet_profile_list script_card (demo_ctx, [profiles_enc [demo_profile, demo_profile] @ [0x90, 0]]) =
     Some (Ret (0, jprint_success (Some (JsonArray [shown_profile demo_profile, shown_profile demo_profile]))), ctx', [])"
proof -
  have "card_gives script_card demo_ctx (tlv 0xBF2D []) [profiles_enc [demo_profile, demo_profile] @ [0x90, 0]]
      (profiles_enc [demo_profile, demo_profile]) []"
    by (rule demo_gives) (use demo_profile_facts(2) in simp_all)
  from applet_profile_list_prints [OF script_card_small demo_ctx_wf this demo_profile_facts(1)] demo_profile_facts(2)
  show ?thesis by auto
qed

text \<open>The members of what \<open>chip info\<close> prints.\<close>

definition info_members :: "cstr \<Rightarrow> json option \<Rightarrow> json option \<Rightarrow> json option \<Rightarrow> json_members" where
  "info_members eid addresses info rats =
     [(cstr ''eidValue'', JsonString eid)] @ map (Pair (cstr ''EuiccConfiguredAddresses'')) (case addresses of None \<Rightarrow> [] | Some j \<Rightarrow> [j]) @
     map (Pair (cstr ''EUICCInfo2'')) (case info of None \<Rightarrow> [] | Some j \<Rightarrow> [j]) @ map (Pair (cstr ''rulesAuthorisationTable'')) (case rats of None \<Rightarrow> [] | Some j \<Rightarrow> [j])"

lemma chip_info_json_eq:
  assumes "\<And>i. info = Some i \<Longrightarrow> info_terminated i" "\<And>rs. rats = Some rs \<Longrightarrow> list_all rat_terminated rs"
  shows "\<exists>ji jr. chip_info_json e (opt_res addresses) (opt_res rats) (opt_res info) =
      Ret (JsonObject (info_members e (map_option addresses_json addresses) ji jr)) \<and>
    (case info of None \<Rightarrow> ji = None | Some i \<Rightarrow> \<exists>j. euiccinfo2_json i = Ret j \<and> ji = Some j) \<and>
    (case rats of None \<Rightarrow> jr = None | Some rs \<Rightarrow> \<exists>js. rats_json rs = Ret js \<and> jr = Some (JsonArray js))"
proof -
  obtain ji where ji: "read_json euiccinfo2_json (opt_res info) = Ret ji"
    "case info of None \<Rightarrow> ji = None | Some i \<Rightarrow> \<exists>j. euiccinfo2_json i = Ret j \<and> ji = Some j"
    using assms(1) euiccinfo2_json_defined by (cases info) (fastforce simp: read_json_def)+
  obtain jr where jr: "read_json (\<lambda>rs. cbind (rats_json rs) (\<lambda>js. Ret (JsonArray js))) (opt_res rats) = Ret jr"
    "case rats of None \<Rightarrow> jr = None | Some rs \<Rightarrow> \<exists>js. rats_json rs = Ret js \<and> jr = Some (JsonArray js)"
    using assms(2) rats_json_defined by (cases rats) (fastforce simp: read_json_def)+
  have "read_json (\<lambda>a. Ret (addresses_json a)) (opt_res addresses) = Ret (map_option addresses_json addresses)"
    by (cases addresses) (simp_all add: read_json_def)
  with ji jr have "chip_info_json e (opt_res addresses) (opt_res rats) (opt_res info) =
      Ret (JsonObject (info_members e (map_option addresses_json addresses) ji jr))"
    by (simp add: chip_info_json_def Let_def info_members_def add_strings_eq or_null_def add_item_def split: option.split)
  with ji(2) jr(2) show ?thesis by blast
qed



end
