(* ===== verification/Driver_Loader.thy ===== *)
theory Driver_Loader
  imports Utils
begin

text \<open>
  The loader of drivers, \<open>driver/euicc-driver-loader.c\<close>: which of the shared libraries in the driver directory is
  used, and in which order drivers are initialised. The file system and the dynamic linker are parameters.
\<close>

subsection \<open>The parameters\<close>

datatype euicc_driver_type = DRIVER_APDU | DRIVER_HTTP

text \<open>A driver: its functions work on a state \<open>'s\<close>; \<open>main\<close> and \<open>fini\<close> may be \<open>NULL\<close>.\<close>

record 's euicc_driver =
  dr_type :: euicc_driver_type
  dr_name :: cstr
  dr_init :: "'s \<Rightarrow> int \<times> 's"
  dr_main :: "(cstr list \<Rightarrow> 's \<Rightarrow> int \<times> 's) option"
  dr_fini :: "('s \<Rightarrow> 's) option"

text \<open>
  \<open>get_runpath\<close> and \<open>get_origin\<close>, with \<open>None\<close> for \<open>NULL\<close>; \<open>load path\<close>: the file can be read and loaded and has \<open>driver_if\<close>;
  \<open>entries dir\<close>: the names in a directory, \<open>None\<close> where it cannot be opened; the suffix of libraries.
\<close>

record 's platform =
  get_runpath :: "cstr option"
  get_origin :: "cstr option"
  load :: "cstr \<Rightarrow> 's euicc_driver option"
  entries :: "cstr \<Rightarrow> cstr list option"
  dynlib_suffix :: cstr

subsection \<open>Finding a driver\<close>

text \<open>\<open>strtok(runpath, ":")\<close>, whose result is used unchecked\<close>

definition get_first_runpath :: "'s platform \<Rightarrow> cstr option cres" where
  "get_first_runpath P =
     (case get_runpath P of
        None \<Rightarrow> Ret None
      | Some runpath \<Rightarrow>
          (let s = dropWhile (\<lambda>c. c = of_char CHR '':'') runpath; tmp = takeWhile (\<lambda>c. c \<noteq> of_char CHR '':'') s in
           if s = [] then UB
           else if tmp = cstr ''$ORIGIN'' \<or> tmp = cstr ''@loader_path'' then Ret (get_origin P)
           else Ret (Some tmp)))"

definition get_driver_path :: "'s platform \<Rightarrow> cstr option cres" where
  "get_driver_path P =
     cbind (get_first_runpath P) (\<lambda>home.
     Ret (case home of None \<Rightarrow> None | Some h \<Rightarrow> path_concat (Some h) (Some (cstr ''driver''))))"

definition find_driver_by_path :: "'s platform \<Rightarrow> cstr \<Rightarrow> cstr \<Rightarrow> 's euicc_driver option" where
  "find_driver_by_path P dir name = Option.bind (path_concat (Some dir) (Some name)) (load P)"

text \<open>
  The list of all drivers, in the order of the directory: an entry is \<open>None\<close> where the library could not be loaded.
  \<open>drivers\<close> is the static list; the result \<open>None\<close> stands for \<open>false\<close>.
\<close>

definition is_driver_file :: "'s platform \<Rightarrow> cstr \<Rightarrow> bool" where
  "is_driver_file P d_name \<longleftrightarrow>
     strncmp_eq d_name (cstr ''driver_'') 7 \<and> ends_with (Some d_name) (Some (dynlib_suffix P))"

definition init_driver_list ::
  "'s platform \<Rightarrow> 's euicc_driver option list \<Rightarrow> 's euicc_driver option list option cres" where
  "init_driver_list P drivers =
     (if drivers \<noteq> [] then Ret (Some drivers)
      else cbind (get_driver_path P) (\<lambda>home.
        Ret (case home of
          None \<Rightarrow> None
        | Some h \<Rightarrow>
            (case entries P h of
               None \<Rightarrow> Some []
             | Some names \<Rightarrow> Some (map (find_driver_by_path P h) (filter (is_driver_file P) names))))))"

definition driver_file :: "'s platform \<Rightarrow> euicc_driver_type \<Rightarrow> cstr \<Rightarrow> cstr" where
  "driver_file P type name =
     cstr ''driver_'' @ (case type of DRIVER_APDU \<Rightarrow> cstr ''apdu'' | DRIVER_HTTP \<Rightarrow> cstr ''http'') @ cstr ''_'' @ name @
     dynlib_suffix P"

definition find_driver_by_name :: "'s platform \<Rightarrow> euicc_driver_type \<Rightarrow> cstr \<Rightarrow> 's euicc_driver option cres" where
  "find_driver_by_name P type name =
     cbind (get_driver_path P) (\<lambda>home.
     Ret (Option.bind home (\<lambda>h. find_driver_by_path P h (driver_file P type name))))"

definition fallback_order :: "euicc_driver_type \<Rightarrow> cstr list" where
  "fallback_order type =
     (case type of
        DRIVER_APDU \<Rightarrow> [cstr ''pcsc'', cstr ''stdio'']
      | DRIVER_HTTP \<Rightarrow> [cstr ''winhttp'', cstr ''curl'', cstr ''stdio''])"

fun find_driver_order :: "'s platform \<Rightarrow> euicc_driver_type \<Rightarrow> cstr list \<Rightarrow> 's euicc_driver option cres" where
  "find_driver_order P type [] = Ret None"
| "find_driver_order P type (name # names) =
     cbind (find_driver_by_name P type name) (\<lambda>driver.
     case driver of Some d \<Rightarrow> Ret (Some d) | None \<Rightarrow> find_driver_order P type names)"

text \<open>The first driver of the type in the list; an entry \<open>NULL\<close> is dereferenced.\<close>

fun first_of_type :: "euicc_driver_type \<Rightarrow> 's euicc_driver option list \<Rightarrow> 's euicc_driver option cres" where
  "first_of_type type [] = Ret None"
| "first_of_type type (None # ds) = UB"
| "first_of_type type (Some d # ds) = (if dr_type d = type then Ret (Some d) else first_of_type type ds)"

text \<open>The result with the static list as it is afterwards.\<close>

definition find_driver_fallback ::
  "'s platform \<Rightarrow> euicc_driver_type \<Rightarrow> 's euicc_driver option list \<Rightarrow>
     ('s euicc_driver option \<times> 's euicc_driver option list) cres" where
  "find_driver_fallback P type drivers =
     cbind (find_driver_order P type (fallback_order type)) (\<lambda>driver.
     case driver of
       Some d \<Rightarrow> Ret (Some d, drivers)
     | None \<Rightarrow>
         cbind (init_driver_list P drivers) (\<lambda>l.
         case l of
           None \<Rightarrow> Ret (None, drivers)
         | Some ds \<Rightarrow> cbind (first_of_type type ds) (\<lambda>r. Ret (r, ds))))"

definition find_driver ::
  "'s platform \<Rightarrow> euicc_driver_type \<Rightarrow> cstr option \<Rightarrow> 's euicc_driver option list \<Rightarrow>
     ('s euicc_driver option \<times> 's euicc_driver option list) cres" where
  "find_driver P type name drivers =
     (case name of
        None \<Rightarrow> find_driver_fallback P type drivers
      | Some n \<Rightarrow> cbind (find_driver_by_name P type n) (\<lambda>r. Ret (r, drivers)))"

subsection \<open>Initialisation and release\<close>

record 's loaded =
  driver_apdu :: "'s euicc_driver option"
  driver_http :: "'s euicc_driver option"

text \<open>The number returned, what was found, and the state after the calls of \<open>init\<close>.\<close>

definition euicc_driver_init ::
  "'s platform \<Rightarrow> cstr option \<Rightarrow> cstr option \<Rightarrow> 's \<Rightarrow> (int \<times> 's loaded) cres \<times> 's" where
  "euicc_driver_init P apdu_driver_name http_driver_name s =
     (case find_driver P DRIVER_APDU apdu_driver_name [] of
        UB \<Rightarrow> (UB, s)
      | Fail \<Rightarrow> (UB, s)
      | Ret (None, _) \<Rightarrow> (Ret (-1, \<lparr>driver_apdu = None, driver_http = None\<rparr>), s)
      | Ret (Some a, drivers) \<Rightarrow>
          (case find_driver P DRIVER_HTTP http_driver_name drivers of
             UB \<Rightarrow> (UB, s)
           | Fail \<Rightarrow> (UB, s)
           | Ret (None, _) \<Rightarrow> (Ret (-1, \<lparr>driver_apdu = Some a, driver_http = None\<rparr>), s)
           | Ret (Some h, _) \<Rightarrow>
               (let found = \<lparr>driver_apdu = Some a, driver_http = Some h\<rparr>; (ret, s) = dr_init a s in
                if ret \<noteq> 0 then (Ret (-1, found), s)
                else let (ret, s) = dr_init h s in
                  if ret \<noteq> 0 then (Ret (-1, found), s) else (Ret (0, found), s))))"

definition driver_fini :: "'s euicc_driver option \<Rightarrow> 's \<Rightarrow> 's" where
  "driver_fini d s = (case Option.bind d dr_fini of None \<Rightarrow> s | Some f \<Rightarrow> f s)"

definition euicc_driver_fini :: "'s loaded \<Rightarrow> 's \<Rightarrow> 's" where
  "euicc_driver_fini l s = driver_fini (driver_http l) (driver_fini (driver_apdu l) s)"

text \<open>\<open>euicc_driver_main_apdu\<close> and \<open>euicc_driver_main_http\<close>\<close>

definition driver_main :: "'s euicc_driver option \<Rightarrow> cstr list \<Rightarrow> 's \<Rightarrow> int \<times> 's" where
  "driver_main d argv s = (case Option.bind d dr_main of None \<Rightarrow> (-1, s) | Some f \<Rightarrow> f argv s)"

text \<open>The names that \<open>driver list\<close> prints for each type.\<close>

fun driver_names :: "euicc_driver_type \<Rightarrow> 's euicc_driver option list \<Rightarrow> cstr list cres" where
  "driver_names type [] = Ret []"
| "driver_names type (None # ds) = UB"
| "driver_names type (Some d # ds) =
     cbind (driver_names type ds) (\<lambda>ns. Ret (if dr_type d = type then dr_name d # ns else ns))"

definition euicc_driver_list :: "'s platform \<Rightarrow> (int \<times> cstr list \<times> cstr list) cres" where
  "euicc_driver_list P =
     cbind (init_driver_list P []) (\<lambda>l.
     case l of
       None \<Rightarrow> Ret (-1, [], [])
     | Some ds \<Rightarrow>
         cbind (driver_names DRIVER_APDU ds) (\<lambda>a.
         cbind (driver_names DRIVER_HTTP ds) (\<lambda>h. Ret (0, a, h))))"

text \<open>
  \<open>lpac_main\<close> of \<open>src/lpac.c\<close>, where \<open>body\<close> is \<open>applet_entry\<close> with \<open>main_fini_euicc\<close> after it: a failure of the initialisation returns
  at once.
\<close>

definition lpac_main ::
  "'s platform \<Rightarrow> env \<Rightarrow> ('s loaded \<Rightarrow> 's \<Rightarrow> int cres \<times> 's) \<Rightarrow> 's \<Rightarrow> int cres \<times> 's" where
  "lpac_main P env body s =
     (case euicc_driver_init P (env (cstr ''LPAC_APDU'')) (env (cstr ''LPAC_HTTP'')) s of
        (Ret (ret, l), s) \<Rightarrow>
          if ret \<noteq> 0 then (Ret (-1), s)
          else (case body l s of
              (Ret r, s) \<Rightarrow> (Ret r, euicc_driver_fini l s)
            | (_, s) \<Rightarrow> (UB, s))
      | (_, s) \<Rightarrow> (UB, s))"

end
