(* ===== verification/Loader_Props.thy ===== *)
theory Loader_Props
  imports Driver_Loader
begin

text \<open>The properties of the driver loader: which driver is chosen, and which drivers are released.\<close>

subsection \<open>The choice\<close>

definition driver_at :: "'s platform \<Rightarrow> cstr \<Rightarrow> cstr \<Rightarrow> 's euicc_driver option" where
  "driver_at P home file = load P (home @ cstr ''/'' @ file)"

lemma find_driver_by_path_eq: "find_driver_by_path P home file = driver_at P home file"
  by (simp add: find_driver_by_path_def path_concat_Some driver_at_def)

lemma find_driver_order_eq:
  assumes "get_driver_path P = Ret (Some home)"
  shows "find_driver_order P type names =
    Ret (case List.map_filter (\<lambda>n. driver_at P home (driver_file P type n)) names of [] \<Rightarrow> None | d # _ \<Rightarrow> Some d)"
  by (induction names)
    (simp_all add: find_driver_by_name_def assms find_driver_by_path_eq List.map_filter_simps split: option.splits)

lemma first_of_type_eq:
  "first_of_type type ds = (case dropWhile (\<lambda>d. d \<noteq> None \<and> dr_type (the d) \<noteq> type) ds of [] \<Rightarrow> Ret None | None # _ \<Rightarrow> UB | Some d # _ \<Rightarrow> Ret (Some d))"
  by (induction type ds rule: first_of_type.induct) auto

text \<open>The libraries of the driver directory, in its order; \<open>None\<close> for one that cannot be loaded.\<close>

definition listed_drivers :: "'s platform \<Rightarrow> cstr \<Rightarrow> 's euicc_driver option list" where
  "listed_drivers P home =
     (case entries P home of None \<Rightarrow> [] | Some names \<Rightarrow> map (driver_at P home) (filter (is_driver_file P) names))"


text \<open>A directory with one driver that cannot be loaded in front of one that can.\<close>

definition demo_driver :: "cstr list euicc_driver" where
  "demo_driver = \<lparr>dr_type = DRIVER_APDU, dr_name = cstr ''at'', dr_init = (\<lambda>s. (0, s @ [cstr ''init''])), dr_main = None,
     dr_fini = Some (\<lambda>s. s @ [cstr ''fini''])\<rparr>"

definition demo_platform :: "cstr list platform" where
  "demo_platform = \<lparr>get_runpath = Some (cstr ''$ORIGIN''), get_origin = Some (cstr ''/l''),
     load = (\<lambda>p. if p = cstr ''/l/driver/driver_apdu_at.so'' then Some demo_driver else None),
     entries = (\<lambda>d. Some [cstr ''driver_apdu_qmi.so'', cstr ''driver_apdu_at.so'']), dynlib_suffix = cstr ''.so''\<rparr>"


subsection \<open>The life of the drivers\<close>

text \<open>
  The drivers are released exactly when both could be initialised: a failure of the second leaves the first
  initialised.
\<close>

lemma lpac_main_found:
  assumes "find_driver P DRIVER_APDU (env (cstr ''LPAC_APDU'')) [] = Ret (Some a, ds)"
    and "find_driver P DRIVER_HTTP (env (cstr ''LPAC_HTTP'')) ds = Ret (Some h, ds')"
    and "dr_init a s = (r1, s1)" "dr_init h s1 = (r2, s2)" "body \<lparr>driver_apdu = Some a, driver_http = Some h\<rparr> s2 = (Ret r, s3)"
  shows "lpac_main P env body s =
    (if r1 \<noteq> 0 then (Ret (-1), s1) else if r2 \<noteq> 0 then (Ret (-1), s2)
     else (Ret r, driver_fini (Some h) (driver_fini (Some a) s3)))"
  using assms by (simp add: lpac_main_def euicc_driver_init_def euicc_driver_fini_def)

end
