(* ===== verification/Spec2Isabelle.thy ===== *)
theory Spec2Isabelle
  imports Util_Props Apdu_Props Es10b_Props Es10c_Props Bpp_Props Command_Props At_Channels Pcsc_Props Stdio_Props Modem_Props Driver_Curl Print_Props Loader_Props
begin

text \<open>
  Verification of lpac, a local profile assistant for eUICC cards: the library under \<open>src/euicc\<close>,
  the commands under \<open>src/src\<close> that use it, and the drivers under \<open>src/driver\<close> through which it reaches card and server.

  \<^bold>\<open>The program.\<close> The library talks to two partners. To the \<^emph>\<open>card\<close> it sends ES10 requests: a request is a tree of
  DER elements, packed into bytes (\<open>derutil.c\<close>), cut into STORE DATA blocks and sent as APDUs through a driver
  (\<open>euicc.c\<close>, \<open>interface.c\<close>); the answer is collected with GET RESPONSE and parsed element by element
  (\<open>es10a.c\<close>, \<open>es10b.c\<close>, \<open>es10c.c\<close>, \<open>es10c_ex.c\<close>, \<open>es8p.c\<close>), its values converted by \<open>hexutil.c\<close>, \<open>base64.c\<close> and the
  converters of \<open>derutil.c\<close>. To the \<^emph>\<open>server\<close> it posts JSON objects over HTTP (\<open>es9p.c\<close>). A profile download
  passes data to and fro between the two; it is kept in \<open>ctx->http._internal\<close>, the session. \<open>sha256.c\<close> hashes the
  confirmation code, \<open>tostr.c\<close> names the enumerations. A driver is a set of functions: \<open>struct euicc_apdu_interface\<close> for
  the card, which sits in a reader, behind a modem or at the other end of a pipe, and \<open>struct euicc_http_interface\<close> for the
  server. The loader chooses one of each when the program starts.

  \<^bold>\<open>Conventions.\<close> A C function is a HOL function of the same name. Its outcome is \<open>Ret\<close> with what it hands out,
  \<open>Fail\<close> for the negative result, or \<open>UB\<close> where the C code would leave an object, shift out of range or use a value
  at the wrong type (theory \<open>Prelude\<close>); so memory safety is a theorem, not an assumption. Integers are
  words of the width of the C type. A pointer is the list of the bytes from there to the end of its object.
  The context (\<open>struct euicc_ctx\<close>, record \<open>euicc_ctx\<close>) and the driver's state are passed explicitly. Loops over
  elements end because the rest gets shorter (\<open>function\<close> with a measure); the loop that collects an answer may
  run for ever with a hostile card and is a \<open>partial_function (option)\<close>, where not returning is \<open>None\<close>.

  \<^bold>\<open>Theories.\<close>
  \<^item> \<open>Prelude\<close>: outcomes, checked memory accesses, C strings, a weakest-precondition calculus.
  \<^item> \<open>Hexutil\<close>, \<open>Hexutil_Reduced\<close> (\<open>hexutil.c\<close>, both builds); \<open>Base64\<close> (\<open>base64.c\<close>); \<open>Sha256\<close> (\<open>sha256.c\<close>);
    \<open>Derutil\<close> (the reader of \<open>derutil.c\<close>), \<open>Derpack\<close> (its writer), \<open>Derconv\<close> (its conversions): the code and what
    it computes. \<open>tlv_items\<close> lists the elements of a byte string, \<open>der_enc\<close> is the encoding of a tree.
    \<open>Util_Props\<close> states their properties: exactness, bounds and round trips.
  \<^item> \<open>Euicc\<close> (\<open>euicc.c\<close>, \<open>interface.c\<close>): context, APDUs, segmentation, initialisation. \<open>Apdu_Wire\<close> gives the
    wire protocol as an inductive relation (\<open>exchanges\<close>, \<open>segments\<close>) and shows by a simulation, stated once in the
    locale \<open>callback_sim\<close> and interpreted for the callback of \<open>es10x_command\<close>, that the code follows it;
    \<open>Apdu_Card\<close> derives what a whole command gives (\<open>card_gives\<close>) and what it leaves of the context
    (\<open>same_session\<close>). \<open>Apdu_Props\<close>: refinement, trace, response, termination, and the endless card.
  \<^item> \<open>Es10x\<close>: the code all ES10 functions share, and the locale \<open>es10_parser\<close>, the contract of a parser of
    answers; its lemmas turn a contract into what the whole call returns. It is interpreted for each parser:
    \<open>Es10a\<close> (\<open>es10a.c\<close>), \<open>Es10b_Notification\<close>, \<open>Es10b_Rat\<close> (\<open>es10b.c\<close>), \<open>Es10c\<close> (\<open>es10c.c\<close>), \<open>Es10c_Ex\<close> (\<open>es10c_ex.c\<close>),
    and in the property theories for the download. \<open>Es8p\<close> (\<open>es8p.c\<close>) and \<open>Tostr\<close> (\<open>tostr.c\<close>) need no card.
    \<open>Es10_Answers\<close> has the encoder side of answers and a scripted card for the examples. \<open>Es10b_Props\<close> and
    \<open>Es10c_Props\<close>: each call sends the request its arguments describe and returns what the answer says.
  \<^item> \<open>Es10b_Download\<close>, \<open>Es10b_Bpp\<close>, \<open>Es10b_Session\<close> (\<open>es10b.c\<close>): authentication, preparation, loading and
    cancelling, as functions of their arguments and on the session. \<open>Download_Props\<close>: the requests, byte for
    byte. \<open>Bpp_Plan\<close> computes which blocks of a bound profile package are sent, \<open>Bpp_Props\<close> shows that these are
    sent, that they make up the package, and what the answers lead to.
  \<^item> \<open>Es9p\<close> (\<open>es9p.c\<close>, \<open>es9p_errors.c\<close>): requests to the server, with the JSON library cJSON and the HTTP driver as
    parameters. \<open>Es9p_Props\<close>: no answer leads outside memory, and what a good answer puts into the session.
  \<^item> \<open>Session\<close>: the download session as a state machine (\<open>session_step\<close>), the calls of the code as steps on
    card, server and context (\<open>session_call\<close>), that the second refine the first, and the invariant of every
    reachable session. \<open>Session_Props\<close> states this.
  \<^item> \<open>Applet_Download\<close> (\<open>src/applet/profile/download.c\<close>): options, activation codes and the sequence of
    calls of \<open>profile download\<close>, with the signal that cancels it as a parameter. \<open>Applet_Props\<close>: the order of the calls
    on every path, the clean-up, and what an activation code leads to.
  \<^item> \<open>Utils\<close> (\<open>utils/lpac/utils.c\<close>, with what is used of the C library), \<open>Applet_Command\<close> (\<open>src/lpac.c\<close>, \<open>src/applet.c\<close> and
    the applets that make one call) and \<open>Applet_Notification\<close> (\<open>src/applet/notification\<close>): the command line, with the
    environment as a map. \<open>Command_Props\<close>: what initialisation leaves, that the card is released, that a
    notification is removed only after its delivery, and that \<open>replay\<close> refuses what \<open>dump\<close> wrote.
  \<^item> \<open>Applet_Print\<close> (\<open>src/jprint.c\<close>, \<open>cjson-ext\<close> and the applets \<open>profile list\<close>, \<open>notification list\<close> and \<open>chip info\<close>): what is printed, as a JSON
    value. \<open>Print_Props\<close>: from the bytes of the card's answers to the value.

  \<^item> \<open>Driver_Contract\<close>: what a driver for the card promises, as the locale \<open>apdu_carrier\<close>: with a relation between the state of the
    driver and the state of the card, whatever the card answers to an APDU is what the driver returns. Its lemma
    \<open>command_carried\<close> turns this into a whole \<open>es10x_command\<close>. The locale is interpreted for the driver of each theory below:
    \<open>etsi\<close>, \<open>csim\<close>, \<open>pcsc\<close>, \<open>stdio\<close>, \<open>qmi\<close>, \<open>mbim\<close>, \<open>uqmi\<close> and \<open>radio\<close>.
  \<^item> \<open>Driver_At\<close> (\<open>at_cmd_unix.c\<close>, \<open>at_helpers.c\<close>, \<open>at_etsi.c\<close>, \<open>at_etsi_csim.c\<close>): AT commands over a serial port, which is a list
    of what the calls of \<open>read\<close> give; not returning is \<open>None\<close>. \<open>At_Props\<close>: lines are read whatever the pieces they come in, and a
    command over the modem is a command with the card. \<open>At_Channels\<close>: the table of channels, and answers that are malformed.
  \<^item> \<open>Driver_Pcsc\<close> (\<open>pcsc.c\<close>) with \<open>Pcsc_Props\<close>: the choice of a reader, the channels with all their APDUs, and the length of an APDU
    that does not fit.
  \<^item> \<open>Driver_Stdio\<close>, \<open>Driver_Http\<close> (\<open>driver/apdu/stdio.c\<close>, \<open>driver/http/stdio.c\<close>) with \<open>Stdio_Props\<close>: lines of JSON for card and server.
    \<open>Driver_Curl\<close> (\<open>driver/http/curl.c\<close>): the requests through libcurl.
  \<^item> \<open>Driver_Qmi\<close> (\<open>qmi_common.c\<close>, \<open>qmi.c\<close>, \<open>qmi_qrtr.c\<close>), \<open>Driver_Mbim\<close> (\<open>mbim.c\<close>), \<open>Driver_Uqmi\<close> (\<open>uqmi.c\<close>) and \<open>Driver_Gbinder\<close>
    (\<open>gbinder_hidl.c\<close>), with \<open>Modem_Props\<close>: the other modems, and what is left of the channels at the end.
  \<^item> \<open>Driver_Loader\<close> (\<open>euicc-driver-loader.c\<close>, \<open>lpac_main\<close>) with \<open>Loader_Props\<close>: which driver is chosen, and that it is released.

  \<^bold>\<open>Hypotheses.\<close> Code that is not in the repository is a parameter: cJSON (\<open>cjson\<close>, \<open>cjson_stdio\<close>), the PC/SC library
  (\<open>winscard\<close>, hypothesis \<open>winscard_ok\<close>: an answer fits the buffer), libqmi, libmbim, gbinder, libcurl, the program \<open>uqmi\<close> (\<open>libqmi\<close>, \<open>libmbim\<close>,
  \<open>gbinder\<close>, \<open>libcurl\<close>, \<open>program\<close>), the file system and the dynamic linker (\<open>platform\<close>). The library of \<open>src/euicc\<close> is proved for
  every driver of the card with \<open>small_answers\<close> (an answer has the length it says) and every driver of the server with \<open>http_safe\<close> (the same).
  The lemmas \<open>stdio_http_safe\<close> and \<open>curl_safe\<close>, and \<open>etsi_small\<close>, \<open>csim_small\<close>, \<open>pcsc_small\<close>, \<open>stdio_small\<close> and \<open>mbim_small\<close>, show these for drivers of
  the repository; the scripted card and server of the examples have them too. Bounds: an answer of the card and a string of the
  server are taken to be shorter than a gigabyte, so that sizes computed in 32 bits do not wrap; the sizes
  of buffers of the code itself are exact. Allocations succeed. The environment does not change while the program runs.

  \<^bold>\<open>Not modelled.\<close> Deallocation (the \<open>*_free_all\<close> functions, leaks, dangling pointers): the model has values in place of
  heap addresses; only where a function returns while a variable with a release function was never written, or where two such variables
  share a list, the result is \<open>UB\<close>. Logging (\<open>logger.c\<close>) and debug output. Of the drivers: the lists of devices they print, reading the run path out of the
  program file, the handlers at the exit of the program, and the variants for Windows (\<open>at_cmd_win32.c\<close>, \<open>pcsc_win32.c\<close>, \<open>winhttp.c\<close>), which
  are calls of its API. \<open>qmi_helpers.c\<close> and \<open>mbim_helpers.c\<close> only run the main loop of glib until an answer is there; they are part of the
  parameters \<open>libqmi\<close> and \<open>libmbim\<close>. Of the command line, the text cJSON makes of a value, progress and usage messages, and the applet that prints the version. Vendored
  code (\<open>dlfcn-win32\<close>, \<open>list.h\<close>). Fields of structures that no code writes are left out.
\<close>

end
